(* ===== verification/Prelude.thy ===== *)
theory Prelude
  imports Main "HOL-Library.Multiset" "HOL-Library.Word"
begin

section \<open>Prelude: outcomes, machine integers, sorting and list lemmas\<close>

text \<open>
  What the component theories share.
  \<^item> \<open>('e, 'a) res\<close> is the outcome of a Rust function: \<open>Ok\<close> and \<open>Err\<close> are the two
    constructors of \<open>Result\<close>; \<open>Panic\<close> is a failed \<open>expect\<close>, \<open>unwrap\<close>, \<open>assert!\<close> or an
    overflowing arithmetic operation. \<open>res_bind\<close> is the \<open>?\<close> operator.
  \<^item> \<open>u64_add\<close>, \<open>i64_add\<close>, \<open>i64_sub\<close> and \<open>checked_sub\<close> are the integer operations the code
    performs on amounts: the value is kept as a \<open>nat\<close> or an \<open>int\<close> and the bound of the
    machine type is tested by every operation, so an overflow is a \<open>Panic\<close> and never a wrap.
  \<^item> the locale \<open>unstable_sort\<close> is the contract of \<open>slice::sort_unstable_by\<close>: the result is a
    permutation, in order; which permutation of equal elements comes out is not specified.
  \<^item> the named collection \<open>res_simps\<close> holds the rules that take an outcome apart.
\<close>

named_theorems res_simps \<open>equations that take a chain of outcomes apart\<close>

subsection \<open>Outcomes\<close>

datatype ('e, 'a) res = Ok 'a | Err 'e | Panic

fun res_bind :: "('e, 'a) res \<Rightarrow> ('a \<Rightarrow> ('e, 'b) res) \<Rightarrow> ('e, 'b) res" where
  "res_bind (Ok x) f = f x"
| "res_bind (Err e) f = Err e"
| "res_bind Panic f = Panic"

fun map_err :: "('e \<Rightarrow> 'f) \<Rightarrow> ('e, 'a) res \<Rightarrow> ('f, 'a) res" where
  "map_err g (Ok x) = Ok x"
| "map_err g (Err e) = Err (g e)"
| "map_err g Panic = Panic"

fun ok_or :: "'a option \<Rightarrow> 'e \<Rightarrow> ('e, 'a) res" where
  "ok_or (Some x) e = Ok x"
| "ok_or None e = Err e"

fun expect :: "'a option \<Rightarrow> ('e, 'a) res" where
  "expect (Some x) = Ok x"
| "expect None = Panic"

fun is_ok :: "('e, 'a) res \<Rightarrow> bool" where
  "is_ok (Ok x) = True"
| "is_ok (Err e) = False"
| "is_ok Panic = False"

text \<open>\<open>guard c e\<close> is \<open>if c { return Err(e); }\<close> read as a step that succeeds when \<open>c\<close> is false.\<close>

definition fail_if :: "bool \<Rightarrow> 'e \<Rightarrow> ('e, unit) res" where
  "fail_if c e = (if c then Err e else Ok ())"

definition panic_unless :: "bool \<Rightarrow> ('e, unit) res" where
  "panic_unless c = (if c then Ok () else Panic)"

text \<open>Mapping a fallible function over a list and collecting into a \<open>Result<Vec<_>, _>\<close>:
  left to right, stopping at the first failure.\<close>

fun res_map :: "('a \<Rightarrow> ('e, 'b) res) \<Rightarrow> 'a list \<Rightarrow> ('e, 'b list) res" where
  "res_map f [] = Ok []"
| "res_map f (x # xs) = res_bind (f x) (\<lambda>y. res_bind (res_map f xs) (\<lambda>ys. Ok (y # ys)))"

text \<open>A fold whose step may fail, \<open>Iterator::try_fold\<close>.\<close>

fun res_fold :: "('b \<Rightarrow> 'a \<Rightarrow> ('e, 'b) res) \<Rightarrow> 'b \<Rightarrow> 'a list \<Rightarrow> ('e, 'b) res" where
  "res_fold f acc [] = Ok acc"
| "res_fold f acc (x # xs) = res_bind (f acc x) (\<lambda>acc'. res_fold f acc' xs)"

lemma bind_Ok_iff [res_simps]: "res_bind m f = Ok y \<longleftrightarrow> (\<exists>x. m = Ok x \<and> f x = Ok y)"
  by (cases m) auto

lemma bind_Err_iff [res_simps]:
  "res_bind m f = Err e \<longleftrightarrow> m = Err e \<or> (\<exists>x. m = Ok x \<and> f x = Err e)"
  by (cases m) auto

lemma bind_Panic_iff [res_simps]:
  "res_bind m f = Panic \<longleftrightarrow> m = Panic \<or> (\<exists>x. m = Ok x \<and> f x = Panic)"
  by (cases m) auto

lemma bind_assoc: "res_bind (res_bind m f) g = res_bind m (\<lambda>x. res_bind (f x) g)"
  by (cases m) auto

lemma map_err_Ok_iff [res_simps]: "map_err g m = Ok y \<longleftrightarrow> m = Ok y"
  by (cases m) auto

lemma map_err_Err_iff [res_simps]: "map_err g m = Err e \<longleftrightarrow> (\<exists>e'. m = Err e' \<and> e = g e')"
  by (cases m) auto

lemma map_err_Panic_iff [res_simps]: "map_err g m = Panic \<longleftrightarrow> m = Panic"
  by (cases m) auto

lemma ok_or_Ok_iff [res_simps]: "ok_or m e = Ok y \<longleftrightarrow> m = Some y"
  by (cases m) auto

lemma ok_or_Err_iff [res_simps]: "ok_or m e = Err e' \<longleftrightarrow> m = None \<and> e' = e"
  by (cases m) auto

lemma ok_or_Panic [simp]: "ok_or m e \<noteq> Panic"
  by (cases m) auto

lemma expect_Ok_iff [res_simps]: "expect m = Ok y \<longleftrightarrow> m = Some y"
  by (cases m) auto

lemma expect_Err [simp]: "expect m \<noteq> Err e"
  by (cases m) auto

lemma expect_Panic_iff [res_simps]: "expect m = Panic \<longleftrightarrow> m = None"
  by (cases m) auto

lemma fail_if_Ok_iff [res_simps]: "fail_if c e = Ok u \<longleftrightarrow> \<not> c"
  by (simp add: fail_if_def)

lemma fail_if_Err_iff [res_simps]: "fail_if c e = Err e' \<longleftrightarrow> c \<and> e' = e"
  by (auto simp: fail_if_def)

lemma fail_if_Panic [simp]: "fail_if c e \<noteq> Panic"
  by (simp add: fail_if_def)

lemma panic_unless_Ok_iff [res_simps]: "panic_unless c = Ok u \<longleftrightarrow> c"
  by (simp add: panic_unless_def)

lemma panic_unless_Err [simp]: "panic_unless c \<noteq> Err e"
  by (simp add: panic_unless_def)

lemma panic_unless_Panic_iff [res_simps]: "panic_unless c = Panic \<longleftrightarrow> \<not> c"
  by (simp add: panic_unless_def)

lemma is_ok_iff: "is_ok m \<longleftrightarrow> (\<exists>x. m = Ok x)"
  by (cases m) auto

lemma res_map_Ok_length: "res_map f xs = Ok ys \<Longrightarrow> length ys = length xs"
  by (induction xs arbitrary: ys) (auto simp: res_simps)

lemma res_map_Ok_iff: "res_map f xs = Ok ys \<longleftrightarrow> list_all2 (\<lambda>x y. f x = Ok y) xs ys"
  by (induction xs arbitrary: ys) (auto simp: res_simps list_all2_Cons1)

lemma res_map_Ok_map: "(\<And>x. x \<in> set xs \<Longrightarrow> f x = Ok (g x)) \<Longrightarrow> res_map f xs = Ok (map g xs)"
  by (induction xs) auto

lemma res_map_Err: "res_map f xs = Err e \<Longrightarrow> \<exists>x \<in> set xs. f x = Err e"
  by (induction xs) (auto simp: res_simps)

lemma res_map_Panic: "res_map f xs = Panic \<Longrightarrow> \<exists>x \<in> set xs. f x = Panic"
  by (induction xs) (auto simp: res_simps)

lemma res_fold_append:
  "res_fold f acc (xs @ ys) = res_bind (res_fold f acc xs) (\<lambda>acc'. res_fold f acc' ys)"
  by (induction xs arbitrary: acc) (auto simp: bind_assoc)

subsection \<open>Machine integers\<close>

type_synonym u8 = "8 word"
type_synonym u32 = "32 word"

definition U64_MAX :: nat where
  "U64_MAX = 2 ^ 64 - 1"

definition I64_MAX :: int where
  "I64_MAX = 2 ^ 63 - 1"

definition I64_MIN :: int where
  "I64_MIN = - (2 ^ 63)"

definition u64_add :: "nat \<Rightarrow> nat \<Rightarrow> ('e, nat) res" where
  "u64_add a b = (if a + b \<le> U64_MAX then Ok (a + b) else Panic)"

definition u64_sub :: "nat \<Rightarrow> nat \<Rightarrow> ('e, nat) res" where
  "u64_sub a b = (if b \<le> a then Ok (a - b) else Panic)"

definition checked_sub :: "nat \<Rightarrow> nat \<Rightarrow> nat option" where
  "checked_sub a b = (if b \<le> a then Some (a - b) else None)"

definition u64_sum :: "nat list \<Rightarrow> ('e, nat) res" where
  "u64_sum xs = res_fold u64_add 0 xs"

definition in_i64 :: "int \<Rightarrow> bool" where
  "in_i64 x \<longleftrightarrow> I64_MIN \<le> x \<and> x \<le> I64_MAX"

definition i64_add :: "int \<Rightarrow> int \<Rightarrow> ('e, int) res" where
  "i64_add a b = (if in_i64 (a + b) then Ok (a + b) else Panic)"

definition i64_sub :: "int \<Rightarrow> int \<Rightarrow> ('e, int) res" where
  "i64_sub a b = (if in_i64 (a - b) then Ok (a - b) else Panic)"

text \<open>\<open>Amount::to_signed\<close> and \<open>SignedAmount::to_unsigned\<close>: conversions that fail out of range.\<close>

definition to_signed :: "nat \<Rightarrow> int option" where
  "to_signed a = (if int a \<le> I64_MAX then Some (int a) else None)"

definition to_unsigned :: "int \<Rightarrow> nat option" where
  "to_unsigned x = (if 0 \<le> x then Some (nat x) else None)"

lemma u64_add_Ok_iff [res_simps]: "u64_add a b = Ok c \<longleftrightarrow> c = a + b \<and> a + b \<le> U64_MAX"
  by (auto simp: u64_add_def)

lemma u64_add_Err [simp]: "u64_add a b \<noteq> Err e"
  by (simp add: u64_add_def)

lemma u64_add_Panic_iff [res_simps]: "u64_add a b = Panic \<longleftrightarrow> U64_MAX < a + b"
  by (auto simp: u64_add_def)

lemma u64_sub_Ok_iff [res_simps]: "u64_sub a b = Ok c \<longleftrightarrow> b \<le> a \<and> c = a - b"
  by (auto simp: u64_sub_def)

lemma u64_sub_Err [simp]: "u64_sub a b \<noteq> Err e"
  by (simp add: u64_sub_def)

lemma u64_sub_Panic_iff [res_simps]: "u64_sub a b = Panic \<longleftrightarrow> a < b"
  by (auto simp: u64_sub_def)

lemma i64_add_Ok_iff [res_simps]: "i64_add a b = Ok c \<longleftrightarrow> c = a + b \<and> in_i64 (a + b)"
  by (auto simp: i64_add_def)

lemma i64_add_Err [simp]: "i64_add a b \<noteq> Err e"
  by (simp add: i64_add_def)

lemma i64_add_Panic_iff [res_simps]: "i64_add a b = Panic \<longleftrightarrow> \<not> in_i64 (a + b)"
  by (auto simp: i64_add_def)

lemma i64_sub_Ok_iff [res_simps]: "i64_sub a b = Ok c \<longleftrightarrow> c = a - b \<and> in_i64 (a - b)"
  by (auto simp: i64_sub_def)

lemma i64_sub_Err [simp]: "i64_sub a b \<noteq> Err e"
  by (simp add: i64_sub_def)

lemma i64_sub_Panic_iff [res_simps]: "i64_sub a b = Panic \<longleftrightarrow> \<not> in_i64 (a - b)"
  by (auto simp: i64_sub_def)

lemma to_signed_Some_iff [res_simps]: "to_signed a = Some x \<longleftrightarrow> x = int a \<and> int a \<le> I64_MAX"
  by (auto simp: to_signed_def)

lemma to_unsigned_Some_iff [res_simps]: "to_unsigned x = Some a \<longleftrightarrow> 0 \<le> x \<and> a = nat x"
  by (auto simp: to_unsigned_def)

lemma checked_sub_Some_iff [res_simps]: "checked_sub a b = Some c \<longleftrightarrow> b \<le> a \<and> c = a - b"
  by (auto simp: checked_sub_def)

lemma u64_fold_Ok:
  "res_fold u64_add acc xs = Ok s \<Longrightarrow> s = acc + sum_list xs"
  by (induction xs arbitrary: acc) (force simp: res_simps add.assoc)+

lemma u64_fold_total:
  "acc + sum_list xs \<le> U64_MAX \<Longrightarrow> res_fold u64_add acc xs = Ok (acc + sum_list xs)"
  by (induction xs arbitrary: acc) (auto simp: u64_add_def add.assoc)

lemma u64_sum_Ok [res_simps]: "u64_sum xs = Ok s \<longleftrightarrow> s = sum_list xs \<and> (sum_list xs \<le> U64_MAX)"
proof
  assume "u64_sum xs = Ok s"
  then show "s = sum_list xs \<and> sum_list xs \<le> U64_MAX"
  proof (cases xs rule: rev_cases)
    case Nil
    with \<open>u64_sum xs = Ok s\<close> show ?thesis by (simp add: u64_sum_def)
  next
    case (snoc ys y)
    with \<open>u64_sum xs = Ok s\<close> show ?thesis
      by (auto simp: u64_sum_def res_fold_append res_simps dest: u64_fold_Ok)
  qed
next
  assume "s = sum_list xs \<and> sum_list xs \<le> U64_MAX"
  then show "u64_sum xs = Ok s"
    using u64_fold_total [of 0 xs] by (simp add: u64_sum_def)
qed

lemma u64_sum_Err [simp]: "u64_sum xs \<noteq> Err e"
proof -
  have "res_fold u64_add acc xs \<noteq> Err e" for acc
    by (induction xs arbitrary: acc) (auto simp: res_simps)
  then show ?thesis by (simp add: u64_sum_def)
qed

subsection \<open>Unstable sorting\<close>

definition total_preorder :: "('a \<Rightarrow> 'a \<Rightarrow> bool) \<Rightarrow> bool" where
  "total_preorder le \<longleftrightarrow> (\<forall>x y. le x y \<or> le y x) \<and> (\<forall>x y z. le x y \<longrightarrow> le y z \<longrightarrow> le x z)"

lemma total_preorder_key [simp, intro]:
  "total_preorder (\<lambda>x y. (k x :: 'k::linorder) \<le> k y)"
  by (auto simp: total_preorder_def intro: order_trans)

locale unstable_sort =
  fixes usort :: "('a \<Rightarrow> 'a \<Rightarrow> bool) \<Rightarrow> 'a list \<Rightarrow> 'a list"
  assumes usort_mset: "mset (usort le xs) = mset xs"
    and usort_sorted: "total_preorder le \<Longrightarrow> sorted_wrt le (usort le xs)"
begin

lemma usort_set: "set (usort le xs) = set xs"
  using usort_mset [of le xs] by (metis set_mset_mset)

lemma usort_length: "length (usort le xs) = length xs"
  using usort_mset [of le xs] by (metis size_mset)

lemma usort_sum_list: "sum_list (map (f :: 'a \<Rightarrow> 'b::comm_monoid_add) (usort le xs)) = sum_list (map f xs)"
  by (metis mset_map sum_mset_sum_list usort_mset)

lemma usort_key_sorted: "sorted (map (k :: 'a \<Rightarrow> 'k::linorder) (usort (\<lambda>x y. k x \<le> k y) xs))"
  using usort_sorted [of "\<lambda>x y. k x \<le> k y" xs] by (simp add: sorted_map)

end

text \<open>Insertion sort by a comparison, the executable instance.\<close>

fun insert_by :: "('a \<Rightarrow> 'a \<Rightarrow> bool) \<Rightarrow> 'a \<Rightarrow> 'a list \<Rightarrow> 'a list" where
  "insert_by le x [] = [x]"
| "insert_by le x (y # ys) = (if le x y then x # y # ys else y # insert_by le x ys)"

fun sort_by :: "('a \<Rightarrow> 'a \<Rightarrow> bool) \<Rightarrow> 'a list \<Rightarrow> 'a list" where
  "sort_by le [] = []"
| "sort_by le (x # xs) = insert_by le x (sort_by le xs)"

lemma mset_insert_by: "mset (insert_by le x ys) = add_mset x (mset ys)"
  by (induction ys) auto

lemma set_insert_by: "set (insert_by le x ys) = insert x (set ys)"
  using mset_insert_by [of le x ys] by (metis set_mset_add_mset_insert set_mset_mset)

lemma mset_sort_by: "mset (sort_by le xs) = mset xs"
  by (induction xs) (auto simp: mset_insert_by)

lemma sorted_insert_by:
  "total_preorder le \<Longrightarrow> sorted_wrt le ys \<Longrightarrow> sorted_wrt le (insert_by le x ys)"
  by (induction ys) (auto simp: set_insert_by total_preorder_def)

lemma sorted_sort_by: "total_preorder le \<Longrightarrow> sorted_wrt le (sort_by le xs)"
  by (induction xs) (auto simp: sorted_insert_by)

interpretation sort_by_sort: unstable_sort sort_by
  by unfold_locales (auto simp: mset_sort_by sorted_sort_by)

lemma unstable_sort_sort_by [simp, intro]: "unstable_sort sort_by"
  by (rule sort_by_sort.unstable_sort_axioms)

subsection \<open>Lists\<close>

lemma sum_list_take_drop:
  "sum_list (take n xs) + sum_list (drop n xs) = sum_list (xs :: nat list)"
  by (metis append_take_drop_id sum_list_append)

lemma sum_list_take_le: "sum_list (take n xs) \<le> sum_list (xs :: nat list)"
  using sum_list_take_drop [of n xs] by linarith

text \<open>Swapping two positions of a list, \<open>slice::swap\<close>.\<close>

definition swap :: "'a list \<Rightarrow> nat \<Rightarrow> nat \<Rightarrow> 'a list" where
  "swap xs i j = xs[i := xs ! j, j := xs ! i]"

lemma length_swap [simp]: "length (swap xs i j) = length xs"
  by (simp add: swap_def)

lemma mset_swap_positions: "i < length xs \<Longrightarrow> j < length xs \<Longrightarrow> mset (swap xs i j) = mset xs"
  by (simp add: swap_def mset_swap)

lemma distinct_mset_subset:
  assumes "mset xs \<subseteq># mset ys" and "distinct ys"
  shows "distinct xs"
proof -
  have le: "count (mset xs) a \<le> 1" for a
    using mset_subset_eq_count [OF assms(1), of a] distinct_count_atmost_1 [of ys] assms(2)
    by (metis le_numeral_extra(4) le_zero_eq nat_le_linear)
  have "count (mset xs) a = (if a \<in> set xs then 1 else 0)" for a
  proof (cases "a \<in> set xs")
    case True
    then have "count (mset xs) a \<noteq> 0"
      by (metis count_eq_zero_iff set_mset_mset)
    then show ?thesis
      using le [of a] True by (metis One_nat_def le_SucE le_zero_eq)
  next
    case False
    then show ?thesis
      by (metis count_eq_zero_iff set_mset_mset)
  qed
  then show ?thesis
    by (simp add: distinct_count_atmost_1)
qed

end
