(* ===== verification/Btree_Map.thy ===== *)
theory Btree_Map
  imports Prelude
begin

section \<open>Ordered maps\<close>

text \<open>
  \<open>alloc::collections::BTreeMap\<close>, as the code uses it: insertion with overwrite, removal,
  lookup, \<open>extend\<close> by another map, and iteration in key order. A map is the list of its
  entries; \<open>bt_wf\<close> says the keys strictly increase, which makes two maps with the same
  lookups equal. The locale \<open>ordered_map\<close> is the contract the components rely on and
  \<open>bt\<close> its interpretation by these lists.
\<close>

type_synonym ('k, 'v) btree = "('k \<times> 'v) list"

named_theorems bt_simps \<open>lookups and well-formedness after map operations\<close>

definition bt_wf :: "('k::linorder, 'v) btree \<Rightarrow> bool" where
  "bt_wf m \<longleftrightarrow> sorted_wrt (<) (map fst m)"

definition bt_get :: "('k, 'v) btree \<Rightarrow> 'k \<Rightarrow> 'v option" where
  "bt_get m k = map_of m k"

fun bt_insert :: "'k::linorder \<Rightarrow> 'v \<Rightarrow> ('k, 'v) btree \<Rightarrow> ('k, 'v) btree" where
  "bt_insert k v [] = [(k, v)]"
| "bt_insert k v (e # m) =
     (if fst e < k then e # bt_insert k v m
      else if fst e = k then (k, v) # m
      else (k, v) # e # m)"

definition bt_remove :: "'k \<Rightarrow> ('k, 'v) btree \<Rightarrow> ('k, 'v) btree" where
  "bt_remove k m = filter (\<lambda>e. fst e \<noteq> k) m"

definition bt_extend :: "('k::linorder, 'v) btree \<Rightarrow> ('k, 'v) btree \<Rightarrow> ('k, 'v) btree" where
  "bt_extend m other = fold (\<lambda>e acc. bt_insert (fst e) (snd e) acc) other m"

abbreviation bt_keys :: "('k, 'v) btree \<Rightarrow> 'k list" where
  "bt_keys m \<equiv> map fst m"

abbreviation bt_values :: "('k, 'v) btree \<Rightarrow> 'v list" where
  "bt_values m \<equiv> map snd m"

abbreviation bt_of_list :: "('k::linorder \<times> 'v) list \<Rightarrow> ('k, 'v) btree" where
  "bt_of_list kvs \<equiv> bt_extend [] kvs"

lemma bt_wf_Nil [bt_simps]: "bt_wf []"
  by (simp add: bt_wf_def)

lemma bt_wf_Cons: "bt_wf (e # m) \<longleftrightarrow> (\<forall>k \<in> set (bt_keys m). fst e < k) \<and> bt_wf m"
  by (simp add: bt_wf_def)

lemma bt_get_Nil [bt_simps]: "bt_get [] k = None"
  by (simp add: bt_get_def)

lemma bt_keys_insert: "fst ` set (bt_insert k v m) = insert k (fst ` set m)"
  by (induction m) auto

lemma bt_ball_insert:
  "(\<forall>e \<in> set (bt_insert k v m). P (fst e)) \<longleftrightarrow> P k \<and> (\<forall>e \<in> set m. P (fst e))"
  by (induction m) auto

lemma bt_wf_insert [bt_simps]: "bt_wf m \<Longrightarrow> bt_wf (bt_insert k v m)"
  by (induction m) (auto simp: bt_wf_Cons bt_wf_Nil bt_ball_insert dest: less_trans)

lemma bt_get_insert [bt_simps]: "bt_wf m \<Longrightarrow> bt_get (bt_insert k v m) = (bt_get m)(k \<mapsto> v)"
proof (induction m)
  case Nil
  then show ?case by (auto simp: bt_get_def)
next
  case (Cons e m)
  have IH: "bt_get (bt_insert k v m) = (bt_get m)(k \<mapsto> v)"
    by (rule Cons.IH) (use Cons.prems in \<open>simp add: bt_wf_Cons\<close>)
  show ?case
    using IH by (cases e) (auto simp: bt_get_def fun_eq_iff)
qed

lemma bt_wf_remove [bt_simps]: "bt_wf m \<Longrightarrow> bt_wf (bt_remove k m)"
  by (induction m) (auto simp: bt_wf_Cons bt_remove_def)

lemma bt_get_remove [bt_simps]: "bt_get (bt_remove k m) = (bt_get m)(k := None)"
  by (induction m) (auto simp: bt_get_def bt_remove_def fun_eq_iff)

lemma bt_extend_Nil [bt_simps]: "bt_extend m [] = m"
  by (simp add: bt_extend_def)

lemma bt_wf_extend [bt_simps]: "bt_wf m \<Longrightarrow> bt_wf (bt_extend m other)"
  by (induction other arbitrary: m) (auto simp: bt_extend_def bt_wf_insert)

lemma bt_get_extend_fold:
  "bt_wf m \<Longrightarrow> bt_get (bt_extend m other) = bt_get m ++ map_of (rev other)"
proof (induction other arbitrary: m)
  case Nil
  then show ?case by (simp add: bt_extend_def)
next
  case (Cons e other)
  have "bt_get (bt_extend (bt_insert (fst e) (snd e) m) other)
      = bt_get (bt_insert (fst e) (snd e) m) ++ map_of (rev other)"
    using Cons by (simp add: bt_wf_insert)
  then show ?case
    using Cons.prems by (simp add: bt_extend_def bt_get_insert)
qed

lemma bt_distinct_keys: "bt_wf m \<Longrightarrow> distinct (bt_keys m)"
  by (simp add: bt_wf_def strict_sorted_iff)

lemma map_of_rev_distinct: "distinct (map fst m) \<Longrightarrow> map_of (rev m) = map_of m"
  by (metis distinct_rev map_of_eqI map_of_is_SomeI map_of_SomeD not_in_set_insert rev_map
      set_rev map_of_inject_set)

lemma bt_get_extend [bt_simps]:
  "bt_wf m \<Longrightarrow> bt_wf other \<Longrightarrow> bt_get (bt_extend m other) = bt_get m ++ bt_get other"
  by (metis bt_distinct_keys bt_get_def bt_get_extend_fold ext map_of_rev_distinct)

lemma bt_get_None_iff: "bt_get m k = None \<longleftrightarrow> k \<notin> set (bt_keys m)"
  by (simp add: bt_get_def map_of_eq_None_iff)

lemma bt_get_Some_iff: "bt_wf m \<Longrightarrow> bt_get m k = Some v \<longleftrightarrow> (k, v) \<in> set m"
  by (simp add: bt_get_def bt_distinct_keys)

text \<open>Two well-formed maps with the same lookups are the same list of entries.\<close>

lemma bt_ext: "bt_wf m \<Longrightarrow> bt_wf m' \<Longrightarrow> bt_get m = bt_get m' \<Longrightarrow> m = m'"
proof -
  assume wf: "bt_wf m" "bt_wf m'" and eq: "bt_get m = bt_get m'"
  have "set m = set m'"
    using eq by (auto simp flip: bt_get_Some_iff [OF wf(1)] bt_get_Some_iff [OF wf(2)])
  moreover have "inj_on fst (set m \<union> set m')"
    using bt_distinct_keys [OF wf(1)] \<open>set m = set m'\<close> by (simp add: distinct_map)
  ultimately show "m = m'"
    using wf by (intro map_sorted_distinct_set_unique [where f = fst])
      (simp_all add: bt_wf_def strict_sorted_iff)
qed

lemma bt_extend_assoc:
  "bt_wf a \<Longrightarrow> bt_wf b \<Longrightarrow> bt_wf c \<Longrightarrow>
    bt_extend (bt_extend a b) c = bt_extend a (bt_extend b c)"
  by (rule bt_ext) (simp_all add: bt_simps)

lemma bt_extend_left_Nil: "bt_wf m \<Longrightarrow> bt_extend [] m = m"
  by (rule bt_ext) (simp_all add: bt_simps fun_eq_iff map_add_def split: option.splits)

lemma bt_extend_idem: "bt_wf m \<Longrightarrow> bt_extend m m = m"
  by (rule bt_ext) (auto simp: bt_simps fun_eq_iff map_add_def split: option.splits)

lemma bt_extend_not_Nil: "other \<noteq> [] \<Longrightarrow> bt_extend m other \<noteq> []"
proof (induction other arbitrary: m)
  case Nil
  then show ?case by simp
next
  case (Cons e other)
  have ne: "bt_insert k v m \<noteq> []" for k v and m :: "('a, 'b) btree"
    by (cases m) auto
  show ?case
    using Cons.IH ne by (cases other) (auto simp: bt_extend_def)
qed

subsection \<open>The map contract\<close>

locale ordered_map =
  fixes empty :: "'m"
    and get :: "'m \<Rightarrow> 'k::linorder \<Rightarrow> 'v option"
    and insert_kv :: "'k \<Rightarrow> 'v \<Rightarrow> 'm \<Rightarrow> 'm"
    and remove :: "'k \<Rightarrow> 'm \<Rightarrow> 'm"
    and entries :: "'m \<Rightarrow> ('k \<times> 'v) list"
    and wf :: "'m \<Rightarrow> bool"
  assumes wf_empty: "wf empty"
    and get_empty: "get empty k = None"
    and wf_insert_kv: "wf m \<Longrightarrow> wf (insert_kv k v m)"
    and get_insert_kv: "wf m \<Longrightarrow> get (insert_kv k v m) = (get m)(k \<mapsto> v)"
    and wf_remove: "wf m \<Longrightarrow> wf (remove k m)"
    and get_remove: "wf m \<Longrightarrow> get (remove k m) = (get m)(k := None)"
    and get_entries: "wf m \<Longrightarrow> get m = map_of (entries m)"
    and entries_ordered: "wf m \<Longrightarrow> sorted_wrt (<) (map fst (entries m))"
begin

lemma fold_insert_wf: "wf m \<Longrightarrow> wf (fold (\<lambda>e. insert_kv (fst e) (snd e)) kvs m)"
  by (induction kvs arbitrary: m) (auto simp: wf_insert_kv)

lemma fold_insert_get:
  "wf m \<Longrightarrow> get (fold (\<lambda>e. insert_kv (fst e) (snd e)) kvs m) = get m ++ map_of (rev kvs)"
  by (induction kvs arbitrary: m) (auto simp: wf_insert_kv get_insert_kv map_add_assoc [symmetric])

lemma insert_remove_absent:
  "wf m \<Longrightarrow> get m k = None \<Longrightarrow> get (remove k (insert_kv k v m)) = get m"
  by (auto simp: get_remove get_insert_kv wf_insert_kv)

end

interpretation bt: ordered_map "[]" bt_get bt_insert bt_remove "\<lambda>m. m" bt_wf
  by unfold_locales (auto simp: bt_simps bt_get_def, auto simp: bt_wf_def)

end
