(* ===== verification/Bitcoin.thy ===== *)
theory Bitcoin
  imports Btree_Map
begin

section \<open>The data of the Bitcoin and PSBT crates, and the functions taken from them\<close>

text \<open>
  The wallet is written over \<open>rust-bitcoin\<close> (here its Litecoin fork), \<open>miniscript\<close> and
  \<open>bdk_chain\<close>, whose sources are not in the repository. Their plain data (amounts, scripts,
  outpoints, transactions, PSBT inputs, lock times, chain positions) is declared here with the
  fields and constructors the wallet's sources name; the functions of these crates that the
  wallet calls are the fields of the record \<open>btc\<close>, an argument of every definition that uses
  one. What a theorem needs of such a function is a named predicate on the record
  (\<open>fee_mono\<close>, \<open>fee_zero\<close>, \<open>bip68\<close> below), which states its documented behaviour.
\<close>

type_synonym amount = nat
type_synonym feerate = nat
type_synonym weight = nat
type_synonym script = "u8 list"
type_synonym txid = nat
type_synonym pubkey = nat
type_synonym xonly_key = nat
type_synonym leaf_hash = nat
type_synonym fingerprint = u32
type_synonym signature = "u8 list"

subsection \<open>Outpoints, inputs, outputs, transactions\<close>

datatype outpoint = OutPoint (op_txid: txid) (op_vout: u32)

instantiation outpoint :: linorder
begin

definition less_eq_outpoint :: "outpoint \<Rightarrow> outpoint \<Rightarrow> bool" where
  "less_eq_outpoint a b \<longleftrightarrow> op_txid a < op_txid b \<or> (op_txid a = op_txid b \<and> op_vout a \<le> op_vout b)"

definition less_outpoint :: "outpoint \<Rightarrow> outpoint \<Rightarrow> bool" where
  "less_outpoint a b \<longleftrightarrow> op_txid a < op_txid b \<or> (op_txid a = op_txid b \<and> op_vout a < op_vout b)"

instance
  by standard (auto simp: less_eq_outpoint_def less_outpoint_def intro: outpoint.expand)

end

record txout =
  txo_value :: amount
  txo_script :: script

record txin =
  previous_output :: outpoint
  script_sig :: script
  sequence :: u32
  witness :: "u8 list list"

datatype locktime = Blocks u32 | Seconds u32

datatype rel_locktime = RelBlocks "16 word" | RelTime "16 word"

fun locktime_u32 :: "locktime \<Rightarrow> u32" where
  "locktime_u32 (Blocks h) = h"
| "locktime_u32 (Seconds t) = t"

fun is_same_unit :: "locktime \<Rightarrow> locktime \<Rightarrow> bool" where
  "is_same_unit (Blocks _) (Blocks _) = True"
| "is_same_unit (Seconds _) (Seconds _) = True"
| "is_same_unit _ _ = False"

text \<open>The partial order of lock times: two lock times of different units do not compare, so
  \<open><\<close>, \<open>>\<close> and \<open>>=\<close> are all false on them.\<close>

definition locktime_less :: "locktime \<Rightarrow> locktime \<Rightarrow> bool" where
  "locktime_less a b \<longleftrightarrow> is_same_unit a b \<and> locktime_u32 a < locktime_u32 b"

definition locktime_geq :: "locktime \<Rightarrow> locktime \<Rightarrow> bool" where
  "locktime_geq a b \<longleftrightarrow> is_same_unit a b \<and> locktime_u32 b \<le> locktime_u32 a"

record transaction =
  tx_version :: int
  tx_lock_time :: locktime
  tx_input :: "txin list"
  tx_output :: "txout list"
  tx_mw_tx :: "u8 list option"
  tx_is_hog_ex :: bool

subsection \<open>Chain positions\<close>

record block_id =
  bid_height :: u32
  bid_hash :: nat

record conf_block_time =
  cbt_block :: block_id
  cbt_time :: nat

datatype chain_position =
  Confirmed (anchor: conf_block_time) (transitively: "txid option")
| Unconfirmed (first_seen: "nat option") (last_seen: "nat option")

fun pos_is_confirmed :: "chain_position \<Rightarrow> bool" where
  "pos_is_confirmed (Confirmed _ _) = True"
| "pos_is_confirmed (Unconfirmed _ _) = False"

fun pos_height_upper_bound :: "chain_position \<Rightarrow> u32 option" where
  "pos_height_upper_bound (Confirmed a _) = Some (bid_height (cbt_block a))"
| "pos_height_upper_bound (Unconfirmed _ _) = None"

subsection \<open>PSBT inputs\<close>

datatype network_kind = Main | Test

datatype child_number = Normal u32 | Hardened u32

type_synonym key_source = "fingerprint \<times> child_number list"

record psbt_input =
  non_witness_utxo :: "transaction option"
  witness_utxo :: "txout option"
  partial_sigs :: "(pubkey, signature) btree"
  sighash_type :: "u32 option"
  redeem_script :: "script option"
  witness_script :: "script option"
  bip32_derivation :: "(pubkey, key_source) btree"
  final_script_sig :: "script option"
  final_script_witness :: "u8 list list option"
  tap_key_sig :: "signature option"
  tap_script_sigs :: "(xonly_key \<times> leaf_hash, signature) btree"
  tap_key_origins :: "(xonly_key, leaf_hash list \<times> key_source) btree"
  tap_internal_key :: "xonly_key option"
  tap_merkle_root :: "nat option"
  proprietary :: "(nat, u8 list) btree"
  unknown :: "(nat, u8 list) btree"

definition psbt_input_default :: psbt_input where
  "psbt_input_default =
     \<lparr>non_witness_utxo = None, witness_utxo = None, partial_sigs = [], sighash_type = None,
      redeem_script = None, witness_script = None, bip32_derivation = [],
      final_script_sig = None, final_script_witness = None, tap_key_sig = None,
      tap_script_sigs = [], tap_key_origins = [], tap_internal_key = None,
      tap_merkle_root = None, proprietary = [], unknown = []\<rparr>"

subsection \<open>Functions of the crates the wallet calls\<close>

text \<open>
  \<^item> \<open>fee_mul rate w\<close>: \<open>FeeRate * Weight\<close>, \<open>None\<close> where the multiplication panics;
  \<^item> \<open>dust_limit s\<close>: \<open>Script::minimal_non_dust\<close>;
  \<^item> \<open>script_ser_len s\<close>: \<open>serialize(script).len()\<close>;
  \<^item> \<open>txin_weight\<close>: \<open>TxIn::default().segwit_weight()\<close>;
  \<^item> \<open>weight_from_vb n\<close>: \<open>Weight::from_vb\<close>;
  \<^item> \<open>seq_relative\<close>, \<open>seq_time\<close>: \<open>Sequence::is_relative_lock_time\<close>, \<open>is_time_locked\<close>;
  \<^item> \<open>rel_consensus\<close>, \<open>rel_sequence\<close>: \<open>relative::LockTime::to_consensus_u32\<close> and its
    conversion into a \<open>Sequence\<close>;
  \<^item> \<open>is_op_return\<close>, \<open>is_p2tr\<close>, \<open>is_witness_program\<close>: tests on scripts;
  \<^item> \<open>compute_txid\<close>, \<open>tx_weight\<close>: of a transaction;
  \<^item> \<open>pos_le\<close>: the order of \<open>ChainPosition\<close>.
\<close>

record btc =
  fee_mul :: "feerate \<Rightarrow> weight \<Rightarrow> amount option"
  dust_limit :: "script \<Rightarrow> amount"
  script_ser_len :: "script \<Rightarrow> nat"
  txin_weight :: weight
  weight_from_vb :: "nat \<Rightarrow> weight option"
  seq_relative :: "u32 \<Rightarrow> bool"
  seq_time :: "u32 \<Rightarrow> bool"
  rel_consensus :: "rel_locktime \<Rightarrow> u32"
  rel_sequence :: "rel_locktime \<Rightarrow> u32"
  is_op_return :: "script \<Rightarrow> bool"
  is_p2tr :: "script \<Rightarrow> bool"
  is_witness_program :: "script \<Rightarrow> bool"
  compute_txid :: "transaction \<Rightarrow> txid"
  tx_weight :: "transaction \<Rightarrow> weight"
  pos_le :: "chain_position \<Rightarrow> chain_position \<Rightarrow> bool"

text \<open>A larger weight never costs less.\<close>

definition fee_mono :: "btc \<Rightarrow> bool" where
  "fee_mono B \<longleftrightarrow> (\<forall>r w w' f f'. fee_mul B r w = Some f \<longrightarrow> fee_mul B r w' = Some f' \<longrightarrow>
     w \<le> w' \<longrightarrow> f \<le> f')"

text \<open>A zero rate costs nothing, and never overflows.\<close>

definition fee_zero :: "btc \<Rightarrow> bool" where
  "fee_zero B \<longleftrightarrow> (\<forall>w. fee_mul B 0 w = Some 0)"

text \<open>The fee of a sum of weights is at most the sum of their fees: each product is rounded up.\<close>

definition fee_subadditive :: "btc \<Rightarrow> bool" where
  "fee_subadditive B \<longleftrightarrow> (\<forall>r w w' f f' g. fee_mul B r w = Some f \<longrightarrow> fee_mul B r w' = Some f' \<longrightarrow>
     fee_mul B r (w + w') = Some g \<longrightarrow> g \<le> f + f')"

text \<open>BIP 68: bit 31 of a sequence disables the relative lock time, bit 22 selects its unit.\<close>

definition bip68 :: "btc \<Rightarrow> bool" where
  "bip68 B \<longleftrightarrow> (\<forall>s. seq_relative B s = (\<not> bit s 31)) \<and>
     (\<forall>s. seq_time B s = (\<not> bit s 31 \<and> bit s 22))"

text \<open>An instance for concrete runs: the fee is rounded up from thousandths, a script costs its
  length and one byte, dust is 294 satoshi, transactions are identified by their lock time.\<close>

definition btc_example :: btc where
  "btc_example =
     \<lparr>fee_mul = (\<lambda>r w. if (r * w + 999) div 1000 \<le> U64_MAX then Some ((r * w + 999) div 1000) else None),
      dust_limit = (\<lambda>s. 294), script_ser_len = (\<lambda>s. length s + 1), txin_weight = 164,
      weight_from_vb = (\<lambda>n. if 4 * n \<le> U64_MAX then Some (4 * n) else None),
      seq_relative = (\<lambda>s. \<not> bit s 31), seq_time = (\<lambda>s. \<not> bit s 31 \<and> bit s 22),
      rel_consensus = (\<lambda>l. case l of RelBlocks n \<Rightarrow> ucast n | RelTime n \<Rightarrow> 4194304 + ucast n),
      rel_sequence = (\<lambda>l. case l of RelBlocks n \<Rightarrow> ucast n | RelTime n \<Rightarrow> 4194304 + ucast n),
      is_op_return = (\<lambda>s. case s of [] \<Rightarrow> False | b # _ \<Rightarrow> b = 106), is_p2tr = (\<lambda>s. False),
      is_witness_program = (\<lambda>s. False), compute_txid = (\<lambda>t. unat (locktime_u32 (tx_lock_time t))),
      tx_weight = (\<lambda>t. 40 + 164 * length (tx_input t) + 136 * length (tx_output t)),
      pos_le = (\<lambda>p q. case (p, q) of
         (Confirmed a _, Confirmed b _) \<Rightarrow> bid_height (cbt_block a) \<le> bid_height (cbt_block b)
       | (Confirmed _ _, Unconfirmed _ _) \<Rightarrow> True
       | (Unconfirmed _ _, Confirmed _ _) \<Rightarrow> False
       | (Unconfirmed _ _, Unconfirmed _ _) \<Rightarrow> True)\<rparr>"

lemma fee_mono_example [simp]: "fee_mono btc_example"
  by (auto simp: fee_mono_def btc_example_def split: if_splits
      intro!: div_le_mono add_right_mono mult_le_mono2)

lemma fee_zero_example [simp]: "fee_zero btc_example"
  by (simp add: fee_zero_def btc_example_def U64_MAX_def)

lemma fee_subadditive_example [simp]: "fee_subadditive btc_example"
proof -
  have "(r * (w + w') + 999) div 1000 \<le> (r * w + 999) div 1000 + (r * w' + 999) div 1000"
    for r w w' :: nat
    by (simp add: distrib_left)
  then show ?thesis
    by (auto simp: fee_subadditive_def btc_example_def split: if_splits)
qed

lemma bip68_example [simp]: "bip68 btc_example"
  by (simp add: bip68_def btc_example_def)

lemma pos_le_example [simp]: "total_preorder (pos_le btc_example)"
  by (auto simp: total_preorder_def btc_example_def split: chain_position.splits)

end
