(* ===== verification/Types.thy ===== *)
theory Types
  imports Bitcoin
begin

section \<open>Types of the wallet (src/types.rs)\<close>

text \<open>
  \<open>KeychainKind\<close>, \<open>LocalOutput\<close>, \<open>WeightedUtxo\<close>, \<open>Utxo\<close> and their accessors, the outcome of a
  PSBT finalization and the out-of-bounds error. \<open>Utxo::txout\<close> panics on a foreign UTXO that
  carries neither a witness UTXO nor a previous transaction with the output; the accessor is a
  partial function here and \<open>utxo_ok\<close> is the precondition under which it returns.
\<close>

datatype keychain_kind = External | Internal

instantiation keychain_kind :: linorder
begin

definition less_eq_keychain_kind :: "keychain_kind \<Rightarrow> keychain_kind \<Rightarrow> bool" where
  "less_eq_keychain_kind a b \<longleftrightarrow> a = External \<or> b = Internal"

definition less_keychain_kind :: "keychain_kind \<Rightarrow> keychain_kind \<Rightarrow> bool" where
  "less_keychain_kind a b \<longleftrightarrow> a = External \<and> b = Internal"

instance
proof
  fix x y z :: keychain_kind
  show "x < y \<longleftrightarrow> x \<le> y \<and> \<not> y \<le> x"
    by (cases x; cases y) (simp_all add: less_eq_keychain_kind_def less_keychain_kind_def)
  show "x \<le> x"
    by (cases x) (simp_all add: less_eq_keychain_kind_def)
  show "x \<le> y \<Longrightarrow> y \<le> z \<Longrightarrow> x \<le> z" "x \<le> y \<Longrightarrow> y \<le> x \<Longrightarrow> x = y" "x \<le> y \<or> y \<le> x"
    by (cases x; cases y; cases z; simp add: less_eq_keychain_kind_def)+
qed

end

fun as_byte :: "keychain_kind \<Rightarrow> u8" where
  "as_byte External = 101"
| "as_byte Internal = 105"

fun keychain_display :: "keychain_kind \<Rightarrow> string" where
  "keychain_display External = ''External''"
| "keychain_display Internal = ''Internal''"

fun keychain_as_ref :: "keychain_kind \<Rightarrow> u8 list" where
  "keychain_as_ref External = [101]"
| "keychain_as_ref Internal = [105]"

record local_output =
  lo_outpoint :: outpoint
  lo_txout :: txout
  lo_keychain :: keychain_kind
  lo_is_spent :: bool
  lo_derivation_index :: u32
  lo_chain_position :: chain_position

datatype utxo =
  Local local_output
| Foreign outpoint u32 psbt_input

record weighted_utxo =
  satisfaction_weight :: weight
  wu_utxo :: utxo

fun utxo_outpoint :: "utxo \<Rightarrow> outpoint" where
  "utxo_outpoint (Local l) = lo_outpoint l"
| "utxo_outpoint (Foreign op _ _) = op"

text \<open>\<open>slice::get\<close>: the element at an index, \<open>None\<close> past the end.\<close>

definition get_nth :: "'a list \<Rightarrow> nat \<Rightarrow> 'a option" where
  "get_nth xs i = (if i < length xs then Some (xs ! i) else None)"

fun utxo_txout :: "utxo \<Rightarrow> txout option" where
  "utxo_txout (Local l) = Some (lo_txout l)"
| "utxo_txout (Foreign op _ pin) =
     (case witness_utxo pin of
        Some t \<Rightarrow> Some t
      | None \<Rightarrow> Option.bind (non_witness_utxo pin) (\<lambda>tx. get_nth (tx_output tx) (unat (op_vout op))))"

fun utxo_sequence :: "utxo \<Rightarrow> u32 option" where
  "utxo_sequence (Local _) = None"
| "utxo_sequence (Foreign _ s _) = Some s"

definition utxo_ok :: "utxo \<Rightarrow> bool" where
  "utxo_ok u \<longleftrightarrow> utxo_txout u \<noteq> None"

definition utxo_value :: "utxo \<Rightarrow> amount" where
  "utxo_value u = (case utxo_txout u of Some t \<Rightarrow> txo_value t | None \<Rightarrow> 0)"

abbreviation wu_ok :: "weighted_utxo \<Rightarrow> bool" where
  "wu_ok w \<equiv> utxo_ok (wu_utxo w)"

abbreviation wu_value :: "weighted_utxo \<Rightarrow> amount" where
  "wu_value w \<equiv> utxo_value (wu_utxo w)"

text \<open>The value of a UTXO as the code reads it, with the panic of \<open>txout()\<close>.\<close>

definition txout_value :: "utxo \<Rightarrow> ('e, amount) res" where
  "txout_value u = res_bind (expect (utxo_txout u)) (\<lambda>t. Ok (txo_value t))"

lemma txout_value_Ok_iff [res_simps]: "txout_value u = Ok v \<longleftrightarrow> utxo_ok u \<and> v = utxo_value u"
  by (auto simp: txout_value_def utxo_ok_def utxo_value_def res_simps)

lemma txout_value_Err [simp]: "txout_value u \<noteq> Err e"
  by (auto simp: txout_value_def res_simps)

lemma txout_value_Panic_iff [res_simps]: "txout_value u = Panic \<longleftrightarrow> \<not> utxo_ok u"
  by (auto simp: txout_value_def utxo_ok_def res_simps)

lemma utxo_ok_Local [simp]: "utxo_ok (Local l)"
  by (simp add: utxo_ok_def)

lemma utxo_value_Local [simp]: "utxo_value (Local l) = txo_value (lo_txout l)"
  by (simp add: utxo_value_def)

subsection \<open>Finalization outcomes\<close>

datatype 'me finalize_input_outcome =
  AlreadyFinalized
| Finalized
| MissingDescriptor
| CouldNotSatisfy 'me

fun input_is_finalized :: "'me finalize_input_outcome \<Rightarrow> bool" where
  "input_is_finalized AlreadyFinalized = True"
| "input_is_finalized Finalized = True"
| "input_is_finalized MissingDescriptor = False"
| "input_is_finalized (CouldNotSatisfy _) = False"

type_synonym 'me finalize_psbt_outcome = "(nat, 'me finalize_input_outcome) btree"

definition psbt_is_finalized :: "'me finalize_psbt_outcome \<Rightarrow> bool" where
  "psbt_is_finalized outcomes \<longleftrightarrow> list_all input_is_finalized (bt_values outcomes)"

record index_out_of_bounds =
  oob_index :: nat
  oob_len :: nat

definition new_oob :: "nat \<Rightarrow> nat \<Rightarrow> index_out_of_bounds" where
  "new_oob i n = \<lparr>oob_index = i, oob_len = n\<rparr>"

end
