(* ===== verification/Utils.thy ===== *)
theory Utils
  imports Types
begin

section \<open>Wallet utilities (src/wallet/utils.rs)\<close>

text \<open>
  The dust test, the lock-time satisfiers \<open>After\<close> and \<open>Older\<close>, the check of a requested
  \<open>nSequence\<close> against a relative lock time, and the Fisher-Yates shuffle. The random number
  generator is a step function \<open>next_u32 :: 'r \<Rightarrow> u32 \<times> 'r\<close> and its state is passed along.
\<close>

subsection \<open>Dust\<close>

definition is_dust :: "btc \<Rightarrow> amount \<Rightarrow> script \<Rightarrow> bool" where
  "is_dust B a s \<longleftrightarrow> a < dust_limit B s"

definition is_dust_u64 :: "btc \<Rightarrow> nat \<Rightarrow> script \<Rightarrow> bool" where
  "is_dust_u64 B n s \<longleftrightarrow> is_dust B n s"

lemma is_dust_antimono: "is_dust B a s \<Longrightarrow> a' \<le> a \<Longrightarrow> is_dust B a' s"
  by (simp add: is_dust_def)

subsection \<open>Sequence numbers against relative lock times\<close>

definition check_nsequence_rbf :: "btc \<Rightarrow> u32 \<Rightarrow> u32 \<Rightarrow> bool" where
  "check_nsequence_rbf B sequ csv =
     (if \<not> seq_relative B sequ then False
      else if seq_time B sequ \<noteq> seq_time B csv then False
      else if sequ < csv then False
      else True)"

subsection \<open>Lock-time satisfiers\<close>

record after_sat =
  af_current_height :: "u32 option"
  af_assume_height_reached :: bool

definition after_new :: "u32 option \<Rightarrow> bool \<Rightarrow> after_sat" where
  "after_new h a = \<lparr>af_current_height = h, af_assume_height_reached = a\<rparr>"

definition check_after :: "after_sat \<Rightarrow> locktime \<Rightarrow> bool" where
  "check_after self n =
     (case af_current_height self of
        Some current_height \<Rightarrow> locktime_u32 n \<le> current_height
      | None \<Rightarrow> af_assume_height_reached self)"

record older_sat =
  ol_current_height :: "u32 option"
  ol_create_height :: "u32 option"
  ol_assume_height_reached :: bool

definition older_new :: "u32 option \<Rightarrow> u32 option \<Rightarrow> bool \<Rightarrow> older_sat" where
  "older_new h c a = \<lparr>ol_current_height = h, ol_create_height = c, ol_assume_height_reached = a\<rparr>"

definition u32_checked_add :: "u32 \<Rightarrow> u32 \<Rightarrow> u32 option" where
  "u32_checked_add a b = (if unat a + unat b < 2 ^ 32 then Some (a + b) else None)"

definition check_older :: "btc \<Rightarrow> older_sat \<Rightarrow> rel_locktime \<Rightarrow> ('e, bool) res" where
  "check_older B self n =
     (case ol_current_height self of
        Some current_height \<Rightarrow>
          res_bind (expect (u32_checked_add (case ol_create_height self of Some c \<Rightarrow> c | None \<Rightarrow> 0)
                              (rel_consensus B n)))
            (\<lambda>bound. Ok (bound \<le> current_height))
      | None \<Rightarrow> Ok (ol_assume_height_reached self))"

lemma u32_checked_add_Some_iff [res_simps]:
  "u32_checked_add a b = Some c \<longleftrightarrow> c = a + b \<and> unat a + unat b < 2 ^ 32"
  by (auto simp: u32_checked_add_def)

lemma u32_checked_add_None_iff [res_simps]:
  "u32_checked_add a b = None \<longleftrightarrow> 2 ^ 32 \<le> unat a + unat b"
  by (auto simp: u32_checked_add_def)

lemma unat_checked_add: "u32_checked_add a b = Some c \<Longrightarrow> unat c = unat a + unat b"
  by (auto simp: res_simps unat_word_ariths)

lemma check_older_Ok:
  assumes "check_older B \<lparr>ol_current_height = Some h, ol_create_height = Some c, ol_assume_height_reached = a\<rparr> n
           = Ok b"
  shows "b \<longleftrightarrow> unat c + unat (rel_consensus B n) \<le> unat h"
  using assms by (auto simp: check_older_def res_simps word_le_nat_alt unat_word_ariths)

subsection \<open>Shuffle\<close>

text \<open>One iteration draws \<open>random_index\<close> in \<open>0..=current_index\<close> and swaps; the loop runs while
  \<open>current_index > 0\<close>.\<close>

fun shuffle_loop :: "('r \<Rightarrow> u32 \<times> 'r) \<Rightarrow> nat \<Rightarrow> 'a list \<Rightarrow> 'r \<Rightarrow> 'a list \<times> 'r" where
  "shuffle_loop next_u32 0 xs rng = (xs, rng)"
| "shuffle_loop next_u32 (Suc i) xs rng =
     (case next_u32 rng of (r, rng') \<Rightarrow>
        shuffle_loop next_u32 i (swap xs (Suc i) (unat r mod (Suc i + 1))) rng')"

definition shuffle_slice :: "('r \<Rightarrow> u32 \<times> 'r) \<Rightarrow> 'a list \<Rightarrow> 'r \<Rightarrow> 'a list \<times> 'r" where
  "shuffle_slice next_u32 xs rng =
     (if xs = [] then (xs, rng) else shuffle_loop next_u32 (length xs - 1) xs rng)"

lemma mset_shuffle_loop:
  "i < length xs \<Longrightarrow> mset (fst (shuffle_loop nx i xs rng)) = mset xs"
proof (induction i arbitrary: xs rng)
  case 0
  then show ?case by simp
next
  case (Suc i)
  obtain r rng' where n: "nx rng = (r, rng')" by (cases "nx rng")
  have j: "unat r mod (Suc i + 1) < length xs"
    by (rule less_le_trans [OF mod_less_divisor]) (use Suc.prems in simp_all)
  show ?case
    using Suc.IH [of "swap xs (Suc i) (unat r mod (Suc i + 1))" rng'] Suc.prems j
    by (simp add: n mset_swap_positions)
qed

lemma mset_shuffle_slice [simp]: "mset (fst (shuffle_slice nx xs rng)) = mset xs"
  by (auto simp: shuffle_slice_def mset_shuffle_loop)

lemma set_shuffle_slice [simp]: "set (fst (shuffle_slice nx xs rng)) = set xs"
  by (metis mset_shuffle_slice set_mset_mset)

lemma sum_list_shuffle [simp]:
  "sum_list (map (f :: 'a \<Rightarrow> nat) (fst (shuffle_slice nx xs rng))) = sum_list (map f xs)"
  by (metis mset_map mset_shuffle_slice sum_mset_sum_list)

end
