(* ===== verification/Coin_Selection.thy ===== *)
theory Coin_Selection
  imports Utils
begin

section \<open>Coin selection (src/wallet/coin_selection.rs)\<close>

text \<open>
  The result types, the change decision, the selection loop over a sorted sequence of UTXOs and
  the three algorithms built on it (largest first, oldest first, single random draw). The
  branch-and-bound algorithm is in theory \<open>Bnb\<close>. The locale \<open>coin_selector\<close> is the contract of
  the trait \<open>CoinSelectionAlgorithm\<close>: what transaction creation may rely on, whichever algorithm
  it was given. An algorithm returns its result together with the advanced random generator; the
  generator's state after an error is not represented.
\<close>

subsection \<open>Result types\<close>

record insufficient_funds =
  needed :: amount
  available :: amount

datatype excess =
  NoChange (dust_threshold: amount) (remaining_amount: amount) (change_fee: amount)
| Change (change_amount: amount) (change_fee: amount)

record cs_result =
  selected :: "utxo list"
  fee_amount :: amount
  cs_excess :: excess

definition selected_amount :: "cs_result \<Rightarrow> ('e, amount) res" where
  "selected_amount r = res_bind (res_map txout_value (selected r)) u64_sum"

definition is_local :: "utxo \<Rightarrow> bool" where
  "is_local u = (case u of Local _ \<Rightarrow> True | Foreign _ _ _ \<Rightarrow> False)"

definition local_selected_amount :: "cs_result \<Rightarrow> ('e, amount) res" where
  "local_selected_amount r =
     res_bind (res_map txout_value (filter is_local (selected r))) u64_sum"

subsection \<open>The change decision\<close>

definition decide_change :: "btc \<Rightarrow> amount \<Rightarrow> feerate \<Rightarrow> script \<Rightarrow> ('e, excess) res" where
  "decide_change B remaining rate drain_script =
     (let drain_output_len = script_ser_len B drain_script + 8 in
      res_bind (expect (weight_from_vb B drain_output_len)) (\<lambda>w.
      res_bind (expect (fee_mul B rate w)) (\<lambda>cfee.
      let drain_val = (case checked_sub remaining cfee of Some d \<Rightarrow> d | None \<Rightarrow> 0) in
      if is_dust B drain_val drain_script
      then Ok (NoChange (dust_limit B drain_script) remaining cfee)
      else Ok (Change drain_val cfee))))"

fun excess_amount :: "excess \<Rightarrow> amount" where
  "excess_amount (NoChange _ _ _) = 0"
| "excess_amount (Change a _) = a"

subsection \<open>Selecting from a sorted sequence\<close>

fun scan_utxos :: "btc \<Rightarrow> feerate \<Rightarrow> amount \<Rightarrow> (bool \<times> weighted_utxo) list \<Rightarrow> amount \<Rightarrow> weight
    \<Rightarrow> ('e, utxo list \<times> amount \<times> weight) res" where
  "scan_utxos B rate target [] sel tw = Ok ([], sel, tw)"
| "scan_utxos B rate target ((must_use, wu) # rest) sel tw =
     res_bind
       (if must_use then Ok True
        else res_bind (expect (fee_mul B rate tw)) (\<lambda>f.
             res_bind (u64_add target f) (\<lambda>n. Ok (sel < n))))
       (\<lambda>take_it.
          if take_it then
            res_bind (u64_add (txin_weight B) (satisfaction_weight wu)) (\<lambda>w.
            res_bind (u64_add tw w) (\<lambda>tw'.
            res_bind (txout_value (wu_utxo wu)) (\<lambda>v.
            res_bind (u64_add sel v) (\<lambda>sel'.
            res_bind (scan_utxos B rate target rest sel' tw') (\<lambda>(us, s, t).
            Ok (wu_utxo wu # us, s, t))))))
          else Ok ([], sel, tw))"

definition select_sorted_utxos :: "btc \<Rightarrow> (bool \<times> weighted_utxo) list \<Rightarrow> feerate \<Rightarrow> amount \<Rightarrow> script
    \<Rightarrow> (insufficient_funds, cs_result) res" where
  "select_sorted_utxos B utxos rate target drain_script =
     res_bind (scan_utxos B rate target utxos 0 0) (\<lambda>(us, sel, tw).
     res_bind (expect (fee_mul B rate tw)) (\<lambda>fee.
     res_bind (u64_add target fee) (\<lambda>amount_needed_with_fees.
     if sel < amount_needed_with_fees
     then Err \<lparr>needed = amount_needed_with_fees, available = sel\<rparr>
     else
       res_bind (u64_sub sel amount_needed_with_fees) (\<lambda>remaining.
       res_bind (decide_change B remaining rate drain_script) (\<lambda>ex.
       Ok \<lparr>selected = us, fee_amount = fee, cs_excess = ex\<rparr>)))))"

subsection \<open>The algorithms\<close>

definition value_le :: "weighted_utxo \<Rightarrow> weighted_utxo \<Rightarrow> bool" where
  "value_le a b \<longleftrightarrow> wu_value a \<le> wu_value b"

definition largest_first_select ::
  "btc \<Rightarrow> ((weighted_utxo \<Rightarrow> weighted_utxo \<Rightarrow> bool) \<Rightarrow> weighted_utxo list \<Rightarrow> weighted_utxo list)
   \<Rightarrow> weighted_utxo list \<Rightarrow> weighted_utxo list \<Rightarrow> feerate \<Rightarrow> amount \<Rightarrow> script \<Rightarrow> 'r
   \<Rightarrow> (insufficient_funds, cs_result \<times> 'r) res" where
  "largest_first_select B usort required optional rate target drain_script rng =
     res_bind (panic_unless (length optional < 2 \<or> list_all wu_ok optional)) (\<lambda>_.
     let optional' = usort value_le optional;
         utxos = map (Pair True) required @ map (Pair False) (rev optional') in
     res_bind (select_sorted_utxos B utxos rate target drain_script) (\<lambda>r. Ok (r, rng)))"

text \<open>The key of the oldest-first order: \<open>(false, Some(position))\<close> for a local output and
  \<open>(true, None)\<close> for a foreign one, so foreign outputs come last.\<close>

fun age_le :: "btc \<Rightarrow> weighted_utxo \<Rightarrow> weighted_utxo \<Rightarrow> bool" where
  "age_le B a b = (case (wu_utxo a, wu_utxo b) of
       (Local la, Local lb) \<Rightarrow> pos_le B (lo_chain_position la) (lo_chain_position lb)
     | (Local _, Foreign _ _ _) \<Rightarrow> True
     | (Foreign _ _ _, Local _) \<Rightarrow> False
     | (Foreign _ _ _, Foreign _ _ _) \<Rightarrow> True)"

definition oldest_first_select ::
  "btc \<Rightarrow> ((weighted_utxo \<Rightarrow> weighted_utxo \<Rightarrow> bool) \<Rightarrow> weighted_utxo list \<Rightarrow> weighted_utxo list)
   \<Rightarrow> weighted_utxo list \<Rightarrow> weighted_utxo list \<Rightarrow> feerate \<Rightarrow> amount \<Rightarrow> script \<Rightarrow> 'r
   \<Rightarrow> (insufficient_funds, cs_result \<times> 'r) res" where
  "oldest_first_select B usort required optional rate target drain_script rng =
     (let optional' = usort (age_le B) optional;
          utxos = map (Pair True) required @ map (Pair False) optional' in
      res_bind (select_sorted_utxos B utxos rate target drain_script) (\<lambda>r. Ok (r, rng)))"

definition single_random_draw_select ::
  "btc \<Rightarrow> ('r \<Rightarrow> u32 \<times> 'r)
   \<Rightarrow> weighted_utxo list \<Rightarrow> weighted_utxo list \<Rightarrow> feerate \<Rightarrow> amount \<Rightarrow> script \<Rightarrow> 'r
   \<Rightarrow> (insufficient_funds, cs_result \<times> 'r) res" where
  "single_random_draw_select B next_u32 required optional rate target drain_script rng =
     (case shuffle_slice next_u32 optional rng of (optional', rng') \<Rightarrow>
        let utxos = map (Pair True) required @ map (Pair False) optional' in
        res_bind (select_sorted_utxos B utxos rate target drain_script) (\<lambda>r. Ok (r, rng')))"

subsection \<open>Facts about the change decision\<close>

lemma decide_change_Err [simp]: "decide_change B rem rate s \<noteq> Err e"
  by (auto simp: decide_change_def Let_def res_simps split: if_splits)

lemma decide_change_Change:
  assumes "decide_change B rem rate s = Ok (Change a f)"
  shows "a \<le> rem" "\<not> is_dust B a s" "a = rem - f"
  using assms
  by (auto simp: decide_change_def Let_def res_simps checked_sub_def split: if_splits)

lemma decide_change_NoChange:
  assumes "decide_change B rem rate s = Ok (NoChange d r f)"
  shows "r = rem" "d = dust_limit B s" "rem - f < dust_limit B s"
  using assms
  by (auto simp: decide_change_def Let_def res_simps checked_sub_def is_dust_def split: if_splits)

lemma excess_amount_le:
  "decide_change B rem rate s = Ok ex \<Longrightarrow> excess_amount ex \<le> rem"
  by (cases ex) (auto dest: decide_change_Change)

subsection \<open>Facts about the selection loop\<close>

definition in_weight :: "btc \<Rightarrow> weighted_utxo \<Rightarrow> weight" where
  "in_weight B wu = txin_weight B + satisfaction_weight wu"

abbreviation values_of :: "(bool \<times> weighted_utxo) list \<Rightarrow> amount" where
  "values_of xs \<equiv> sum_list (map (\<lambda>x. wu_value (snd x)) xs)"

abbreviation weights_of :: "btc \<Rightarrow> (bool \<times> weighted_utxo) list \<Rightarrow> weight" where
  "weights_of B xs \<equiv> sum_list (map (\<lambda>x. in_weight B (snd x)) xs)"

abbreviation utxos_of :: "(bool \<times> weighted_utxo) list \<Rightarrow> utxo list" where
  "utxos_of xs \<equiv> map (\<lambda>x. wu_utxo (snd x)) xs"

text \<open>What an accepted prefix is: everything it holds, and why it stops there.\<close>

definition accepts :: "btc \<Rightarrow> feerate \<Rightarrow> amount \<Rightarrow> amount \<Rightarrow> weight
    \<Rightarrow> (bool \<times> weighted_utxo) list \<Rightarrow> (bool \<times> weighted_utxo) list \<Rightarrow> bool" where
  "accepts B rate target sel tw pre post \<longleftrightarrow>
     (\<forall>x \<in> set pre. wu_ok (snd x)) \<and>
     (\<forall>p x q. pre = p @ x # q \<longrightarrow> \<not> fst x \<longrightarrow>
        (\<exists>f. fee_mul B rate (tw + weights_of B p) = Some f \<and> sel + values_of p < target + f)) \<and>
     (case post of [] \<Rightarrow> True
      | y # _ \<Rightarrow> \<not> fst y \<and> (\<exists>f. fee_mul B rate (tw + weights_of B pre) = Some f \<and>
          target + f \<le> sel + values_of pre))"

lemma scan_utxos_Err [simp]: "scan_utxos B rate target xs sel tw \<noteq> Err e"
  by (induction B rate target xs sel tw rule: scan_utxos.induct)
     (fastforce simp: res_simps split: if_splits prod.splits)+

lemma accepts_Cons:
  assumes "accepts B rate target (sel + wu_value (snd y)) (tw + in_weight B (snd y)) pre post"
    and "wu_ok (snd y)"
    and "\<not> fst y \<Longrightarrow> \<exists>f. fee_mul B rate tw = Some f \<and> sel < target + f"
  shows "accepts B rate target sel tw (y # pre) post"
  using assms
  by (auto simp: accepts_def Cons_eq_append_conv add.assoc split: list.splits)

lemma scan_utxos_Ok:
  "(scan_utxos B rate target xs sel tw :: ('e, _) res) = Ok (us, s, t) \<Longrightarrow>
    \<exists>pre post. xs = pre @ post \<and> us = utxos_of pre \<and> s = sel + values_of pre \<and>
      t = tw + weights_of B pre \<and> accepts B rate target sel tw pre post"
proof (induction xs arbitrary: sel tw us s t)
  case Nil
  then show ?case by (auto simp: accepts_def)
next
  case (Cons y xs)
  obtain must wu where y: "y = (must, wu)" by (cases y)
  consider (stop) f where "\<not> must" "us = []" "s = sel" "t = tw"
        "fee_mul B rate tw = Some f" "target + f \<le> sel"
    | (go) us' where "us = wu_utxo wu # us'" "wu_ok wu"
        "must \<or> (\<exists>f. fee_mul B rate tw = Some f \<and> sel < target + f)"
        "(scan_utxos B rate target xs (sel + wu_value wu) (tw + in_weight B wu) :: ('e, _) res) = Ok (us', s, t)"
    using Cons.prems by (auto simp: y res_simps in_weight_def split: if_splits)
  then show ?case
  proof cases
    case stop
    then show ?thesis
      by (intro exI [of _ "[]"] exI [of _ "y # xs"]) (auto simp: accepts_def y)
  next
    case go
    from Cons.IH [OF go(4)] obtain pre post where IH: "xs = pre @ post" "us' = utxos_of pre"
      "s = sel + wu_value wu + values_of pre" "t = tw + in_weight B wu + weights_of B pre"
      "accepts B rate target (sel + wu_value wu) (tw + in_weight B wu) pre post"
      by blast
    have "accepts B rate target sel tw (y # pre) post"
      by (rule accepts_Cons) (use IH(5) go(2,3) in \<open>auto simp: y\<close>)
    then show ?thesis
      using IH(1-4) go(1)
      by (intro exI [of _ "y # pre"] exI [of _ post]) (simp add: y add.assoc)
  qed
qed

lemma scan_utxos_all_required:
  assumes "(scan_utxos B rate target (map (Pair True) req @ map (Pair False) opt) sel tw :: ('e, _) res) = Ok (us, s, t)"
  shows "\<exists>k. us = map wu_utxo req @ map wu_utxo (take k opt)"
  using assms
proof (induction req arbitrary: sel tw us)
  case Nil
  have "(scan_utxos B rate target (map (Pair False) opt) sel tw :: ('e, _) res) = Ok (us, s, t)"
    using Nil by simp
  from scan_utxos_Ok [OF this] obtain pre post where
    "map (Pair False) opt = pre @ post" "us = utxos_of pre" by blast
  moreover from this(1) have "pre = map (Pair False) (take (length pre) opt)"
    by (metis append_eq_conv_conj take_map)
  ultimately have "us = map wu_utxo (take (length pre) opt)"
    by (metis (no_types, lifting) comp_apply list.map_comp map_eq_conv snd_conv)
  then show ?case by auto
next
  case (Cons w req)
  then obtain us' sel' tw' where us: "us = wu_utxo w # us'" and
    "(scan_utxos B rate target (map (Pair True) req @ map (Pair False) opt) sel' tw' :: ('e, _) res) = Ok (us', s, t)"
    by (auto simp: res_simps)
  from Cons.IH [OF this(2)] us show ?case by auto
qed

text \<open>The sums of the accepted prefix, for the whole selection.\<close>

lemma select_sorted_Ok:
  assumes "select_sorted_utxos B xs rate target s = Ok r"
  obtains pre post remain where "xs = pre @ post" "selected r = utxos_of pre"
    "accepts B rate target 0 0 pre post"
    "fee_mul B rate (weights_of B pre) = Some (fee_amount r)"
    "values_of pre = target + fee_amount r + remain"
    "decide_change B remain rate s = (Ok (cs_excess r) :: (insufficient_funds, excess) res)"
proof -
  from assms obtain us sel tw fee ex where
    scan: "scan_utxos B rate target xs 0 0 = (Ok (us, sel, tw) :: (insufficient_funds, _) res)" and
    fee: "fee_mul B rate tw = Some fee" and le: "target + fee \<le> sel" and
    ex: "decide_change B (sel - (target + fee)) rate s = (Ok ex :: (insufficient_funds, excess) res)" and
    r: "r = \<lparr>selected = us, fee_amount = fee, cs_excess = ex\<rparr>"
    by (auto simp: select_sorted_utxos_def res_simps split: if_splits)
  from scan_utxos_Ok [OF scan] obtain pre post where "xs = pre @ post" "us = utxos_of pre"
    "sel = values_of pre" "tw = weights_of B pre" "accepts B rate target 0 0 pre post"
    by auto
  then show thesis
    using that [of pre post "sel - (target + fee)"] fee le ex r by simp
qed

lemma select_sorted_Err:
  assumes "select_sorted_utxos B xs rate target s = Err e"
  shows "\<exists>f. fee_mul B rate (weights_of B xs) = Some f \<and> needed e = target + f \<and>
    available e = values_of xs \<and> values_of xs < target + f"
proof -
  from assms obtain us sel tw fee where
    scan: "scan_utxos B rate target xs 0 0 = (Ok (us, sel, tw) :: (insufficient_funds, _) res)" and
    fee: "fee_mul B rate tw = Some fee" and lt: "sel < target + fee" and
    e: "e = \<lparr>needed = target + fee, available = sel\<rparr>"
    by (auto simp: select_sorted_utxos_def res_simps split: if_splits)
  from scan_utxos_Ok [OF scan] obtain pre post where pre: "xs = pre @ post"
    "sel = values_of pre" "tw = weights_of B pre" "accepts B rate target 0 0 pre post"
    by auto
  have "post = []"
    using pre fee lt by (auto simp: accepts_def split: list.splits)
  then show ?thesis
    using pre fee lt e by simp
qed

end
