(* ===== verification/Selectors.thy ===== *)
theory Selectors
  imports Coin_Selection
begin

section \<open>The contract of a coin selection algorithm\<close>

text \<open>
  The locale \<open>coin_selector\<close> states what every implementation of \<open>CoinSelectionAlgorithm\<close>
  promises when it succeeds: the selected UTXOs begin with all the required ones, in their order,
  and hold nothing that was not offered, and their value is the target, the fee and the remainder on which the change was
  decided. Transaction creation uses these facts only. \<open>sorted_selector\<close> gives the contract for
  the algorithms that sort by an unspecified (unstable) sort, \<open>random_selector\<close> for the random
  draw; both are interpreted on the executable definitions.
\<close>

definition total_in :: "utxo list \<Rightarrow> amount" where
  "total_in us = sum_list (map utxo_value us)"

lemma total_in_simps [simp]:
  "total_in [] = 0" "total_in (u # us) = utxo_value u + total_in us"
  "total_in (us @ vs) = total_in us + total_in vs"
  by (simp_all add: total_in_def)

lemma total_in_mset: "mset us = mset vs \<Longrightarrow> total_in us = total_in vs"
  by (metis mset_map sum_mset_sum_list total_in_def)

lemma total_in_utxos_of: "total_in (utxos_of xs) = values_of xs"
  by (simp add: total_in_def comp_def)

locale coin_selector =
  fixes B :: btc
    and select :: "weighted_utxo list \<Rightarrow> weighted_utxo list \<Rightarrow> feerate \<Rightarrow> amount \<Rightarrow> script \<Rightarrow> 'r
      \<Rightarrow> (insufficient_funds, cs_result \<times> 'r) res"
  assumes select_funds: "select required optional rate target s rng = Ok (r, rng') \<Longrightarrow>
      \<exists>remain. total_in (selected r) = target + fee_amount r + remain \<and>
        decide_change B remain rate s = (Ok (cs_excess r) :: (insufficient_funds, excess) res)"
    and select_required: "select required optional rate target s rng = Ok (r, rng') \<Longrightarrow>
      take (length required) (selected r) = map wu_utxo required"
    and select_available: "select required optional rate target s rng = Ok (r, rng') \<Longrightarrow>
      mset (selected r) \<subseteq># mset (map wu_utxo (required @ optional))"
    and select_readable: "select required optional rate target s rng = Ok (r, rng') \<Longrightarrow>
      u \<in> set (selected r) \<Longrightarrow> utxo_ok u"
begin

lemma required_submset:
  "select required optional rate target s rng = Ok (r, rng') \<Longrightarrow>
    mset (map wu_utxo required) \<subseteq># mset (selected r)"
  using select_required [of required optional rate target s rng r rng']
  by (metis append_take_drop_id mset_append mset_subset_eq_add_left)

lemma covers_outgoing:
  "select required optional rate target s rng = Ok (r, rng') \<Longrightarrow>
    target + fee_amount r + excess_amount (cs_excess r) \<le> total_in (selected r)"
  using select_funds excess_amount_le by fastforce

lemma change_not_dust:
  assumes "select required optional rate target s rng = Ok (r, rng')"
    and "cs_excess r = Change a f"
  shows "dust_limit B s \<le> a"
proof -
  obtain remain where
    "decide_change B remain rate s = (Ok (Change a f) :: (insufficient_funds, excess) res)"
    using select_funds [OF assms(1)] assms(2) by auto
  from decide_change_Change(2) [OF this] show ?thesis
    by (simp add: is_dust_def)
qed

lemma drain_takes_all:
  "select required [] rate target s rng = Ok (r, rng') \<Longrightarrow>
    mset (selected r) = mset (map wu_utxo required)"
  using required_submset [of required "[]"] select_available [of required "[]"]
  by (fastforce intro: subset_mset.antisym)

lemma selected_distinct:
  assumes "select required optional rate target s rng = Ok (r, rng')"
    and "distinct (map (\<lambda>w. utxo_outpoint (wu_utxo w)) (required @ optional))"
  shows "distinct (map utxo_outpoint (selected r))"
proof -
  have "image_mset utxo_outpoint (mset (selected r))
      \<subseteq># image_mset utxo_outpoint (mset (map wu_utxo (required @ optional)))"
    by (rule image_mset_subseteq_mono [OF select_available [OF assms(1)]])
  then have "mset (map utxo_outpoint (selected r))
      \<subseteq># mset (map (\<lambda>w. utxo_outpoint (wu_utxo w)) (required @ optional))"
    by (simp add: multiset.map_comp comp_def)
  then show ?thesis
    using assms(2) by (rule distinct_mset_subset)
qed

end

subsection \<open>Algorithms over a sorted sequence\<close>

lemma select_sorted_required_first:
  assumes "select_sorted_utxos B (map (Pair True) req @ map (Pair False) opt) rate target s = Ok r"
  obtains k remain where "selected r = map wu_utxo req @ map wu_utxo (take k opt)"
    "total_in (selected r) = target + fee_amount r + remain"
    "decide_change B remain rate s = (Ok (cs_excess r) :: (insufficient_funds, excess) res)"
    "\<forall>u \<in> set (selected r). utxo_ok u"
proof -
  from assms obtain us sel tw where
    scan: "scan_utxos B rate target (map (Pair True) req @ map (Pair False) opt) 0 0
       = (Ok (us, sel, tw) :: (insufficient_funds, _) res)" and us: "selected r = us"
    by (auto simp: select_sorted_utxos_def res_simps split: if_splits)
  from scan_utxos_all_required [OF scan] obtain k where
    k: "us = map wu_utxo req @ map wu_utxo (take k opt)" ..
  from select_sorted_Ok [OF assms] obtain pre post remain where
    pre: "selected r = utxos_of pre" "accepts B rate target 0 0 pre post"
      "values_of pre = target + fee_amount r + remain"
      "decide_change B remain rate s = (Ok (cs_excess r) :: (insufficient_funds, excess) res)"
    by metis
  then show thesis
    using that [of k remain] k us
    by (auto simp: total_in_utxos_of [symmetric] accepts_def simp del: map_map)
qed

lemma mset_map_take_subset: "mset (map f (take k xs)) \<subseteq># mset (map f xs)"
  by (metis append_take_drop_id map_append mset_append mset_subset_eq_add_left)

lemma sorted_selection_contract:
  assumes "select_sorted_utxos B (map (Pair True) req @ map (Pair False) opt') rate target s = Ok r"
    and "mset opt' = mset opt"
  shows "(\<exists>remain. total_in (selected r) = target + fee_amount r + remain \<and>
      decide_change B remain rate s = (Ok (cs_excess r) :: (insufficient_funds, excess) res)) \<and>
    take (length req) (selected r) = map wu_utxo req \<and>
    mset (selected r) \<subseteq># mset (map wu_utxo (req @ opt)) \<and>
    (\<forall>u \<in> set (selected r). utxo_ok u)"
proof -
  from select_sorted_required_first [OF assms(1)] obtain k remain where
    k: "selected r = map wu_utxo req @ map wu_utxo (take k opt')"
      "total_in (selected r) = target + fee_amount r + remain"
      "decide_change B remain rate s = (Ok (cs_excess r) :: (insufficient_funds, excess) res)"
      "\<forall>u \<in> set (selected r). utxo_ok u"
    by metis
  have "mset (map wu_utxo (take k opt')) \<subseteq># mset (map wu_utxo opt)"
    using mset_map_take_subset [of wu_utxo k opt'] assms(2) by simp
  then show ?thesis
    using k by auto
qed

lemma total_preorder_value_le [simp]: "total_preorder value_le"
  by (auto simp: total_preorder_def value_le_def)

lemma total_preorder_age_le: "total_preorder (pos_le B) \<Longrightarrow> total_preorder (age_le B)"
  by (auto simp: total_preorder_def split: utxo.splits)

locale sorted_selector =
  unstable_sort usort for usort :: "(weighted_utxo \<Rightarrow> weighted_utxo \<Rightarrow> bool)
    \<Rightarrow> weighted_utxo list \<Rightarrow> weighted_utxo list" +
  fixes B :: btc

sublocale sorted_selector \<subseteq> largest: coin_selector B "largest_first_select B usort"
proof
  fix required optional rate target s and rng :: 'a and r rng' u
  assume "largest_first_select B usort required optional rate target s rng = Ok (r, rng')"
  then have "select_sorted_utxos B
      (map (Pair True) required @ map (Pair False) (rev (usort value_le optional))) rate target s = Ok r"
    by (auto simp: largest_first_select_def Let_def res_simps)
  note c = sorted_selection_contract [OF this, of optional]
  show "\<exists>remain. total_in (selected r) = target + fee_amount r + remain \<and>
      decide_change B remain rate s = (Ok (cs_excess r) :: (insufficient_funds, excess) res)"
    "take (length required) (selected r) = map wu_utxo required"
    "mset (selected r) \<subseteq># mset (map wu_utxo (required @ optional))"
    "u \<in> set (selected r) \<Longrightarrow> utxo_ok u"
    using c by (auto simp: usort_mset)
qed

sublocale sorted_selector \<subseteq> oldest: coin_selector B "oldest_first_select B usort"
proof
  fix required optional rate target s and rng :: 'a and r rng' u
  assume "oldest_first_select B usort required optional rate target s rng = Ok (r, rng')"
  then have "select_sorted_utxos B
      (map (Pair True) required @ map (Pair False) (usort (age_le B) optional)) rate target s = Ok r"
    by (auto simp: oldest_first_select_def Let_def res_simps)
  note c = sorted_selection_contract [OF this, of optional]
  show "\<exists>remain. total_in (selected r) = target + fee_amount r + remain \<and>
      decide_change B remain rate s = (Ok (cs_excess r) :: (insufficient_funds, excess) res)"
    "take (length required) (selected r) = map wu_utxo required"
    "mset (selected r) \<subseteq># mset (map wu_utxo (required @ optional))"
    "u \<in> set (selected r) \<Longrightarrow> utxo_ok u"
    using c by (auto simp: usort_mset)
qed

locale random_selector =
  fixes B :: btc and next_u32 :: "'r \<Rightarrow> u32 \<times> 'r"

sublocale random_selector \<subseteq> draw: coin_selector B "single_random_draw_select B next_u32"
proof
  fix required optional :: "weighted_utxo list" and rate target s and rng :: 'r and r rng' u
  obtain opt' rng2 where sh: "shuffle_slice next_u32 optional rng = (opt', rng2)"
    by (cases "shuffle_slice next_u32 optional rng")
  assume "single_random_draw_select B next_u32 required optional rate target s rng = Ok (r, rng')"
  then have "select_sorted_utxos B
      (map (Pair True) required @ map (Pair False) opt') rate target s = Ok r"
    by (auto simp: single_random_draw_select_def sh Let_def res_simps)
  moreover have "mset opt' = mset optional"
    using mset_shuffle_slice [of next_u32 optional rng] by (simp add: sh)
  ultimately have c: "(\<exists>remain. total_in (selected r) = target + fee_amount r + remain \<and>
      decide_change B remain rate s = (Ok (cs_excess r) :: (insufficient_funds, excess) res)) \<and>
    take (length required) (selected r) = map wu_utxo required \<and>
    mset (selected r) \<subseteq># mset (map wu_utxo (required @ optional)) \<and>
    (\<forall>u \<in> set (selected r). utxo_ok u)"
    by (rule sorted_selection_contract)
  show "\<exists>remain. total_in (selected r) = target + fee_amount r + remain \<and>
      decide_change B remain rate s = (Ok (cs_excess r) :: (insufficient_funds, excess) res)"
    "take (length required) (selected r) = map wu_utxo required"
    "mset (selected r) \<subseteq># mset (map wu_utxo (required @ optional))"
    "u \<in> set (selected r) \<Longrightarrow> utxo_ok u"
    using c by auto
qed

interpretation sorted_sel: sorted_selector sort_by B for B
  by unfold_locales

interpretation draw_sel: random_selector B next_u32 for B next_u32 .

text \<open>A local output of a given value, for concrete runs.\<close>

definition example_utxo :: "nat \<Rightarrow> amount \<Rightarrow> weighted_utxo" where
  "example_utxo n v = \<lparr>satisfaction_weight = 100, wu_utxo = Local
     \<lparr>lo_outpoint = OutPoint n 0, lo_txout = \<lparr>txo_value = v, txo_script = []\<rparr>, lo_keychain = External,
      lo_is_spent = False, lo_derivation_index = 0, lo_chain_position = Unconfirmed None None\<rparr>\<rparr>"

text \<open>Unfolding rules for concrete runs.\<close>

lemmas arith_eval = u64_add_def u64_sub_def i64_add_def i64_sub_def in_i64_def I64_MIN_def I64_MAX_def
  U64_MAX_def to_signed_def to_unsigned_def checked_sub_def u64_sum_def

lemmas select_eval = arith_eval select_sorted_utxos_def decide_change_def is_dust_def
  txout_value_def example_utxo_def btc_example_def utxo_value_def utxo_ok_def

subsection \<open>Properties of the sorted algorithms\<close>

lemma accepts_split:
  assumes "map (Pair True) req @ map (Pair False) opt = pre @ post" "accepts B rate target 0 0 pre post"
  obtains k where "k \<le> length opt" "pre = map (Pair True) req @ map (Pair False) (take k opt)"
proof -
  have len: "length req \<le> length pre"
  proof (rule ccontr)
    assume "\<not> length req \<le> length pre"
    then obtain y ys where "drop (length pre) req = y # ys"
      by (metis Cons_nth_drop_Suc not_le)
    moreover have "post = drop (length pre) (map (Pair True) req @ map (Pair False) opt)"
      by (simp add: assms(1))
    ultimately have "post = (True, y) # map (Pair True) ys @ map (Pair False) opt"
      using \<open>\<not> length req \<le> length pre\<close> by (simp add: drop_map)
    then show False
      using assms(2) by (simp add: accepts_def)
  qed
  have "pre = take (length pre) (map (Pair True) req @ map (Pair False) opt)"
    by (simp add: assms(1))
  also have "\<dots> = map (Pair True) req @ map (Pair False) (take (length pre - length req) opt)"
    using len by (simp add: take_map)
  finally have "pre = map (Pair True) req @ map (Pair False) (take (length pre - length req) opt)" .
  moreover have "length pre \<le> length req + length opt"
    using arg_cong [OF assms(1), of length] by simp
  ultimately show thesis
    using that [of "length pre - length req"] by simp
qed

text \<open>The prefix \<open>w @ take k opt\<close> is the shortest one that pays for itself.\<close>

definition shortest_prefix :: "btc \<Rightarrow> feerate \<Rightarrow> amount \<Rightarrow> weighted_utxo list \<Rightarrow> weighted_utxo list \<Rightarrow> nat \<Rightarrow> bool" where
  "shortest_prefix B rate target req opt k \<longleftrightarrow> k \<le> length opt \<and> (\<forall>j < k. \<exists>f.
     fee_mul B rate (sum_list (map (in_weight B) (req @ take j opt))) = Some f \<and>
     sum_list (map (\<lambda>w. wu_value w) (req @ take j opt)) < target + f)"

lemma select_sorted_shortest:
  assumes "select_sorted_utxos B (map (Pair True) req @ map (Pair False) opt) rate target s = Ok r"
  obtains k where "selected r = map wu_utxo (req @ take k opt)" "shortest_prefix B rate target req opt k"
proof -
  from select_sorted_Ok [OF assms] obtain pre post where
    xs: "map (Pair True) req @ map (Pair False) opt = pre @ post" and sel: "selected r = utxos_of pre" and
    acc: "accepts B rate target 0 0 pre post" by metis
  from accepts_split [OF xs acc] obtain k where
    k: "k \<le> length opt" and pre: "pre = map (Pair True) req @ map (Pair False) (take k opt)" .
  have "\<exists>f. fee_mul B rate (sum_list (map (in_weight B) (req @ take j opt))) = Some f \<and>
     sum_list (map (\<lambda>w. wu_value w) (req @ take j opt)) < target + f" if "j < k" for j
  proof -
    have "take k opt = take j opt @ opt ! j # drop (Suc j) (take k opt)"
      using that k by (metis (no_types, lifting) id_take_nth_drop length_take min.absorb2 nth_take
          order_less_imp_le take_take min.absorb1)
    then have "pre = (map (Pair True) req @ map (Pair False) (take j opt)) @ (False, opt ! j)
        # map (Pair False) (drop (Suc j) (take k opt))"
      by (simp add: pre flip: map_append) (metis list.simps(9) map_append)
    moreover have "\<forall>p x q. pre = p @ x # q \<longrightarrow> \<not> fst x \<longrightarrow>
        (\<exists>f. fee_mul B rate (weights_of B p) = Some f \<and> values_of p < target + f)"
      using acc by (simp add: accepts_def)
    ultimately have "\<exists>f. fee_mul B rate (weights_of B (map (Pair True) req @ map (Pair False) (take j opt))) = Some f
        \<and> values_of (map (Pair True) req @ map (Pair False) (take j opt)) < target + f"
      by (metis fst_conv)
    then show ?thesis
      by (simp add: comp_def)
  qed
  then show thesis
    using that [of k] k by (simp add: shortest_prefix_def sel pre comp_def)
qed

text \<open>Largest-first selection takes the largest outputs and stops as early as it can. The
  result is the required UTXOs followed by a prefix of the optional ones in descending order of
  value; the prefix is the shortest whose value covers the target and the fee of the inputs
  selected so far.\<close>

theorem largest_first_shortest:
  assumes "unstable_sort usort"
    and "largest_first_select B usort required optional rate target s rng = Ok (r, rng')"
  shows "\<exists>sorted k. mset sorted = mset optional \<and> sorted_wrt (\<lambda>a b. wu_value b \<le> wu_value a) sorted \<and>
    selected r = map wu_utxo (required @ take k sorted) \<and>
    shortest_prefix B rate target required sorted k"
proof -
  let ?sorted = "rev (usort value_le optional)"
  from assms(2) have "select_sorted_utxos B (map (Pair True) required @ map (Pair False) ?sorted) rate target s
      = Ok r"
    by (auto simp: largest_first_select_def Let_def res_simps)
  from select_sorted_shortest [OF this] obtain k where
    "selected r = map wu_utxo (required @ take k ?sorted)" "shortest_prefix B rate target required ?sorted k" .
  moreover have "mset ?sorted = mset optional"
    by (simp add: unstable_sort.usort_mset [OF assms(1)])
  moreover have "sorted_wrt (\<lambda>a b. wu_value b \<le> wu_value a) ?sorted"
    using unstable_sort.usort_sorted [OF assms(1) total_preorder_value_le, of optional]
    by (simp add: sorted_wrt_rev value_le_def [abs_def])
  ultimately show ?thesis by blast
qed

theorem largest_first_shortest_witness:
  "\<exists>sorted k. mset sorted = mset [example_utxo 0 4000, example_utxo 1 6000] \<and>
    sorted_wrt (\<lambda>a b. wu_value b \<le> wu_value a) sorted \<and>
    [wu_utxo (example_utxo 1 6000)] = map wu_utxo (take k sorted) \<and>
    shortest_prefix btc_example 1000 5000 [] sorted k"
proof -
  have run: "largest_first_select btc_example sort_by [] [example_utxo 0 4000, example_utxo 1 6000] 1000 5000 [] ()
      = Ok (\<lparr>selected = [wu_utxo (example_utxo 1 6000)], fee_amount = 264,
          cs_excess = Change 700 36\<rparr>, ())"
    by (simp add: largest_first_select_def value_le_def select_eval panic_unless_def)
  from largest_first_shortest [OF unstable_sort_sort_by run] show ?thesis
    by (simp only: cs_result.select_convs append_Nil)
qed

text \<open>Oldest-first selection spends confirmed outputs in order of confirmation. The result is
  the required UTXOs followed by a prefix of the optional ones, the wallet's own before the foreign
  ones and the wallet's own ordered by their position in the chain; again the shortest prefix that
  pays for itself.\<close>

lemma oldest_first_shortest:
  assumes "unstable_sort usort" "total_preorder (pos_le B)"
    and "oldest_first_select B usort required optional rate target s rng = Ok (r, rng')"
  shows "\<exists>sorted k. mset sorted = mset optional \<and> sorted_wrt (age_le B) sorted \<and>
    selected r = map wu_utxo (required @ take k sorted) \<and>
    shortest_prefix B rate target required sorted k"
proof -
  let ?sorted = "usort (age_le B) optional"
  from assms(3) have "select_sorted_utxos B (map (Pair True) required @ map (Pair False) ?sorted) rate target s
      = Ok r"
    by (auto simp: oldest_first_select_def Let_def res_simps)
  from select_sorted_shortest [OF this] obtain k where
    "selected r = map wu_utxo (required @ take k ?sorted)" "shortest_prefix B rate target required ?sorted k" .
  then show ?thesis
    using unstable_sort.usort_mset [OF assms(1)]
      unstable_sort.usort_sorted [OF assms(1) total_preorder_age_le [OF assms(2)]]
    by blast
qed

lemma oldest_first_shortest_witness:
  "\<exists>sorted k. mset sorted = mset [example_utxo 0 4000, example_utxo 1 6000] \<and>
    sorted_wrt (age_le btc_example) sorted \<and>
    [wu_utxo (example_utxo 0 4000), wu_utxo (example_utxo 1 6000)] = map wu_utxo (take k sorted) \<and>
    shortest_prefix btc_example 1000 5000 [] sorted k"
proof -
  have run: "oldest_first_select btc_example sort_by [] [example_utxo 0 4000, example_utxo 1 6000] 1000 5000 [] ()
      = Ok (\<lparr>selected = [wu_utxo (example_utxo 0 4000), wu_utxo (example_utxo 1 6000)], fee_amount = 528,
          cs_excess = Change 4436 36\<rparr>, ())"
    by (simp add: oldest_first_select_def select_eval)
  from oldest_first_shortest [OF unstable_sort_sort_by pos_le_example run] show ?thesis
    by (simp only: cs_result.select_convs append_Nil)
qed

text \<open>A random draw fails only when everything together is not enough. The error reports the
  value of all the UTXOs, required and optional, as available, and the target plus the fee of
  spending all of them as needed; the available amount is smaller.\<close>

lemma random_draw_insufficient:
  assumes "single_random_draw_select B next_u32 required optional rate target s rng = Err e"
  shows "\<exists>f. fee_mul B rate (sum_list (map (in_weight B) (required @ optional))) = Some f \<and>
    needed e = target + f \<and> available e = total_in (map wu_utxo (required @ optional)) \<and>
    available e < needed e"
proof -
  obtain opt' rng2 where sh: "shuffle_slice next_u32 optional rng = (opt', rng2)"
    by (cases "shuffle_slice next_u32 optional rng")
  have perm: "mset opt' = mset optional"
    using mset_shuffle_slice [of next_u32 optional rng] by (simp add: sh)
  from assms have "select_sorted_utxos B (map (Pair True) required @ map (Pair False) opt') rate target s = Err e"
    by (auto simp: single_random_draw_select_def sh Let_def res_simps)
  from select_sorted_Err [OF this] obtain f where
    "fee_mul B rate (weights_of B (map (Pair True) required @ map (Pair False) opt')) = Some f"
    "needed e = target + f" "available e = values_of (map (Pair True) required @ map (Pair False) opt')"
    "available e < needed e" by auto
  moreover have "sum_list (map (in_weight B) opt') = sum_list (map (in_weight B) optional)"
    "sum_list (map (\<lambda>w. wu_value w) opt') = sum_list (map (\<lambda>w. wu_value w) optional)"
    by (metis perm mset_map sum_mset_sum_list)+
  ultimately show ?thesis
    by (simp add: comp_def total_in_def)
qed

lemma random_draw_insufficient_witness:
  "\<exists>f. fee_mul btc_example 1000 (sum_list (map (in_weight btc_example) [example_utxo 0 4000])) = Some f \<and>
    5264 = 5000 + f \<and> 4000 = total_in (map wu_utxo [example_utxo 0 4000]) \<and> (4000::nat) < 5264"
proof -
  have run: "single_random_draw_select btc_example (\<lambda>r. (0, r)) [] [example_utxo 0 4000] 1000 5000 [] ()
      = Err \<lparr>needed = 5264, available = 4000\<rparr>"
    by (simp add: single_random_draw_select_def shuffle_slice_def select_eval)
  from random_draw_insufficient [OF run] show ?thesis
    by (simp only: insufficient_funds.select_convs append_Nil)
qed

end
