(* ===== verification/Bnb.thy ===== *)
theory Bnb
  imports Selectors
begin

section \<open>Branch and bound coin selection (src/wallet/coin_selection.rs)\<close>

text \<open>
  \<open>BranchAndBoundCoinSelection\<close>: the output groups with their effective values, the depth-first
  search as a step on an explicit state (one iteration of the \<open>for\<close> loop), the loop bounded by the
  number of tries, and the entry point with its early exits and its fallback. Proved: the search
  keeps its partial sums exact and never overflows or indexes out of bounds; what it returns lies
  between the target and the target plus the cost of change; when the number of tries suffices
  (up to 15 candidates) it is the smallest such sum, and a failure means there is none.
\<close>

subsection \<open>Output groups\<close>

record output_group =
  og_utxo :: weighted_utxo
  og_fee :: amount
  og_eff :: int

definition output_group_new :: "btc \<Rightarrow> feerate \<Rightarrow> weighted_utxo \<Rightarrow> ('e, output_group) res" where
  "output_group_new B rate wu =
     res_bind (u64_add (txin_weight B) (satisfaction_weight wu)) (\<lambda>w.
     res_bind (expect (fee_mul B rate w)) (\<lambda>fee.
     res_bind (txout_value (wu_utxo wu)) (\<lambda>v.
     res_bind (expect (to_signed v)) (\<lambda>sv.
     res_bind (expect (to_signed fee)) (\<lambda>sf.
     res_bind (i64_sub sv sf) (\<lambda>eff.
     Ok \<lparr>og_utxo = wu, og_fee = fee, og_eff = eff\<rparr>))))))"

definition sum_eff :: "output_group list \<Rightarrow> ('e, int) res" where
  "sum_eff ogs = res_fold (\<lambda>acc g. i64_add acc (og_eff g)) 0 ogs"

definition eff_le :: "output_group \<Rightarrow> output_group \<Rightarrow> bool" where
  "eff_le a b \<longleftrightarrow> og_eff a \<le> og_eff b"

definition calculate_cs_result ::
  "output_group list \<Rightarrow> output_group list \<Rightarrow> excess \<Rightarrow> ('e, cs_result) res" where
  "calculate_cs_result selected_utxos required_utxos ex =
     (let sel = required_utxos @ selected_utxos in
      res_bind (u64_sum (map og_fee sel)) (\<lambda>fee.
      Ok \<lparr>selected = map (\<lambda>g. wu_utxo (og_utxo g)) sel, fee_amount = fee, cs_excess = ex\<rparr>))"

subsection \<open>The search\<close>

datatype bnb_error = NoExactMatch | TotalTriesExceeded

record bnb_state =
  current_selection :: "bool list"
  curr_value :: int
  curr_available_value :: int
  best_selection :: "bool list"
  best_selection_value :: "int option"

datatype bnb_control = Next bnb_state | Break bnb_state | NoMatch

definition BNB_TOTAL_TRIES :: nat where
  "BNB_TOTAL_TRIES = 100000"

definition og_at :: "output_group list \<Rightarrow> nat \<Rightarrow> ('e, int) res" where
  "og_at ogs i = res_bind (expect (get_nth ogs i)) (\<lambda>g. Ok (og_eff g))"

text \<open>The inner \<open>while let Some(false) = current_selection.last()\<close> loop.\<close>

function walk_back :: "output_group list \<Rightarrow> bool list \<Rightarrow> int \<Rightarrow> ('e, bool list \<times> int) res" where
  "walk_back ogs sel avail0 =
     (if sel = [] \<or> last sel then Ok (sel, avail0)
      else let sel' = butlast sel in
           res_bind (og_at ogs (length sel')) (\<lambda>e.
           res_bind (i64_add avail0 e) (\<lambda>avail0'. walk_back ogs sel' avail0')))"
  by pat_completeness auto
termination by (relation "measure (\<lambda>(_, sel, _). length sel)") auto

declare walk_back.simps [simp del]

definition bnb_backtrack :: "output_group list \<Rightarrow> bnb_state \<Rightarrow> ('e, bnb_control) res" where
  "bnb_backtrack ogs st =
     res_bind (walk_back ogs (current_selection st) (curr_available_value st)) (\<lambda>(sel, avail0).
     let st' = st\<lparr>current_selection := sel, curr_available_value := avail0\<rparr> in
     if sel = [] then (if best_selection st = [] then Ok NoMatch else Ok (Break st'))
     else
       let sel' = butlast sel @ [False] in
       res_bind (og_at ogs (length sel' - 1)) (\<lambda>e.
       res_bind (i64_sub (curr_value st) e) (\<lambda>c.
       Ok (Next (st'\<lparr>current_selection := sel', curr_value := c\<rparr>)))))"

definition bnb_forward :: "output_group list \<Rightarrow> bnb_state \<Rightarrow> ('e, bnb_control) res" where
  "bnb_forward ogs st =
     res_bind (og_at ogs (length (current_selection st))) (\<lambda>e.
     res_bind (i64_sub (curr_available_value st) e) (\<lambda>a.
     res_bind (i64_add (curr_value st) e) (\<lambda>c.
     Ok (Next (st\<lparr>current_selection := current_selection st @ [True],
                  curr_available_value := a, curr_value := c\<rparr>)))))"

definition bnb_record_best :: "bnb_state \<Rightarrow> bnb_state" where
  "bnb_record_best st =
     (if (case best_selection_value st of None \<Rightarrow> True | Some b \<Rightarrow> curr_value st < b)
      then st\<lparr>best_selection := current_selection st, best_selection_value := Some (curr_value st)\<rparr>
      else st)"

definition bnb_step :: "output_group list \<Rightarrow> int \<Rightarrow> int \<Rightarrow> bnb_state \<Rightarrow> ('e, bnb_control) res" where
  "bnb_step ogs target cost st =
     res_bind (i64_add (curr_value st) (curr_available_value st)) (\<lambda>reach.
     res_bind (if reach < target then Ok True
               else res_bind (i64_add target cost) (\<lambda>lim. Ok (lim < curr_value st))) (\<lambda>cut.
     if cut then bnb_backtrack ogs st
     else if target \<le> curr_value st then
       let st' = bnb_record_best st in
       if curr_value st = target then Ok (Break st') else bnb_backtrack ogs st'
     else bnb_forward ogs st))"

text \<open>The \<open>for\<close> loop: \<open>Next\<close> when the tries are used up, \<open>Break\<close> when it was left.\<close>

fun bnb_loop :: "output_group list \<Rightarrow> int \<Rightarrow> int \<Rightarrow> nat \<Rightarrow> bnb_state \<Rightarrow> ('e, bnb_control) res" where
  "bnb_loop ogs target cost 0 st = Ok (Next st)"
| "bnb_loop ogs target cost (Suc k) st =
     res_bind (bnb_step ogs target cost st) (\<lambda>c.
       case c of Next st' \<Rightarrow> bnb_loop ogs target cost k st' | Break st' \<Rightarrow> Ok (Break st') | NoMatch \<Rightarrow> Ok NoMatch)"

definition bnb_start :: "int \<Rightarrow> int \<Rightarrow> bnb_state" where
  "bnb_start curr0 avail0 = \<lparr>current_selection = [], curr_value = curr0, curr_available_value = avail0,
     best_selection = [], best_selection_value = None\<rparr>"

definition pick :: "bool list \<Rightarrow> 'a list \<Rightarrow> 'a list" where
  "pick sel xs = map snd (filter fst (zip sel xs))"

definition bnb_finish :: "btc \<Rightarrow> output_group list \<Rightarrow> output_group list \<Rightarrow> int \<Rightarrow> feerate \<Rightarrow> script
    \<Rightarrow> bnb_state \<Rightarrow> (bnb_error, cs_result) res" where
  "bnb_finish B required ogs target rate drain_script st =
     (if best_selection st = [] then Err TotalTriesExceeded
      else
        res_bind (expect (best_selection_value st)) (\<lambda>sel_amount.
        res_bind (i64_sub sel_amount target) (\<lambda>d.
        res_bind (expect (to_unsigned d)) (\<lambda>remaining.
        res_bind (decide_change B remaining rate drain_script) (\<lambda>ex.
        calculate_cs_result (pick (best_selection st) ogs) required ex)))))"

definition bnb :: "btc \<Rightarrow> ((output_group \<Rightarrow> output_group \<Rightarrow> bool) \<Rightarrow> output_group list \<Rightarrow> output_group list)
    \<Rightarrow> output_group list \<Rightarrow> output_group list \<Rightarrow> int \<Rightarrow> int \<Rightarrow> int \<Rightarrow> int \<Rightarrow> script \<Rightarrow> feerate
    \<Rightarrow> (bnb_error, cs_result) res" where
  "bnb B usort required optional curr0 avail0 target cost drain_script rate =
     (let ogs = rev (usort eff_le optional) in
      res_bind (bnb_loop ogs target cost BNB_TOTAL_TRIES (bnb_start curr0 avail0)) (\<lambda>c.
        case c of Next st \<Rightarrow> bnb_finish B required ogs target rate drain_script st
        | Break st \<Rightarrow> bnb_finish B required ogs target rate drain_script st
        | NoMatch \<Rightarrow> Err NoExactMatch))"

text \<open>\<open>BranchAndBoundCoinSelection::coin_select\<close>, with the size of a change output and the
  fallback algorithm.\<close>

definition DEFAULT_SIZE_OF_CHANGE :: nat where
  "DEFAULT_SIZE_OF_CHANGE = 8 + 1 + 22"

definition bnb_insufficient :: "output_group list \<Rightarrow> amount \<Rightarrow> (insufficient_funds, 'a) res" where
  "bnb_insufficient ogs target =
     res_bind (u64_sum (map og_fee ogs)) (\<lambda>fees.
     res_bind (res_bind (res_map (\<lambda>g. txout_value (wu_utxo (og_utxo g))) ogs) u64_sum) (\<lambda>value.
     res_bind (u64_add target fees) (\<lambda>n. Err \<lparr>needed = n, available = value\<rparr>)))"

definition bnb_or_fallback :: "btc
    \<Rightarrow> ((output_group \<Rightarrow> output_group \<Rightarrow> bool) \<Rightarrow> output_group list \<Rightarrow> output_group list)
    \<Rightarrow> (insufficient_funds, cs_result \<times> 'r) res
    \<Rightarrow> output_group list \<Rightarrow> output_group list \<Rightarrow> int \<Rightarrow> int \<Rightarrow> int \<Rightarrow> int \<Rightarrow> feerate \<Rightarrow> script \<Rightarrow> 'r
    \<Rightarrow> (insufficient_funds, cs_result \<times> 'r) res" where
  "bnb_or_fallback B usort fallback required_ogs optional_ogs c0 a signed_target cost_of_change rate
      drain_script rng =
     (if signed_target < c0 then
        res_bind (i64_sub c0 signed_target) (\<lambda>d.
        res_bind (expect (to_unsigned d)) (\<lambda>remaining.
        res_bind (decide_change B remaining rate drain_script) (\<lambda>ex.
        res_bind (calculate_cs_result [] required_ogs ex) (\<lambda>r. Ok (r, rng)))))
      else
        (case bnb B usort required_ogs optional_ogs c0 a signed_target cost_of_change drain_script rate of
           Ok r \<Rightarrow> Ok (r, rng)
         | Err _ \<Rightarrow> fallback
         | Panic \<Rightarrow> Panic))"

definition bnb_select :: "btc
    \<Rightarrow> ((output_group \<Rightarrow> output_group \<Rightarrow> bool) \<Rightarrow> output_group list \<Rightarrow> output_group list) \<Rightarrow> nat
    \<Rightarrow> (weighted_utxo list \<Rightarrow> weighted_utxo list \<Rightarrow> feerate \<Rightarrow> amount \<Rightarrow> script \<Rightarrow> 'r
        \<Rightarrow> (insufficient_funds, cs_result \<times> 'r) res)
    \<Rightarrow> weighted_utxo list \<Rightarrow> weighted_utxo list \<Rightarrow> feerate \<Rightarrow> amount \<Rightarrow> script \<Rightarrow> 'r
    \<Rightarrow> (insufficient_funds, cs_result \<times> 'r) res" where
  "bnb_select B usort size_of_change fallback required optional rate target drain_script rng =
     res_bind (res_map (output_group_new B rate) required) (\<lambda>required_ogs.
     res_bind (res_map (output_group_new B rate) optional) (\<lambda>all_ogs.
     let optional_ogs = filter (\<lambda>g. 0 < og_eff g) all_ogs in
     res_bind (sum_eff required_ogs) (\<lambda>c0.
     res_bind (sum_eff optional_ogs) (\<lambda>a.
     res_bind (expect (weight_from_vb B size_of_change)) (\<lambda>cw.
     res_bind (expect (fee_mul B rate cw)) (\<lambda>cf.
     res_bind (expect (to_signed cf)) (\<lambda>cost_of_change.
     res_bind (i64_add a c0) (\<lambda>total.
     if total < 0 \<or> nat total < target then bnb_insufficient (required_ogs @ optional_ogs) target
     else
       res_bind (expect (to_signed target)) (\<lambda>signed_target.
       bnb_or_fallback B usort (fallback required optional rate target drain_script rng)
         required_ogs optional_ogs c0 a signed_target cost_of_change rate drain_script rng)))))))))"

subsection \<open>Selections\<close>

lemma pick_Nil [simp]: "pick [] xs = []" "pick sel [] = []"
  by (simp_all add: pick_def)

lemma pick_Cons [simp]: "pick (b # sel) (x # xs) = (if b then x # pick sel xs else pick sel xs)"
  by (simp add: pick_def)

lemma pick_append: "length sel \<le> length xs \<Longrightarrow>
    pick (sel @ sel') xs = pick sel xs @ pick sel' (drop (length sel) xs)"
proof (induction sel arbitrary: xs)
  case (Cons b sel)
  then show ?case by (cases xs) auto
qed simp

lemma pick_mset_subset: "mset (pick sel xs) \<subseteq># mset xs"
proof (induction sel arbitrary: xs)
  case (Cons b sel)
  show ?case
  proof (cases xs)
    case (Cons x ys)
    then show ?thesis
      using Cons.IH [of ys] by (auto intro: subset_mset.order_trans)
  qed simp
qed simp

lemma set_pick_subset: "set (pick sel xs) \<subseteq> set xs"
  using pick_mset_subset [of sel xs] by (metis set_mset_mono set_mset_mset)

abbreviation effs :: "output_group list \<Rightarrow> int" where
  "effs ogs \<equiv> sum_list (map og_eff ogs)"

lemma effs_nonneg: "\<forall>g \<in> set ogs. 0 \<le> og_eff g \<Longrightarrow> 0 \<le> effs ogs"
  by (induction ogs) auto

lemma effs_pick_bounds:
  assumes "\<forall>g \<in> set ogs. 0 \<le> og_eff g"
  shows "0 \<le> effs (pick sel ogs)" "effs (pick sel ogs) \<le> effs ogs"
proof -
  show "0 \<le> effs (pick sel ogs)"
    using assms set_pick_subset [of sel ogs] by (auto intro!: effs_nonneg)
  show "effs (pick sel ogs) \<le> effs ogs"
    using assms
  proof (induction sel arbitrary: ogs)
    case Nil
    then show ?case by (simp add: effs_nonneg)
  next
    case (Cons b sel)
    then show ?case
    proof (cases ogs)
      case (Cons x ys)
      then show ?thesis
        using Cons.IH [of ys] Cons.prems by auto
    qed simp
  qed
qed

text \<open>The value of a selection, and the selections still to be visited from a position of the
  depth-first search: the extensions of the current one, and those that leave out an output
  which the current one includes.\<close>

definition sel_value :: "int \<Rightarrow> output_group list \<Rightarrow> bool list \<Rightarrow> int" where
  "sel_value c0 ogs v = c0 + effs (pick v ogs)"

definition extends_sel :: "bool list \<Rightarrow> bool list \<Rightarrow> bool" where
  "extends_sel sel v \<longleftrightarrow> take (length sel) v = sel"

definition omits_later :: "bool list \<Rightarrow> bool list \<Rightarrow> bool" where
  "omits_later sel v \<longleftrightarrow> (\<exists>i < length sel. sel ! i \<and> take i v = take i sel \<and> \<not> v ! i)"

definition pending :: "bool list \<Rightarrow> bool list \<Rightarrow> bool" where
  "pending sel v \<longleftrightarrow> extends_sel sel v \<or> omits_later sel v"

lemma omits_later_snoc:
  "length sel < length v \<Longrightarrow>
    omits_later (sel @ [b]) v \<longleftrightarrow> omits_later sel v \<or> (b \<and> extends_sel sel v \<and> \<not> v ! length sel)"
  unfolding omits_later_def length_append list.size One_nat_def add_0_right add_Suc_right
    Ex_less_Suc extends_sel_def
  by (auto simp: nth_append)

lemma extends_sel_snoc:
  "length sel < length v \<Longrightarrow> extends_sel (sel @ [b]) v \<longleftrightarrow> extends_sel sel v \<and> v ! length sel = b"
  by (auto simp: extends_sel_def take_Suc_conv_app_nth)

lemma pending_forward: "length sel < length v \<Longrightarrow> pending (sel @ [True]) v = pending sel v"
  by (auto simp: pending_def omits_later_snoc extends_sel_snoc)

lemma pending_flip: "length sel < length v \<Longrightarrow> pending (sel @ [False]) v = omits_later (sel @ [True]) v"
  by (auto simp: pending_def omits_later_snoc extends_sel_snoc)

lemma omits_later_Nil [simp]: "\<not> omits_later [] v"
  by (simp add: omits_later_def)

lemma sel_value_extends:
  assumes "extends_sel sel v" "length v = length ogs" "length sel \<le> length ogs"
    "\<forall>g \<in> set ogs. 0 \<le> og_eff g"
  shows "sel_value c0 ogs sel \<le> sel_value c0 ogs v"
    "sel_value c0 ogs v \<le> sel_value c0 ogs sel + effs (drop (length sel) ogs)"
proof -
  obtain w where v: "v = sel @ w"
    using assms(1) that [of "drop (length sel) v"] by (auto simp: extends_sel_def)
     (metis append_take_drop_id)
  have "\<forall>g \<in> set (drop (length sel) ogs). 0 \<le> og_eff g"
    using assms(4) by (meson in_set_dropD)
  from effs_pick_bounds [OF this, of w]
  show "sel_value c0 ogs sel \<le> sel_value c0 ogs v"
    "sel_value c0 ogs v \<le> sel_value c0 ogs sel + effs (drop (length sel) ogs)"
    using assms(3) by (simp_all add: v sel_value_def pick_append)
qed

subsection \<open>One step of the search\<close>

lemma og_at_Ok_iff [res_simps]: "og_at ogs i = Ok e \<longleftrightarrow> i < length ogs \<and> e = og_eff (ogs ! i)"
  by (auto simp: og_at_def get_nth_def res_simps)

lemma og_at_Err [simp]: "og_at ogs i \<noteq> Err e"
  by (auto simp: og_at_def res_simps)

lemma og_at_Panic_iff [res_simps]: "og_at ogs i = Panic \<longleftrightarrow> length ogs \<le> i"
  by (auto simp: og_at_def get_nth_def res_simps)

lemma effs_drop: "i < length ogs \<Longrightarrow> effs (drop i ogs) = og_eff (ogs ! i) + effs (drop (Suc i) ogs)"
  by (simp add: Cons_nth_drop_Suc [symmetric])

lemma sel_value_snoc:
  "length sel < length ogs \<Longrightarrow>
    sel_value c0 ogs (sel @ [b]) = sel_value c0 ogs sel + (if b then og_eff (ogs ! length sel) else 0)"
  by (simp add: sel_value_def pick_append Cons_nth_drop_Suc [symmetric])

lemma walk_back_Ok:
  assumes "(walk_back ogs sel a :: ('e, _) res) = Ok (sel', a')"
    and "length sel \<le> length ogs" and "a = effs (drop (length sel) ogs)"
  shows "\<exists>k. sel = sel' @ replicate k False \<and> a' = effs (drop (length sel') ogs) \<and>
    (sel' = [] \<or> last sel')"
  using assms
proof (induction ogs sel a arbitrary: sel' a' rule: walk_back.induct)
  case (1 ogs sel a)
  show ?case
  proof (cases "sel = [] \<or> last sel")
    case True
    then show ?thesis
      using "1.prems" by (intro exI [of _ 0]) (auto simp: walk_back.simps [of ogs sel])
  next
    case False
    then obtain t where sel: "sel = t @ [False]"
      by (metis append_butlast_last_id)
    have step: "(walk_back ogs t (a + og_eff (ogs ! length t)) :: ('e, _) res) = Ok (sel', a')"
      using "1.prems"(1) by (auto simp: walk_back.simps [of ogs "t @ [False]"] sel Let_def res_simps)
    have "a + og_eff (ogs ! length t) = effs (drop (length t) ogs)"
      using "1.prems"(2,3) by (simp add: sel effs_drop)
    then obtain k where "t = sel' @ replicate k False" "a' = effs (drop (length sel') ogs)"
      "sel' = [] \<or> last sel'"
      using "1.IH" [OF False _ step] "1.prems"(2)
      by (auto simp: sel)
    then show ?thesis
      by (intro exI [of _ "Suc k"]) (simp add: sel replicate_append_same)
  qed
qed

lemma omits_later_replicate:
  "length sel + k \<le> length v \<Longrightarrow> omits_later (sel @ replicate k False) v = omits_later sel v"
proof (induction k)
  case (Suc k)
  then show ?case
    by (simp add: replicate_append_same [symmetric] omits_later_snoc flip: append_assoc)
qed simp

lemma pick_replicate_False: "pick (sel @ replicate k False) xs = pick sel xs"
proof (induction sel arbitrary: xs)
  case Nil
  show ?case
  proof (induction k arbitrary: xs)
    case (Suc k)
    then show ?case by (cases xs) auto
  qed simp
next
  case (Cons b sel)
  then show ?case by (cases xs) auto
qed

text \<open>The number of nodes of the search tree still to be visited.\<close>

definition subtree :: "nat \<Rightarrow> nat \<Rightarrow> nat" where
  "subtree n k = 2 ^ (Suc n - k) - 1"

definition alternatives :: "nat \<Rightarrow> bool list \<Rightarrow> nat" where
  "alternatives n sel = (\<Sum>i \<leftarrow> [0..<length sel]. if sel ! i then subtree n (Suc i) else 0)"

definition nodes_left :: "nat \<Rightarrow> bool list \<Rightarrow> nat" where
  "nodes_left n sel = subtree n (length sel) + alternatives n sel"

lemma alternatives_snoc:
  "alternatives n (sel @ [b]) = alternatives n sel + (if b then subtree n (Suc (length sel)) else 0)"
proof -
  have "map (\<lambda>i. if (sel @ [b]) ! i then subtree n (Suc i) else 0) [0..<length sel]
      = map (\<lambda>i. if sel ! i then subtree n (Suc i) else 0) [0..<length sel]"
    by (intro map_cong) (auto simp: nth_append)
  from arg_cong [OF this, of sum_list] show ?thesis
    by (simp add: alternatives_def)
qed

lemma alternatives_replicate: "alternatives n (sel @ replicate k False) = alternatives n sel"
proof (induction k)
  case (Suc k)
  then show ?case
    by (simp add: replicate_append_same [symmetric] alternatives_snoc flip: append_assoc)
qed simp

lemma power2_Suc: "\<exists>j. (2 :: nat) ^ m = Suc j"
  by (metis not0_implies_Suc power_not_zero zero_neq_numeral)

lemma subtree_pos: "k \<le> n \<Longrightarrow> 0 < subtree n k"
  using power2_Suc [of "n - k"] by (auto simp: subtree_def Suc_diff_le)

lemma subtree_unfold: "k < n \<Longrightarrow> subtree n k = Suc (2 * subtree n (Suc k))"
proof -
  assume "k < n"
  then obtain m where "n = Suc (k + m)"
    using less_iff_Suc_add by auto
  then show ?thesis
    using power2_Suc [of m] by (auto simp: subtree_def Suc_diff_le)
qed

lemma nodes_left_forward: "length sel < n \<Longrightarrow> nodes_left n (sel @ [True]) < nodes_left n sel"
  by (simp add: nodes_left_def alternatives_snoc subtree_unfold)

lemma nodes_left_flip:
  "length (sel @ [True] @ replicate k False) \<le> n \<Longrightarrow>
    nodes_left n (sel @ [False]) < nodes_left n (sel @ [True] @ replicate k False)"
  using alternatives_replicate [of n "sel @ [True]" k]
  by (simp add: nodes_left_def alternatives_snoc subtree_pos)

subsection \<open>The invariant of the search\<close>

text \<open>
  \<open>search_inv\<close>: the two running sums are those of the current position; the best selection is in
  range and its recorded value is its own; every full selection in range that is no longer
  pending is matched or beaten by the best one.
\<close>

definition in_range :: "int \<Rightarrow> output_group list \<Rightarrow> int \<Rightarrow> int \<Rightarrow> bool list \<Rightarrow> bool" where
  "in_range c0 ogs target cost v \<longleftrightarrow> length v = length ogs \<and>
     target \<le> sel_value c0 ogs v \<and> sel_value c0 ogs v \<le> target + cost"

definition matched :: "int \<Rightarrow> output_group list \<Rightarrow> bnb_state \<Rightarrow> bool list \<Rightarrow> bool" where
  "matched c0 ogs st v \<longleftrightarrow> (\<exists>b. best_selection_value st = Some b \<and> b \<le> sel_value c0 ogs v)"

definition position_inv :: "int \<Rightarrow> output_group list \<Rightarrow> bnb_state \<Rightarrow> bool" where
  "position_inv c0 ogs st \<longleftrightarrow> length (current_selection st) \<le> length ogs \<and>
     curr_value st = sel_value c0 ogs (current_selection st) \<and>
     curr_available_value st = effs (drop (length (current_selection st)) ogs)"

definition best_inv :: "int \<Rightarrow> output_group list \<Rightarrow> int \<Rightarrow> int \<Rightarrow> bnb_state \<Rightarrow> bool" where
  "best_inv c0 ogs target cost st \<longleftrightarrow> (case best_selection_value st of
       None \<Rightarrow> best_selection st = []
     | Some b \<Rightarrow> length (best_selection st) \<le> length ogs \<and> b = sel_value c0 ogs (best_selection st) \<and>
         target \<le> b \<and> b \<le> target + cost)"

lemma best_inv_moves [simp]:
  "best_inv c0 ogs target cost (st\<lparr>current_selection := s, curr_available_value := a, curr_value := c\<rparr>)
    = best_inv c0 ogs target cost st"
  by (simp add: best_inv_def split: option.splits)

definition search_inv :: "int \<Rightarrow> output_group list \<Rightarrow> int \<Rightarrow> int \<Rightarrow> bnb_state \<Rightarrow> bool" where
  "search_inv c0 ogs target cost st \<longleftrightarrow> position_inv c0 ogs st \<and> best_inv c0 ogs target cost st \<and>
     (\<forall>v. in_range c0 ogs target cost v \<longrightarrow> \<not> pending (current_selection st) v \<longrightarrow> matched c0 ogs st v)"

text \<open>What the search has established when it ends: a state whose best selection is optimal.\<close>

definition search_done :: "int \<Rightarrow> output_group list \<Rightarrow> int \<Rightarrow> int \<Rightarrow> bnb_state \<Rightarrow> bool" where
  "search_done c0 ogs target cost st \<longleftrightarrow> best_inv c0 ogs target cost st \<and>
     (\<forall>v. in_range c0 ogs target cost v \<longrightarrow> matched c0 ogs st v)"

lemma search_inv_start:
  assumes "a = effs ogs"
  shows "search_inv c0 ogs target cost (bnb_start c0 a)"
  using assms
  by (auto simp: search_inv_def position_inv_def best_inv_def bnb_start_def sel_value_def
      pending_def extends_sel_def)

text \<open>A position is cut when no pending extension of it can improve the best selection.\<close>

definition cut_ok :: "int \<Rightarrow> output_group list \<Rightarrow> int \<Rightarrow> int \<Rightarrow> bnb_state \<Rightarrow> bool" where
  "cut_ok c0 ogs target cost st \<longleftrightarrow> (\<forall>v. in_range c0 ogs target cost v \<longrightarrow>
     extends_sel (current_selection st) v \<longrightarrow> matched c0 ogs st v)"

lemma backtrack_cases:
  assumes inv: "search_inv c0 ogs target cost st" and cut: "cut_ok c0 ogs target cost st"
    and step: "(bnb_backtrack ogs st :: ('e, _) res) = Ok c"
  shows "case c of
      Next st' \<Rightarrow> search_inv c0 ogs target cost st' \<and>
        nodes_left (length ogs) (current_selection st') < nodes_left (length ogs) (current_selection st)
    | Break st' \<Rightarrow> search_done c0 ogs target cost st'
    | NoMatch \<Rightarrow> best_selection st = [] \<and> search_done c0 ogs target cost st"
proof -
  let ?sel = "current_selection st" and ?n = "length ogs"
  have pos: "length ?sel \<le> ?n" "curr_value st = sel_value c0 ogs ?sel"
      "curr_available_value st = effs (drop (length ?sel) ogs)"
    and best: "best_inv c0 ogs target cost st"
    using inv by (auto simp: search_inv_def position_inv_def)
  have matched_unless: "matched c0 ogs st v"
    if "in_range c0 ogs target cost v" "\<not> omits_later ?sel v" for v
    using inv cut that by (auto simp: search_inv_def cut_ok_def pending_def)
  from step obtain sel' a' where
    wb: "(walk_back ogs ?sel (curr_available_value st) :: ('e, _) res) = Ok (sel', a')" and
    rest: "(let st' = st\<lparr>current_selection := sel', curr_available_value := a'\<rparr> in
     if sel' = [] then (if best_selection st = [] then Ok NoMatch else Ok (Break st'))
     else
       let sel'' = butlast sel' @ [False] in
       res_bind (og_at ogs (length sel'' - 1)) (\<lambda>e.
       res_bind (i64_sub (curr_value st) e) (\<lambda>c.
       Ok (Next (st'\<lparr>current_selection := sel'', curr_value := c\<rparr>))))) = (Ok c :: ('e, _) res)"
    by (auto simp: bnb_backtrack_def bind_Ok_iff simp del: Let_def)
  from walk_back_Ok [OF wb pos(1,3)] obtain k where
    k: "?sel = sel' @ replicate k False" "a' = effs (drop (length sel') ogs)" "sel' = [] \<or> last sel'"
    by blast
  have omits: "omits_later ?sel v = omits_later sel' v" if "length v = ?n" for v
    using pos(1) that by (simp add: k(1) omits_later_replicate)
  show ?thesis
  proof (cases "sel' = []")
    case True
    have "matched c0 ogs st v" if "in_range c0 ogs target cost v" for v
      using matched_unless [OF that] omits [of v] that by (simp add: True in_range_def)
    then have "search_done c0 ogs target cost st"
      using best by (simp add: search_done_def)
    then show ?thesis
      using rest True
      by (auto simp: search_done_def best_inv_def matched_def Let_def split: if_splits option.splits)
  next
    case False
    then obtain t where t: "sel' = t @ [True]"
      using k(3) by (metis append_butlast_last_id)
    have lt: "length t < ?n"
      using pos(1) by (simp add: k(1) t)
    from rest False obtain st' where c: "c = Next st'" and
      st': "st' = st\<lparr>current_selection := t @ [False], curr_available_value := a',
        curr_value := curr_value st - og_eff (ogs ! length t)\<rparr>"
      by (auto simp: t Let_def res_simps)
    have "curr_value st = sel_value c0 ogs (t @ [True])"
      using pos(2) pick_replicate_False [of sel' k ogs] by (simp add: k(1) t sel_value_def)
    then have "position_inv c0 ogs st'"
      using lt k(2) by (simp add: st' t position_inv_def sel_value_snoc)
    moreover have "matched c0 ogs st' v"
      if "in_range c0 ogs target cost v" "\<not> pending (t @ [False]) v" for v
    proof -
      have "\<not> omits_later ?sel v"
        using that lt omits [of v] pending_flip [of t v] by (auto simp: in_range_def t)
      from matched_unless [OF that(1) this] show ?thesis
        by (simp add: st' matched_def)
    qed
    moreover have "nodes_left ?n (t @ [False]) < nodes_left ?n ?sel"
      using nodes_left_flip [of t k ?n] pos(1) by (simp add: k(1) t)
    ultimately show ?thesis
      using best by (simp add: c search_inv_def) (simp add: st')
  qed
qed

lemma record_best_inv:
  assumes inv: "search_inv c0 ogs target cost st"
    and rng: "target \<le> curr_value st" "curr_value st \<le> target + cost"
  shows "search_inv c0 ogs target cost (bnb_record_best st)"
    "\<exists>b. best_selection_value (bnb_record_best st) = Some b \<and> b \<le> curr_value st"
proof -
  have pos: "length (current_selection st) \<le> length ogs"
      "curr_value st = sel_value c0 ogs (current_selection st)"
    and best: "best_inv c0 ogs target cost st"
    using inv by (auto simp: search_inv_def position_inv_def)
  have "best_inv c0 ogs target cost (bnb_record_best st)"
    using best pos rng by (auto simp: best_inv_def bnb_record_best_def)
  moreover have "matched c0 ogs (bnb_record_best st) v" if "matched c0 ogs st v" for v
    using that by (auto simp: matched_def bnb_record_best_def)
  ultimately show "search_inv c0 ogs target cost (bnb_record_best st)"
    using inv by (auto simp: search_inv_def position_inv_def bnb_record_best_def)
  show "\<exists>b. best_selection_value (bnb_record_best st) = Some b \<and> b \<le> curr_value st"
    by (auto simp: bnb_record_best_def split: option.splits)
qed

lemma forward_inv:
  assumes inv: "search_inv c0 ogs target cost st"
    and step: "(bnb_forward ogs st :: ('e, _) res) = Ok c"
  shows "\<exists>st'. c = Next st' \<and> search_inv c0 ogs target cost st' \<and>
    nodes_left (length ogs) (current_selection st') < nodes_left (length ogs) (current_selection st)"
proof -
  let ?sel = "current_selection st"
  from step obtain st' where c: "c = Next st'" and lt: "length ?sel < length ogs" and
    st': "st' = st\<lparr>current_selection := ?sel @ [True],
      curr_available_value := curr_available_value st - og_eff (ogs ! length ?sel),
      curr_value := curr_value st + og_eff (ogs ! length ?sel)\<rparr>"
    by (auto simp: bnb_forward_def res_simps)
  have "position_inv c0 ogs st'"
    using inv lt by (simp add: st' search_inv_def position_inv_def sel_value_snoc effs_drop)
  moreover have "best_inv c0 ogs target cost st'"
    using inv by (simp add: st' search_inv_def best_inv_def split: option.splits)
  moreover have "matched c0 ogs st' v"
    if "in_range c0 ogs target cost v" "\<not> pending (?sel @ [True]) v" for v
  proof -
    have "\<not> pending ?sel v"
      using that lt pending_forward [of ?sel v] by (simp add: in_range_def)
    then show ?thesis
      using inv that(1) by (simp add: search_inv_def st' matched_def)
  qed
  ultimately show ?thesis
    using c nodes_left_forward [OF lt] by (simp add: search_inv_def) (simp add: st')
qed

lemma cut_ok_value:
  assumes inv: "search_inv c0 ogs target cost st" and eff: "\<forall>g \<in> set ogs. 0 \<le> og_eff g"
    and out: "curr_value st + curr_available_value st < target \<or> target + cost < curr_value st \<or>
      (\<exists>b. best_selection_value st = Some b \<and> b \<le> curr_value st)"
  shows "cut_ok c0 ogs target cost st"
proof -
  have "matched c0 ogs st v"
    if v: "in_range c0 ogs target cost v" "extends_sel (current_selection st) v" for v
  proof -
    have len: "length (current_selection st) \<le> length ogs" "length v = length ogs"
      using inv v(1) by (simp_all add: search_inv_def position_inv_def in_range_def)
    note b = sel_value_extends [OF v(2) len(2,1) eff, of c0]
    show ?thesis
      using b inv out v(1)
      by (auto simp: search_inv_def position_inv_def in_range_def matched_def)
  qed
  then show ?thesis
    by (simp add: cut_ok_def)
qed

text \<open>The invariant of one iteration.\<close>

lemma search_done_NoMatch:
  assumes "search_done c0 ogs target cost st" "best_selection st = []" "c0 < target"
  shows "\<not> in_range c0 ogs target cost v"
  using assms by (auto simp: search_done_def best_inv_def matched_def sel_value_def)

lemma bnb_step_cases:
  assumes inv: "search_inv c0 ogs target cost st" and eff: "\<forall>g \<in> set ogs. 0 \<le> og_eff g"
    and step: "(bnb_step ogs target cost st :: ('e, _) res) = Ok c"
  shows "case c of
      Next st' \<Rightarrow> search_inv c0 ogs target cost st' \<and>
        nodes_left (length ogs) (current_selection st') < nodes_left (length ogs) (current_selection st)
    | Break st' \<Rightarrow> search_done c0 ogs target cost st'
    | NoMatch \<Rightarrow> c0 < target \<longrightarrow> (\<forall>v. \<not> in_range c0 ogs target cost v)"
proof -
  let ?out = "curr_value st + curr_available_value st < target \<or> target + cost < curr_value st"
  from step obtain out where
    out: "(if curr_value st + curr_available_value st < target then Ok True
       else res_bind (i64_add target cost) (\<lambda>lim. Ok (lim < curr_value st))) = (Ok out :: ('e, _) res)" and
    rest: "(if out then bnb_backtrack ogs st
      else if target \<le> curr_value st then
        (let st' = bnb_record_best st in
         if curr_value st = target then Ok (Break st') else bnb_backtrack ogs st')
      else bnb_forward ogs st) = (Ok c :: ('e, _) res)"
    by (auto simp: bnb_step_def bind_Ok_iff i64_add_Ok_iff)
  have out_iff: "out \<longleftrightarrow> ?out"
    using out by (simp add: res_simps split: if_splits)
  consider
      (cut) "?out" "(bnb_backtrack ogs st :: ('e, _) res) = Ok c"
    | (hit) "\<not> ?out" "curr_value st = target" "c = Break (bnb_record_best st)"
    | (better) "\<not> ?out" "target \<le> curr_value st"
        "(bnb_backtrack ogs (bnb_record_best st) :: ('e, _) res) = Ok c"
    | (forward) "(bnb_forward ogs st :: ('e, _) res) = Ok c"
    using rest unfolding out_iff Let_def by (fastforce split: if_splits)
  then show ?thesis
  proof cases
    case cut
    have "cut_ok c0 ogs target cost st"
      by (rule cut_ok_value [OF inv eff]) (use cut(1) in blast)
    from backtrack_cases [OF inv this cut(2)] show ?thesis
      by (auto split: bnb_control.splits dest: search_done_NoMatch)
  next
    case hit
    then have "target \<le> curr_value st" "curr_value st \<le> target + cost"
      by auto
    from record_best_inv [OF inv this] hit(2,3) show ?thesis
      by (auto simp: search_inv_def search_done_def matched_def in_range_def)
  next
    case better
    then have rng: "target \<le> curr_value st" "curr_value st \<le> target + cost"
      by auto
    note inv' = record_best_inv [OF inv rng]
    have same: "current_selection (bnb_record_best st) = current_selection st"
      "curr_value (bnb_record_best st) = curr_value st"
      by (simp_all add: bnb_record_best_def)
    have "cut_ok c0 ogs target cost (bnb_record_best st)"
      by (rule cut_ok_value [OF inv'(1) eff]) (use inv'(2) same(2) in auto)
    from backtrack_cases [OF inv'(1) this better(3)] show ?thesis
      by (auto simp: same split: bnb_control.splits dest: search_done_NoMatch)
  next
    case forward
    from forward_inv [OF inv this] show ?thesis by auto
  qed
qed

subsection \<open>The whole loop\<close>

lemma bnb_loop_cases:
  assumes "search_inv c0 ogs target cost st" "\<forall>g \<in> set ogs. 0 \<le> og_eff g"
    and "(bnb_loop ogs target cost k st :: ('e, _) res) = Ok c"
  shows "case c of
      Next st' \<Rightarrow> search_inv c0 ogs target cost st' \<and>
        k + nodes_left (length ogs) (current_selection st') \<le> nodes_left (length ogs) (current_selection st)
    | Break st' \<Rightarrow> search_done c0 ogs target cost st'
    | NoMatch \<Rightarrow> c0 < target \<longrightarrow> (\<forall>v. \<not> in_range c0 ogs target cost v)"
  using assms
proof (induction k arbitrary: st)
  case 0
  then show ?case by (auto split: bnb_control.splits)
next
  case (Suc k)
  from Suc.prems(3) obtain d where
    step: "(bnb_step ogs target cost st :: ('e, _) res) = Ok d" and
    rest: "(case d of Next st' \<Rightarrow> bnb_loop ogs target cost k st' | Break st' \<Rightarrow> Ok (Break st')
       | NoMatch \<Rightarrow> Ok NoMatch) = (Ok c :: ('e, _) res)"
    by (auto simp: res_simps)
  note s = bnb_step_cases [OF Suc.prems(1,2) step]
  show ?case
  proof (cases d)
    case (Next st')
    then have "search_inv c0 ogs target cost st'"
      and l: "nodes_left (length ogs) (current_selection st') < nodes_left (length ogs) (current_selection st)"
      and "(bnb_loop ogs target cost k st' :: ('e, _) res) = Ok c"
      using s rest by auto
    from Suc.IH [OF this(1) Suc.prems(2) this(3)] l show ?thesis
      by (cases c) auto
  next
    case (Break st')
    then show ?thesis using s rest by auto
  next
    case NoMatch
    then show ?thesis using s rest by auto
  qed
qed

text \<open>With more tries than nodes the loop is left by a \<open>break\<close> or the early return.\<close>

lemma nodes_left_start: "nodes_left n [] = 2 ^ (n + 1) - 1"
  by (simp add: nodes_left_def subtree_def alternatives_def)

lemma bnb_loop_exhaustive:
  assumes "search_inv c0 ogs target cost (bnb_start c0 a)" "\<forall>g \<in> set ogs. 0 \<le> og_eff g"
    and "2 ^ (length ogs + 1) \<le> k"
    and "(bnb_loop ogs target cost k (bnb_start c0 a) :: ('e, _) res) = Ok c"
  shows "\<nexists>st. c = Next st"
proof
  assume "\<exists>st. c = Next st"
  then obtain st where "c = Next st" ..
  with bnb_loop_cases [OF assms(1,2,4)]
  have "k \<le> nodes_left (length ogs) []"
    by (simp add: bnb_start_def)
  moreover have "(0::nat) < 2 ^ (length ogs + 1)"
    by simp
  ultimately show False
    using assms(3) unfolding nodes_left_start by linarith
qed

subsection \<open>The search never overflows and never indexes out of bounds\<close>

definition bounds_ok :: "int \<Rightarrow> output_group list \<Rightarrow> int \<Rightarrow> int \<Rightarrow> bool" where
  "bounds_ok c0 ogs target cost \<longleftrightarrow> (\<forall>g \<in> set ogs. 0 \<le> og_eff g) \<and> in_i64 c0 \<and>
     in_i64 (c0 + effs ogs) \<and> in_i64 (effs ogs) \<and> in_i64 (target + cost)"

lemma effs_drop_bounds:
  assumes "\<forall>g \<in> set ogs. 0 \<le> og_eff g"
  shows "0 \<le> effs (drop k ogs)" "effs (drop k ogs) \<le> effs ogs"
proof -
  show "0 \<le> effs (drop k ogs)"
    using assms by (meson effs_nonneg in_set_dropD)
  have "0 \<le> effs (take k ogs)"
    using assms by (meson effs_nonneg in_set_takeD)
  moreover have "effs ogs = effs (take k ogs) + effs (drop k ogs)"
    by (metis append_take_drop_id map_append sum_list_append)
  ultimately show "effs (drop k ogs) \<le> effs ogs"
    by simp
qed

lemma in_i64_between: "in_i64 a \<Longrightarrow> in_i64 b \<Longrightarrow> a \<le> x \<Longrightarrow> x \<le> b \<Longrightarrow> in_i64 x"
  by (auto simp: in_i64_def)

lemma in_i64_zero: "in_i64 0"
  by (simp add: in_i64_def I64_MIN_def I64_MAX_def)

lemma in_i64_avail: "bounds_ok c0 ogs target cost \<Longrightarrow> in_i64 (effs (drop k ogs))"
  using effs_drop_bounds [of ogs k] in_i64_between [of 0 "effs ogs"] in_i64_zero
  by (auto simp: bounds_ok_def)

lemma in_i64_value:
  assumes "bounds_ok c0 ogs target cost"
  shows "in_i64 (sel_value c0 ogs v)"
  using assms effs_pick_bounds [of ogs v] in_i64_between [of c0 "c0 + effs ogs"]
  by (auto simp: bounds_ok_def sel_value_def)

lemma in_i64_reach:
  assumes "bounds_ok c0 ogs target cost" "length sel \<le> length ogs"
  shows "in_i64 (sel_value c0 ogs sel + effs (drop (length sel) ogs))"
proof -
  have "\<forall>g \<in> set (drop (length sel) ogs). 0 \<le> og_eff g"
    using assms(1) by (meson bounds_ok_def in_set_dropD)
  have all: "pick (replicate (length xs) True) xs = xs" for xs :: "output_group list"
    by (induction xs) auto
  have "sel_value c0 ogs sel + effs (drop (length sel) ogs)
      = sel_value c0 ogs (sel @ replicate (length (drop (length sel) ogs)) True)"
    using assms(2) by (simp only: sel_value_def pick_append all) simp
  then show ?thesis
    using in_i64_value [OF assms(1)] by metis
qed

lemma walk_back_no_panic:
  assumes "bounds_ok c0 ogs target cost" "length sel \<le> length ogs" "a = effs (drop (length sel) ogs)"
  shows "(walk_back ogs sel a :: ('e, _) res) \<noteq> Panic"
  using assms(2,3)
proof (induction "length sel" arbitrary: sel a)
  case 0
  then show ?case by (simp add: walk_back.simps [of ogs "[]"])
next
  case (Suc n)
  then obtain t b where sel: "sel = t @ [b]"
    by (metis length_0_conv nat.distinct(1) rev_exhaust)
  have a: "a + og_eff (ogs ! length t) = effs (drop (length t) ogs)"
    using Suc.prems by (simp add: sel effs_drop)
  then have "(walk_back ogs t (a + og_eff (ogs ! length t)) :: ('e, _) res) \<noteq> Panic"
    using Suc.hyps(1) [of t] Suc.hyps(2) Suc.prems by (simp add: sel)
  then show ?case
    using in_i64_avail [OF assms(1), of "length t"] Suc.prems(1) a
    by (auto simp: walk_back.simps [of ogs "t @ [b]"] sel Let_def res_simps)
qed

lemma walk_back_Err [simp]: "walk_back ogs sel a \<noteq> Err e"
proof (induction "length sel" arbitrary: sel a)
  case 0
  then show ?case by (simp add: walk_back.simps [of ogs "[]"])
next
  case (Suc n)
  then have "walk_back ogs (butlast sel) x \<noteq> Err e" for x
    by simp
  then show ?case
    using Suc(2) by (auto simp: walk_back.simps [of ogs sel] Let_def res_simps)
qed

lemma backtrack_no_panic:
  assumes b: "bounds_ok c0 ogs target cost" and pos: "position_inv c0 ogs st"
  shows "(bnb_backtrack ogs st :: ('e, _) res) \<noteq> Panic"
proof
  assume panic: "(bnb_backtrack ogs st :: ('e, _) res) = Panic"
  have pos: "length (current_selection st) \<le> length ogs"
    "curr_value st = sel_value c0 ogs (current_selection st)"
    "curr_available_value st = effs (drop (length (current_selection st)) ogs)"
    using pos by (auto simp: position_inv_def)
  from panic obtain sel' a' where
    wb: "(walk_back ogs (current_selection st) (curr_available_value st) :: ('e, _) res) = Ok (sel', a')"
    and rest: "sel' \<noteq> []" "length ogs \<le> length sel' - 1 \<or> \<not> in_i64 (curr_value st - og_eff (ogs ! (length sel' - 1)))"
    using walk_back_no_panic [OF b pos(1,3), where 'e = 'e]
    by (auto simp: bnb_backtrack_def bind_Panic_iff Let_def og_at_Panic_iff og_at_Ok_iff
        i64_sub_Panic_iff split: if_splits)
  from walk_back_Ok [OF wb pos(1,3)] obtain k where
    k: "current_selection st = sel' @ replicate k False" "last sel'"
    using rest(1) by blast
  obtain t where t: "sel' = t @ [True]"
    using k(2) rest(1) by (metis append_butlast_last_id)
  have lt: "length t < length ogs"
    using pos(1) by (simp add: k(1) t)
  have "curr_value st - og_eff (ogs ! length t) = sel_value c0 ogs t"
    using pos(2) pick_replicate_False [of "t @ [True]" k ogs] lt
    by (simp add: k(1) t sel_value_def pick_append Cons_nth_drop_Suc [symmetric])
  then show False
    using rest(2) lt in_i64_value [OF b, of t] by (simp add: t)
qed

lemma bnb_step_no_panic:
  assumes b: "bounds_ok c0 ogs target cost" and pos: "position_inv c0 ogs st"
  shows "(bnb_step ogs target cost st :: ('e, _) res) \<noteq> Panic"
proof -
  let ?sel = "current_selection st"
  have p: "length ?sel \<le> length ogs" "curr_value st = sel_value c0 ogs ?sel"
    "curr_available_value st = effs (drop (length ?sel) ogs)"
    using pos by (auto simp: position_inv_def)
  have reach: "in_i64 (curr_value st + curr_available_value st)"
    using in_i64_reach [OF b p(1)] p by simp
  have lim: "in_i64 (target + cost)"
    using b by (simp add: bounds_ok_def)
  have bt: "(bnb_backtrack ogs (bnb_record_best st) :: ('e, _) res) \<noteq> Panic"
    "(bnb_backtrack ogs st :: ('e, _) res) \<noteq> Panic"
    using backtrack_no_panic [OF b, where 'e = 'e] pos
    by (auto simp: position_inv_def bnb_record_best_def)
  have fwd: "(bnb_forward ogs st :: ('e, _) res) \<noteq> Panic"
    if "target \<le> curr_value st + curr_available_value st" "curr_value st < target"
  proof -
    have lt: "length ?sel < length ogs"
      using that p by (cases "length ?sel = length ogs") auto
    have "in_i64 (curr_available_value st - og_eff (ogs ! length ?sel))"
      using in_i64_avail [OF b, of "Suc (length ?sel)"] lt by (simp add: p(3) effs_drop)
    moreover have "in_i64 (curr_value st + og_eff (ogs ! length ?sel))"
      using in_i64_value [OF b, of "?sel @ [True]"] lt by (simp add: p(2) sel_value_snoc)
    ultimately show ?thesis
      using lt by (simp add: bnb_forward_def og_at_def get_nth_def i64_sub_def i64_add_def)
  qed
  show ?thesis
    using reach lim bt fwd by (simp add: bnb_step_def i64_add_def Let_def)
qed

lemma bnb_loop_no_panic:
  assumes "bounds_ok c0 ogs target cost" "search_inv c0 ogs target cost st"
  shows "(bnb_loop ogs target cost k st :: ('e, _) res) \<noteq> Panic"
  using assms(2)
proof (induction k arbitrary: st)
  case (Suc k)
  have pos: "position_inv c0 ogs st"
    using Suc.prems by (simp add: search_inv_def)
  have eff: "\<forall>g \<in> set ogs. 0 \<le> og_eff g"
    using assms(1) by (simp add: bounds_ok_def)
  show ?case
  proof (cases "bnb_step ogs target cost st :: ('e, _) res")
    case (Ok c)
    note s = bnb_step_cases [OF Suc.prems eff Ok]
    show ?thesis
      using s Suc.IH by (simp add: Ok split: bnb_control.splits)
  qed (use bnb_step_no_panic [OF assms(1) pos] in auto)
qed simp

subsection \<open>What branch and bound returns\<close>

lemma subset_pick:
  "mset ys \<subseteq># mset xs \<Longrightarrow> \<exists>v. length v = length xs \<and> mset (pick v xs) = mset ys"
proof (induction xs arbitrary: ys)
  case (Cons x xs)
  show ?case
  proof (cases "x \<in> set ys")
    case True
    then have "mset (remove1 x ys) \<subseteq># mset xs"
      using Cons.prems by (metis mset.simps(2) mset_remove1 subset_eq_diff_conv add_mset_add_single)
    from Cons.IH [OF this] obtain v where
      v: "length v = length xs" "mset (pick v xs) = mset (remove1 x ys)" by blast
    then show ?thesis
      using True by (intro exI [of _ "True # v"]) simp
  next
    case False
    then have "mset ys \<subseteq># mset xs"
      using Cons.prems by (metis add_mset_add_single diff_single_trivial mset.simps(2) set_mset_mset subset_eq_diff_conv)
    from Cons.IH [OF this] obtain v where
      "length v = length xs" "mset (pick v xs) = mset ys" by blast
    then show ?thesis
      by (intro exI [of _ "False # v"]) simp
  qed
qed simp

lemma effs_mset: "mset xs = mset ys \<Longrightarrow> effs xs = effs ys"
  by (metis mset_map sum_mset_sum_list)

lemma sum_eff_Ok: "sum_eff ogs = Ok s \<Longrightarrow> s = effs ogs"
proof -
  have "res_fold (\<lambda>acc g. i64_add acc (og_eff g)) a ogs = Ok s \<Longrightarrow> s = a + effs ogs" for a
    by (induction ogs arbitrary: a) (fastforce simp: res_simps)+
  then show "sum_eff ogs = Ok s \<Longrightarrow> s = effs ogs"
    by (force simp: sum_eff_def)
qed

lemma sum_eff_in_i64: "sum_eff ogs = Ok s \<Longrightarrow> in_i64 s"
proof (cases ogs rule: rev_cases)
  case Nil
  then show "sum_eff ogs = Ok s \<Longrightarrow> in_i64 s" by (simp add: sum_eff_def in_i64_zero)
next
  case (snoc gs g)
  then show "sum_eff ogs = Ok s \<Longrightarrow> in_i64 s"
    by (auto simp: sum_eff_def res_fold_append res_simps)
qed

lemma calculate_cs_result_Ok:
  "calculate_cs_result sel req ex = Ok r \<longleftrightarrow>
    r = \<lparr>selected = map (\<lambda>g. wu_utxo (og_utxo g)) (req @ sel),
      fee_amount = sum_list (map og_fee (req @ sel)), cs_excess = ex\<rparr> \<and>
    sum_list (map og_fee (req @ sel)) \<le> U64_MAX"
  by (auto simp: calculate_cs_result_def res_simps)

lemma bnb_finish_Ok:
  assumes "bnb_finish B req ogs target rate s st = Ok r" "best_inv c0 ogs target cost st"
  obtains chosen where "chosen = pick (best_selection st) ogs" "mset chosen \<subseteq># mset ogs"
    "target \<le> c0 + effs chosen" "c0 + effs chosen \<le> target + cost"
    "best_selection_value st = Some (c0 + effs chosen)"
    "decide_change B (nat (c0 + effs chosen - target)) rate s = (Ok (cs_excess r) :: (insufficient_funds, excess) res)"
    "selected r = map (\<lambda>g. wu_utxo (og_utxo g)) (req @ chosen)"
    "fee_amount r = sum_list (map og_fee (req @ chosen))"
proof -
  from assms(1) obtain b ex where
    b: "best_selection_value st = Some b" and
    ex: "(decide_change B (nat (b - target)) rate s :: (bnb_error, excess) res) = Ok ex" and
    r: "calculate_cs_result (pick (best_selection st) ogs) req ex = (Ok r :: (bnb_error, cs_result) res)"
    by (auto simp: bnb_finish_def res_simps split: if_splits)
  have inv: "b = c0 + effs (pick (best_selection st) ogs)" "target \<le> b" "b \<le> target + cost"
    using assms(2) b by (auto simp: best_inv_def sel_value_def)
  have ex': "(decide_change B (nat (b - target)) rate s :: (insufficient_funds, excess) res) = Ok ex"
    using ex by (auto simp: decide_change_def Let_def res_simps split: if_splits)
  show thesis
    using that [of "pick (best_selection st) ogs"] inv b ex' r
    by (simp add: pick_mset_subset calculate_cs_result_Ok)
qed

context unstable_sort
begin

lemma mset_rev_usort: "mset (rev (usort le xs)) = mset xs"
  by (simp add: usort_mset)

end

lemma bnb_loop_Err [simp]: "bnb_loop ogs target cost k st \<noteq> Err e"
proof -
  have back_Err: "bnb_backtrack ogs st' \<noteq> Err e" for st'
    by (auto simp: bnb_backtrack_def Let_def bind_Err_iff split: if_splits)
  have "bnb_step ogs target cost st' \<noteq> Err e" for st'
    using back_Err
    by (auto simp: bnb_step_def bnb_forward_def Let_def bind_Err_iff split: if_splits)
  then show ?thesis
    by (induction k arbitrary: st) (auto simp: bind_Err_iff split: bnb_control.splits)
qed

definition bnb_solution :: "int \<Rightarrow> output_group list \<Rightarrow> int \<Rightarrow> int \<Rightarrow> output_group list \<Rightarrow> bool" where
  "bnb_solution c0 opt target cost chosen \<longleftrightarrow> mset chosen \<subseteq># mset opt \<and>
     target \<le> c0 + effs chosen \<and> c0 + effs chosen \<le> target + cost"

definition bnb_result_of :: "btc \<Rightarrow> output_group list \<Rightarrow> int \<Rightarrow> feerate \<Rightarrow> script
    \<Rightarrow> int \<Rightarrow> output_group list \<Rightarrow> cs_result \<Rightarrow> bool" where
  "bnb_result_of B req target rate s c0 chosen r \<longleftrightarrow>
     selected r = map (\<lambda>g. wu_utxo (og_utxo g)) (req @ chosen) \<and>
     fee_amount r = sum_list (map og_fee (req @ chosen)) \<and>
     decide_change B (nat (c0 + effs chosen - target)) rate s
       = (Ok (cs_excess r) :: (insufficient_funds, excess) res)"

locale bnb_search = unstable_sort usort
  for usort :: "(output_group \<Rightarrow> output_group \<Rightarrow> bool) \<Rightarrow> output_group list \<Rightarrow> output_group list" +
  fixes B :: btc
begin

lemma search_inv_sorted:
  "search_inv c0 (rev (usort eff_le opt)) target cost (bnb_start c0 (effs opt))"
  by (intro search_inv_start effs_mset) (simp add: usort_mset)

lemma eff_sorted_nonneg:
  "\<forall>g \<in> set opt. 0 < og_eff g \<Longrightarrow> \<forall>g \<in> set (rev (usort eff_le opt)). 0 \<le> og_eff g"
  by (auto simp: usort_set intro: less_imp_le)

lemma in_range_solution:
  assumes "bnb_solution c0 opt target cost other"
  obtains v where "in_range c0 (rev (usort eff_le opt)) target cost v"
    "sel_value c0 (rev (usort eff_le opt)) v = c0 + effs other"
proof -
  from subset_pick [of other "rev (usort eff_le opt)"] assms obtain v where
    "length v = length (rev (usort eff_le opt))" "mset (pick v (rev (usort eff_le opt))) = mset other"
    by (auto simp: bnb_solution_def usort_mset)
  with assms that show thesis
    by (auto simp: in_range_def sel_value_def bnb_solution_def dest: effs_mset)
qed

lemma bnb_OkE:
  assumes "bnb B usort req opt c0 a target cost s rate = Ok r"
  obtains c st where
    "(bnb_loop (rev (usort eff_le opt)) target cost BNB_TOTAL_TRIES (bnb_start c0 a) :: (bnb_error, _) res) = Ok c"
    "c = Next st \<or> c = Break st" "bnb_finish B req (rev (usort eff_le opt)) target rate s st = Ok r"
proof -
  from assms obtain c where
    loop: "(bnb_loop (rev (usort eff_le opt)) target cost BNB_TOTAL_TRIES (bnb_start c0 a)
       :: (bnb_error, _) res) = Ok c" and
    c: "(case c of Next st \<Rightarrow> bnb_finish B req (rev (usort eff_le opt)) target rate s st
        | Break st \<Rightarrow> bnb_finish B req (rev (usort eff_le opt)) target rate s st
        | NoMatch \<Rightarrow> Err NoExactMatch) = Ok r"
    unfolding bnb_def Let_def bind_Ok_iff by blast
  show thesis
    by (cases c) (use that [OF loop] c in auto)
qed

lemma bnb_ErrE:
  assumes "bnb B usort req opt c0 a target cost s rate = Err e"
  obtains c where
    "(bnb_loop (rev (usort eff_le opt)) target cost BNB_TOTAL_TRIES (bnb_start c0 a) :: (bnb_error, _) res) = Ok c"
    "c = NoMatch \<or> (\<exists>st. (c = Next st \<or> c = Break st) \<and>
      bnb_finish B req (rev (usort eff_le opt)) target rate s st = Err e)"
proof -
  from assms obtain c where
    loop: "(bnb_loop (rev (usort eff_le opt)) target cost BNB_TOTAL_TRIES (bnb_start c0 a)
       :: (bnb_error, _) res) = Ok c" and
    c: "(case c of Next st \<Rightarrow> bnb_finish B req (rev (usort eff_le opt)) target rate s st
        | Break st \<Rightarrow> bnb_finish B req (rev (usort eff_le opt)) target rate s st
        | NoMatch \<Rightarrow> Err NoExactMatch) = Err e"
    unfolding bnb_def Let_def bind_Err_iff by auto
  show thesis
    by (cases c) (use that [OF loop] c in auto)
qed

lemma bnb_sound:
  assumes "bnb B usort req opt c0 (effs opt) target cost s rate = Ok r"
    and "\<forall>g \<in> set opt. 0 < og_eff g"
  obtains chosen where "bnb_solution c0 opt target cost chosen"
    "bnb_result_of B req target rate s c0 chosen r"
proof -
  let ?ogs = "rev (usort eff_le opt)"
  from assms(1) obtain c st where
    loop: "(bnb_loop ?ogs target cost BNB_TOTAL_TRIES (bnb_start c0 (effs opt)) :: (bnb_error, _) res) = Ok c"
    and c: "c = Next st \<or> c = Break st" and fin: "bnb_finish B req ?ogs target rate s st = Ok r"
    by (rule bnb_OkE)
  have "best_inv c0 ?ogs target cost st"
    using bnb_loop_cases [OF search_inv_sorted eff_sorted_nonneg [OF assms(2)] loop] c
    by (auto simp: search_inv_def search_done_def)
  from bnb_finish_Ok [OF fin this] obtain chosen where
    "mset chosen \<subseteq># mset ?ogs" "target \<le> c0 + effs chosen" "c0 + effs chosen \<le> target + cost"
    "bnb_result_of B req target rate s c0 chosen r"
    by (auto simp: bnb_result_of_def)
  then show thesis
    by (intro that [of chosen]) (simp_all add: bnb_solution_def usort_mset)
qed

lemma tries_suffice:
  assumes "length opt \<le> 15"
  shows "2 ^ (length (rev (usort eff_le opt)) + 1) \<le> BNB_TOTAL_TRIES"
proof -
  have "(2::nat) ^ (length opt + 1) \<le> 2 ^ 16"
    by (rule power_increasing) (use assms in auto)
  then show ?thesis
    by (simp add: usort_length BNB_TOTAL_TRIES_def)
qed

lemma bnb_optimal:
  assumes run: "bnb B usort req opt c0 (effs opt) target cost s rate = Ok r"
    and pos: "\<forall>g \<in> set opt. 0 < og_eff g" and few: "length opt \<le> 15"
  obtains chosen where "bnb_solution c0 opt target cost chosen"
    "bnb_result_of B req target rate s c0 chosen r"
    "\<And>other. bnb_solution c0 opt target cost other \<Longrightarrow> effs chosen \<le> effs other"
proof -
  let ?ogs = "rev (usort eff_le opt)"
  from run obtain c st where
    loop: "(bnb_loop ?ogs target cost BNB_TOTAL_TRIES (bnb_start c0 (effs opt)) :: (bnb_error, _) res) = Ok c"
    and c: "c = Next st \<or> c = Break st" and fin: "bnb_finish B req ?ogs target rate s st = Ok r"
    by (rule bnb_OkE)
  note nonneg = eff_sorted_nonneg [OF pos]
  have "c = Break st"
    using bnb_loop_exhaustive [OF search_inv_sorted nonneg tries_suffice [OF few] loop] c by blast
  then have dn: "search_done c0 ?ogs target cost st"
    using bnb_loop_cases [OF search_inv_sorted nonneg loop] by simp
  then have "best_inv c0 ?ogs target cost st"
    by (simp add: search_done_def)
  from bnb_finish_Ok [OF fin this] obtain chosen where ch:
    "mset chosen \<subseteq># mset ?ogs" "target \<le> c0 + effs chosen" "c0 + effs chosen \<le> target + cost"
    "best_selection_value st = Some (c0 + effs chosen)"
    "bnb_result_of B req target rate s c0 chosen r"
    by (auto simp: bnb_result_of_def)
  have "effs chosen \<le> effs other" if "bnb_solution c0 opt target cost other" for other
    using in_range_solution [OF that] dn ch(4)
    by (metis (no_types, lifting) add_le_cancel_left matched_def option.inject search_done_def)
  with ch show thesis
    by (intro that [of chosen]) (simp_all add: bnb_solution_def usort_mset)
qed

lemma bnb_fails_only_without_solution:
  assumes run: "bnb B usort req opt c0 (effs opt) target cost s rate = Err e"
    and pos: "\<forall>g \<in> set opt. 0 < og_eff g" and few: "length opt \<le> 15" and lt: "c0 < target"
  shows "\<not> bnb_solution c0 opt target cost other"
proof
  assume "bnb_solution c0 opt target cost other"
  from in_range_solution [OF this] obtain v where
    v: "in_range c0 (rev (usort eff_le opt)) target cost v" .
  let ?ogs = "rev (usort eff_le opt)"
  note nonneg = eff_sorted_nonneg [OF pos]
  from run obtain c where
    loop: "(bnb_loop ?ogs target cost BNB_TOTAL_TRIES (bnb_start c0 (effs opt)) :: (bnb_error, _) res) = Ok c"
    and c: "c = NoMatch \<or> (\<exists>st. (c = Next st \<or> c = Break st) \<and> bnb_finish B req ?ogs target rate s st = Err e)"
    by (rule bnb_ErrE)
  note cases = bnb_loop_cases [OF search_inv_sorted nonneg loop]
    bnb_loop_exhaustive [OF search_inv_sorted nonneg tries_suffice [OF few] loop]
  show False
    using c
  proof
    assume "c = NoMatch"
    then show False using cases(1) v lt by auto
  next
    assume "\<exists>st. (c = Next st \<or> c = Break st) \<and> bnb_finish B req ?ogs target rate s st = Err e"
    then obtain st where st: "c = Break st" "bnb_finish B req ?ogs target rate s st = Err e"
      using cases(2) by blast
    then have "best_selection st = []"
      by (auto simp: bnb_finish_def res_simps calculate_cs_result_def split: if_splits)
    then show False
      using search_done_NoMatch [OF _ _ lt] cases(1) st(1) v by auto
  qed
qed

end

subsection \<open>The entry point\<close>

definition effective_value :: "btc \<Rightarrow> feerate \<Rightarrow> weighted_utxo \<Rightarrow> int" where
  "effective_value B rate w =
     int (wu_value w) - (case fee_mul B rate (in_weight B w) of Some f \<Rightarrow> int f | None \<Rightarrow> 0)"

definition effective_sum :: "btc \<Rightarrow> feerate \<Rightarrow> weighted_utxo list \<Rightarrow> int" where
  "effective_sum B rate ws = sum_list (map (effective_value B rate) ws)"

lemma output_group_new_Ok:
  assumes "output_group_new B rate wu = Ok g"
  shows "og_utxo g = wu" "og_eff g = effective_value B rate wu" "wu_ok wu"
    "og_eff g = int (wu_value wu) - int (og_fee g)" "fee_mul B rate (in_weight B wu) = Some (og_fee g)"
  using assms by (auto simp: output_group_new_def res_simps effective_value_def in_weight_def)

lemma output_group_new_Err [simp]: "output_group_new B rate wu \<noteq> Err e"
  by (auto simp: output_group_new_def res_simps)

definition groups_ok :: "btc \<Rightarrow> feerate \<Rightarrow> output_group list \<Rightarrow> bool" where
  "groups_ok B rate gs \<longleftrightarrow> (\<forall>g \<in> set gs. wu_ok (og_utxo g) \<and>
     og_eff g = effective_value B rate (og_utxo g) \<and>
     og_eff g = int (wu_value (og_utxo g)) - int (og_fee g) \<and>
     fee_mul B rate (in_weight B (og_utxo g)) = Some (og_fee g))"

lemma groups_ok_simps [simp]:
  "groups_ok B rate []"
  "groups_ok B rate (g # gs) \<longleftrightarrow> wu_ok (og_utxo g) \<and> og_eff g = effective_value B rate (og_utxo g) \<and>
     og_eff g = int (wu_value (og_utxo g)) - int (og_fee g) \<and>
     fee_mul B rate (in_weight B (og_utxo g)) = Some (og_fee g) \<and> groups_ok B rate gs"
  by (auto simp: groups_ok_def)

lemma groups_new:
  assumes "(res_map (output_group_new B rate) ws :: ('e, _) res) = Ok gs"
  shows "map og_utxo gs = ws" "groups_ok B rate gs"
  using assms
proof (induction ws arbitrary: gs)
  case (Cons w ws)
  { case 1 then show ?case using Cons.IH(1) by (auto simp: res_simps dest: output_group_new_Ok) }
  { case 2
    then obtain g gs' where "gs = g # gs'"
      and new: "(output_group_new B rate w :: ('e, _) res) = Ok g"
      and "(res_map (output_group_new B rate) ws :: ('e, _) res) = Ok gs'"
      by (auto simp: res_simps)
    then show ?case
      using Cons.IH(2) output_group_new_Ok [OF new] by simp }
qed simp_all

lemma groups_ok_subset: "set gs' \<subseteq> set gs \<Longrightarrow> groups_ok B rate gs \<Longrightarrow> groups_ok B rate gs'"
  by (auto simp: groups_ok_def)

lemma groups_ok_append [simp]:
  "groups_ok B rate (gs @ gs') \<longleftrightarrow> groups_ok B rate gs \<and> groups_ok B rate gs'"
  by (auto simp: groups_ok_def)

lemma groups_total:
  "groups_ok B rate gs \<Longrightarrow>
    int (total_in (map (\<lambda>g. wu_utxo (og_utxo g)) gs)) = effs gs + int (sum_list (map og_fee gs))"
  by (induction gs) auto

lemma groups_effective:
  "groups_ok B rate gs \<Longrightarrow> effs gs = effective_sum B rate (map og_utxo gs)"
  by (induction gs) (auto simp: effective_sum_def)

text \<open>A run that succeeds: it took the required outputs alone, the result of the search, or the
  result of the fallback.\<close>

lemma bnb_select_OkE:
  assumes "bnb_select B usort soc fallback required optional rate target s rng = Ok (r, rng')"
  obtains reqs alls cw cf ex where
    "map og_utxo reqs = required" "map og_utxo alls = optional" "groups_ok B rate (reqs @ alls)"
    "weight_from_vb B soc = Some cw" "fee_mul B rate cw = Some cf"
    "(int target < effs reqs \<and> rng' = rng \<and> bnb_result_of B reqs (int target) rate s (effs reqs) [] r) \<or>
     (effs reqs \<le> int target \<and> rng' = rng \<and>
        bnb B usort reqs (filter (\<lambda>g. 0 < og_eff g) alls) (effs reqs)
          (effs (filter (\<lambda>g. 0 < og_eff g) alls)) (int target) (int cf) s rate = Ok r) \<or>
     (effs reqs \<le> int target \<and>
        (\<exists>e. bnb B usort reqs (filter (\<lambda>g. 0 < og_eff g) alls) (effs reqs)
          (effs (filter (\<lambda>g. 0 < og_eff g) alls)) (int target) (int cf) s rate = Err e) \<and>
        fallback required optional rate target s rng = Ok (r, rng'))"
proof -
  let ?pos = "filter (\<lambda>g. 0 < og_eff g)"
  from assms obtain reqs alls c0 a cw cf where
    reqs: "res_map (output_group_new B rate) required = (Ok reqs :: (insufficient_funds, _) res)" and
    alls: "res_map (output_group_new B rate) optional = (Ok alls :: (insufficient_funds, _) res)" and
    c0: "sum_eff reqs = (Ok c0 :: (insufficient_funds, _) res)" and
    a: "sum_eff (?pos alls) = (Ok a :: (insufficient_funds, _) res)" and
    cw: "weight_from_vb B soc = Some cw" "fee_mul B rate cw = Some cf" and
    rest: "bnb_or_fallback B usort (fallback required optional rate target s rng) reqs (?pos alls) c0 a
       (int target) (int cf) rate s rng = Ok (r, rng')"
    by (auto simp: bnb_select_def Let_def bind_Ok_iff expect_Ok_iff to_signed_Some_iff
        bnb_insufficient_def split: if_splits)
  have eq: "c0 = effs reqs" "a = effs (?pos alls)"
    using sum_eff_Ok [OF c0] sum_eff_Ok [OF a] by simp_all
  note g = groups_new [OF reqs] groups_new [OF alls]
  show thesis
  proof (cases "int target < effs reqs")
    case True
    then have "rng' = rng \<and> bnb_result_of B reqs (int target) rate s (effs reqs) [] r"
      using rest
      by (auto simp: bnb_or_fallback_def eq bnb_result_of_def bind_Ok_iff i64_sub_Ok_iff expect_Ok_iff
          to_unsigned_Some_iff calculate_cs_result_Ok)
    then show thesis
      using that [OF g(1,3) _ cw] g(2,4) True by simp
  next
    case False
    then show thesis
      using that [OF g(1,3) _ cw] g(2,4) rest unfolding eq bnb_or_fallback_def
      by (cases "bnb B usort reqs (?pos alls) (effs reqs) (effs (?pos alls)) (int target) (int cf) s rate")
         auto
  qed
qed

lemma bnb_result_contract:
  assumes "bnb_result_of B reqs (int target) rate s (effs reqs) chosen r"
    and "int target \<le> effs reqs + effs chosen" and "groups_ok B rate (reqs @ chosen)"
  shows "\<exists>remain. total_in (selected r) = target + fee_amount r + remain \<and>
      decide_change B remain rate s = (Ok (cs_excess r) :: (insufficient_funds, excess) res)"
    "\<forall>u \<in> set (selected r). utxo_ok u"
proof -
  let ?d = "nat (effs reqs + effs chosen - int target)"
  have "int (total_in (selected r)) = effs reqs + effs chosen + int (fee_amount r)"
    using groups_total [OF assms(3)] assms(1) by (simp add: bnb_result_of_def)
  then have "total_in (selected r) = target + fee_amount r + ?d"
    using assms(2) by linarith
  then show "\<exists>remain. total_in (selected r) = target + fee_amount r + remain \<and>
      decide_change B remain rate s = (Ok (cs_excess r) :: (insufficient_funds, excess) res)"
    using assms(1) by (auto simp: bnb_result_of_def)
  show "\<forall>u \<in> set (selected r). utxo_ok u"
    using assms(1,3) by (auto simp: bnb_result_of_def groups_ok_def)
qed

lemma chosen_submset:
  assumes "mset chosen \<subseteq># mset (filter P alls)"
  shows "mset (map f chosen) \<subseteq># mset (map f alls)" "set chosen \<subseteq> set alls"
proof -
  have "mset chosen \<subseteq># mset alls"
    using assms by (metis mset_filter multiset_filter_subset subset_mset.order_trans)
  then show "mset (map f chosen) \<subseteq># mset (map f alls)" "set chosen \<subseteq> set alls"
    by (simp_all add: image_mset_subseteq_mono) (metis set_mset_mono set_mset_mset)
qed

locale bnb_selector =
  bnb_search usort B + fallback: coin_selector B fallback
  for usort B and fallback :: "weighted_utxo list \<Rightarrow> weighted_utxo list \<Rightarrow> feerate \<Rightarrow> amount
    \<Rightarrow> script \<Rightarrow> 'r \<Rightarrow> (insufficient_funds, cs_result \<times> 'r) res"

sublocale bnb_selector \<subseteq> bnb: coin_selector B "bnb_select B usort soc fallback" for soc
proof
  fix required optional :: "weighted_utxo list" and rate target s and rng :: 'r
    and r :: cs_result and rng' :: 'r and u
  let ?pos = "filter (\<lambda>g. 0 < og_eff g)"
  let ?contract = "(\<exists>remain. total_in (selected r) = target + fee_amount r + remain \<and>
      decide_change B remain rate s = (Ok (cs_excess r) :: (insufficient_funds, excess) res)) \<and>
    take (length required) (selected r) = map wu_utxo required \<and>
    mset (selected r) \<subseteq># mset (map wu_utxo (required @ optional)) \<and>
    (\<forall>u \<in> set (selected r). utxo_ok u)"
  assume run: "bnb_select B usort soc fallback required optional rate target s rng = Ok (r, rng')"
  have ?contract
  proof (rule bnb_select_OkE [OF run], elim disjE conjE)
    fix reqs alls
    assume g: "map og_utxo reqs = required" "map og_utxo alls = optional" "groups_ok B rate (reqs @ alls)"
    have chosen: ?contract
      if res: "bnb_result_of B reqs (int target) rate s (effs reqs) chosen r"
        and "int target \<le> effs reqs + effs chosen" "mset chosen \<subseteq># mset (?pos alls)" for chosen
    proof -
      have "groups_ok B rate (reqs @ chosen)"
        using g(3) chosen_submset(2) [OF that(3)] by (auto intro: groups_ok_subset)
      moreover have "selected r = map wu_utxo (required @ map og_utxo chosen)"
        using res g(1) by (auto simp: bnb_result_of_def comp_def)
      moreover have "mset (map (wu_utxo \<circ> og_utxo) chosen) \<subseteq># mset (map wu_utxo optional)"
        using chosen_submset(1) [OF that(3), of "wu_utxo \<circ> og_utxo"] g(2)
        by (auto simp: comp_def multiset.map_comp)
      ultimately show ?thesis
        using bnb_result_contract [OF that(1,2)] by (auto simp: comp_def)
    qed
    {
      assume "int target < effs reqs" "bnb_result_of B reqs (int target) rate s (effs reqs) [] r"
      then show ?contract using chosen [of "[]"] by simp
    next
      fix cf
      assume "bnb B usort reqs (?pos alls) (effs reqs) (effs (?pos alls)) (int target) (int cf) s rate = Ok r"
      then obtain ch where "bnb_solution (effs reqs) (?pos alls) (int target) (int cf) ch"
        "bnb_result_of B reqs (int target) rate s (effs reqs) ch r"
        by (rule bnb_sound) auto
      then show ?contract
        using chosen [of ch] by (simp add: bnb_solution_def)
    next
      assume "fallback required optional rate target s rng = Ok (r, rng')"
      from fallback.select_funds [OF this] fallback.select_required [OF this]
        fallback.select_available [OF this] fallback.select_readable [OF this]
      show ?contract by blast
    }
  qed
  then show "\<exists>remain. total_in (selected r) = target + fee_amount r + remain \<and>
      decide_change B remain rate s = (Ok (cs_excess r) :: (insufficient_funds, excess) res)"
    "take (length required) (selected r) = map wu_utxo required"
    "mset (selected r) \<subseteq># mset (map wu_utxo (required @ optional))"
    "u \<in> set (selected r) \<Longrightarrow> utxo_ok u"
    by auto
qed

context bnb_selector
begin

lemma bnb_is_selector: "coin_selector B (bnb_select B usort soc fallback)"
  by (rule bnb.coin_selector_axioms)

end

text \<open>The default algorithm of the wallet: branch and bound, falling back on a random draw.\<close>

interpretation default_sel: bnb_selector sort_by B "single_random_draw_select B next_u32" for B next_u32
  by unfold_locales

subsection \<open>Properties of branch and bound\<close>

lemma effective_sum_append [simp]:
  "effective_sum B rate (xs @ ys) = effective_sum B rate xs + effective_sum B rate ys"
  by (simp add: effective_sum_def)

lemma filter_map_groups:
  assumes "groups_ok B rate alls"
  shows "map og_utxo (filter (\<lambda>g. 0 < og_eff g) alls)
    = filter (\<lambda>w. 0 < effective_value B rate w) (map og_utxo alls)"
  using assms by (induction alls) auto

lemma lift_mset_map: "mset (map f ps) = mset ys \<Longrightarrow> \<exists>os. map f os = ys \<and> mset os = mset ps"
proof (induction ys arbitrary: ps)
  case (Cons y ys)
  then have "y \<in> set (map f ps)"
    by (metis list.set_intros(1) set_mset_mset)
  then obtain p where p: "p \<in> set ps" "f p = y"
    by auto
  then have "mset (map f (remove1 p ps)) = mset ys"
    using Cons.prems by (simp add: image_mset_Diff)
  from Cons.IH [OF this] obtain os where "map f os = ys" "mset os = mset (remove1 p ps)"
    by blast
  then show ?case
    using p by (intro exI [of _ "p # os"]) simp
qed simp

lemma submset_groups:
  assumes "mset other \<subseteq># mset (map og_utxo gs)"
  obtains os where "map og_utxo os = other" "mset os \<subseteq># mset gs"
proof -
  from subset_pick [OF assms] obtain v where
    "length v = length gs" "mset (pick v (map og_utxo gs)) = mset other" by auto
  moreover have "pick v (map og_utxo gs) = map og_utxo (pick v gs)"
    by (simp add: pick_def zip_map2 filter_map comp_def split_beta)
  ultimately obtain ps where "mset (map og_utxo ps) = mset other" "mset ps \<subseteq># mset gs"
    using pick_mset_subset [of v gs] by auto
  from lift_mset_map [OF this(1)] obtain os where "map og_utxo os = other" "mset os = mset ps"
    by blast
  with \<open>mset ps \<subseteq># mset gs\<close> that show thesis by metis
qed

text \<open>C30: branch and bound finds the cheapest changeless selection. When at most 15 optional UTXOs
  have a positive effective value, the required ones do not reach the target, and some set of
  those optional UTXOs brings the effective value between the target and the target plus the cost
  of a change output, then a successful run returns the required UTXOs and a set of optional ones
  whose effective value is at least the target and at most that of any such set: the fallback is
  not used and nothing better was missed.\<close>

theorem bnb_least_waste:
  assumes sort: "unstable_sort usort"
    and run: "bnb_select B usort soc fallback required optional rate target s rng = Ok (r, rng')"
    and few: "length (filter (\<lambda>w. 0 < effective_value B rate w) optional) \<le> 15"
    and below: "effective_sum B rate required < int target"
    and cost: "weight_from_vb B soc = Some cw" "fee_mul B rate cw = Some cost"
    and other: "mset other \<subseteq># mset (filter (\<lambda>w. 0 < effective_value B rate w) optional)"
      "int target \<le> effective_sum B rate (required @ other)"
      "effective_sum B rate (required @ other) \<le> int target + int cost"
  shows "rng' = rng \<and> (\<exists>chosen. mset chosen \<subseteq># mset optional \<and>
    selected r = map wu_utxo (required @ chosen) \<and>
    int target \<le> effective_sum B rate (required @ chosen) \<and>
    effective_sum B rate (required @ chosen) \<le> effective_sum B rate (required @ other))"
proof -
  let ?pos = "filter (\<lambda>g. 0 < og_eff g)"
  have search: "bnb_search usort"
    using sort by (simp add: bnb_search_def)
  from bnb_select_OkE [OF run] obtain reqs alls where
    g: "map og_utxo reqs = required" "map og_utxo alls = optional" "groups_ok B rate (reqs @ alls)" and
    res: "(int target < effs reqs) \<or>
     (rng' = rng \<and> bnb B usort reqs (?pos alls) (effs reqs) (effs (?pos alls)) (int target) (int cost) s rate = Ok r) \<or>
     (\<exists>e. bnb B usort reqs (?pos alls) (effs reqs) (effs (?pos alls)) (int target) (int cost) s rate = Err e)"
    by (rule bnb_select_OkE [OF run]) (use cost in auto)
  have eff_req: "effs reqs = effective_sum B rate required"
    using groups_effective [of B rate reqs] g by simp
  have pos: "\<forall>g \<in> set (?pos alls). 0 < og_eff g"
    by simp
  have few': "length (?pos alls) \<le> 15"
    using few filter_map_groups [of B rate alls] g(2,3) by (metis groups_ok_append length_map)
  have "mset other \<subseteq># mset (map og_utxo (?pos alls))"
    using other(1) filter_map_groups [of B rate alls] g(2,3) by simp
  then obtain os where os: "map og_utxo os = other" "mset os \<subseteq># mset (?pos alls)"
    by (rule submset_groups)
  have eff_of: "effs gs = effective_sum B rate (map og_utxo gs)" if "mset gs \<subseteq># mset (?pos alls)" for gs
    using groups_ok_subset [OF chosen_submset(2) [OF that]] g(3) by (simp add: groups_effective)
  have sol: "bnb_solution (effs reqs) (?pos alls) (int target) (int cost) os"
    using os(2) other(2,3) by (simp add: bnb_solution_def eff_of [OF os(2)] os(1) eff_req)
  have no_err: "bnb B usort reqs (?pos alls) (effs reqs) (effs (?pos alls)) (int target) (int cost) s rate
      \<noteq> Err e" for e
    using bnb_search.bnb_fails_only_without_solution [OF search _ pos few'] sol below
    unfolding eff_req by blast
  then have "rng' = rng" and
    ok: "bnb B usort reqs (?pos alls) (effs reqs) (effs (?pos alls)) (int target) (int cost) s rate = Ok r"
    using res below unfolding eff_req by (meson order.strict_trans less_irrefl)+
  from bnb_search.bnb_optimal [OF search ok pos few'] obtain chosen where
    ch: "bnb_solution (effs reqs) (?pos alls) (int target) (int cost) chosen"
      "bnb_result_of B reqs (int target) rate s (effs reqs) chosen r"
      "effs chosen \<le> effs os"
    using sol by metis
  then have "mset chosen \<subseteq># mset (?pos alls)"
    by (simp add: bnb_solution_def)
  moreover have "mset (map og_utxo chosen) \<subseteq># mset optional"
    using chosen_submset(1) [OF calculation, of og_utxo] g(2) by simp
  ultimately show ?thesis
    using ch os eff_of eff_req g(1) \<open>rng' = rng\<close>
    by (intro conjI exI [of _ "map og_utxo chosen"])
       (auto simp: bnb_solution_def bnb_result_of_def comp_def)
qed

text \<open>Concrete runs of the search.\<close>

lemma bnb_loop_numeral:
  "bnb_loop ogs target cost (numeral n) st =
     res_bind (bnb_step ogs target cost st) (\<lambda>c.
       case c of Next st' \<Rightarrow> bnb_loop ogs target cost (pred_numeral n) st'
       | Break st' \<Rightarrow> Ok (Break st') | NoMatch \<Rightarrow> Ok NoMatch)"
  by (simp add: numeral_eq_Suc)

lemmas bnb_eval = bnb_select_def bnb_or_fallback_def bnb_def bnb_loop_numeral bnb_step_def
  bnb_backtrack_def bnb_forward_def bnb_record_best_def bnb_start_def bnb_finish_def walk_back.simps
  og_at_def get_nth_def output_group_new_def sum_eff_def calculate_cs_result_def pick_def
  BNB_TOTAL_TRIES_def eff_le_def

lemma bnb_example_run:
  "bnb_select btc_example sort_by 31 (single_random_draw_select btc_example (\<lambda>r. (0, r)))
     [] [example_utxo 0 4000, example_utxo 1 6000] 1000 9400 [] () =
   Ok (\<lparr>selected = [wu_utxo (example_utxo 1 6000), wu_utxo (example_utxo 0 4000)], fee_amount = 528,
        cs_excess = NoChange 294 72 36\<rparr>, ())"
  by (simp add: bnb_eval select_eval)

lemma effective_value_example:
  "effective_value btc_example 1000 (example_utxo n v) = int v - 264"
  by (simp add: effective_value_def in_weight_def example_utxo_def btc_example_def U64_MAX_def)

theorem bnb_least_waste_witness:
  "\<exists>chosen. mset chosen \<subseteq># mset [example_utxo 0 4000, example_utxo 1 6000] \<and>
    [wu_utxo (example_utxo 1 6000), wu_utxo (example_utxo 0 4000)] = map wu_utxo chosen \<and>
    9400 \<le> effective_sum btc_example 1000 chosen \<and> effective_sum btc_example 1000 chosen \<le> 9472"
  using bnb_least_waste [OF unstable_sort_sort_by bnb_example_run, of 124 124
      "[example_utxo 0 4000, example_utxo 1 6000]"]
  by (simp add: effective_value_example effective_sum_def)
     (simp add: btc_example_def U64_MAX_def)

text \<open>The search never panics. From sums that were computed without overflow, whatever the
  number of tries, no partial sum of the search leaves the range of a signed 64-bit integer and no
  index leaves the list of candidates.\<close>

theorem bnb_search_never_panics:
  assumes "in_i64 c0" "in_i64 (effs ogs)" "in_i64 (c0 + effs ogs)" "in_i64 (target + cost)"
    and "\<forall>g \<in> set ogs. 0 < og_eff g"
  shows "(bnb_loop ogs target cost tries (bnb_start c0 (effs ogs)) :: ('e, _) res) \<noteq> Panic"
proof (rule bnb_loop_no_panic)
  show "bounds_ok c0 ogs target cost"
    using assms by (auto simp: bounds_ok_def intro: less_imp_le)
  show "search_inv c0 ogs target cost (bnb_start c0 (effs ogs))"
    by (rule search_inv_start) simp
qed

theorem bnb_search_never_panics_witness:
  "(bnb_loop [\<lparr>og_utxo = example_utxo 0 4000, og_fee = 264, og_eff = 3736\<rparr>] 3000 100 10
     (bnb_start (-50) 3736) :: (bnb_error, _) res) \<noteq> Panic"
  using bnb_search_never_panics [of "-50" "[\<lparr>og_utxo = example_utxo 0 4000, og_fee = 264, og_eff = 3736\<rparr>]"
      3000 100 10, where 'e = bnb_error]
  by (simp add: in_i64_def I64_MIN_def I64_MAX_def)

text \<open>C29: every algorithm honours the contract of transaction creation. The default algorithm
  (branch and bound over a random draw) selects every required UTXO, first and in the order given, and
  then none that was not offered or is offered once and selected twice; the selected value covers the target, the fee and the
  change, and a change output is never dust.\<close>

theorem default_selection_contract:
  assumes "unstable_sort usort"
    and "bnb_select B usort soc (single_random_draw_select B next_u32)
      required optional rate target s rng = Ok (r, rng')"
  shows "take (length required) (selected r) = map wu_utxo required \<and>
    mset (selected r) \<subseteq># mset (map wu_utxo (required @ optional)) \<and>
    target + fee_amount r + excess_amount (cs_excess r) \<le> total_in (selected r) \<and>
    (\<forall>a f. cs_excess r = Change a f \<longrightarrow> dust_limit B s \<le> a)"
proof -
  have "bnb_selector usort B (single_random_draw_select B next_u32)"
    by (intro bnb_selector.intro bnb_search.intro assms(1) draw_sel.draw.coin_selector_axioms)
  then have sel: "coin_selector B (bnb_select B usort soc (single_random_draw_select B next_u32))"
    by (rule bnb_selector.bnb_is_selector)
  show ?thesis
    using coin_selector.select_required [OF sel assms(2)] coin_selector.select_available [OF sel assms(2)]
      coin_selector.covers_outgoing [OF sel assms(2)] coin_selector.change_not_dust [OF sel assms(2)]
    by blast
qed

theorem default_selection_contract_witness:
  "9400 + 528 + (0::nat) \<le> total_in [wu_utxo (example_utxo 1 6000), wu_utxo (example_utxo 0 4000)]"
  using default_selection_contract [OF unstable_sort_sort_by bnb_example_run] by simp

text \<open>Branch and bound treats a perfect match without optional UTXOs as a failure. When the
  required UTXOs alone bring exactly the target, the first iteration records the empty selection
  as the best one, which the code cannot tell from having found none: the search reports
  \<open>TotalTriesExceeded\<close> after a single try.\<close>

theorem bnb_exact_required_fails:
  assumes "in_i64 (target + effs optional)" "in_i64 (target + cost)"
    and "0 \<le> effs optional" "0 \<le> cost"
  shows "bnb B usort required optional target (effs optional) target cost s rate = Err TotalTriesExceeded"
proof -
  have "(bnb_step ogs target cost (bnb_start target (effs optional)) :: (bnb_error, _) res)
      = Ok (Break (bnb_record_best (bnb_start target (effs optional))))" for ogs
    using assms by (simp add: bnb_step_def bnb_start_def i64_add_def Let_def)
  then show ?thesis
    by (simp add: bnb_def BNB_TOTAL_TRIES_def bnb_loop_numeral bnb_finish_def bnb_record_best_def
        bnb_start_def)
qed

theorem bnb_exact_required_fails_witness:
  "bnb btc_example sort_by [] [] 5000 0 5000 36 [] 1000 = Err TotalTriesExceeded"
  using bnb_exact_required_fails [of 5000 "[]" 36 btc_example sort_by "[]" "[]" 1000]
  by (simp add: in_i64_def I64_MIN_def I64_MAX_def)

end
