(* ===== verification/Bnb_Facts.thy ===== *)
theory Bnb_Facts
  imports Bnb
begin

section \<open>The default coin selection: termination and failures\<close>

text \<open>
  The search of branch and bound stops by itself, and the default algorithm (branch and bound over a
  random draw) reports insufficient funds only when one of the two sums it can fail on is too small.
\<close>

subsection \<open>The search stops by itself\<close>

definition stopped :: "bnb_control \<Rightarrow> bool" where
  "stopped c \<longleftrightarrow> (\<nexists>st. c = Next st)"

lemma bnb_loop_more_tries:
  "(bnb_loop ogs target cost k st :: ('e, _) res) = Ok c \<Longrightarrow> stopped c \<Longrightarrow> k \<le> k' \<Longrightarrow>
    (bnb_loop ogs target cost k' st :: ('e, _) res) = Ok c"
proof (induction k arbitrary: st k')
  case 0
  then show ?case by (auto simp: stopped_def)
next
  case (Suc k)
  then obtain j where k': "k' = Suc j" "k \<le> j"
    by (metis Suc_le_D Suc_le_mono)
  with Suc show ?case
    by (auto simp: res_simps split: bnb_control.splits)
qed

lemma res_cases: "r \<noteq> Panic \<Longrightarrow> (\<And>e. r \<noteq> Err e) \<Longrightarrow> \<exists>x. r = Ok x"
  by (cases r) auto

text \<open>C31: the search of branch and bound terminates without the limit on its tries. For \<open>n\<close>
  optional outputs of positive effective value, whose sums are in range, the loop is left by its
  break or its early return within \<open>2 ^ (n + 1)\<close> iterations, and more tries do not change the
  result; up to 15 outputs the limit of 100000 is never reached.\<close>

theorem bnb_search_terminates:
  assumes "in_i64 c0" "in_i64 (effs ogs)" "in_i64 (c0 + effs ogs)" "in_i64 (target + cost)"
    and "\<forall>g \<in> set ogs. 0 < og_eff g"
  shows "\<exists>c. stopped c \<and> (\<forall>tries \<ge> 2 ^ (length ogs + 1).
     (bnb_loop ogs target cost tries (bnb_start c0 (effs ogs)) :: (bnb_error, _) res) = Ok c) \<and>
     (length ogs \<le> 15 \<longrightarrow>
     (bnb_loop ogs target cost BNB_TOTAL_TRIES (bnb_start c0 (effs ogs)) :: (bnb_error, _) res) = Ok c)"
proof -
  let ?loop = "\<lambda>k. bnb_loop ogs target cost k (bnb_start c0 (effs ogs)) :: (bnb_error, _) res"
  let ?n = "2 ^ (length ogs + 1) :: nat"
  have inv: "search_inv c0 ogs target cost (bnb_start c0 (effs ogs))"
    by (rule search_inv_start) simp
  have "bounds_ok c0 ogs target cost"
    using assms by (auto simp: bounds_ok_def intro: less_imp_le)
  then have "?loop ?n \<noteq> Panic"
    by (rule bnb_loop_no_panic) (rule inv)
  then obtain c where c: "?loop ?n = Ok c"
    using res_cases [of "?loop ?n"] by auto
  have "stopped c"
    unfolding stopped_def using bnb_loop_exhaustive [OF inv _ order_refl c] assms(5) by (simp add: less_imp_le)
  moreover have "?loop tries = Ok c" if "?n \<le> tries" for tries
    using bnb_loop_more_tries [OF c \<open>stopped c\<close> that] .
  moreover have "?n \<le> BNB_TOTAL_TRIES" if "length ogs \<le> 15"
  proof -
    have "?n \<le> 2 ^ 16"
      using that by (intro power_increasing) simp_all
    then show ?thesis by (simp add: BNB_TOTAL_TRIES_def)
  qed
  ultimately show ?thesis by blast
qed

theorem bnb_search_terminates_witness:
  "\<exists>c. stopped c \<and> (bnb_loop [\<lparr>og_utxo = example_utxo 0 4000, og_fee = 264, og_eff = 3736\<rparr>] 3000 100 4
     (bnb_start (-50) 3736) :: (bnb_error, _) res) = Ok c"
  using bnb_search_terminates [of "-50" "[\<lparr>og_utxo = example_utxo 0 4000, og_fee = 264, og_eff = 3736\<rparr>]" 3000 100]
  by (auto simp: in_i64_def I64_MIN_def I64_MAX_def)

subsection \<open>Failures\<close>

definition fees_of :: "btc \<Rightarrow> feerate \<Rightarrow> weighted_utxo list \<Rightarrow> amount" where
  "fees_of B rate ws = sum_list (map (\<lambda>w. case fee_mul B rate (in_weight B w) of Some f \<Rightarrow> f | None \<Rightarrow> 0) ws)"

lemma fees_of_groups: "groups_ok B rate gs \<Longrightarrow> fees_of B rate (map og_utxo gs) = sum_list (map og_fee gs)"
  by (induction gs) (auto simp: fees_of_def)

lemma bnb_insufficient_Err:
  assumes "bnb_insufficient gs target = (Err e :: (insufficient_funds, 'a) res)" "groups_ok B rate gs"
  shows "needed e = target + fees_of B rate (map og_utxo gs) \<and>
    available e = total_in (map wu_utxo (map og_utxo gs))"
proof -
  have "res_map (\<lambda>g. txout_value (wu_utxo (og_utxo g))) gs \<noteq> (Err e' :: (insufficient_funds, _) res)" for e'
    using res_map_Err [of "\<lambda>g. txout_value (wu_utxo (og_utxo g))" gs e'] by auto
  then obtain vs where vs: "res_map (\<lambda>g. txout_value (wu_utxo (og_utxo g))) gs = (Ok vs :: (insufficient_funds, _) res)"
    and e: "needed e = target + sum_list (map og_fee gs)" "available e = sum_list vs"
    using assms(1) by (auto simp: bnb_insufficient_def res_simps)
  have "vs = map (\<lambda>g. utxo_value (wu_utxo (og_utxo g))) gs"
    using vs by (induction gs arbitrary: vs) (auto simp: res_simps)
  then show ?thesis
    by (simp add: e fees_of_groups [OF assms(2)] total_in_def comp_def)
qed

lemma sum_eff_Err [simp]: "sum_eff gs \<noteq> Err e"
proof -
  have "res_fold (\<lambda>acc g. i64_add acc (og_eff g)) a gs \<noteq> Err e" for a
    by (induction gs arbitrary: a) (auto simp: res_simps)
  then show ?thesis by (simp add: sum_eff_def)
qed

lemma calculate_cs_result_Err [simp]: "calculate_cs_result sel req ex \<noteq> Err e"
  by (auto simp: calculate_cs_result_def res_simps Let_def)

lemma groups_new_Err [simp]: "res_map (output_group_new B rate) ws \<noteq> Err e"
  using res_map_Err [of "output_group_new B rate" ws e] by auto

lemma bnb_or_fallback_Err:
  "bnb_or_fallback B usort fb reqs opts c0 a t cost rate s rng = Err e \<Longrightarrow> fb = Err e"
  by (auto simp: bnb_or_fallback_def res_simps split: if_splits res.splits)

lemma bnb_select_ErrE:
  assumes "bnb_select B usort soc fallback required optional rate target s rng = Err e"
  obtains "fallback required optional rate target s rng = Err e"
  | "needed e = target + fees_of B rate (required @ filter (\<lambda>w. 0 < effective_value B rate w) optional)"
    "available e = total_in (map wu_utxo (required @ filter (\<lambda>w. 0 < effective_value B rate w) optional))"
    "available e < needed e"
proof -
  let ?pos = "filter (\<lambda>g. 0 < og_eff g)"
  from assms obtain reqs alls c0 a where
    reqs: "res_map (output_group_new B rate) required = (Ok reqs :: (insufficient_funds, _) res)" and
    alls: "res_map (output_group_new B rate) optional = (Ok alls :: (insufficient_funds, _) res)" and
    c0: "sum_eff reqs = (Ok c0 :: (insufficient_funds, _) res)" and
    a: "sum_eff (?pos alls) = (Ok a :: (insufficient_funds, _) res)" and
    rest: "fallback required optional rate target s rng = Err e \<or>
      (a + c0 < 0 \<or> nat (a + c0) < target) \<and>
      bnb_insufficient (reqs @ ?pos alls) target = (Err e :: (insufficient_funds, cs_result \<times> 'a) res)"
    by (auto simp: bnb_select_def Let_def res_simps split: if_splits dest: bnb_or_fallback_Err)
  note g = groups_new [OF reqs] groups_new [OF alls]
  have names: "map og_utxo (reqs @ ?pos alls) = required @ filter (\<lambda>w. 0 < effective_value B rate w) optional"
    using filter_map_groups [OF g(4)] by (simp add: g(1,3))
  have ok: "groups_ok B rate (reqs @ ?pos alls)"
    using g(2) groups_ok_subset [OF _ g(4), of "?pos alls"] by auto
  from rest show thesis
  proof
    assume "fallback required optional rate target s rng = Err e"
    then show thesis by (rule that(1))
  next
    assume ins: "(a + c0 < 0 \<or> nat (a + c0) < target) \<and>
      bnb_insufficient (reqs @ ?pos alls) target = (Err e :: (insufficient_funds, cs_result \<times> 'a) res)"
    then have e: "needed e = target + fees_of B rate (map og_utxo (reqs @ ?pos alls))"
      "available e = total_in (map wu_utxo (map og_utxo (reqs @ ?pos alls)))"
      using bnb_insufficient_Err [OF _ ok] by blast+
    have "int (available e) = effs (reqs @ ?pos alls) + int (sum_list (map og_fee (reqs @ ?pos alls)))"
      using groups_total [OF ok] by (simp add: e(2) comp_def)
    moreover have "effs (reqs @ ?pos alls) < int target"
      using ins sum_eff_Ok [OF c0] sum_eff_Ok [OF a] by auto
    ultimately have "available e < needed e"
      unfolding e(1) fees_of_groups [OF ok] by linarith
    with e that(2) show thesis
      unfolding names by blast
  qed
qed

text \<open>C32: the default coin selection fails only when money is missing. It reports more needed than
  available, and either what is available is the value of the required UTXOs and the optional
  ones that are worth their fee, and what is needed the target and the fees of these; or what is
  available is the value of all UTXOs and what is needed the target and the fee of spending all.\<close>

theorem default_selection_fails_only:
  assumes "bnb_select B usort soc (single_random_draw_select B next_u32) required optional rate target s rng = Err e"
  shows "available e < needed e \<and>
    (let worthy = required @ filter (\<lambda>w. 0 < effective_value B rate w) optional in
       needed e = target + fees_of B rate worthy \<and> available e = total_in (map wu_utxo worthy) \<or>
     (\<exists>f. fee_mul B rate (sum_list (map (in_weight B) (required @ optional))) = Some f \<and>
       needed e = target + f \<and> available e = total_in (map wu_utxo (required @ optional))))"
  using assms
proof (rule bnb_select_ErrE)
  assume "single_random_draw_select B next_u32 required optional rate target s rng = Err e"
  from random_draw_insufficient [OF this] show ?thesis by auto
qed (simp add: Let_def)

text \<open>The two draws that are possible over one output that is worth its fee and one that is not: when
  the latter comes first the draw goes on to both, whose fees exceed what they bring, and the
  selection fails although the first output alone is enough.\<close>

lemma two_draws:
  "bnb_select btc_example sort_by 31 (single_random_draw_select btc_example (\<lambda>r. (0, r)))
     [] [example_utxo 0 6000, example_utxo 1 100] 1000 5600 [] ()
   = Err \<lparr>needed = 6128, available = 6100\<rparr>"
  "bnb_select btc_example sort_by 31 (single_random_draw_select btc_example (\<lambda>r. (1, r)))
     [] [example_utxo 0 6000, example_utxo 1 100] 1000 5600 [] ()
   = Ok (\<lparr>selected = [wu_utxo (example_utxo 0 6000)], fee_amount = 264, cs_excess = NoChange 294 136 36\<rparr>, ())"
  by (simp_all add: bnb_eval select_eval single_random_draw_select_def shuffle_slice_def swap_def)

theorem default_selection_fails_only_witness:
  "(6100 :: nat) < 6128 \<and> 6100 = total_in (map wu_utxo [example_utxo 0 6000, example_utxo 1 100])"
proof -
  have "filter (\<lambda>w. 0 < effective_value btc_example 1000 w) [example_utxo 0 6000, example_utxo 1 100]
      = [example_utxo 0 6000]"
    by (simp add: effective_value_example)
  with default_selection_fails_only [OF two_draws(1)] show ?thesis
    by (auto simp: Let_def total_in_def example_utxo_def)
qed

end
