(* ===== verification/Psbt.thy ===== *)
theory Psbt
  imports Utils
begin

section \<open>Partially signed transactions (src/psbt/mod.rs)\<close>

text \<open>
  The \<open>Psbt\<close> structure as the wallet uses it and the trait \<open>PsbtUtils\<close>: the output an input
  spends, read from the witness UTXO or from the previous transaction (whose id must be the one the
  input names), the fee and the fee rate. \<open>tx.input[i]\<close> on an index past the end and an output sum
  above the input sum are panics of the code.
\<close>

record psbt_output =
  po_redeem_script :: "script option"
  po_witness_script :: "script option"
  po_bip32_derivation :: "(pubkey, key_source) btree"
  po_tap_internal_key :: "xonly_key option"
  po_tap_tree :: "nat option"
  po_tap_key_origins :: "(xonly_key, leaf_hash list \<times> key_source) btree"

definition psbt_output_default :: psbt_output where
  "psbt_output_default = \<lparr>po_redeem_script = None, po_witness_script = None, po_bip32_derivation = [],
     po_tap_internal_key = None, po_tap_tree = None, po_tap_key_origins = []\<rparr>"

record psbt =
  unsigned_tx :: transaction
  psbt_xpubs :: "(nat, key_source) btree"
  inputs :: "psbt_input list"
  outputs :: "psbt_output list"

text \<open>\<open>Psbt::from_unsigned_tx\<close> on a transaction without signatures.\<close>

definition psbt_from_unsigned_tx :: "transaction \<Rightarrow> psbt" where
  "psbt_from_unsigned_tx tx = \<lparr>unsigned_tx = tx, psbt_xpubs = [],
     inputs = map (\<lambda>_. psbt_input_default) (tx_input tx),
     outputs = map (\<lambda>_. psbt_output_default) (tx_output tx)\<rparr>"

definition get_utxo_for :: "btc \<Rightarrow> psbt \<Rightarrow> nat \<Rightarrow> ('e, txout option) res" where
  "get_utxo_for B p i =
     (case get_nth (inputs p) i of
        None \<Rightarrow> Ok None
      | Some inp \<Rightarrow>
          (case witness_utxo inp of
             Some t \<Rightarrow> Ok (Some t)
           | None \<Rightarrow>
               (case non_witness_utxo inp of
                  None \<Rightarrow> Ok None
                | Some prev_tx \<Rightarrow>
                    res_bind (expect (get_nth (tx_input (unsigned_tx p)) i)) (\<lambda>txin.
                    let op = previous_output txin in
                    if compute_txid B prev_tx \<noteq> op_txid op then Ok None
                    else Ok (get_nth (tx_output prev_tx) (unat (op_vout op)))))))"

text \<open>Collecting options: \<open>None\<close> as soon as one is missing.\<close>

fun collect_options :: "'a option list \<Rightarrow> 'a list option" where
  "collect_options [] = Some []"
| "collect_options (x # xs) =
     (case x of None \<Rightarrow> None | Some v \<Rightarrow> map_option (Cons v) (collect_options xs))"

definition fee_amount_of :: "btc \<Rightarrow> psbt \<Rightarrow> ('e, amount option) res" where
  "fee_amount_of B p =
     (let tx = unsigned_tx p in
      res_bind (res_map (get_utxo_for B p) [0..<length (tx_input tx)]) (\<lambda>utxos.
      case collect_options utxos of
        None \<Rightarrow> Ok None
      | Some ins \<Rightarrow>
          res_bind (u64_sum (map txo_value ins)) (\<lambda>input_amount.
          res_bind (u64_sum (map txo_value (tx_output tx))) (\<lambda>output_amount.
          res_bind (expect (checked_sub input_amount output_amount)) (\<lambda>fee. Ok (Some fee))))))"

text \<open>\<open>extract_tx p\<close> stands for \<open>Psbt::extract_tx\<close>, \<open>None\<close> where it fails, and \<open>fee_div\<close> for the
  division of an amount by a weight.\<close>

definition fee_rate_of :: "btc \<Rightarrow> (psbt \<Rightarrow> transaction option) \<Rightarrow> (amount \<Rightarrow> weight \<Rightarrow> feerate)
    \<Rightarrow> psbt \<Rightarrow> ('e, feerate option) res" where
  "fee_rate_of B extract_tx fee_div p =
     res_bind (fee_amount_of B p) (\<lambda>fee_amount.
     Ok (case extract_tx p of
           None \<Rightarrow> None
         | Some tx \<Rightarrow> map_option (\<lambda>fee. fee_div fee (tx_weight B tx)) fee_amount))"

lemma get_nth_Some_iff: "get_nth xs i = Some x \<longleftrightarrow> i < length xs \<and> xs ! i = x"
  by (auto simp: get_nth_def)

lemma get_nth_None_iff: "get_nth xs i = None \<longleftrightarrow> length xs \<le> i"
  by (auto simp: get_nth_def)

lemma collect_options_Some: "collect_options xs = Some ys \<longleftrightarrow> xs = map Some ys"
proof (induction xs arbitrary: ys)
  case (Cons x xs)
  then show ?case by (cases ys) (auto split: option.splits)
qed auto

lemma get_utxo_for_Err [simp]: "get_utxo_for B p i \<noteq> Err e"
  by (auto simp: get_utxo_for_def Let_def res_simps split: option.splits)

lemma get_utxo_for_no_panic:
  "length (inputs p) \<le> length (tx_input (unsigned_tx p)) \<Longrightarrow> get_utxo_for B p i \<noteq> Panic"
  by (auto simp: get_utxo_for_def Let_def get_nth_def res_simps split: option.splits if_splits)


definition example_tx :: "u32 \<Rightarrow> outpoint list \<Rightarrow> amount list \<Rightarrow> transaction" where
  "example_tx lt ins outs = \<lparr>tx_version = 2, tx_lock_time = Blocks lt,
     tx_input = map (\<lambda>op. \<lparr>previous_output = op, script_sig = [], sequence = 0, witness = []\<rparr>) ins,
     tx_output = map (\<lambda>v. \<lparr>txo_value = v, txo_script = []\<rparr>) outs, tx_mw_tx = None, tx_is_hog_ex = False\<rparr>"

definition example_psbt :: psbt where
  "example_psbt = (psbt_from_unsigned_tx (example_tx 9 [OutPoint 7 1] [900]))
     \<lparr>inputs := [psbt_input_default\<lparr>non_witness_utxo := Some (example_tx 7 [] [50, 1000])\<rparr>]\<rparr>"

lemmas psbt_eval = example_psbt_def example_tx_def psbt_from_unsigned_tx_def psbt_input_default_def
  get_utxo_for_def get_nth_def btc_example_def


text \<open>The fee is exactly what the inputs have over the outputs. When every input's output is
  known, the fee of a PSBT is the sum of the spent values minus the sum of the created ones; an
  input whose output is unknown makes the fee unknown.\<close>

lemma fee_amount_exact:
  assumes "fee_amount_of B p = (Ok res :: ('e, amount option) res)"
  shows "case res of
      Some fee \<Rightarrow> \<exists>ins. length ins = length (tx_input (unsigned_tx p)) \<and>
        (\<forall>i < length ins. get_utxo_for B p i = (Ok (Some (ins ! i)) :: ('e, txout option) res)) \<and>
        sum_list (map txo_value ins) = sum_list (map txo_value (tx_output (unsigned_tx p))) + fee
    | None \<Rightarrow> \<exists>i < length (tx_input (unsigned_tx p)). get_utxo_for B p i = (Ok None :: ('e, txout option) res)"
proof -
  let ?n = "length (tx_input (unsigned_tx p))"
  from assms obtain utxos where
    u: "res_map (get_utxo_for B p) [0..<?n] = (Ok utxos :: ('e, _) res)" and
    rest: "(case collect_options utxos of
        None \<Rightarrow> Ok None
      | Some ins \<Rightarrow>
          res_bind (u64_sum (map txo_value ins)) (\<lambda>input_amount.
          res_bind (u64_sum (map txo_value (tx_output (unsigned_tx p)))) (\<lambda>output_amount.
          res_bind (expect (checked_sub input_amount output_amount)) (\<lambda>fee. Ok (Some fee)))))
        = (Ok res :: ('e, _) res)"
    by (auto simp: fee_amount_of_def Let_def bind_Ok_iff)
  have each: "length utxos = ?n"
    "\<And>i. i < ?n \<Longrightarrow> get_utxo_for B p i = (Ok (utxos ! i) :: ('e, _) res)"
    using u by (auto simp: res_map_Ok_iff list_all2_conv_all_nth)
  show ?thesis
  proof (cases "collect_options utxos")
    case None
    have "\<exists>i < length utxos. utxos ! i = None"
    proof (rule ccontr)
      assume "\<not> ?thesis"
      then have "utxos = map Some (map the utxos)"
        by (intro nth_equalityI) auto
      then show False
        using None collect_options_Some by (metis option.distinct(1))
    qed
    then show ?thesis
      using each None rest by auto
  next
    case (Some ins)
    then have "utxos = map Some ins"
      by (simp add: collect_options_Some)
    then show ?thesis
      using each rest Some by (auto simp: res_simps intro!: exI [of _ ins])
  qed
qed

lemma fee_amount_exact_witness:
  "\<exists>ins :: txout list. length ins = length (tx_input (unsigned_tx example_psbt)) \<and>
    sum_list (map txo_value ins) = sum_list (map txo_value (tx_output (unsigned_tx example_psbt))) + 100"
proof -
  have "fee_amount_of btc_example example_psbt = (Ok (Some 100) :: (unit, amount option) res)"
    by (simp add: fee_amount_of_def psbt_eval u64_sum_def u64_add_def U64_MAX_def checked_sub_def Let_def)
  from fee_amount_exact [OF this] show ?thesis
    unfolding option.case by blast
qed

end
