(* ===== verification/Change_Set.thy ===== *)
theory Change_Set
  imports Psbt
begin

section \<open>Change sets and the SQLite store (src/wallet/changeset.rs, locked_outpoints.rs)\<close>

text \<open>
  \<open>ChangeSet\<close>, the wallet's aggregate of changes, with its \<open>Merge\<close> implementation (the
  write-once fields keep their first value), the change set of the locked outpoints, the \<open>From\<close>
  conversions, and the two SQLite functions over a database state: one row for the descriptors and
  the network, one table of locked outpoints, and the tables of the external parts. The change sets
  of \<open>bdk_chain\<close> (local chain, transaction graph, keychain index) are opaque: a record
  \<open>merge_ops\<close> holds the operations of their \<open>Merge\<close> implementation. The locale \<open>mergeable\<close> is the
  contract of \<open>Merge\<close>; it is interpreted by the locked outpoints and, for lawful external parts,
  it holds of the aggregate.
\<close>

subsection \<open>The contract of Merge\<close>

locale mergeable =
  fixes wf :: "'a \<Rightarrow> bool" and merge :: "'a \<Rightarrow> 'a \<Rightarrow> 'a" and empty :: 'a and is_empty :: "'a \<Rightarrow> bool"
  assumes wf_empty: "wf empty"
    and wf_merge: "wf a \<Longrightarrow> wf b \<Longrightarrow> wf (merge a b)"
    and merge_assoc: "wf a \<Longrightarrow> wf b \<Longrightarrow> wf c \<Longrightarrow> merge (merge a b) c = merge a (merge b c)"
    and merge_empty_right: "wf a \<Longrightarrow> merge a empty = a"
    and merge_empty_left: "wf a \<Longrightarrow> merge empty a = a"
    and is_empty_iff: "wf a \<Longrightarrow> is_empty a \<longleftrightarrow> a = empty"
    and merge_not_empty: "wf a \<Longrightarrow> wf b \<Longrightarrow> merge a b = empty \<Longrightarrow> a = empty \<and> b = empty"
begin

text \<open>Merging a sequence one by one, and merging what it amounts to.\<close>

lemma foldl_wf: "wf a \<Longrightarrow> \<forall>x \<in> set xs. wf x \<Longrightarrow> wf (foldl merge a xs)"
  by (induction xs arbitrary: a) (auto simp: wf_merge)

lemma foldl_merge: "wf a \<Longrightarrow> \<forall>x \<in> set xs. wf x \<Longrightarrow> foldl merge a xs = merge a (foldl merge empty xs)"
proof (induction xs arbitrary: a)
  case Nil
  then show ?case by (simp add: merge_empty_right)
next
  case (Cons x xs)
  have "foldl merge a (x # xs) = merge (merge a x) (foldl merge empty xs)"
    using Cons.IH [of "merge a x"] Cons.prems by (simp add: wf_merge)
  also have "\<dots> = merge a (merge x (foldl merge empty xs))"
    using Cons.prems by (simp add: merge_assoc foldl_wf wf_empty)
  also have "merge x (foldl merge empty xs) = foldl merge x xs"
    using Cons.IH [of x] Cons.prems by simp
  finally show ?case
    using Cons.prems by (simp add: merge_empty_left)
qed

lemma foldl_append:
  "\<forall>x \<in> set xs. wf x \<Longrightarrow> \<forall>x \<in> set ys. wf x \<Longrightarrow>
    foldl merge empty (xs @ ys) = merge (foldl merge empty xs) (foldl merge empty ys)"
  using foldl_merge [of "foldl merge empty xs" ys] by (simp add: foldl_wf wf_empty)

end

record 'a merge_ops =
  mo_wf :: "'a \<Rightarrow> bool"
  mo_merge :: "'a \<Rightarrow> 'a \<Rightarrow> 'a"
  mo_empty :: 'a
  mo_is_empty :: "'a \<Rightarrow> bool"

definition lawful :: "'a merge_ops \<Rightarrow> bool" where
  "lawful M \<longleftrightarrow> mergeable (mo_wf M) (mo_merge M) (mo_empty M) (mo_is_empty M)"

subsection \<open>Locked outpoints\<close>

type_synonym lock_changes = "(outpoint, bool) btree"

definition lock_merge :: "lock_changes \<Rightarrow> lock_changes \<Rightarrow> lock_changes" where
  "lock_merge self other = bt_extend self other"

definition lock_is_empty :: "lock_changes \<Rightarrow> bool" where
  "lock_is_empty self \<longleftrightarrow> self = []"

lemma bt_extend_Nil_iff: "bt_extend a b = [] \<longleftrightarrow> a = [] \<and> b = []"
  using bt_extend_not_Nil [of b a] by (cases "b = []") (auto simp: bt_simps)

interpretation locks: mergeable bt_wf lock_merge "[]" lock_is_empty
  by unfold_locales
    (auto simp: lock_merge_def lock_is_empty_def bt_simps bt_extend_assoc bt_extend_left_Nil
      bt_extend_Nil_iff)

subsection \<open>The change set of the wallet\<close>

record ('d, 'n, 'lc, 'tg, 'ix) change_set =
  cs_descriptor :: "'d option"
  cs_change_descriptor :: "'d option"
  cs_network :: "'n option"
  cs_local_chain :: 'lc
  cs_tx_graph :: 'tg
  cs_indexer :: 'ix
  cs_locked_outpoints :: lock_changes

record ('lc, 'tg, 'ix) ext_ops =
  lc_ops :: "'lc merge_ops"
  tg_ops :: "'tg merge_ops"
  ix_ops :: "'ix merge_ops"

definition ext_lawful :: "('lc, 'tg, 'ix) ext_ops \<Rightarrow> bool" where
  "ext_lawful X \<longleftrightarrow> lawful (lc_ops X) \<and> lawful (tg_ops X) \<and> lawful (ix_ops X)"

definition cs_default :: "('lc, 'tg, 'ix) ext_ops \<Rightarrow> ('d, 'n, 'lc, 'tg, 'ix) change_set" where
  "cs_default X = \<lparr>cs_descriptor = None, cs_change_descriptor = None, cs_network = None,
     cs_local_chain = mo_empty (lc_ops X), cs_tx_graph = mo_empty (tg_ops X),
     cs_indexer = mo_empty (ix_ops X), cs_locked_outpoints = []\<rparr>"

text \<open>A write-once field. The \<open>debug_assert!\<close> on a second, different value is the predicate
  \<open>write_once_ok\<close>; a release build keeps the first value.\<close>

definition write_once :: "'a option \<Rightarrow> 'a option \<Rightarrow> 'a option" where
  "write_once self other = (if self = None \<and> other \<noteq> None then other else self)"

definition write_once_ok :: "'a option \<Rightarrow> 'a option \<Rightarrow> bool" where
  "write_once_ok self other \<longleftrightarrow> self = None \<or> other = None \<or> self = other"

definition cs_merge :: "('lc, 'tg, 'ix) ext_ops \<Rightarrow> ('d, 'n, 'lc, 'tg, 'ix) change_set
    \<Rightarrow> ('d, 'n, 'lc, 'tg, 'ix) change_set \<Rightarrow> ('d, 'n, 'lc, 'tg, 'ix) change_set" where
  "cs_merge X self other =
     \<lparr>cs_descriptor = write_once (cs_descriptor self) (cs_descriptor other),
      cs_change_descriptor = write_once (cs_change_descriptor self) (cs_change_descriptor other),
      cs_network = write_once (cs_network self) (cs_network other),
      cs_local_chain = mo_merge (lc_ops X) (cs_local_chain self) (cs_local_chain other),
      cs_tx_graph = mo_merge (tg_ops X) (cs_tx_graph self) (cs_tx_graph other),
      cs_indexer = mo_merge (ix_ops X) (cs_indexer self) (cs_indexer other),
      cs_locked_outpoints = lock_merge (cs_locked_outpoints self) (cs_locked_outpoints other)\<rparr>"

definition cs_is_empty :: "('lc, 'tg, 'ix) ext_ops \<Rightarrow> ('d, 'n, 'lc, 'tg, 'ix) change_set \<Rightarrow> bool" where
  "cs_is_empty X self \<longleftrightarrow> cs_descriptor self = None \<and> cs_change_descriptor self = None \<and>
     cs_network self = None \<and> mo_is_empty (lc_ops X) (cs_local_chain self) \<and>
     mo_is_empty (tg_ops X) (cs_tx_graph self) \<and> mo_is_empty (ix_ops X) (cs_indexer self) \<and>
     lock_is_empty (cs_locked_outpoints self)"

definition cs_wf :: "('lc, 'tg, 'ix) ext_ops \<Rightarrow> ('d, 'n, 'lc, 'tg, 'ix) change_set \<Rightarrow> bool" where
  "cs_wf X c \<longleftrightarrow> mo_wf (lc_ops X) (cs_local_chain c) \<and> mo_wf (tg_ops X) (cs_tx_graph c) \<and>
     mo_wf (ix_ops X) (cs_indexer c) \<and> bt_wf (cs_locked_outpoints c)"

text \<open>The \<open>From\<close> conversions.\<close>

definition cs_from_local_chain :: "('lc, 'tg, 'ix) ext_ops \<Rightarrow> 'lc \<Rightarrow> ('d, 'n, 'lc, 'tg, 'ix) change_set" where
  "cs_from_local_chain X chain = (cs_default X)\<lparr>cs_local_chain := chain\<rparr>"

definition cs_from_indexed_graph :: "('lc, 'tg, 'ix) ext_ops \<Rightarrow> 'tg \<times> 'ix \<Rightarrow> ('d, 'n, 'lc, 'tg, 'ix) change_set" where
  "cs_from_indexed_graph X g = (cs_default X)\<lparr>cs_tx_graph := fst g, cs_indexer := snd g\<rparr>"

definition cs_from_tx_graph :: "('lc, 'tg, 'ix) ext_ops \<Rightarrow> 'tg \<Rightarrow> ('d, 'n, 'lc, 'tg, 'ix) change_set" where
  "cs_from_tx_graph X g = (cs_default X)\<lparr>cs_tx_graph := g\<rparr>"

definition cs_from_indexer :: "('lc, 'tg, 'ix) ext_ops \<Rightarrow> 'ix \<Rightarrow> ('d, 'n, 'lc, 'tg, 'ix) change_set" where
  "cs_from_indexer X i = (cs_default X)\<lparr>cs_indexer := i\<rparr>"

definition cs_from_locks :: "('lc, 'tg, 'ix) ext_ops \<Rightarrow> lock_changes \<Rightarrow> ('d, 'n, 'lc, 'tg, 'ix) change_set" where
  "cs_from_locks X l = (cs_default X)\<lparr>cs_locked_outpoints := l\<rparr>"

lemma write_once_simps [simp]: "write_once None b = b" "write_once a None = a" "write_once (Some x) b = Some x"
  by (cases b) (simp_all add: write_once_def)

lemma write_once_assoc: "write_once (write_once a b) c = write_once a (write_once b c)"
  by (cases a) simp_all

lemma write_once_None: "write_once a b = None \<longleftrightarrow> a = None \<and> b = None"
  by (cases a) simp_all

lemma lawfulD: "lawful M \<Longrightarrow> mergeable (mo_wf M) (mo_merge M) (mo_empty M) (mo_is_empty M)"
  by (simp add: lawful_def)

lemma cs_mergeable:
  assumes "ext_lawful X"
  shows "mergeable (cs_wf X) (cs_merge X) (cs_default X) (cs_is_empty X)"
proof -
  have l: "mergeable (mo_wf (lc_ops X)) (mo_merge (lc_ops X)) (mo_empty (lc_ops X)) (mo_is_empty (lc_ops X))"
    and t: "mergeable (mo_wf (tg_ops X)) (mo_merge (tg_ops X)) (mo_empty (tg_ops X)) (mo_is_empty (tg_ops X))"
    and i: "mergeable (mo_wf (ix_ops X)) (mo_merge (ix_ops X)) (mo_empty (ix_ops X)) (mo_is_empty (ix_ops X))"
    using assms by (simp_all add: ext_lawful_def lawful_def)
  note facts = mergeable.wf_empty mergeable.wf_merge mergeable.merge_assoc mergeable.merge_empty_right
    mergeable.merge_empty_left mergeable.is_empty_iff mergeable.merge_not_empty
  show ?thesis
  proof
    fix a b c :: "('d, 'n, 'a, 'b, 'c) change_set"
    show "cs_wf X (cs_default X)"
      by (simp add: cs_wf_def cs_default_def facts(1) [OF l] facts(1) [OF t] facts(1) [OF i] bt_simps)
    show "cs_wf X a \<Longrightarrow> cs_wf X b \<Longrightarrow> cs_wf X (cs_merge X a b)"
      by (simp add: cs_wf_def cs_merge_def facts(2) [OF l] facts(2) [OF t] facts(2) [OF i] locks.wf_merge)
    show "cs_wf X a \<Longrightarrow> cs_wf X b \<Longrightarrow> cs_wf X c \<Longrightarrow>
        cs_merge X (cs_merge X a b) c = cs_merge X a (cs_merge X b c)"
      by (simp add: cs_wf_def cs_merge_def facts(3) [OF l] facts(3) [OF t] facts(3) [OF i]
          locks.merge_assoc write_once_assoc)
    show "cs_wf X a \<Longrightarrow> cs_merge X a (cs_default X) = a"
      by (simp add: cs_wf_def cs_merge_def cs_default_def facts(4) [OF l] facts(4) [OF t] facts(4) [OF i]
          locks.merge_empty_right)
    show "cs_wf X a \<Longrightarrow> cs_merge X (cs_default X) a = a"
      by (simp add: cs_wf_def cs_merge_def cs_default_def facts(5) [OF l] facts(5) [OF t] facts(5) [OF i]
          locks.merge_empty_left)
    show "cs_wf X a \<Longrightarrow> cs_is_empty X a \<longleftrightarrow> a = cs_default X"
      by (cases a) (auto simp: cs_wf_def cs_is_empty_def cs_default_def facts(6) [OF l] facts(6) [OF t]
          facts(6) [OF i] lock_is_empty_def)
    show "cs_wf X a \<Longrightarrow> cs_wf X b \<Longrightarrow> cs_merge X a b = cs_default X \<Longrightarrow> a = cs_default X \<and> b = cs_default X"
      using facts(7) [OF l] facts(7) [OF t] facts(7) [OF i] locks.merge_not_empty
      by (cases a; cases b) (simp add: cs_wf_def cs_merge_def cs_default_def write_once_None, blast)
  qed
qed

text \<open>C37: the wallet's change set is a lawful change set. When the change sets of the chain, the
  graph and the index are, merging is associative with the default as unit on both sides, a change
  set is empty exactly when it is the default, and a merge is empty only of empty change sets.\<close>

theorem change_set_mergeable:
  assumes "ext_lawful X"
  shows "mergeable (cs_wf X) (cs_merge X) (cs_default X) (cs_is_empty X)"
  by (rule cs_mergeable [OF assms])

text \<open>External parts for concrete runs: ordered maps merged by extension.\<close>

definition map_ops :: "(nat, nat) btree merge_ops" where
  "map_ops = \<lparr>mo_wf = bt_wf, mo_merge = bt_extend, mo_empty = [], mo_is_empty = (\<lambda>m. m = [])\<rparr>"

definition example_ops :: "((nat, nat) btree, (nat, nat) btree, (nat, nat) btree) ext_ops" where
  "example_ops = \<lparr>lc_ops = map_ops, tg_ops = map_ops, ix_ops = map_ops\<rparr>"

lemma ext_lawful_example [simp]: "ext_lawful example_ops"
proof -
  have "lawful map_ops"
    unfolding lawful_def map_ops_def
    by unfold_locales
      (auto simp: bt_simps bt_extend_assoc bt_extend_left_Nil bt_extend_Nil_iff)
  then show ?thesis
    by (simp add: ext_lawful_def example_ops_def)
qed

type_synonym example_change_set =
  "(nat, nat, (nat, nat) btree, (nat, nat) btree, (nat, nat) btree) change_set"

theorem change_set_mergeable_witness:
  "mergeable (cs_wf example_ops) (cs_merge example_ops) (cs_default example_ops :: example_change_set)
     (cs_is_empty example_ops)"
  by (rule change_set_mergeable) simp

text \<open>The descriptors and the network are written once. Merging never changes a descriptor, a
  change descriptor or a network that is already there, and takes the other's when there is none;
  for the locked outpoints the later change wins.\<close>

lemma merge_first_write_wins:
  "cs_descriptor (cs_merge X a b) = (case cs_descriptor a of Some d \<Rightarrow> Some d | None \<Rightarrow> cs_descriptor b) \<and>
   cs_change_descriptor (cs_merge X a b)
     = (case cs_change_descriptor a of Some d \<Rightarrow> Some d | None \<Rightarrow> cs_change_descriptor b) \<and>
   cs_network (cs_merge X a b) = (case cs_network a of Some n \<Rightarrow> Some n | None \<Rightarrow> cs_network b) \<and>
   (bt_wf (cs_locked_outpoints a) \<longrightarrow> bt_wf (cs_locked_outpoints b) \<longrightarrow>
     bt_get (cs_locked_outpoints (cs_merge X a b)) op
       = (case bt_get (cs_locked_outpoints b) op of Some l \<Rightarrow> Some l
          | None \<Rightarrow> bt_get (cs_locked_outpoints a) op))"
  by (auto simp: cs_merge_def lock_merge_def bt_simps map_add_def split: option.splits)

lemma merge_first_write_wins_witness:
  "bt_get (cs_locked_outpoints (cs_merge example_ops
      ((cs_default example_ops :: example_change_set)\<lparr>cs_locked_outpoints := [(OutPoint 1 0, True)]\<rparr>)
      ((cs_default example_ops)\<lparr>cs_locked_outpoints := [(OutPoint 1 0, False)]\<rparr>))) (OutPoint 1 0)
   = Some False"
  using merge_first_write_wins [of example_ops
      "(cs_default example_ops :: example_change_set)\<lparr>cs_locked_outpoints := [(OutPoint 1 0, True)]\<rparr>"
      "(cs_default example_ops)\<lparr>cs_locked_outpoints := [(OutPoint 1 0, False)]\<rparr>" "OutPoint 1 0"]
  by (simp add: bt_wf_def bt_get_def)

subsection \<open>The SQLite store\<close>

text \<open>
  The database: the row of \<open>bdk_wallet\<close> (its primary key is the constant 0, so there is at most
  one), the keys of \<open>bdk_wallet_locked_outpoints\<close>, and the tables of the external parts with their
  own \<open>init_sqlite_tables\<close>, \<open>from_sqlite\<close> and \<open>persist_to_sqlite\<close>. The SQL statements of this
  crate are written out as their effect on the state. Any statement may fail: \<open>sql_error\<close> is the
  error of the database, and a statement that fails changes nothing. Everything that writes returns
  its outcome with the database it leaves behind, so that what was written before a failure is
  still there. Schema creation keeps the data that is there.
\<close>

record ('d, 'n, 'lct, 'tgt, 'ixt) wallet_db =
  db_row :: "('d option \<times> 'd option \<times> 'n option) option"
  db_locks :: "outpoint list"
  db_lc :: 'lct
  db_tg :: 'tgt
  db_ix :: 'ixt

text \<open>\<open>PrepareCached n\<close> is the \<open>n\<close>-th \<open>prepare_cached\<close> of \<open>persist_to_sqlite\<close>.\<close>

datatype ('d, 'n) wallet_stmt =
  BeginTransaction | CommitTransaction | MigrateSchema | SelectWallet | SelectLocks | PrepareCached nat
| UpsertDescriptor 'd | UpsertChangeDescriptor 'd | UpsertNetwork 'n
| InsertLock outpoint | DeleteLock outpoint

record ('a, 't, 'e) store_ops =
  so_init :: "'t \<Rightarrow> ('e, unit) res \<times> 't"
  so_load :: "'t \<Rightarrow> ('e, 'a) res"
  so_save :: "'a \<Rightarrow> 't \<Rightarrow> ('e, unit) res \<times> 't"

record ('d, 'n, 'lc, 'tg, 'ix, 'lct, 'tgt, 'ixt, 'e) db_ops =
  lc_store :: "('lc, 'lct, 'e) store_ops"
  tg_store :: "('tg, 'tgt, 'e) store_ops"
  ix_store :: "('ix, 'ixt, 'e) store_ops"
  sql_error :: "('d, 'n) wallet_stmt \<Rightarrow> ('d, 'n, 'lct, 'tgt, 'ixt) wallet_db \<Rightarrow> 'e option"

text \<open>Steps in order, up to the first that does not succeed.\<close>

fun run_steps :: "('s \<Rightarrow> ('e, unit) res \<times> 's) list \<Rightarrow> 's \<Rightarrow> ('e, unit) res \<times> 's" where
  "run_steps [] s = (Ok (), s)"
| "run_steps (f # fs) s = (case f s of (Ok _, s') \<Rightarrow> run_steps fs s' | other \<Rightarrow> other)"

text \<open>\<open>INSERT ... ON CONFLICT(id) DO UPDATE SET c=COALESCE(table.c, :c)\<close> for each column.\<close>

fun coalesce :: "'a option \<Rightarrow> 'a option \<Rightarrow> 'a option" where
  "coalesce (Some x) y = Some x"
| "coalesce None y = y"

definition upsert_descriptor :: "'d \<Rightarrow> ('d option \<times> 'd option \<times> 'n option) option
    \<Rightarrow> ('d option \<times> 'd option \<times> 'n option) option" where
  "upsert_descriptor d row = (case row of
     None \<Rightarrow> Some (Some d, None, None)
   | Some (desc, change_desc, network) \<Rightarrow> Some (coalesce desc (Some d), change_desc, network))"

definition upsert_change_descriptor :: "'d \<Rightarrow> ('d option \<times> 'd option \<times> 'n option) option
    \<Rightarrow> ('d option \<times> 'd option \<times> 'n option) option" where
  "upsert_change_descriptor d row = (case row of
     None \<Rightarrow> Some (None, Some d, None)
   | Some (desc, change_desc, network) \<Rightarrow> Some (desc, coalesce change_desc (Some d), network))"

definition upsert_network :: "'n \<Rightarrow> ('d option \<times> 'd option \<times> 'n option) option
    \<Rightarrow> ('d option \<times> 'd option \<times> 'n option) option" where
  "upsert_network n row = (case row of
     None \<Rightarrow> Some (None, None, Some n)
   | Some (desc, change_desc, network) \<Rightarrow> Some (desc, change_desc, coalesce network (Some n)))"

text \<open>\<open>INSERT OR IGNORE\<close> and \<open>DELETE\<close> on the table of locked outpoints.\<close>

definition insert_lock :: "outpoint \<Rightarrow> outpoint list \<Rightarrow> outpoint list" where
  "insert_lock op locks = (if op \<in> set locks then locks else locks @ [op])"

definition delete_lock :: "outpoint \<Rightarrow> outpoint list \<Rightarrow> outpoint list" where
  "delete_lock op locks = filter (\<lambda>x. x \<noteq> op) locks"

fun stmt_effect :: "('d, 'n) wallet_stmt \<Rightarrow> ('d, 'n, 'lct, 'tgt, 'ixt) wallet_db
    \<Rightarrow> ('d, 'n, 'lct, 'tgt, 'ixt) wallet_db" where
  "stmt_effect (UpsertDescriptor d) db = db\<lparr>db_row := upsert_descriptor d (db_row db)\<rparr>"
| "stmt_effect (UpsertChangeDescriptor d) db = db\<lparr>db_row := upsert_change_descriptor d (db_row db)\<rparr>"
| "stmt_effect (UpsertNetwork n) db = db\<lparr>db_row := upsert_network n (db_row db)\<rparr>"
| "stmt_effect (InsertLock op) db = db\<lparr>db_locks := insert_lock op (db_locks db)\<rparr>"
| "stmt_effect (DeleteLock op) db = db\<lparr>db_locks := delete_lock op (db_locks db)\<rparr>"
| "stmt_effect _ db = db"

definition exec_sql where
  "exec_sql D stmt db = (case sql_error D stmt db of Some e \<Rightarrow> (Err e, db) | None \<Rightarrow> (Ok (), stmt_effect stmt db))"

definition on_local_chain where
  "on_local_chain f db = (case f (db_lc db) of (r, t) \<Rightarrow> (r, db\<lparr>db_lc := t\<rparr>))"

definition on_tx_graph where
  "on_tx_graph f db = (case f (db_tg db) of (r, t) \<Rightarrow> (r, db\<lparr>db_tg := t\<rparr>))"

definition on_indexer where
  "on_indexer f db = (case f (db_ix db) of (r, t) \<Rightarrow> (r, db\<lparr>db_ix := t\<rparr>))"

definition init_sqlite_tables :: "('d, 'n, 'lc, 'tg, 'ix, 'lct, 'tgt, 'ixt, 'e) db_ops
    \<Rightarrow> ('d, 'n, 'lct, 'tgt, 'ixt) wallet_db \<Rightarrow> ('e, unit) res \<times> ('d, 'n, 'lct, 'tgt, 'ixt) wallet_db" where
  "init_sqlite_tables D = run_steps
     [exec_sql D MigrateSchema, on_local_chain (so_init (lc_store D)), on_tx_graph (so_init (tg_store D)),
      on_indexer (so_init (ix_store D))]"

definition sql_ok where
  "sql_ok D stmt db = (case sql_error D stmt db of Some e \<Rightarrow> Err e | None \<Rightarrow> Ok ())"

definition from_sqlite :: "('lc, 'tg, 'ix) ext_ops \<Rightarrow> ('d, 'n, 'lc, 'tg, 'ix, 'lct, 'tgt, 'ixt, 'e) db_ops
    \<Rightarrow> ('d, 'n, 'lct, 'tgt, 'ixt) wallet_db \<Rightarrow> ('e, ('d, 'n, 'lc, 'tg, 'ix) change_set) res" where
  "from_sqlite X D db =
     (let changeset = cs_default X in
      res_bind (sql_ok D SelectWallet db) (\<lambda>_.
      let changeset = (case db_row db of
              None \<Rightarrow> changeset
            | Some (desc, change_desc, network) \<Rightarrow>
                changeset\<lparr>cs_descriptor := desc, cs_change_descriptor := change_desc, cs_network := network\<rparr>) in
      res_bind (sql_ok D SelectLocks db) (\<lambda>_.
      let changeset = changeset\<lparr>cs_locked_outpoints := fold (\<lambda>op m. bt_insert op True m) (db_locks db) []\<rparr> in
      res_bind (so_load (lc_store D) (db_lc db)) (\<lambda>lc.
      res_bind (so_load (tg_store D) (db_tg db)) (\<lambda>tg.
      res_bind (so_load (ix_store D) (db_ix db)) (\<lambda>ix.
      Ok (changeset\<lparr>cs_local_chain := lc, cs_tx_graph := tg, cs_indexer := ix\<rparr>)))))))"

text \<open>The statements of \<open>persist_to_sqlite\<close> on the wallet's own tables, in order.\<close>

definition for_some :: "('a \<Rightarrow> 'b) \<Rightarrow> 'a option \<Rightarrow> 'b list" where
  "for_some f x = (case x of Some a \<Rightarrow> [f a] | None \<Rightarrow> [])"

definition lock_stmt :: "outpoint \<times> bool \<Rightarrow> ('d, 'n) wallet_stmt" where
  "lock_stmt e = (if snd e then InsertLock (fst e) else DeleteLock (fst e))"

definition wallet_statements :: "('d, 'n, 'lc, 'tg, 'ix) change_set \<Rightarrow> ('d, 'n) wallet_stmt list" where
  "wallet_statements self =
     PrepareCached 0 # for_some UpsertDescriptor (cs_descriptor self) @
     PrepareCached 1 # for_some UpsertChangeDescriptor (cs_change_descriptor self) @
     PrepareCached 2 # for_some UpsertNetwork (cs_network self) @
     PrepareCached 3 # PrepareCached 4 # map lock_stmt (cs_locked_outpoints self)"

definition persist_to_sqlite :: "('d, 'n, 'lc, 'tg, 'ix, 'lct, 'tgt, 'ixt, 'e) db_ops
    \<Rightarrow> ('d, 'n, 'lc, 'tg, 'ix) change_set \<Rightarrow> ('d, 'n, 'lct, 'tgt, 'ixt) wallet_db
    \<Rightarrow> ('e, unit) res \<times> ('d, 'n, 'lct, 'tgt, 'ixt) wallet_db" where
  "persist_to_sqlite D self = run_steps (map (exec_sql D) (wallet_statements self) @
     [on_local_chain (so_save (lc_store D) (cs_local_chain self)),
      on_tx_graph (so_save (tg_store D) (cs_tx_graph self)),
      on_indexer (so_save (ix_store D) (cs_indexer self))])"

subsubsection \<open>What a successful write leaves\<close>

lemma run_steps_Ok:
  "run_steps (f # fs) s = (Ok u, s') \<longleftrightarrow> (\<exists>s1. f s = (Ok (), s1) \<and> run_steps fs s1 = (Ok (), s'))"
  by (auto split: prod.split res.split)

lemma run_steps_append:
  "run_steps (fs @ gs) s = (Ok u, s') \<longleftrightarrow> (\<exists>s1. run_steps fs s = (Ok (), s1) \<and> run_steps gs s1 = (Ok (), s'))"
  by (induction fs arbitrary: s) (auto simp: run_steps_Ok simp del: run_steps.simps(2))

lemma exec_sql_Ok: "exec_sql D stmt db = (Ok u, db') \<longleftrightarrow> sql_error D stmt db = None \<and> db' = stmt_effect stmt db"
  by (auto simp: exec_sql_def split: option.split)

lemma exec_all_Ok:
  "run_steps (map (exec_sql D) stmts) db = (Ok u, db') \<Longrightarrow> db' = fold stmt_effect stmts db"
  by (induction stmts arbitrary: db) (auto simp: run_steps_Ok exec_sql_Ok simp del: run_steps.simps(2))

lemma on_part_Ok:
  "on_local_chain f db = (Ok u, db') \<longleftrightarrow> (\<exists>t. f (db_lc db) = (Ok (), t) \<and> db' = db\<lparr>db_lc := t\<rparr>)"
  "on_tx_graph g db = (Ok u, db') \<longleftrightarrow> (\<exists>t. g (db_tg db) = (Ok (), t) \<and> db' = db\<lparr>db_tg := t\<rparr>)"
  "on_indexer k db = (Ok u, db') \<longleftrightarrow> (\<exists>t. k (db_ix db) = (Ok (), t) \<and> db' = db\<lparr>db_ix := t\<rparr>)"
  by (auto simp: on_local_chain_def on_tx_graph_def on_indexer_def split: prod.split)

definition upsert_all :: "('d, 'n, 'lc, 'tg, 'ix) change_set \<Rightarrow> ('d option \<times> 'd option \<times> 'n option) option
    \<Rightarrow> ('d option \<times> 'd option \<times> 'n option) option" where
  "upsert_all c row = fold (\<lambda>f. f) (for_some upsert_descriptor (cs_descriptor c) @
     for_some upsert_change_descriptor (cs_change_descriptor c) @ for_some upsert_network (cs_network c)) row"

definition store_locks :: "lock_changes \<Rightarrow> outpoint list \<Rightarrow> outpoint list" where
  "store_locks changes locks =
     fold (\<lambda>e. if snd e then insert_lock (fst e) else delete_lock (fst e)) changes locks"

lemma lock_stmts_effect:
  "fold stmt_effect (map lock_stmt changes) db = db\<lparr>db_locks := store_locks changes (db_locks db)\<rparr>"
  by (induction changes arbitrary: db) (auto simp: lock_stmt_def store_locks_def)

lemma wallet_statements_effect:
  "fold stmt_effect (wallet_statements c) db
     = db\<lparr>db_row := upsert_all c (db_row db), db_locks := store_locks (cs_locked_outpoints c) (db_locks db)\<rparr>"
  by (cases "cs_descriptor c"; cases "cs_change_descriptor c"; cases "cs_network c")
    (simp_all add: wallet_statements_def upsert_all_def for_some_def lock_stmts_effect)

lemma persist_to_sqlite_Ok:
  assumes "persist_to_sqlite D c db = (Ok u, db')"
  shows "db_row db' = upsert_all c (db_row db)" "db_locks db' = store_locks (cs_locked_outpoints c) (db_locks db)"
    "so_save (lc_store D) (cs_local_chain c) (db_lc db) = (Ok (), db_lc db')"
    "so_save (tg_store D) (cs_tx_graph c) (db_tg db) = (Ok (), db_tg db')"
    "so_save (ix_store D) (cs_indexer c) (db_ix db) = (Ok (), db_ix db')"
proof -
  from assms obtain db1 where "run_steps (map (exec_sql D) (wallet_statements c)) db = (Ok (), db1)"
    and saves: "run_steps [on_local_chain (so_save (lc_store D) (cs_local_chain c)),
      on_tx_graph (so_save (tg_store D) (cs_tx_graph c)), on_indexer (so_save (ix_store D) (cs_indexer c))] db1 = (Ok (), db')"
    by (auto simp: persist_to_sqlite_def run_steps_append)
  then have db1: "db1 = db\<lparr>db_row := upsert_all c (db_row db),
      db_locks := store_locks (cs_locked_outpoints c) (db_locks db)\<rparr>"
    using exec_all_Ok wallet_statements_effect by metis
  from saves show "db_row db' = upsert_all c (db_row db)"
    "db_locks db' = store_locks (cs_locked_outpoints c) (db_locks db)"
    "so_save (lc_store D) (cs_local_chain c) (db_lc db) = (Ok (), db_lc db')"
    "so_save (tg_store D) (cs_tx_graph c) (db_tg db) = (Ok (), db_tg db')"
    "so_save (ix_store D) (cs_indexer c) (db_ix db) = (Ok (), db_ix db')"
    by (auto simp: db1 run_steps_Ok on_part_Ok simp del: run_steps.simps(2))
qed

text \<open>The table of locked outpoints, read as a change set, and the columns of the row.\<close>

definition lock_table_map :: "outpoint list \<Rightarrow> lock_changes" where
  "lock_table_map locks = fold (\<lambda>op m. bt_insert op True m) locks []"

lemma lock_table_map_facts:
  "bt_wf (lock_table_map locks)"
  "bt_get (lock_table_map locks) op = (if op \<in> set locks then Some True else None)"
proof -
  have "bt_wf m \<Longrightarrow> bt_wf (fold (\<lambda>op m. bt_insert op True m) locks m) \<and>
      bt_get (fold (\<lambda>op m. bt_insert op True m) locks m) op = (if op \<in> set locks then Some True else bt_get m op)" for m
    by (induction locks arbitrary: m) (auto simp: bt_simps)
  then show "bt_wf (lock_table_map locks)"
    "bt_get (lock_table_map locks) op = (if op \<in> set locks then Some True else None)"
    by (simp_all add: lock_table_map_def bt_simps)
qed

lemma set_store_locks:
  "distinct (map fst changes) \<Longrightarrow>
    op \<in> set (store_locks changes locks) \<longleftrightarrow>
      (case map_of changes op of Some b \<Rightarrow> b | None \<Rightarrow> op \<in> set locks)"
proof (induction changes arbitrary: locks)
  case (Cons e changes)
  let ?step = "if snd e then insert_lock (fst e) locks else delete_lock (fst e) locks"
  have "op \<in> set ?step \<longleftrightarrow> (if op = fst e then snd e else op \<in> set locks)"
    by (auto simp: insert_lock_def delete_lock_def)
  moreover have "map_of changes (fst e) = None"
    using Cons.prems by (simp add: map_of_eq_None_iff)
  moreover have "store_locks (e # changes) locks = store_locks changes ?step"
    by (simp add: store_locks_def)
  ultimately show ?case
    using Cons.IH [of ?step] Cons.prems
    by (cases e) (auto split: option.splits)
qed (simp add: store_locks_def)

lemma stored_locks:
  assumes "bt_wf changes"
  shows "bt_get (lock_table_map (store_locks changes locks)) op
    = (case bt_get changes op of Some b \<Rightarrow> (if b then Some True else None) | None \<Rightarrow> bt_get (lock_table_map locks) op)"
  using set_store_locks [OF bt_distinct_keys [OF assms], of op locks]
  by (simp add: lock_table_map_facts(2) bt_get_def [of changes] split: option.split)

lemma from_sqlite_Ok:
  "from_sqlite X D db = Ok c \<longleftrightarrow> sql_error D SelectWallet db = None \<and> sql_error D SelectLocks db = None \<and>
     (\<exists>lc tg ix.
     so_load (lc_store D) (db_lc db) = Ok lc \<and> so_load (tg_store D) (db_tg db) = Ok tg \<and>
     so_load (ix_store D) (db_ix db) = Ok ix \<and>
     c = \<lparr>cs_descriptor = (case db_row db of Some (d, _, _) \<Rightarrow> d | None \<Rightarrow> None),
          cs_change_descriptor = (case db_row db of Some (_, d, _) \<Rightarrow> d | None \<Rightarrow> None),
          cs_network = (case db_row db of Some (_, _, n) \<Rightarrow> n | None \<Rightarrow> None),
          cs_local_chain = lc, cs_tx_graph = tg, cs_indexer = ix,
          cs_locked_outpoints = lock_table_map (db_locks db)\<rparr>)"
  by (auto simp: from_sqlite_def sql_ok_def res_simps Let_def cs_default_def lock_table_map_def split: option.splits)

lemma upsert_all_columns:
  "(case upsert_all c row of Some (d, _, _) \<Rightarrow> d | None \<Rightarrow> None)
     = write_once (case row of Some (d, _, _) \<Rightarrow> d | None \<Rightarrow> None) (cs_descriptor c)"
  "(case upsert_all c row of Some (_, d, _) \<Rightarrow> d | None \<Rightarrow> None)
     = write_once (case row of Some (_, d, _) \<Rightarrow> d | None \<Rightarrow> None) (cs_change_descriptor c)"
  "(case upsert_all c row of Some (_, _, n) \<Rightarrow> n | None \<Rightarrow> None)
     = write_once (case row of Some (_, _, n) \<Rightarrow> n | None \<Rightarrow> None) (cs_network c)"
  by (cases row; cases "cs_descriptor c"; cases "cs_change_descriptor c"; cases "cs_network c";
    auto simp: upsert_all_def for_some_def upsert_descriptor_def upsert_change_descriptor_def
      upsert_network_def write_once_def elim!: coalesce.elims)+

lemma sqlite_read_back:
  assumes "bt_wf (cs_locked_outpoints c)" and "from_sqlite X D db = Ok old"
    and "persist_to_sqlite D c db = (Ok u, db')" and "from_sqlite X D db' = Ok new"
  shows "cs_descriptor new = write_once (cs_descriptor old) (cs_descriptor c)"
    "cs_change_descriptor new = write_once (cs_change_descriptor old) (cs_change_descriptor c)"
    "cs_network new = write_once (cs_network old) (cs_network c)"
    "bt_get (cs_locked_outpoints new) op = (case bt_get (cs_locked_outpoints c) op of
       Some locked \<Rightarrow> (if locked then Some True else None) | None \<Rightarrow> bt_get (cs_locked_outpoints old) op)"
    "so_load (lc_store D) (db_lc db') = Ok (cs_local_chain new)"
    "so_load (tg_store D) (db_tg db') = Ok (cs_tx_graph new)"
    "so_load (ix_store D) (db_ix db') = Ok (cs_indexer new)"
  using assms(2,4) persist_to_sqlite_Ok(1,2) [OF assms(3)] upsert_all_columns [of c "db_row db"]
    stored_locks [OF assms(1), of "db_locks db" op]
  by (auto simp: from_sqlite_Ok cong: option.case_cong)

text \<open>C33: what is read back from the database is what was there and what was written. After a change
  set is persisted, the descriptors and the network that \<open>from_sqlite\<close> reads are the ones that were
  there, or those written where there were none; an outpoint is locked if the change set locks it,
  or says nothing of it and it was locked; and the changes of the chain, the graph and the index
  went each through its own store to its own table, from which it is read.\<close>

theorem sqlite_persist_merges:
  assumes "bt_wf (cs_locked_outpoints c)" and "from_sqlite X D db = Ok old"
    and "persist_to_sqlite D c db = (Ok (), db')" and "from_sqlite X D db' = Ok new"
  shows "cs_descriptor new = (case cs_descriptor old of Some d \<Rightarrow> Some d | None \<Rightarrow> cs_descriptor c) \<and>
    cs_change_descriptor new = (case cs_change_descriptor old of Some d \<Rightarrow> Some d | None \<Rightarrow> cs_change_descriptor c) \<and>
    cs_network new = (case cs_network old of Some n \<Rightarrow> Some n | None \<Rightarrow> cs_network c) \<and>
    (\<forall>op. bt_get (cs_locked_outpoints new) op = Some True \<longleftrightarrow> (case bt_get (cs_locked_outpoints c) op of
       Some locked \<Rightarrow> locked | None \<Rightarrow> bt_get (cs_locked_outpoints old) op = Some True)) \<and>
    so_save (lc_store D) (cs_local_chain c) (db_lc db) = (Ok (), db_lc db') \<and>
    so_save (tg_store D) (cs_tx_graph c) (db_tg db) = (Ok (), db_tg db') \<and>
    so_save (ix_store D) (cs_indexer c) (db_ix db) = (Ok (), db_ix db') \<and>
    so_load (lc_store D) (db_lc db') = Ok (cs_local_chain new) \<and>
    so_load (tg_store D) (db_tg db') = Ok (cs_tx_graph new) \<and>
    so_load (ix_store D) (db_ix db') = Ok (cs_indexer new)"
  using sqlite_read_back [OF assms] persist_to_sqlite_Ok(3-5) [OF assms(3)]
  by (simp add: write_once_def split: option.split)

text \<open>A concrete database. Its table of blocks has one row per height: a change to the hash 0 stands for
  the removal of the block and deletes the row.\<close>

definition block_store :: "((nat, nat) btree, (nat, nat) btree, string) store_ops" where
  "block_store = \<lparr>so_init = (\<lambda>t. (Ok (), t)), so_load = (\<lambda>t. if bt_wf t then Ok t else Err ''corrupt''),
     so_save = (\<lambda>x t. (Ok (), filter (\<lambda>e. snd e \<noteq> 0) (bt_extend t x)))\<rparr>"

definition map_store :: "((nat, nat) btree, (nat, nat) btree, string) store_ops" where
  "map_store = \<lparr>so_init = (\<lambda>t. (Ok (), t)), so_load = (\<lambda>t. if bt_wf t then Ok t else Err ''corrupt''),
     so_save = (\<lambda>x t. (Ok (), bt_extend t x))\<rparr>"

definition example_db_ops :: "(nat, nat, (nat, nat) btree, (nat, nat) btree, (nat, nat) btree,
    (nat, nat) btree, (nat, nat) btree, (nat, nat) btree, string) db_ops" where
  "example_db_ops = \<lparr>lc_store = block_store, tg_store = map_store, ix_store = map_store,
     sql_error = (\<lambda>stmt db. None)\<rparr>"

definition example_db :: "(nat, nat, (nat, nat) btree, (nat, nat) btree, (nat, nat) btree) wallet_db" where
  "example_db = \<lparr>db_row = Some (Some 5, None, None), db_locks = [OutPoint 1 0], db_lc = [(1, 2)],
     db_tg = [], db_ix = []\<rparr>"

definition example_changes :: example_change_set where
  "example_changes = (cs_default example_ops)\<lparr>cs_descriptor := Some 6, cs_network := Some 0,
     cs_local_chain := [(1, 0)], cs_locked_outpoints := [(OutPoint 1 0, False), (OutPoint 2 0, True)]\<rparr>"

definition example_db_after :: "(nat, nat, (nat, nat) btree, (nat, nat) btree, (nat, nat) btree) wallet_db" where
  "example_db_after = \<lparr>db_row = Some (Some 5, None, Some 0), db_locks = [OutPoint 2 0], db_lc = [],
     db_tg = [], db_ix = []\<rparr>"

theorem sqlite_persist_merges_witness:
  "\<exists>old new. from_sqlite example_ops example_db_ops example_db = Ok old \<and>
     from_sqlite example_ops example_db_ops example_db_after = Ok new \<and> cs_descriptor old = Some 5 \<and>
     cs_descriptor new = Some 5 \<and> cs_network new = Some 0 \<and> cs_local_chain new = [] \<and>
     bt_get (cs_locked_outpoints new) (OutPoint 2 0) = Some True"
proof -
  have wf: "bt_wf (cs_locked_outpoints example_changes)"
    by (simp add: example_changes_def bt_wf_def less_outpoint_def)
  obtain old where old: "from_sqlite example_ops example_db_ops example_db = Ok old" "cs_descriptor old = Some 5"
    "cs_network old = None"
    by (auto simp: from_sqlite_Ok example_db_def example_db_ops_def map_store_def block_store_def bt_wf_def)
  have run: "persist_to_sqlite example_db_ops example_changes example_db = (Ok (), example_db_after)"
    by (simp add: persist_to_sqlite_def wallet_statements_def exec_sql_def for_some_def lock_stmt_def example_db_ops_def
        map_store_def block_store_def example_changes_def example_db_def example_db_after_def cs_default_def
        example_ops_def map_ops_def on_local_chain_def on_tx_graph_def on_indexer_def upsert_descriptor_def
        upsert_network_def insert_lock_def delete_lock_def bt_extend_def)
  obtain new where new: "from_sqlite example_ops example_db_ops example_db_after = Ok new" "cs_local_chain new = []"
    by (auto simp: from_sqlite_Ok example_db_after_def example_db_ops_def map_store_def block_store_def bt_wf_def)
  have changes: "cs_descriptor example_changes = Some 6" "cs_network example_changes = Some 0"
    "bt_get (cs_locked_outpoints example_changes) (OutPoint 2 0) = Some True"
    by (simp_all add: example_changes_def bt_get_def)
  show ?thesis
    using sqlite_persist_merges [OF wf old(1) run new(1)] old new changes by auto
qed

text \<open>A write that fails in the middle keeps what was written before it: here the statement that
  deletes a lock fails, and the descriptor and the network are written already.\<close>

lemma partial_write:
  "persist_to_sqlite (example_db_ops\<lparr>sql_error := (\<lambda>stmt db. if stmt = DeleteLock (OutPoint 1 0) then Some ''io'' else None)\<rparr>)
     example_changes example_db = (Err ''io'', example_db\<lparr>db_row := Some (Some 5, None, Some 0)\<rparr>)"
  by (simp add: persist_to_sqlite_def wallet_statements_def exec_sql_def for_some_def lock_stmt_def example_changes_def
      example_db_def cs_default_def upsert_descriptor_def upsert_network_def)

end
