(* ===== verification/Signers.thy ===== *)
theory Signers
  imports Psbt "HOL-Library.Product_Lexorder"
begin

unbundle bit_operations_syntax

section \<open>Signers (src/wallet/signer.rs)\<close>

text \<open>
  Signer identifiers and the signing context, the container of signers (a map ordered by the
  ordering first and the identifier second), the signing options, and the software signers: the
  private key, the extended key and the multi-path extended key, each signing one input of a PSBT.
  secp256k1, the sighash computations and the key derivations are the fields of the record
  \<open>crypto\<close>. A PSBT that a failing signer has already changed is not represented: the caller gets
  the error.
\<close>

subsection \<open>Identifiers, errors, contexts\<close>

datatype signer_id = PkHash nat | SFingerprint fingerprint | Dummy nat

fun signer_id_rank :: "signer_id \<Rightarrow> nat \<times> nat" where
  "signer_id_rank (PkHash h) = (0, h)"
| "signer_id_rank (SFingerprint f) = (1, unat f)"
| "signer_id_rank (Dummy n) = (2, n)"

lemma signer_id_rank_inj: "signer_id_rank a = signer_id_rank b \<longleftrightarrow> a = b"
  by (cases a; cases b) (auto simp: word_unat_eq_iff)

instantiation signer_id :: linorder
begin

definition less_eq_signer_id :: "signer_id \<Rightarrow> signer_id \<Rightarrow> bool" where
  "less_eq_signer_id a b \<longleftrightarrow> signer_id_rank a \<le> signer_id_rank b"

definition less_signer_id :: "signer_id \<Rightarrow> signer_id \<Rightarrow> bool" where
  "less_signer_id a b \<longleftrightarrow> signer_id_rank a < signer_id_rank b"

instance
  by standard
    (auto simp: less_eq_signer_id_def less_signer_id_def simp flip: signer_id_rank_inj)

end

datatype signer_error =
  MissingKey | InvalidKey | UserCanceled
| InputIndexOutOfRange index_out_of_bounds
| MissingNonWitnessUtxo | InvalidNonWitnessUtxo | MissingWitnessUtxo | MissingWitnessScript
| MissingHdKeypath | NonStandardSighash | InvalidSighash
| SighashTaproot nat | PsbtSign nat | MiniscriptPsbt nat | ExternalError string

datatype signer_context = Legacy | Segwitv0 | Tap (is_internal_key: bool)

subsection \<open>The container\<close>

type_synonym usize = "64 word"

definition signer_ordering_default :: usize where
  "signer_ordering_default = 100"

datatype container_key = ContainerKey (ck_id: signer_id) (ck_ordering: usize)

text \<open>\<open>Ord for SignersContainerKey\<close>: the ordering, then the identifier. \<open>cmp_of\<close> is \<open>Ord::cmp\<close> of a
  total order and \<open>cmp_then\<close> is \<open>Ordering::then\<close>.\<close>

datatype cmp_result = CmpLess | CmpEqual | CmpGreater

definition cmp_of :: "'a::linorder \<Rightarrow> 'a \<Rightarrow> cmp_result" where
  "cmp_of x y = (if x < y then CmpLess else if x = y then CmpEqual else CmpGreater)"

fun cmp_then :: "cmp_result \<Rightarrow> cmp_result \<Rightarrow> cmp_result" where
  "cmp_then CmpEqual r = r"
| "cmp_then l _ = l"

definition container_key_cmp :: "container_key \<Rightarrow> container_key \<Rightarrow> cmp_result" where
  "container_key_cmp a b = cmp_then (cmp_of (ck_ordering a) (ck_ordering b)) (cmp_of (ck_id a) (ck_id b))"

instantiation container_key :: linorder
begin

definition less_eq_container_key :: "container_key \<Rightarrow> container_key \<Rightarrow> bool" where
  "less_eq_container_key a b \<longleftrightarrow> container_key_cmp a b \<noteq> CmpGreater"

definition less_container_key :: "container_key \<Rightarrow> container_key \<Rightarrow> bool" where
  "less_container_key a b \<longleftrightarrow> container_key_cmp a b = CmpLess"

instance
proof
  have le: "a \<le> b \<longleftrightarrow> (ck_ordering a, ck_id a) \<le> (ck_ordering b, ck_id b)" for a b :: container_key
    by (auto simp: less_eq_container_key_def container_key_cmp_def cmp_of_def)
  have less: "a < b \<longleftrightarrow> (ck_ordering a, ck_id a) < (ck_ordering b, ck_id b)" for a b :: container_key
    by (auto simp: less_container_key_def container_key_cmp_def cmp_of_def)
  fix x y z :: container_key
  show "x < y \<longleftrightarrow> x \<le> y \<and> \<not> y \<le> x"
    by (auto simp: le less)
  show "x \<le> x" "x \<le> y \<Longrightarrow> y \<le> z \<Longrightarrow> x \<le> z" "x \<le> y \<or> y \<le> x"
    by (auto simp: le)
  show "x \<le> y \<Longrightarrow> y \<le> x \<Longrightarrow> x = y"
    by (cases x; cases y) (auto simp: le)
qed

end

text \<open>The order of the keys is the lexicographic order of ordering and identifier.\<close>

lemma container_key_le: "a \<le> b \<longleftrightarrow> (ck_ordering a, ck_id a) \<le> (ck_ordering b, ck_id b)"
  by (auto simp: less_eq_container_key_def container_key_cmp_def cmp_of_def)

lemma container_key_less: "a < b \<longleftrightarrow> (ck_ordering a, ck_id a) < (ck_ordering b, ck_id b)"
  by (auto simp: less_container_key_def container_key_cmp_def cmp_of_def)

type_synonym 's signers_container = "(container_key, 's) btree"

definition signers_new :: "'s signers_container" where
  "signers_new = []"

definition add_external :: "signer_id \<Rightarrow> usize \<Rightarrow> 's \<Rightarrow> 's signers_container
    \<Rightarrow> 's signers_container \<times> 's option" where
  "add_external i ord signer c =
     (bt_insert (ContainerKey i ord) signer c, bt_get c (ContainerKey i ord))"

definition remove_signer :: "signer_id \<Rightarrow> usize \<Rightarrow> 's signers_container
    \<Rightarrow> 's signers_container \<times> 's option" where
  "remove_signer i ord c = (bt_remove (ContainerKey i ord) c, bt_get c (ContainerKey i ord))"

definition signer_ids :: "'s signers_container \<Rightarrow> signer_id list" where
  "signer_ids c = map ck_id (bt_keys c)"

definition signers_list :: "'s signers_container \<Rightarrow> 's list" where
  "signers_list c = bt_values c"

text \<open>\<open>find\<close>: the range from ordering 0 to \<open>usize::MAX\<close> of the identifier, filtered by the
  identifier (keys of other identifiers lie in between), its first entry.\<close>

definition find_signer :: "'s signers_container \<Rightarrow> signer_id \<Rightarrow> 's option" where
  "find_signer c i =
     (let in_range = filter (\<lambda>e. ContainerKey i 0 \<le> fst e \<and> fst e \<le> ContainerKey i (- 1)) c;
          same_id = filter (\<lambda>e. ck_id (fst e) = i) in_range in
      case same_id of [] \<Rightarrow> None | e # _ \<Rightarrow> Some (snd e))"

lemma find_signer_filter:
  "find_signer c i = (case filter (\<lambda>e. ck_id (fst e) = i) c of [] \<Rightarrow> None | e # _ \<Rightarrow> Some (snd e))"
proof -
  have max: "x \<le> (- 1 :: usize)" for x
    by simp
  have "filter (\<lambda>e. ck_id (fst e) = i) (filter (\<lambda>e. ContainerKey i 0 \<le> fst e \<and> fst e \<le> ContainerKey i (- 1)) c)
      = filter (\<lambda>e. ck_id (fst e) = i) c"
    unfolding filter_filter
    by (intro filter_cong refl) (auto simp: container_key_le less_le max)
  then show ?thesis
    by (simp add: find_signer_def Let_def)
qed

text \<open>The container finds the signer with the lowest ordering. For a well-formed container,
  \<open>find\<close> of an identifier returns the signer stored under that identifier at an ordering which no
  other entry of the identifier precedes, and it returns nothing only when no entry has it.\<close>

lemma find_lowest_ordering:
  assumes "bt_wf c"
  shows "case find_signer c i of
      Some s \<Rightarrow> \<exists>ord. bt_get c (ContainerKey i ord) = Some s \<and>
        (\<forall>ord'. bt_get c (ContainerKey i ord') \<noteq> None \<longrightarrow> ord \<le> ord')
    | None \<Rightarrow> \<forall>ord. bt_get c (ContainerKey i ord) = None"
proof (cases "filter (\<lambda>e. ck_id (fst e) = i) c")
  case Nil
  then have "\<forall>e \<in> set c. ck_id (fst e) \<noteq> i"
    by (simp add: filter_empty_conv)
  then show ?thesis
    using Nil by (force simp: find_signer_filter bt_get_None_iff)
next
  case (Cons e es)
  have sorted: "sorted_wrt (\<lambda>a b. fst a < fst b) (e # es)"
    using assms unfolding bt_wf_def sorted_wrt_map
    by (metis (no_types, lifting) Cons sorted_wrt_filter)
  have e: "e \<in> set c" "ck_id (fst e) = i"
    using arg_cong [OF Cons, of set] by auto
  then have fst_e: "fst e = ContainerKey i (ck_ordering (fst e))"
    by (cases "fst e") auto
  have "bt_get c (ContainerKey i (ck_ordering (fst e))) = Some (snd e)"
    using e(1) by (simp add: bt_get_Some_iff [OF assms] flip: fst_e)
  moreover have "ck_ordering (fst e) \<le> ord'" if stored: "bt_get c (ContainerKey i ord') \<noteq> None" for ord'
  proof -
    obtain v where "(ContainerKey i ord', v) \<in> set c"
      using stored by (auto simp: bt_get_Some_iff [OF assms])
    then have "(ContainerKey i ord', v) \<in> set (e # es)"
      by (simp flip: Cons)
    then consider "e = (ContainerKey i ord', v)" | "fst e < ContainerKey i ord'"
      using sorted by auto
    then show ?thesis
      by cases (auto simp: container_key_less e(2))
  qed
  ultimately show ?thesis
    by (auto simp: find_signer_filter Cons)
qed

definition example_container :: "nat signers_container" where
  "example_container = fst (add_external (Dummy 1) 5 33 (fst (add_external (Dummy 2) 1 44
     (fst (add_external (Dummy 1) 2 22 signers_new)))))"

lemma find_lowest_ordering_witness:
  "\<exists>ord. bt_get example_container (ContainerKey (Dummy 1) ord) = Some 22 \<and>
    (\<forall>ord'. bt_get example_container (ContainerKey (Dummy 1) ord') \<noteq> None \<longrightarrow> ord \<le> ord')"
proof -
  have wf: "bt_wf example_container"
    by (simp add: example_container_def add_external_def signers_new_def bt_wf_def
        container_key_less less_signer_id_def)
  have "find_signer example_container (Dummy 1) = Some 22"
    by (simp add: example_container_def add_external_def signers_new_def find_signer_def
        container_key_less container_key_le less_signer_id_def less_eq_signer_id_def)
  with find_lowest_ordering [OF wf, of "Dummy 1"] show ?thesis by simp
qed

subsection \<open>Options\<close>

datatype tap_leaves_options =
  TapAll | TapInclude "leaf_hash list" | TapExclude "leaf_hash list" | TapNone

record sign_options =
  trust_witness_utxo :: bool
  assume_height :: "u32 option"
  allow_all_sighashes :: bool
  try_finalize :: bool
  tap_leaves_options :: tap_leaves_options
  sign_with_tap_internal_key :: bool
  allow_grinding :: bool

definition sign_options_default :: sign_options where
  "sign_options_default = \<lparr>trust_witness_utxo = False, assume_height = None, allow_all_sighashes = False,
     try_finalize = True, tap_leaves_options = TapAll, sign_with_tap_internal_key = True,
     allow_grinding = True\<rparr>"

fun should_sign_leaf :: "tap_leaves_options \<Rightarrow> leaf_hash \<Rightarrow> bool" where
  "should_sign_leaf TapAll lh = True"
| "should_sign_leaf (TapInclude v) lh = (lh \<in> set v)"
| "should_sign_leaf (TapExclude v) lh = (lh \<notin> set v)"
| "should_sign_leaf TapNone lh = False"

subsection \<open>Cryptography the signers call\<close>

text \<open>
  \<^item> \<open>pk_of\<close>, \<open>xonly_of\<close>: the public key of a secret key, and its x-only form; \<open>pubkey_hash\<close>:
    \<open>to_pubkeyhash(SigType::Ecdsa)\<close>;
  \<^item> \<open>ecdsa_hash_all\<close>, \<open>tap_hash_all\<close>: the PSBT sighash type reads as \<open>SIGHASH_ALL\<close> (or the
    taproot default); \<open>tap_hash_ty\<close>: it as a taproot type, \<open>None\<close> when it is not one;
  \<^item> \<open>ecdsa_sighash\<close>: \<open>Psbt::sighash_ecdsa\<close>, a message and a type; \<open>tap_sighash\<close>:
    \<open>taproot_signature_hash\<close> over one or all previous outputs;
  \<^item> \<open>ecdsa_sign grind\<close>, \<open>ecdsa_ok\<close>, \<open>ecdsa_final\<close>: signing (with or without grinding), the
    check of the signature, and the signature with its type; likewise for Schnorr, where
    \<open>tweak\<close> is the key-spend tweak.
\<close>

datatype prevouts = PrevOne nat txout | PrevAll "txout list"

record 'k crypto =
  pk_of :: "'k \<Rightarrow> pubkey"
  xonly_of :: "pubkey \<Rightarrow> xonly_key"
  pubkey_hash :: "pubkey \<Rightarrow> nat"
  ecdsa_hash_all :: "u32 \<Rightarrow> bool"
  tap_hash_all :: "u32 \<Rightarrow> bool"
  tap_hash_ty :: "u32 \<Rightarrow> u32 option"
  tap_default_ty :: u32
  ecdsa_sighash :: "psbt \<Rightarrow> nat \<Rightarrow> (nat, nat \<times> u32) res"
  tap_sighash :: "transaction \<Rightarrow> nat \<Rightarrow> prevouts \<Rightarrow> (leaf_hash \<times> u32) option \<Rightarrow> u32 \<Rightarrow> (nat, nat) res"
  ecdsa_sign :: "bool \<Rightarrow> 'k \<Rightarrow> nat \<Rightarrow> nat"
  ecdsa_ok :: "nat \<Rightarrow> nat \<Rightarrow> pubkey \<Rightarrow> bool"
  ecdsa_final :: "nat \<Rightarrow> u32 \<Rightarrow> signature"
  tweak :: "'k \<Rightarrow> nat option \<Rightarrow> 'k"
  schnorr_sign :: "'k \<Rightarrow> nat \<Rightarrow> nat"
  schnorr_ok :: "nat \<Rightarrow> nat \<Rightarrow> xonly_key \<Rightarrow> bool"
  schnorr_final :: "nat \<Rightarrow> u32 \<Rightarrow> signature"

text \<open>A signature made with a key verifies under its public key.\<close>

definition signatures_verify :: "'k crypto \<Rightarrow> bool" where
  "signatures_verify C \<longleftrightarrow> (\<forall>g k m. ecdsa_ok C m (ecdsa_sign C g k m) (pk_of C k)) \<and>
     (\<forall>k m. schnorr_ok C (schnorr_sign C k m) m (xonly_of C (pk_of C k)))"

subsection \<open>Signing an input with a private key\<close>

definition is_sighash_all :: "'k crypto \<Rightarrow> signer_context \<Rightarrow> u32 \<Rightarrow> bool" where
  "is_sighash_all C ctx sht =
     (case ctx of Tap _ \<Rightarrow> tap_hash_all C sht | _ \<Rightarrow> ecdsa_hash_all C sht)"

definition compute_tap_sighash :: "btc \<Rightarrow> 'k crypto \<Rightarrow> psbt \<Rightarrow> nat \<Rightarrow> leaf_hash option
    \<Rightarrow> (signer_error, nat \<times> u32) res" where
  "compute_tap_sighash B C p i extra =
     res_bind (fail_if (length (inputs p) \<le> i) (InputIndexOutOfRange (new_oob i (length (inputs p))))) (\<lambda>_.
     res_bind (fail_if (length (tx_input (unsigned_tx p)) \<le> i)
       (InputIndexOutOfRange (new_oob i (length (tx_input (unsigned_tx p)))))) (\<lambda>_.
     let raw = (case sighash_type (inputs p ! i) of Some t \<Rightarrow> t | None \<Rightarrow> tap_default_ty C) in
     res_bind (ok_or (tap_hash_ty C raw) InvalidSighash) (\<lambda>ty.
     res_bind (res_map (get_utxo_for B p) [0..<length (inputs p)]) (\<lambda>utxos.
     res_bind
       (if ty AND 0x80 \<noteq> 0 then res_bind (ok_or (utxos ! i) MissingWitnessUtxo) (\<lambda>t. Ok (PrevOne i t))
        else (case collect_options utxos of Some ts \<Rightarrow> Ok (PrevAll ts) | None \<Rightarrow> Err MissingWitnessUtxo))
       (\<lambda>prev.
     let leaf = map_option (\<lambda>lh. (lh, 0xFFFFFFFF)) extra in
     res_bind (map_err SighashTaproot (tap_sighash C (unsigned_tx p) i prev leaf ty)) (\<lambda>h.
     Ok (h, ty)))))))"

definition sign_psbt_ecdsa :: "'k crypto \<Rightarrow> 'k \<Rightarrow> pubkey \<Rightarrow> psbt_input \<Rightarrow> nat \<Rightarrow> u32 \<Rightarrow> bool
    \<Rightarrow> (signer_error, psbt_input) res" where
  "sign_psbt_ecdsa C k pk inp msg ty grind =
     (let sig = ecdsa_sign C grind k msg in
      res_bind (panic_unless (ecdsa_ok C msg sig pk)) (\<lambda>_.
      Ok (inp\<lparr>partial_sigs := bt_insert pk (ecdsa_final C sig ty) (partial_sigs inp)\<rparr>)))"

definition sign_psbt_schnorr :: "'k crypto \<Rightarrow> 'k \<Rightarrow> xonly_key \<Rightarrow> leaf_hash option \<Rightarrow> psbt_input \<Rightarrow> nat
    \<Rightarrow> u32 \<Rightarrow> (signer_error, psbt_input) res" where
  "sign_psbt_schnorr C k pk leaf inp sighash ty =
     (let keypair = (case leaf of None \<Rightarrow> tweak C k (tap_merkle_root inp) | Some _ \<Rightarrow> k);
          sig = schnorr_sign C keypair sighash in
      res_bind (panic_unless (schnorr_ok C sig sighash (xonly_of C (pk_of C keypair)))) (\<lambda>_.
      let final = schnorr_final C sig ty in
      Ok (case leaf of
            Some lh \<Rightarrow> inp\<lparr>tap_script_sigs := bt_insert (pk, lh) final (tap_script_sigs inp)\<rparr>
          | None \<Rightarrow> inp\<lparr>tap_key_sig := Some final\<rparr>)))"

definition set_input :: "psbt \<Rightarrow> nat \<Rightarrow> psbt_input \<Rightarrow> psbt" where
  "set_input p i inp = p\<lparr>inputs := (inputs p)[i := inp]\<rparr>"

definition sign_tap_key :: "btc \<Rightarrow> 'k crypto \<Rightarrow> 'k \<Rightarrow> bool \<Rightarrow> psbt \<Rightarrow> nat \<Rightarrow> sign_options
    \<Rightarrow> (signer_error, psbt) res" where
  "sign_tap_key B C k internal p i opts =
     (let inp = inputs p ! i; x = xonly_of C (pk_of C k) in
      case tap_internal_key inp of
        None \<Rightarrow> Ok p
      | Some ik \<Rightarrow>
          if internal \<and> tap_key_sig inp = None \<and> sign_with_tap_internal_key opts \<and> x = ik then
            res_bind (compute_tap_sighash B C p i None) (\<lambda>(h, ty).
            res_bind (sign_psbt_schnorr C k x None inp h ty) (\<lambda>inp'. Ok (set_input p i inp')))
          else Ok p)"

definition sign_tap_leaf :: "btc \<Rightarrow> 'k crypto \<Rightarrow> 'k \<Rightarrow> nat \<Rightarrow> psbt \<Rightarrow> leaf_hash \<Rightarrow> (signer_error, psbt) res" where
  "sign_tap_leaf B C k i p lh =
     res_bind (compute_tap_sighash B C p i (Some lh)) (\<lambda>(h, ty).
     res_bind (sign_psbt_schnorr C k (xonly_of C (pk_of C k)) (Some lh) (inputs p ! i) h ty) (\<lambda>inp'.
     Ok (set_input p i inp')))"

definition leaves_to_sign :: "'k crypto \<Rightarrow> 'k \<Rightarrow> psbt_input \<Rightarrow> sign_options \<Rightarrow> leaf_hash list" where
  "leaves_to_sign C k inp opts =
     (let x = xonly_of C (pk_of C k) in
      case bt_get (tap_key_origins inp) x of
        None \<Rightarrow> []
      | Some (leaf_hashes, _) \<Rightarrow>
          filter (\<lambda>lh. should_sign_leaf (tap_leaves_options opts) lh \<and>
            bt_get (tap_script_sigs inp) (x, lh) = None) leaf_hashes)"

definition sign_ecdsa_input :: "'k crypto \<Rightarrow> 'k \<Rightarrow> psbt \<Rightarrow> nat \<Rightarrow> sign_options \<Rightarrow> (signer_error, psbt) res" where
  "sign_ecdsa_input C k p i opts =
     (let inp = inputs p ! i; pk = pk_of C k in
      if bt_get (partial_sigs inp) pk \<noteq> None then Ok p
      else
        res_bind (map_err PsbtSign (ecdsa_sighash C p i)) (\<lambda>(msg, ty).
        res_bind (sign_psbt_ecdsa C k pk inp msg ty (allow_grinding opts)) (\<lambda>inp'.
        Ok (set_input p i inp'))))"

definition is_finalized_input :: "psbt_input \<Rightarrow> bool" where
  "is_finalized_input inp \<longleftrightarrow> final_script_sig inp \<noteq> None \<or> final_script_witness inp \<noteq> None"

definition sign_input_key :: "btc \<Rightarrow> 'k crypto \<Rightarrow> 'k \<Rightarrow> signer_context \<Rightarrow> psbt \<Rightarrow> nat \<Rightarrow> sign_options
    \<Rightarrow> (signer_error, psbt) res" where
  "sign_input_key B C k ctx p i opts =
     res_bind (fail_if (length (inputs p) \<le> i) (InputIndexOutOfRange (new_oob i (length (inputs p))))) (\<lambda>_.
     res_bind (fail_if (length (tx_input (unsigned_tx p)) \<le> i)
       (InputIndexOutOfRange (new_oob i (length (tx_input (unsigned_tx p)))))) (\<lambda>_.
     let inp = inputs p ! i in
     if is_finalized_input inp then Ok p
     else
       res_bind (fail_if (\<not> allow_all_sighashes opts \<and>
           (case sighash_type inp of Some sht \<Rightarrow> \<not> is_sighash_all C ctx sht | None \<Rightarrow> False))
         NonStandardSighash) (\<lambda>_.
       case ctx of
         Tap internal \<Rightarrow>
           res_bind (sign_tap_key B C k internal p i opts) (\<lambda>p'.
           res_fold (sign_tap_leaf B C k i) p' (leaves_to_sign C k (inputs p' ! i) opts))
       | _ \<Rightarrow> sign_ecdsa_input C k p i opts)))"

subsection \<open>Signing with extended keys\<close>

text \<open>
  \<open>DescriptorXKey\<close> and \<open>DescriptorMultiXKey\<close> over a key type, their root fingerprint
  (src/descriptor/mod.rs), and the functions of the key: its own fingerprint, whether it derives a
  key source (\<open>matches\<close>), the private key at a path.
\<close>

datatype wildcard = NoWildcard | UnhardenedWildcard | HardenedWildcard

record 'x desc_xkey =
  xk_origin :: "key_source option"
  xk_key :: 'x
  xk_path :: "child_number list"
  xk_wildcard :: wildcard

record 'x desc_multikey =
  mk_origin :: "key_source option"
  mk_key :: 'x
  mk_paths :: "child_number list list"
  mk_wildcard :: wildcard

record ('x, 'k) hd_keys =
  xkey_fingerprint :: "'x \<Rightarrow> fingerprint"
  xkey_matches :: "'x desc_xkey \<Rightarrow> key_source \<Rightarrow> bool"
  derive_priv :: "'x \<Rightarrow> child_number list \<Rightarrow> 'k option"

definition xkey_root_fingerprint :: "('x \<Rightarrow> fingerprint) \<Rightarrow> 'x desc_xkey \<Rightarrow> fingerprint" where
  "xkey_root_fingerprint fp xk = (case xk_origin xk of Some (f, _) \<Rightarrow> f | None \<Rightarrow> fp (xk_key xk))"

definition multikey_root_fingerprint :: "('x \<Rightarrow> fingerprint) \<Rightarrow> 'x desc_multikey \<Rightarrow> fingerprint" where
  "multikey_root_fingerprint fp mk = (case mk_origin mk of Some (f, _) \<Rightarrow> f | None \<Rightarrow> fp (mk_key mk))"

datatype single_pub_key = FullKey pubkey | XOnly xonly_key

definition psbt_key_sources :: "psbt_input \<Rightarrow> (single_pub_key \<times> key_source) list" where
  "psbt_key_sources inp =
     map (\<lambda>(pk, ks). (FullKey pk, ks)) (bip32_derivation inp) @
     map (\<lambda>(pk, (_, ks)). (XOnly pk, ks)) (tap_key_origins inp)"

definition xkey_derived :: "('x, 'k) hd_keys \<Rightarrow> 'x desc_xkey \<Rightarrow> child_number list \<Rightarrow> (signer_error, 'k) res" where
  "xkey_derived H xk full_path =
     (case xk_origin xk of
        Some (_, origin_path) \<Rightarrow>
          res_bind (panic_unless (length origin_path \<le> length full_path)) (\<lambda>_.
          expect (derive_priv H (xk_key xk) (drop (length origin_path) full_path)))
      | None \<Rightarrow> expect (derive_priv H (xk_key xk) full_path))"

definition sign_input_xkey :: "btc \<Rightarrow> 'k crypto \<Rightarrow> ('x, 'k) hd_keys \<Rightarrow> 'x desc_xkey \<Rightarrow> signer_context
    \<Rightarrow> psbt \<Rightarrow> nat \<Rightarrow> sign_options \<Rightarrow> (signer_error, psbt) res" where
  "sign_input_xkey B C H xk ctx p i opts =
     res_bind (fail_if (length (inputs p) \<le> i) (InputIndexOutOfRange (new_oob i (length (inputs p))))) (\<lambda>_.
     let inp = inputs p ! i in
     if is_finalized_input inp then Ok p
     else
       (case find (\<lambda>(_, ks). xkey_matches H xk ks) (psbt_key_sources inp) of
          None \<Rightarrow> Ok p
        | Some (public_key, (_, full_path)) \<Rightarrow>
            res_bind (xkey_derived H xk full_path) (\<lambda>derived.
            let computed_pk = pk_of C derived in
            let valid_key = (case public_key of
                FullKey pk \<Rightarrow> pk = computed_pk | XOnly x \<Rightarrow> xonly_of C computed_pk = x) in
            if \<not> valid_key then Err InvalidKey
            else sign_input_key B C derived ctx p i opts)))"

definition multikey_to_xkeys :: "'x desc_multikey \<Rightarrow> 'x desc_xkey list" where
  "multikey_to_xkeys mk = map (\<lambda>path. \<lparr>xk_origin = mk_origin mk, xk_key = mk_key mk, xk_path = path,
     xk_wildcard = mk_wildcard mk\<rparr>) (mk_paths mk)"

definition sign_input_multikey :: "btc \<Rightarrow> 'k crypto \<Rightarrow> ('x, 'k) hd_keys \<Rightarrow> 'x desc_multikey \<Rightarrow> signer_context
    \<Rightarrow> psbt \<Rightarrow> nat \<Rightarrow> sign_options \<Rightarrow> (signer_error, psbt) res" where
  "sign_input_multikey B C H mk ctx p i opts =
     res_fold (\<lambda>q xk. sign_input_xkey B C H xk ctx q i opts) p (multikey_to_xkeys mk)"

text \<open>A stored signer: a software signer, or an external one given by its function.\<close>

datatype ('k, 'x) desc_secret = SecSingle 'k | SecXPrv "'x desc_xkey" | SecMultiXPrv "'x desc_multikey"

datatype ('k, 'x) signer =
  Software (sg_secret: "('k, 'x) desc_secret") (sg_ctx: signer_context)
| ExternalSigner signer_id "psbt \<Rightarrow> sign_options \<Rightarrow> (signer_error, psbt) res"

definition software_id :: "'k crypto \<Rightarrow> ('x, 'k) hd_keys \<Rightarrow> ('k, 'x) desc_secret \<Rightarrow> signer_id" where
  "software_id C H sec = (case sec of
     SecSingle k \<Rightarrow> PkHash (pubkey_hash C (pk_of C k))
   | SecXPrv xk \<Rightarrow> SFingerprint (xkey_root_fingerprint (xkey_fingerprint H) xk)
   | SecMultiXPrv mk \<Rightarrow> SFingerprint (multikey_root_fingerprint (xkey_fingerprint H) mk))"

fun the_signer_id :: "'k crypto \<Rightarrow> ('x, 'k) hd_keys \<Rightarrow> ('k, 'x) signer \<Rightarrow> signer_id" where
  "the_signer_id C H (Software sec ctx) = software_id C H sec"
| "the_signer_id C H (ExternalSigner i f) = i"

fun descriptor_secret_key :: "('k, 'x) signer \<Rightarrow> ('k, 'x) desc_secret option" where
  "descriptor_secret_key (Software sec ctx) = Some sec"
| "descriptor_secret_key (ExternalSigner i f) = None"

definition sign_input_software :: "btc \<Rightarrow> 'k crypto \<Rightarrow> ('x, 'k) hd_keys \<Rightarrow> ('k, 'x) desc_secret \<Rightarrow> signer_context
    \<Rightarrow> psbt \<Rightarrow> nat \<Rightarrow> sign_options \<Rightarrow> (signer_error, psbt) res" where
  "sign_input_software B C H sec ctx p i opts = (case sec of
     SecSingle k \<Rightarrow> sign_input_key B C k ctx p i opts
   | SecXPrv xk \<Rightarrow> sign_input_xkey B C H xk ctx p i opts
   | SecMultiXPrv mk \<Rightarrow> sign_input_multikey B C H mk ctx p i opts)"

text \<open>\<open>TransactionSigner for T: InputSigner\<close>: every input in order.\<close>

fun sign_transaction :: "btc \<Rightarrow> 'k crypto \<Rightarrow> ('x, 'k) hd_keys \<Rightarrow> ('k, 'x) signer \<Rightarrow> psbt \<Rightarrow> sign_options
    \<Rightarrow> (signer_error, psbt) res" where
  "sign_transaction B C H (Software sec ctx) p opts =
     res_fold (\<lambda>q i. sign_input_software B C H sec ctx q i opts) p [0..<length (inputs p)]"
| "sign_transaction B C H (ExternalSigner i f) p opts = f p opts"

text \<open>\<open>SignersContainer::build\<close> and \<open>as_key_map\<close>: the context comes from the descriptor
  (a taproot one with its internal key, a segwit one, or a legacy one).\<close>

datatype 'pk desc_kind = KindTr 'pk | KindWitness | KindLegacy

definition signer_context_for :: "'pk desc_kind \<Rightarrow> 'pk \<Rightarrow> signer_context" where
  "signer_context_for d pk = (case d of
     KindTr internal \<Rightarrow> Tap (internal = pk) | KindWitness \<Rightarrow> Segwitv0 | KindLegacy \<Rightarrow> Legacy)"

definition build_signers :: "'k crypto \<Rightarrow> ('x, 'k) hd_keys \<Rightarrow> ('pk \<times> ('k, 'x) desc_secret) list \<Rightarrow> 'pk desc_kind
    \<Rightarrow> ('k, 'x) signer signers_container" where
  "build_signers C H keymap d =
     fold (\<lambda>(pk, sec) c. fst (add_external (software_id C H sec) signer_ordering_default
       (Software sec (signer_context_for d pk)) c)) keymap signers_new"

definition as_key_map :: "(('k, 'x) desc_secret \<Rightarrow> 'pk option) \<Rightarrow> ('k, 'x) signer signers_container
    \<Rightarrow> ('pk::linorder, ('k, 'x) desc_secret) btree" where
  "as_key_map to_public c =
     bt_of_list (List.map_filter (\<lambda>sec. map_option (\<lambda>pk. (pk, sec)) (to_public sec))
       (List.map_filter descriptor_secret_key (bt_values c)))"

subsection \<open>What signing changes\<close>

text \<open>\<open>only_sigs inp inp'\<close>: the second input is the first with signatures added; none is removed
  or replaced, and no other field differs.\<close>

definition only_sigs :: "psbt_input \<Rightarrow> psbt_input \<Rightarrow> bool" where
  "only_sigs inp inp' \<longleftrightarrow>
     inp' = inp\<lparr>partial_sigs := partial_sigs inp', tap_key_sig := tap_key_sig inp',
                tap_script_sigs := tap_script_sigs inp'\<rparr> \<and>
     bt_get (partial_sigs inp) \<subseteq>\<^sub>m bt_get (partial_sigs inp') \<and>
     bt_get (tap_script_sigs inp) \<subseteq>\<^sub>m bt_get (tap_script_sigs inp') \<and>
     (tap_key_sig inp \<noteq> None \<longrightarrow> tap_key_sig inp' = tap_key_sig inp) \<and>
     bt_wf (partial_sigs inp') \<and> bt_wf (tap_script_sigs inp')"

definition sig_maps_wf :: "psbt_input \<Rightarrow> bool" where
  "sig_maps_wf inp \<longleftrightarrow> bt_wf (partial_sigs inp) \<and> bt_wf (tap_script_sigs inp)"

definition signs_only :: "nat \<Rightarrow> psbt \<Rightarrow> psbt \<Rightarrow> bool" where
  "signs_only i p p' \<longleftrightarrow> (\<exists>inp'. p' = set_input p i inp' \<and> only_sigs (inputs p ! i) inp')"

lemma only_sigs_refl: "sig_maps_wf inp \<Longrightarrow> only_sigs inp inp"
  by (simp add: only_sigs_def sig_maps_wf_def)

lemma only_sigs_fields:
  assumes "only_sigs inp inp'"
  shows "final_script_sig inp' = final_script_sig inp" "final_script_witness inp' = final_script_witness inp"
    "sighash_type inp' = sighash_type inp" "tap_key_origins inp' = tap_key_origins inp"
    "bip32_derivation inp' = bip32_derivation inp" "tap_internal_key inp' = tap_internal_key inp"
    "witness_utxo inp' = witness_utxo inp" "non_witness_utxo inp' = non_witness_utxo inp"
    "tap_merkle_root inp' = tap_merkle_root inp" "sig_maps_wf inp'"
proof -
  from assms have eq: "inp' = inp\<lparr>partial_sigs := partial_sigs inp', tap_key_sig := tap_key_sig inp',
      tap_script_sigs := tap_script_sigs inp'\<rparr>" by (simp add: only_sigs_def)
  show "final_script_sig inp' = final_script_sig inp" "final_script_witness inp' = final_script_witness inp"
    "sighash_type inp' = sighash_type inp" "tap_key_origins inp' = tap_key_origins inp"
    "bip32_derivation inp' = bip32_derivation inp" "tap_internal_key inp' = tap_internal_key inp"
    "witness_utxo inp' = witness_utxo inp" "non_witness_utxo inp' = non_witness_utxo inp"
    "tap_merkle_root inp' = tap_merkle_root inp"
    by (subst eq, simp)+
  show "sig_maps_wf inp'"
    using assms by (simp add: only_sigs_def sig_maps_wf_def)
qed

lemma only_sigs_trans:
  assumes "only_sigs a b" "only_sigs b c"
  shows "only_sigs a c"
proof -
  have ab: "b = a\<lparr>partial_sigs := partial_sigs b, tap_key_sig := tap_key_sig b,
      tap_script_sigs := tap_script_sigs b\<rparr>"
    and bc: "c = b\<lparr>partial_sigs := partial_sigs c, tap_key_sig := tap_key_sig c,
      tap_script_sigs := tap_script_sigs c\<rparr>"
    using assms by (simp_all add: only_sigs_def)
  have "c = a\<lparr>partial_sigs := partial_sigs c, tap_key_sig := tap_key_sig c,
      tap_script_sigs := tap_script_sigs c\<rparr>"
    by (subst bc, subst ab) simp
  then show ?thesis
    using assms by (auto simp: only_sigs_def intro: map_le_trans)
qed

lemma set_input_same [simp]: "i < length (inputs p) \<Longrightarrow> set_input p i (inputs p ! i) = p"
  by (simp add: set_input_def)

lemma set_input_inputs [simp]: "i < length (inputs p) \<Longrightarrow> inputs (set_input p i inp) ! i = inp"
  "length (inputs (set_input p i inp)) = length (inputs p)"
  "unsigned_tx (set_input p i inp) = unsigned_tx p" "outputs (set_input p i inp) = outputs p"
  "set_input (set_input p i inp) i inp' = set_input p i inp'"
  by (simp_all add: set_input_def)

lemma set_input_other [simp]: "j \<noteq> i \<Longrightarrow> inputs (set_input p i inp) ! j = inputs p ! j"
  by (simp add: set_input_def)

lemma signs_onlyI: "only_sigs (inputs p ! i) inp' \<Longrightarrow> signs_only i p (set_input p i inp')"
  by (auto simp: signs_only_def)

lemma signs_only_refl:
  "i < length (inputs p) \<Longrightarrow> sig_maps_wf (inputs p ! i) \<Longrightarrow> signs_only i p p"
  using signs_onlyI [OF only_sigs_refl, of p i] by simp

lemma only_sigs_partial:
  "sig_maps_wf inp \<Longrightarrow> bt_get (partial_sigs inp) k = None \<Longrightarrow>
    only_sigs inp (inp\<lparr>partial_sigs := bt_insert k s (partial_sigs inp)\<rparr>)"
  by (auto simp: only_sigs_def sig_maps_wf_def bt_simps map_le_def)

lemma only_sigs_key:
  "sig_maps_wf inp \<Longrightarrow> tap_key_sig inp = None \<Longrightarrow> only_sigs inp (inp\<lparr>tap_key_sig := s\<rparr>)"
  by (auto simp: only_sigs_def sig_maps_wf_def)

lemma only_sigs_scripts:
  "sig_maps_wf inp \<Longrightarrow> bt_wf sigs \<Longrightarrow> bt_get (tap_script_sigs inp) \<subseteq>\<^sub>m bt_get sigs \<Longrightarrow>
    only_sigs inp (inp\<lparr>tap_script_sigs := sigs\<rparr>)"
  by (auto simp: only_sigs_def sig_maps_wf_def)

lemma signs_only_trans:
  assumes "i < length (inputs p)" "signs_only i p q" "signs_only i q r"
  shows "signs_only i p r"
proof -
  obtain b c where "q = set_input p i b" "only_sigs (inputs p ! i) b" "r = set_input q i c" "only_sigs b c"
    using assms by (auto simp: signs_only_def)
  then show ?thesis
    using signs_onlyI [OF only_sigs_trans, of p i b c] by simp
qed

lemma signs_only_length: "signs_only i p q \<Longrightarrow> length (inputs q) = length (inputs p)"
  "signs_only i p q \<Longrightarrow> unsigned_tx q = unsigned_tx p"
  by (auto simp: signs_only_def)

lemma sign_ecdsa_input_signs_only:
  assumes "sign_ecdsa_input C k p i opts = Ok p'" "i < length (inputs p)" "sig_maps_wf (inputs p ! i)"
  shows "signs_only i p p' \<and> bt_get (partial_sigs (inputs p' ! i)) (pk_of C k) \<noteq> None"
proof (cases "bt_get (partial_sigs (inputs p ! i)) (pk_of C k) = None")
  case True
  then obtain sig where "p' = set_input p i
      ((inputs p ! i)\<lparr>partial_sigs := bt_insert (pk_of C k) sig (partial_sigs (inputs p ! i))\<rparr>)"
    using assms(1) by (auto simp: sign_ecdsa_input_def sign_psbt_ecdsa_def Let_def res_simps)
  then show ?thesis
    using True assms(2,3) signs_onlyI [OF only_sigs_partial]
    by (auto simp: sig_maps_wf_def bt_simps)
next
  case False
  then show ?thesis
    using assms by (auto simp: sign_ecdsa_input_def intro: signs_only_refl)
qed

lemma sign_tap_key_signs_only:
  assumes "sign_tap_key B C k internal p i opts = Ok p'" "i < length (inputs p)" "sig_maps_wf (inputs p ! i)"
  shows "signs_only i p p' \<and> tap_script_sigs (inputs p' ! i) = tap_script_sigs (inputs p ! i)"
proof -
  have "p' = p \<or> (\<exists>sig. tap_key_sig (inputs p ! i) = None \<and>
      p' = set_input p i ((inputs p ! i)\<lparr>tap_key_sig := Some sig\<rparr>))"
    using assms(1)
    by (auto simp: sign_tap_key_def sign_psbt_schnorr_def Let_def res_simps
        split: option.splits if_splits)
  then show ?thesis
    using assms(2,3) signs_onlyI [OF only_sigs_key] signs_only_refl by auto
qed

lemma sign_tap_leaf_Ok:
  assumes "sign_tap_leaf B C k i p lh = Ok p'"
  shows "\<exists>sig. p' = set_input p i ((inputs p ! i)\<lparr>tap_script_sigs :=
    bt_insert (xonly_of C (pk_of C k), lh) sig (tap_script_sigs (inputs p ! i))\<rparr>)"
  using assms
  by (auto simp: sign_tap_leaf_def sign_psbt_schnorr_def Let_def res_simps)

text \<open>Signing a list of leaves: exactly those leaves get a signature of the key.\<close>

lemma sign_tap_leaves:
  assumes "res_fold (sign_tap_leaf B C k i) p lhs = Ok p'" "i < length (inputs p)"
    "bt_wf (tap_script_sigs (inputs p ! i))"
  shows "\<exists>sigs. bt_wf sigs \<and> p' = set_input p i ((inputs p ! i)\<lparr>tap_script_sigs := sigs\<rparr>) \<and>
    (\<forall>x. bt_get sigs x \<noteq> None \<longleftrightarrow> bt_get (tap_script_sigs (inputs p ! i)) x \<noteq> None \<or>
       (fst x = xonly_of C (pk_of C k) \<and> snd x \<in> set lhs)) \<and>
    (\<forall>x. \<not> (fst x = xonly_of C (pk_of C k) \<and> snd x \<in> set lhs) \<longrightarrow>
       bt_get sigs x = bt_get (tap_script_sigs (inputs p ! i)) x)"
  using assms
proof (induction lhs arbitrary: p)
  case Nil
  then show ?case
    by (intro exI [of _ "tap_script_sigs (inputs p ! i)"]) auto
next
  case (Cons lh lhs)
  from Cons.prems(1) obtain q where
    q: "sign_tap_leaf B C k i p lh = Ok q" "res_fold (sign_tap_leaf B C k i) q lhs = Ok p'"
    by (auto simp: res_simps)
  from sign_tap_leaf_Ok [OF q(1)] obtain sig where
    q_eq: "q = set_input p i ((inputs p ! i)\<lparr>tap_script_sigs :=
      bt_insert (xonly_of C (pk_of C k), lh) sig (tap_script_sigs (inputs p ! i))\<rparr>)" ..
  have "i < length (inputs q)" "bt_wf (tap_script_sigs (inputs q ! i))"
    using Cons.prems(2,3) by (simp_all add: q_eq bt_simps)
  from Cons.IH [OF q(2) this] obtain sigs where
    "bt_wf sigs" "p' = set_input q i ((inputs q ! i)\<lparr>tap_script_sigs := sigs\<rparr>)"
    "\<forall>x. bt_get sigs x \<noteq> None \<longleftrightarrow> bt_get (tap_script_sigs (inputs q ! i)) x \<noteq> None \<or>
       (fst x = xonly_of C (pk_of C k) \<and> snd x \<in> set lhs)"
    "\<forall>x. \<not> (fst x = xonly_of C (pk_of C k) \<and> snd x \<in> set lhs) \<longrightarrow>
       bt_get sigs x = bt_get (tap_script_sigs (inputs q ! i)) x"
    by blast
  then show ?case
    using Cons.prems(2,3)
    by (intro exI [of _ sigs]) (auto simp: q_eq bt_simps split: if_splits)
qed

lemma sign_leaves_signs_only:
  assumes "res_fold (sign_tap_leaf B C k i) p (leaves_to_sign C k (inputs p ! i) opts) = Ok p'"
    "i < length (inputs p)" "sig_maps_wf (inputs p ! i)"
  shows "signs_only i p p' \<and> leaves_to_sign C k (inputs p' ! i) opts = [] \<and>
    tap_key_sig (inputs p' ! i) = tap_key_sig (inputs p ! i) \<and>
    (\<forall>x lh. bt_get (tap_script_sigs (inputs p' ! i)) (x, lh) \<noteq> None \<longleftrightarrow>
       bt_get (tap_script_sigs (inputs p ! i)) (x, lh) \<noteq> None \<or>
       (x = xonly_of C (pk_of C k) \<and> lh \<in> set (leaves_to_sign C k (inputs p ! i) opts)))"
proof -
  let ?inp = "inputs p ! i"
  have wf: "bt_wf (tap_script_sigs ?inp)"
    using assms(3) by (simp add: sig_maps_wf_def)
  from sign_tap_leaves [OF assms(1,2) wf] obtain sigs where sigs:
    "bt_wf sigs" "p' = set_input p i (?inp\<lparr>tap_script_sigs := sigs\<rparr>)"
    "\<forall>x. bt_get sigs x \<noteq> None \<longleftrightarrow> bt_get (tap_script_sigs ?inp) x \<noteq> None \<or>
       (fst x = xonly_of C (pk_of C k) \<and> snd x \<in> set (leaves_to_sign C k ?inp opts))"
    "\<forall>x. \<not> (fst x = xonly_of C (pk_of C k) \<and> snd x \<in> set (leaves_to_sign C k ?inp opts)) \<longrightarrow>
       bt_get sigs x = bt_get (tap_script_sigs ?inp) x"
    by blast
  have "bt_get (tap_script_sigs ?inp) \<subseteq>\<^sub>m bt_get sigs"
    unfolding map_le_def
  proof
    fix x assume "x \<in> dom (bt_get (tap_script_sigs ?inp))"
    then have "\<not> (fst x = xonly_of C (pk_of C k) \<and> snd x \<in> set (leaves_to_sign C k ?inp opts))"
      by (cases x) (auto simp: leaves_to_sign_def Let_def split: option.splits)
    then show "bt_get (tap_script_sigs ?inp) x = bt_get sigs x"
      using sigs(4) by metis
  qed
  then have "signs_only i p p'"
    unfolding sigs(2) by (intro signs_onlyI only_sigs_scripts assms(3) sigs(1))
  moreover have "leaves_to_sign C k (inputs p' ! i) opts = []"
    using sigs(3) assms(2)
    by (auto simp: sigs(2) leaves_to_sign_def Let_def filter_empty_conv split: option.splits)
  ultimately show ?thesis
    using sigs(3) assms(2) by (simp add: sigs(2))
qed

lemma leaves_to_sign_iff:
  "lh \<in> set (leaves_to_sign C k inp opts) \<longleftrightarrow> should_sign_leaf (tap_leaves_options opts) lh \<and>
     bt_get (tap_script_sigs inp) (xonly_of C (pk_of C k), lh) = None \<and>
     (\<exists>lhs ks. bt_get (tap_key_origins inp) (xonly_of C (pk_of C k)) = Some (lhs, ks) \<and> lh \<in> set lhs)"
  by (cases "bt_get (tap_key_origins inp) (xonly_of C (pk_of C k))")
     (auto simp: leaves_to_sign_def Let_def)

text \<open>Whether the key-spend branch would sign.\<close>

definition wants_key_spend :: "'k crypto \<Rightarrow> 'k \<Rightarrow> bool \<Rightarrow> psbt_input \<Rightarrow> sign_options \<Rightarrow> bool" where
  "wants_key_spend C k internal inp opts \<longleftrightarrow> tap_internal_key inp = Some (xonly_of C (pk_of C k)) \<and>
     internal \<and> tap_key_sig inp = None \<and> sign_with_tap_internal_key opts"

lemma sign_tap_key_skips:
  "\<not> wants_key_spend C k internal (inputs p ! i) opts \<Longrightarrow> sign_tap_key B C k internal p i opts = Ok p"
  by (auto simp: sign_tap_key_def wants_key_spend_def Let_def split: option.splits)

lemma sign_tap_key_done:
  assumes "sign_tap_key B C k internal p i opts = Ok q" "i < length (inputs p)"
  shows "\<not> wants_key_spend C k internal (inputs q ! i) opts"
proof (cases "wants_key_spend C k internal (inputs p ! i) opts")
  case True
  then obtain sig where "q = set_input p i ((inputs p ! i)\<lparr>tap_key_sig := Some sig\<rparr>)"
    using assms
    by (auto simp: sign_tap_key_def wants_key_spend_def sign_psbt_schnorr_def Let_def res_simps)
  then show ?thesis
    using assms(2) by (simp add: wants_key_spend_def)
next
  case False
  then show ?thesis
    using assms(1) by (simp add: sign_tap_key_skips)
qed

text \<open>A run that got past the checks.\<close>

lemma sign_input_key_OkE:
  assumes "sign_input_key B C k ctx p i opts = Ok p'"
  obtains "i < length (inputs p)" "i < length (tx_input (unsigned_tx p))" "is_finalized_input (inputs p ! i)" "p' = p"
  | q internal where "i < length (inputs p)" "i < length (tx_input (unsigned_tx p))"
      "\<not> is_finalized_input (inputs p ! i)" "ctx = Tap internal"
      "sign_tap_key B C k internal p i opts = Ok q"
      "res_fold (sign_tap_leaf B C k i) q (leaves_to_sign C k (inputs q ! i) opts) = Ok p'"
  | "i < length (inputs p)" "i < length (tx_input (unsigned_tx p))"
      "\<not> is_finalized_input (inputs p ! i)" "\<forall>b. ctx \<noteq> Tap b" "sign_ecdsa_input C k p i opts = Ok p'"
  using assms
  by (cases ctx) (auto simp: sign_input_key_def Let_def bind_Ok_iff fail_if_Ok_iff not_le split: if_splits)

lemma sign_input_key_signs_only:
  assumes "sign_input_key B C k ctx p i opts = Ok p'" "sig_maps_wf (inputs p ! i)"
  shows "signs_only i p p'"
  using assms(1)
proof (cases rule: sign_input_key_OkE)
  case 1
  then show ?thesis using assms(2) by (simp add: signs_only_refl)
next
  case (2 q internal)
  note key = sign_tap_key_signs_only [OF 2(5,1) assms(2)]
  then have "i < length (inputs q)" "sig_maps_wf (inputs q ! i)"
    using 2(1) by (auto simp: signs_only_def dest: only_sigs_fields(10))
  from sign_leaves_signs_only [OF 2(6) this] key show ?thesis
    using 2(1) by (blast intro: signs_only_trans)
next
  case 3
  then show ?thesis using sign_ecdsa_input_signs_only [OF 3(5,1) assms(2)] by blast
qed

text \<open>Signing only ever adds signatures, to the input it was asked to sign. Whatever the
  context and the options, a successful call leaves the transaction, the outputs and every other
  input as they were; on its input it removes or replaces no signature and touches no other
  field.\<close>

theorem sign_input_only_adds:
  assumes "sign_input_key B C k ctx p i opts = Ok p'"
    and "bt_wf (partial_sigs (inputs p ! i))" "bt_wf (tap_script_sigs (inputs p ! i))"
  shows "unsigned_tx p' = unsigned_tx p \<and> outputs p' = outputs p \<and>
    length (inputs p') = length (inputs p) \<and> (\<forall>j. j \<noteq> i \<longrightarrow> inputs p' ! j = inputs p ! j) \<and>
    only_sigs (inputs p ! i) (inputs p' ! i)"
proof -
  have "i < length (inputs p)"
    using assms(1) by (cases rule: sign_input_key_OkE)
  then show ?thesis
    using sign_input_key_signs_only [OF assms(1)] assms(2,3)
    by (auto simp: sig_maps_wf_def signs_only_def)
qed

text \<open>Signing twice is signing once. After a successful call a second call with the same key,
  context and options succeeds and changes nothing.\<close>

lemma sign_input_idempotent:
  assumes run: "sign_input_key B C k ctx p i opts = Ok p'"
    and "bt_wf (partial_sigs (inputs p ! i))" "bt_wf (tap_script_sigs (inputs p ! i))"
  shows "sign_input_key B C k ctx p' i opts = Ok p'"
proof -
  have wf: "sig_maps_wf (inputs p ! i)"
    using assms by (simp add: sig_maps_wf_def)
  have only: "signs_only i p p'"
    by (rule sign_input_key_signs_only [OF run wf])
  have i: "i < length (inputs p)" "i < length (tx_input (unsigned_tx p))"
    using run by (cases rule: sign_input_key_OkE; simp)+
  note same = only_sigs_fields [of "inputs p ! i" "inputs p' ! i"]
  have sigs: "only_sigs (inputs p ! i) (inputs p' ! i)"
    using only i by (auto simp: signs_only_def)
  have final: "is_finalized_input (inputs p' ! i) = is_finalized_input (inputs p ! i)"
    using same [OF sigs] by (simp add: is_finalized_input_def)
  note len = signs_only_length [OF only]
  show ?thesis
    using run
  proof (cases rule: sign_input_key_OkE)
    case 1
    then show ?thesis using run by simp
  next
    case (2 q internal)
    note key = sign_tap_key_signs_only [OF 2(5,1) wf]
    have q: "i < length (inputs q)" "sig_maps_wf (inputs q ! i)"
      using key i(1) by (auto simp: signs_only_def dest: only_sigs_fields(10))
    note leaf = sign_leaves_signs_only [OF 2(6) q]
    have "\<not> wants_key_spend C k internal (inputs p' ! i) opts"
      using sign_tap_key_done [OF 2(5) i(1)] leaf q(1)
      by (auto simp: wants_key_spend_def signs_only_def dest: only_sigs_fields(6))
    then have "sign_tap_key B C k internal p' i opts = Ok p'"
      by (rule sign_tap_key_skips)
    then show ?thesis
      using 2 leaf i final len same(3) [OF sigs] run
      by (auto simp: sign_input_key_def Let_def res_simps)
  next
    case 3
    have "sign_ecdsa_input C k p' i opts = Ok p'"
      using sign_ecdsa_input_signs_only [OF 3(5,1) wf] by (simp add: sign_ecdsa_input_def Let_def)
    then show ?thesis
      using 3(3,4) i final len same(3) [OF sigs] run
      by (cases ctx) (auto simp: sign_input_key_def Let_def res_simps)
  qed
qed

text \<open>A taproot key signs exactly the leaves the options ask for. On an input that is not
  final, a leaf has a signature of the key afterwards exactly when it had one before, or the
  input lists the leaf for the key and the options select it.\<close>

lemma tap_leaves_signed:
  assumes run: "sign_input_key B C k (Tap internal) p i opts = Ok p'"
    and "bt_wf (partial_sigs (inputs p ! i))" "bt_wf (tap_script_sigs (inputs p ! i))"
    and "\<not> is_finalized_input (inputs p ! i)"
  shows "bt_get (tap_script_sigs (inputs p' ! i)) (xonly_of C (pk_of C k), lh) \<noteq> None \<longleftrightarrow>
    bt_get (tap_script_sigs (inputs p ! i)) (xonly_of C (pk_of C k), lh) \<noteq> None \<or>
    (should_sign_leaf (tap_leaves_options opts) lh \<and>
     (\<exists>lhs ks. bt_get (tap_key_origins (inputs p ! i)) (xonly_of C (pk_of C k)) = Some (lhs, ks) \<and>
       lh \<in> set lhs))"
  using run
proof (cases rule: sign_input_key_OkE)
  case (2 q internal')
  have wf: "sig_maps_wf (inputs p ! i)"
    using assms by (simp add: sig_maps_wf_def)
  note key = sign_tap_key_signs_only [OF 2(5,1) wf]
  have q: "i < length (inputs q)" "sig_maps_wf (inputs q ! i)"
      "tap_key_origins (inputs q ! i) = tap_key_origins (inputs p ! i)"
    using key 2(1) by (auto simp: signs_only_def dest: only_sigs_fields(10,4))
  have "bt_get (tap_script_sigs (inputs p' ! i)) (xonly_of C (pk_of C k), lh) \<noteq> None \<longleftrightarrow>
      bt_get (tap_script_sigs (inputs q ! i)) (xonly_of C (pk_of C k), lh) \<noteq> None \<or>
      lh \<in> set (leaves_to_sign C k (inputs q ! i) opts)"
    using sign_leaves_signs_only [OF 2(6) q(1,2)] by metis
  then show ?thesis
    using key q(3) unfolding leaves_to_sign_iff by metis
qed (use assms(4) in auto)

text \<open>An unusual signature hash is refused. Unless the options allow it, no signer produces a
  signature for an input that asks for anything but the default hash of its context; the input has
  to be final already for the call to succeed.\<close>

lemma nonstandard_sighash_refused:
  assumes "sighash_type (inputs p ! i) = Some sht" "\<not> is_sighash_all C ctx sht"
    and "\<not> allow_all_sighashes opts" "\<not> is_finalized_input (inputs p ! i)"
    and "i < length (inputs p)" "i < length (tx_input (unsigned_tx p))"
  shows "sign_input_key B C k ctx p i opts = Err NonStandardSighash"
  using assms by (simp add: sign_input_key_def fail_if_def)

subsection \<open>Concrete runs\<close>

text \<open>A toy signature scheme for concrete runs: a public key is its secret key plus one, a
  signature is the key and the message.\<close>

definition example_crypto :: "nat crypto" where
  "example_crypto = \<lparr>pk_of = Suc, xonly_of = (\<lambda>x. x), pubkey_hash = (\<lambda>x. x + 1000),
     ecdsa_hash_all = (\<lambda>t. t = 1), tap_hash_all = (\<lambda>t. t = 0 \<or> t = 1),
     tap_hash_ty = (\<lambda>t. if t < 4 then Some t else None), tap_default_ty = 0,
     ecdsa_sighash = (\<lambda>p i. Ok (i + 70, 1)), tap_sighash = (\<lambda>tx i prev leaf ty. Ok (i + 90)),
     ecdsa_sign = (\<lambda>g k m. k + m), ecdsa_ok = (\<lambda>m s pk. s + 1 = pk + m),
     ecdsa_final = (\<lambda>s t. [of_nat s, ucast t]), tweak = (\<lambda>k r. k),
     schnorr_sign = (\<lambda>k m. k + m), schnorr_ok = (\<lambda>s m pk. s + 1 = pk + m),
     schnorr_final = (\<lambda>s t. [of_nat s, ucast t])\<rparr>"

lemma signatures_verify_example [simp]: "signatures_verify example_crypto"
  by (simp add: signatures_verify_def example_crypto_def)

text \<open>A PSBT with one input: a taproot one that lists the leaves 5 and 6 for the key 4.\<close>

definition example_tap_psbt :: psbt where
  "example_tap_psbt = (psbt_from_unsigned_tx (example_tx 9 [OutPoint 7 0] [900]))
     \<lparr>inputs := [psbt_input_default\<lparr>witness_utxo := Some \<lparr>txo_value = 1000, txo_script = []\<rparr>,
        tap_key_origins := [(4, ([5, 6], (0, [])))]\<rparr>]\<rparr>"

definition example_tap_signed :: psbt where
  "example_tap_signed = example_tap_psbt\<lparr>inputs := [(inputs example_tap_psbt ! 0)
     \<lparr>tap_script_sigs := [((4, 5), [93, 0])]\<rparr>]\<rparr>"

lemmas sign_eval = sign_input_key_def sign_tap_key_def sign_tap_leaf_def leaves_to_sign_def
  compute_tap_sighash_def sign_psbt_schnorr_def sign_psbt_ecdsa_def sign_ecdsa_input_def
  set_input_def is_finalized_input_def is_sighash_all_def panic_unless_def fail_if_def
  get_utxo_for_def get_nth_def bt_get_def sign_options_default_def example_crypto_def
  psbt_input_default_def psbt_from_unsigned_tx_def example_tx_def

lemma tap_example_run:
  "sign_input_key btc_example example_crypto 3 (Tap False) example_tap_psbt 0
     (sign_options_default\<lparr>tap_leaves_options := TapExclude [6]\<rparr>) = Ok example_tap_signed"
  by (simp add: sign_eval example_tap_signed_def example_tap_psbt_def)

lemma tap_example_wf:
  "bt_wf (partial_sigs (inputs example_tap_psbt ! 0))" "bt_wf (tap_script_sigs (inputs example_tap_psbt ! 0))"
  "\<not> is_finalized_input (inputs example_tap_psbt ! 0)"
  by (simp_all add: example_tap_psbt_def psbt_input_default_def bt_simps is_finalized_input_def)

theorem sign_input_only_adds_witness:
  "only_sigs (inputs example_tap_psbt ! 0) (inputs example_tap_signed ! 0)"
  using sign_input_only_adds [OF tap_example_run tap_example_wf(1,2)] by blast

lemma sign_input_idempotent_witness:
  "sign_input_key btc_example example_crypto 3 (Tap False) example_tap_signed 0
     (sign_options_default\<lparr>tap_leaves_options := TapExclude [6]\<rparr>) = Ok example_tap_signed"
  by (rule sign_input_idempotent [OF tap_example_run tap_example_wf(1,2)])

lemma tap_leaves_signed_witness:
  "bt_get (tap_script_sigs (inputs example_tap_signed ! 0)) (4, 5) \<noteq> None \<and>
   bt_get (tap_script_sigs (inputs example_tap_signed ! 0)) (4, 6) = None"
  using tap_leaves_signed [OF tap_example_run tap_example_wf, of 5]
    tap_leaves_signed [OF tap_example_run tap_example_wf, of 6]
  by (auto simp: example_crypto_def example_tap_psbt_def psbt_input_default_def bt_get_def)

lemma nonstandard_sighash_refused_witness:
  "sign_input_key btc_example example_crypto 3 Segwitv0
     (example_psbt\<lparr>inputs := [psbt_input_default\<lparr>sighash_type := Some 3\<rparr>]\<rparr>) 0 sign_options_default
   = Err NonStandardSighash"
  by (rule nonstandard_sighash_refused [of _ _ 3])
     (simp_all add: sign_eval example_psbt_def)

end
