(* ===== verification/Policy.thy ===== *)
theory Policy
  imports Signers "HOL-Library.List_Lexorder" "HOL-Library.Char_ord"
begin

section \<open>Spending policies (src/descriptor/policy.rs)\<close>

text \<open>
  The policy tree of a descriptor: its items, how much of it a set of keys can contribute and a
  PSBT already satisfies, the extra conditions (lock times) that come with a way of spending, and
  the condition of a chosen path. A \<open>HashSet\<close> is the list of its elements without duplicates, in
  the order of insertion; no theorem depends on that order. Miniscript is the datatype \<open>terminal\<close>
  with the constructors the extraction matches on; the JSON serialisation behind an item's id, the
  key fingerprints and hashes, and miniscript's own PSBT satisfier are the fields of \<open>pol_env\<close>.
\<close>

subsection \<open>Keys, items, satisfactions\<close>

datatype pk_or_f = PkPubkey pubkey | PkXOnly xonly_key | PkFingerprint fingerprint

datatype 'x desc_pubkey =
  SingleFull "key_source option" pubkey | SingleXOnly "key_source option" xonly_key
| XPubKey "'x desc_xkey" | MultiXPubKey "'x desc_multikey"

record condition =
  csv :: "u32 option"
  timelock :: "locktime option"

definition condition_default :: condition where
  "condition_default = \<lparr>csv = None, timelock = None\<rparr>"

definition is_null :: "condition \<Rightarrow> bool" where
  "is_null c \<longleftrightarrow> csv c = None \<and> timelock c = None"

type_synonym condition_map = "(nat, condition list) btree"
type_synonym folded_condition_map = "(nat list, condition list) btree"

datatype satisfaction =
  Partial (sat_n: nat) (sat_m: nat) (sat_items: "nat list") (sat_sorted: "bool option")
    (sat_conditions: condition_map)
| PartialComplete (sat_n: nat) (sat_m: nat) (sat_items: "nat list") (sat_sorted: "bool option")
    (sat_folded: folded_condition_map)
| Complete (sat_condition: condition)
| NoSat

fun sat_is_leaf :: "satisfaction \<Rightarrow> bool" where
  "sat_is_leaf NoSat = True"
| "sat_is_leaf (Complete _) = True"
| "sat_is_leaf (PartialComplete _ _ _ _ _) = False"
| "sat_is_leaf (Partial _ _ _ _ _) = False"

definition sat_from_bool :: "bool \<Rightarrow> satisfaction" where
  "sat_from_bool b = (if b then Complete condition_default else NoSat)"

datatype satisfiable_item =
  EcdsaSignature pk_or_f
| SchnorrSignature pk_or_f
| Sha256Preimage nat
| Hash256Preimage nat
| Ripemd160Preimage nat
| Hash160Preimage nat
| AbsoluteTimelock locktime
| RelativeTimelock rel_locktime
| Multisig "pk_or_f list" nat
| Thresh "policy list" nat
and policy = Policy (pol_id: string) (pol_item: satisfiable_item)
    (pol_satisfaction: satisfaction) (pol_contribution: satisfaction)

fun item_is_leaf :: "satisfiable_item \<Rightarrow> bool" where
  "item_is_leaf (Thresh _ _) = False"
| "item_is_leaf _ = True"

datatype policy_error =
  NotEnoughItemsSelected string
| IndexOutOfRange index_out_of_bounds
| AddOnLeaf
| AddOnPartialComplete
| MixedTimelockUnits
| IncompatibleConditions

record 'x pol_env =
  item_id :: "satisfiable_item \<Rightarrow> string"
  key_fingerprint :: "'x \<Rightarrow> fingerprint"
  full_key_hash :: "pubkey \<Rightarrow> nat"
  xonly_key_hash :: "xonly_key \<Rightarrow> nat"
  psbt_check_after :: "psbt \<Rightarrow> nat \<Rightarrow> locktime \<Rightarrow> bool"
  psbt_check_older :: "psbt \<Rightarrow> nat \<Rightarrow> rel_locktime \<Rightarrow> bool"

definition from_key :: "'x pol_env \<Rightarrow> 'x desc_pubkey \<Rightarrow> pk_or_f" where
  "from_key E k = (case k of
     SingleFull _ pk \<Rightarrow> PkPubkey pk
   | SingleXOnly _ pk \<Rightarrow> PkXOnly pk
   | XPubKey xk \<Rightarrow> PkFingerprint (xkey_root_fingerprint (key_fingerprint E) xk)
   | MultiXPubKey mk \<Rightarrow> PkFingerprint (multikey_root_fingerprint (key_fingerprint E) mk))"

definition signer_id_of_key :: "'x pol_env \<Rightarrow> 'x desc_pubkey \<Rightarrow> signer_id" where
  "signer_id_of_key E k = (case k of
     SingleFull _ pk \<Rightarrow> PkHash (full_key_hash E pk)
   | SingleXOnly _ pk \<Rightarrow> PkHash (xonly_key_hash E pk)
   | XPubKey xk \<Rightarrow> SFingerprint (xkey_root_fingerprint (key_fingerprint E) xk)
   | MultiXPubKey mk \<Rightarrow> SFingerprint (multikey_root_fingerprint (key_fingerprint E) mk))"

subsection \<open>Combinations\<close>

lemma sum_pow_down: "sum_list (map (\<lambda>j. 2 ^ (n - j)) [0..<n]) < (2::nat) ^ Suc n"
proof (induction n)
  case (Suc n)
  have "map (\<lambda>j. (2::nat) ^ (Suc n - j)) [0..<Suc n] = 2 ^ Suc n # map (\<lambda>j. 2 ^ (n - j)) [0..<n]"
    by (simp add: upt_conv_Cons map_Suc_upt [symmetric] comp_def del: upt_Suc)
  then show ?case
    using Suc by simp
qed simp

lemma map_enumerate_fst: "map (\<lambda>e. g (fst e)) (List.enumerate n xs) = map g [n..<n + length xs]"
proof -
  have "map g (map fst (List.enumerate n xs)) = map g [n..<n + length xs]"
    by (simp only: map_fst_enumerate)
  then show ?thesis
    unfolding map_map comp_def .
qed

lemma sum_pow_children:
  "sum_list (map (\<lambda>(i, _). 2 ^ (length v - i))
      (map (\<lambda>(new_index, x). (index + 1 + new_index, vals @ [x])) (List.enumerate 0 (drop (index + 1) v))))
    < (2::nat) ^ (length v - index)"
proof -
  let ?n = "length v - (index + 1)"
  have "map (\<lambda>(i, _). (2::nat) ^ (length v - i))
      (map (\<lambda>(new_index, x). (index + 1 + new_index, vals @ [x])) (List.enumerate 0 (drop (index + 1) v)))
      = map (\<lambda>j. 2 ^ (?n - j)) [0..<?n]"
    using map_enumerate_fst [of "\<lambda>j. (2::nat) ^ (length v - Suc (index + j))" 0 "drop (Suc index) v"]
    by (simp add: case_prod_beta comp_def)
  then show ?thesis
    using sum_pow_down [of ?n] by (cases "index < length v") (simp_all add: Suc_diff_Suc)
qed

text \<open>The queue of \<open>combinations\<close>: the head is taken; a complete entry is an answer, any other is
  replaced by its extensions, pushed to the front one after the other.\<close>

function combinations_loop :: "'a list \<Rightarrow> nat \<Rightarrow> (nat \<times> 'a list) list \<Rightarrow> 'a list list" where
  "combinations_loop v k [] = []"
| "combinations_loop v k ((index, vals) # queue) =
     (if k \<le> length vals then vals # combinations_loop v k queue
      else combinations_loop v k
        (rev (map (\<lambda>(new_index, x). (index + 1 + new_index, vals @ [x]))
                (List.enumerate 0 (drop (index + 1) v))) @ queue))"
  by pat_completeness auto
termination
proof (relation "measure (\<lambda>(v, k, q). sum_list (map (\<lambda>(i, _). 2 ^ (length v - i)) q))", goal_cases)
  case 1
  then show ?case by simp
next
  case (2 v k index vals queue)
  then show ?case by simp
next
  case (3 v k index vals queue)
  then show ?case
    using sum_pow_children [where ?vals = vals and ?v = v and ?index = index]
    by (simp add: rev_map [symmetric] sum_list_rev del: map_map)
qed

definition combinations :: "'a list \<Rightarrow> nat \<Rightarrow> ('e, 'a list list) res" where
  "combinations v k =
     res_bind (panic_unless (k \<le> length v)) (\<lambda>_.
     Ok (combinations_loop v k (map (\<lambda>(i, x). (i, [x])) (List.enumerate 0 v))))"

text \<open>The queue of \<open>mix\<close>: one element of every list, level by level.\<close>

fun mix_weight :: "'a list list \<Rightarrow> nat" where
  "mix_weight [] = 1"
| "mix_weight (xs # xss) = 1 + length xs * mix_weight xss"

lemma mix_weight_pos [simp]: "0 < mix_weight xss"
  by (cases xss) auto

function mix_loop :: "'a list list \<Rightarrow> 'a list list \<Rightarrow> 'a list list" where
  "mix_loop vec [] = []"
| "mix_loop vec (vals # queue) =
     (if length vec \<le> length vals then vals # mix_loop vec queue
      else mix_loop vec (rev (map (\<lambda>i. vals @ [i]) (vec ! length vals)) @ queue))"
  by pat_completeness auto
termination
proof (relation "measure (\<lambda>(vec, q). sum_list (map (\<lambda>vals. mix_weight (drop (length vals) vec)) q))", goal_cases)
  case (3 vec vals queue)
  then show ?case
    by (simp add: rev_map sum_list_rev comp_def sum_list_triv Cons_nth_drop_Suc [symmetric])
qed simp_all

definition mix :: "'a list list \<Rightarrow> 'a list list" where
  "mix vec = (if vec = [] \<or> list_ex (\<lambda>xs. xs = []) vec then []
     else mix_loop vec (map (\<lambda>i. [i]) (hd vec)))"

subsection \<open>Merging conditions\<close>

definition merge_nlocktime :: "locktime \<Rightarrow> locktime \<Rightarrow> (policy_error, locktime) res" where
  "merge_nlocktime a b =
     (if \<not> is_same_unit a b then Err MixedTimelockUnits
      else if locktime_less b a then Ok a
      else Ok b)"

definition merge_nsequence :: "btc \<Rightarrow> u32 \<Rightarrow> u32 \<Rightarrow> (policy_error, u32) res" where
  "merge_nsequence B a b =
     (if seq_time B a \<noteq> seq_time B b then Err MixedTimelockUnits else Ok (max a b))"

text \<open>Merging one optional component.\<close>

fun merge_component :: "('a \<Rightarrow> 'a \<Rightarrow> ('e, 'a) res) \<Rightarrow> 'a option \<Rightarrow> 'a option \<Rightarrow> ('e, 'a option) res" where
  "merge_component f (Some a) (Some b) = res_bind (f a b) (\<lambda>c. Ok (Some c))"
| "merge_component f None any = Ok any"
| "merge_component f (Some a) None = Ok (Some a)"

definition condition_merge :: "btc \<Rightarrow> condition \<Rightarrow> condition \<Rightarrow> (policy_error, condition) res" where
  "condition_merge B self other =
     res_bind (merge_component (merge_nsequence B) (csv self) (csv other)) (\<lambda>c.
     res_bind (merge_component merge_nlocktime (timelock self) (timelock other)) (\<lambda>t.
     Ok \<lparr>csv = c, timelock = t\<rparr>))"

definition merge_all :: "btc \<Rightarrow> condition list \<Rightarrow> (policy_error, condition) res" where
  "merge_all B cs = res_fold (condition_merge B) condition_default cs"

subsection \<open>Partial satisfactions\<close>

text \<open>A set of conditions as a list without duplicates.\<close>

definition hs_union :: "'a list \<Rightarrow> 'a list \<Rightarrow> 'a list" where
  "hs_union a b = fold List.insert b a"

definition sat_add :: "satisfaction \<Rightarrow> satisfaction \<Rightarrow> nat \<Rightarrow> (policy_error, satisfaction) res" where
  "sat_add self inner inner_index =
     (case self of
        NoSat \<Rightarrow> Err AddOnLeaf
      | Complete _ \<Rightarrow> Err AddOnLeaf
      | PartialComplete _ _ _ _ _ \<Rightarrow> Err AddOnPartialComplete
      | Partial n m items srt conditions \<Rightarrow>
          if n \<le> inner_index \<or> inner_index \<in> set items
          then Err (IndexOutOfRange (new_oob inner_index n))
          else
            (case inner of
               NoSat \<Rightarrow> Ok self
             | Partial _ _ _ _ _ \<Rightarrow> Ok self
             | Complete c \<Rightarrow>
                 Ok (Partial n m (items @ [inner_index]) srt (bt_insert inner_index [c] conditions))
             | PartialComplete _ _ _ _ other_conditions \<Rightarrow>
                 Ok (Partial n m (items @ [inner_index]) srt
                   (bt_insert inner_index (foldl hs_union [] (bt_values other_conditions)) conditions))))"

text \<open>\<open>finalize\<close>: every combination of \<open>m\<close> of the items, every choice of one condition for each,
  folded; the combinations whose conditions cannot hold together are dropped.\<close>

definition folded_entries :: "btc \<Rightarrow> condition_map \<Rightarrow> nat list list \<Rightarrow> (nat list \<times> condition) list" where
  "folded_entries B conditions indexes =
     concat (map (\<lambda>i_vec.
       List.map_filter (\<lambda>x. case merge_all B x of Ok c \<Rightarrow> Some (i_vec, c) | _ \<Rightarrow> None)
         (mix (map (\<lambda>i. case bt_get conditions i of Some cs \<Rightarrow> cs | None \<Rightarrow> []) i_vec))) indexes)"

definition entry_insert :: "nat list \<times> condition \<Rightarrow> folded_condition_map \<Rightarrow> folded_condition_map" where
  "entry_insert kv acc =
     bt_insert (fst kv)
       (List.insert (snd kv) (case bt_get acc (fst kv) of Some cs \<Rightarrow> cs | None \<Rightarrow> [])) acc"

definition sat_finalize :: "btc \<Rightarrow> satisfaction \<Rightarrow> (policy_error, satisfaction) res" where
  "sat_finalize B self =
     (case self of
        Partial n m items srt conditions \<Rightarrow>
          if m \<le> length items then
            res_bind (combinations items m) (\<lambda>indexes.
            Ok (PartialComplete n m items srt (fold entry_insert (folded_entries B conditions indexes) [])))
          else Ok self
      | _ \<Rightarrow> Ok self)"

subsection \<open>Building a policy\<close>

definition policy_new :: "'x pol_env \<Rightarrow> satisfiable_item \<Rightarrow> policy" where
  "policy_new E item = Policy (item_id E item) item NoSat NoSat"

text \<open>Adding the contribution and the satisfaction of every item, in order.\<close>

fun add_items :: "satisfaction \<Rightarrow> satisfaction \<Rightarrow> (satisfaction \<times> satisfaction) list \<Rightarrow> nat
    \<Rightarrow> (policy_error, satisfaction \<times> satisfaction) res" where
  "add_items contribution satis [] index = Ok (contribution, satis)"
| "add_items contribution satis ((c, s) # rest) index =
     res_bind (sat_add contribution c index) (\<lambda>contribution'.
     res_bind (sat_add satis s index) (\<lambda>satis'.
     add_items contribution' satis' rest (Suc index)))"

definition make_thresh :: "btc \<Rightarrow> 'x pol_env \<Rightarrow> policy list \<Rightarrow> nat \<Rightarrow> (policy_error, policy option) res" where
  "make_thresh B E items threshold =
     (if threshold = 0 then Ok None
      else
        let start = Partial (length items) threshold [] None [] in
        res_bind (add_items start start (map (\<lambda>p. (pol_contribution p, pol_satisfaction p)) items) 0)
          (\<lambda>(contribution, satis).
        res_bind (sat_finalize B contribution) (\<lambda>contribution'.
        res_bind (sat_finalize B satis) (\<lambda>satis'.
        let item = Thresh items threshold in
        Ok (Some (Policy (item_id E item) item satis' contribution'))))))"

definition make_and :: "btc \<Rightarrow> 'x pol_env \<Rightarrow> policy option \<Rightarrow> policy option \<Rightarrow> (policy_error, policy option) res" where
  "make_and B E a b = (case (a, b) of
     (None, None) \<Rightarrow> Ok None
   | (Some x, None) \<Rightarrow> Ok (Some x)
   | (None, Some x) \<Rightarrow> Ok (Some x)
   | (Some x, Some y) \<Rightarrow> make_thresh B E [x, y] 2)"

definition make_or :: "btc \<Rightarrow> 'x pol_env \<Rightarrow> policy option \<Rightarrow> policy option \<Rightarrow> (policy_error, policy option) res" where
  "make_or B E a b = (case (a, b) of
     (None, None) \<Rightarrow> Ok None
   | (Some x, None) \<Rightarrow> Ok (Some x)
   | (None, Some x) \<Rightarrow> Ok (Some x)
   | (Some x, Some y) \<Rightarrow> make_thresh B E [x, y] 1)"

datatype build_satisfaction =
  BsNone | BsPsbt psbt | BsPsbtTimelocks psbt (bs_height: u32) (bs_input_max_height: u32)

fun bs_psbt :: "build_satisfaction \<Rightarrow> psbt option" where
  "bs_psbt BsNone = None"
| "bs_psbt (BsPsbt p) = Some p"
| "bs_psbt (BsPsbtTimelocks p _ _) = Some p"

text \<open>Signatures in a PSBT: \<open>generic_sig_in_psbt\<close> with its two closures, and the closures of
  \<open>find_signature\<close> for a taproot and for an ECDSA context.\<close>

definition generic_sig_in_psbt :: "'x pol_env \<Rightarrow> psbt \<Rightarrow> 'x desc_pubkey
    \<Rightarrow> (psbt_input \<Rightarrow> single_pub_key \<Rightarrow> bool) \<Rightarrow> (psbt_input \<Rightarrow> fingerprint \<Rightarrow> single_pub_key option) \<Rightarrow> bool" where
  "generic_sig_in_psbt E p key check extract =
     list_all (\<lambda>input. case key of
         SingleFull _ pk \<Rightarrow> check input (FullKey pk)
       | SingleXOnly _ pk \<Rightarrow> check input (XOnly pk)
       | XPubKey xk \<Rightarrow>
           (case extract input (xkey_root_fingerprint (key_fingerprint E) xk) of
              Some pk \<Rightarrow> check input pk | None \<Rightarrow> False)
       | MultiXPubKey mk \<Rightarrow>
           (case extract input (multikey_root_fingerprint (key_fingerprint E) mk) of
              Some pk \<Rightarrow> check input pk | None \<Rightarrow> False)) (inputs p)"

definition check_tap_sig :: "psbt_input \<Rightarrow> single_pub_key \<Rightarrow> bool" where
  "check_tap_sig input pk = (case pk of
     XOnly x \<Rightarrow> (tap_internal_key input = Some x \<and> tap_key_sig input \<noteq> None) \<or>
       list_ex (\<lambda>(sk, lh). sk = x) (bt_keys (tap_script_sigs input))
   | FullKey _ \<Rightarrow> False)"

definition extract_tap_key :: "psbt_input \<Rightarrow> fingerprint \<Rightarrow> single_pub_key option" where
  "extract_tap_key input fing =
     map_option (\<lambda>(pk, _). XOnly pk) (find (\<lambda>(_, (_, (f, _))). f = fing) (tap_key_origins input))"

definition check_ecdsa_sig :: "psbt_input \<Rightarrow> single_pub_key \<Rightarrow> bool" where
  "check_ecdsa_sig input pk = (case pk of
     FullKey k \<Rightarrow> bt_get (partial_sigs input) k \<noteq> None
   | XOnly _ \<Rightarrow> False)"

definition extract_ecdsa_key :: "psbt_input \<Rightarrow> fingerprint \<Rightarrow> single_pub_key option" where
  "extract_ecdsa_key input fing =
     map_option (\<lambda>(pk, _). FullKey pk) (find (\<lambda>(_, (f, _)). f = fing) (bip32_derivation input))"

definition find_signature :: "'x pol_env \<Rightarrow> bool \<Rightarrow> psbt \<Rightarrow> 'x desc_pubkey \<Rightarrow> bool" where
  "find_signature E taproot p key =
     (if taproot then generic_sig_in_psbt E p key check_tap_sig extract_tap_key
      else generic_sig_in_psbt E p key check_ecdsa_sig extract_ecdsa_key)"

definition make_generic_signature :: "'x pol_env \<Rightarrow> 'x desc_pubkey \<Rightarrow> 's signers_container
    \<Rightarrow> build_satisfaction \<Rightarrow> satisfiable_item \<Rightarrow> (psbt \<Rightarrow> bool) \<Rightarrow> policy" where
  "make_generic_signature E key signers build_sat item find_sig =
     Policy (item_id E item) item
       (case bs_psbt build_sat of
          Some p \<Rightarrow> if find_sig p then Complete condition_default else NoSat
        | None \<Rightarrow> NoSat)
       (if find_signer signers (signer_id_of_key E key) \<noteq> None then Complete condition_default else NoSat)"

definition make_signature :: "'x pol_env \<Rightarrow> bool \<Rightarrow> 'x desc_pubkey \<Rightarrow> 's signers_container
    \<Rightarrow> build_satisfaction \<Rightarrow> policy" where
  "make_signature E taproot key signers build_sat =
     (if taproot then
        make_generic_signature E key signers build_sat (SchnorrSignature (from_key E key))
          (\<lambda>p. find_signature E taproot p key)
      else
        make_generic_signature E key signers build_sat (EcdsaSignature (from_key E key))
          (\<lambda>p. find_signature E taproot p key))"

fun add_multi_keys :: "'x pol_env \<Rightarrow> bool \<Rightarrow> 's signers_container \<Rightarrow> build_satisfaction
    \<Rightarrow> satisfaction \<Rightarrow> satisfaction \<Rightarrow> 'x desc_pubkey list \<Rightarrow> nat
    \<Rightarrow> (policy_error, satisfaction \<times> satisfaction) res" where
  "add_multi_keys E taproot signers build_sat contribution satis [] index = Ok (contribution, satis)"
| "add_multi_keys E taproot signers build_sat contribution satis (key # keys) index =
     res_bind (if find_signer signers (signer_id_of_key E key) \<noteq> None
               then sat_add contribution (Complete condition_default) index else Ok contribution)
       (\<lambda>contribution'.
     res_bind (case bs_psbt build_sat of
                 Some p \<Rightarrow> if find_signature E taproot p key
                           then sat_add satis (Complete condition_default) index else Ok satis
               | None \<Rightarrow> Ok satis)
       (\<lambda>satis'.
     add_multi_keys E taproot signers build_sat contribution' satis' keys (Suc index)))"

definition make_multi :: "btc \<Rightarrow> 'x pol_env \<Rightarrow> bool \<Rightarrow> nat \<Rightarrow> 'x desc_pubkey list \<Rightarrow> 's signers_container
    \<Rightarrow> build_satisfaction \<Rightarrow> bool \<Rightarrow> (policy_error, policy option) res" where
  "make_multi B E taproot k keys signers build_sat srt =
     (let start = Partial (length keys) k [] (Some srt) [] in
      res_bind (add_multi_keys E taproot signers build_sat start start keys 0)
        (\<lambda>(contribution, satis).
      res_bind (sat_finalize B satis) (\<lambda>satis'.
      res_bind (sat_finalize B contribution) (\<lambda>contribution'.
      let item = Multisig (map (from_key E) keys) k in
      Ok (Some (Policy (item_id E item) item satis' contribution'))))))"

subsection \<open>Conditions of a path\<close>

text \<open>The children of a threshold that a path selects, with their conditions merged; the errors
  of unselected children are not looked at.\<close>

fun merge_selected :: "btc \<Rightarrow> nat list \<Rightarrow> condition \<Rightarrow> (policy_error, condition) res list \<Rightarrow> nat
    \<Rightarrow> (policy_error, condition) res" where
  "merge_selected B selected acc [] index = Ok acc"
| "merge_selected B selected acc (c # cs) index =
     (if index \<in> set selected
      then res_bind c (\<lambda>cond. res_bind (condition_merge B acc cond) (\<lambda>acc'.
             merge_selected B selected acc' cs (Suc index)))
      else merge_selected B selected acc cs (Suc index))"

definition ok_null :: "(policy_error, condition) res \<Rightarrow> bool" where
  "ok_null r = (case r of Ok c \<Rightarrow> is_null c | _ \<Rightarrow> False)"

type_synonym policy_path = "(string, nat list) btree"

text \<open>The selected indexes: those the path names for the node, or all of them where all are needed
  (and always for a multisig). A set, so without duplicates.\<close>

definition selected_items :: "policy_path \<Rightarrow> string \<Rightarrow> nat list \<Rightarrow> nat list" where
  "selected_items path pid default_sel = remdups (case bt_get path pid of Some arr \<Rightarrow> arr | None \<Rightarrow> default_sel)"

fun get_condition :: "btc \<Rightarrow> policy_path \<Rightarrow> policy \<Rightarrow> (policy_error, condition) res" where
  "get_condition B path (Policy pid (Thresh items threshold) sat contr) =
     (let default_sel = if length items = threshold then [0..<threshold] else [];
          selected = selected_items path pid default_sel;
          mapped_req = map (get_condition B path) items in
      if list_all ok_null mapped_req then Ok condition_default
      else
        (case find (\<lambda>index. length items \<le> index) selected of
           Some index \<Rightarrow> Err (IndexOutOfRange (new_oob index (length items)))
         | None \<Rightarrow>
             if length selected < threshold then Err (NotEnoughItemsSelected pid)
             else merge_selected B selected condition_default mapped_req 0))"
| "get_condition B path (Policy pid (Multisig keys threshold) sat contr) =
     (let selected = selected_items path pid [0..<length keys] in
      if length selected < threshold then Err (NotEnoughItemsSelected pid)
      else
        (case find (\<lambda>index. length keys \<le> index) selected of
           Some index \<Rightarrow> Err (IndexOutOfRange (new_oob index (length keys)))
         | None \<Rightarrow> Ok condition_default))"
| "get_condition B path (Policy pid (AbsoluteTimelock value) sat contr) =
     Ok \<lparr>csv = None, timelock = Some value\<rparr>"
| "get_condition B path (Policy pid (RelativeTimelock value) sat contr) =
     Ok \<lparr>csv = Some (rel_sequence B value), timelock = None\<rparr>"
| "get_condition B path (Policy pid (EcdsaSignature k) sat contr) = Ok condition_default"
| "get_condition B path (Policy pid (SchnorrSignature k) sat contr) = Ok condition_default"
| "get_condition B path (Policy pid (Sha256Preimage h) sat contr) = Ok condition_default"
| "get_condition B path (Policy pid (Hash256Preimage h) sat contr) = Ok condition_default"
| "get_condition B path (Policy pid (Ripemd160Preimage h) sat contr) = Ok condition_default"
| "get_condition B path (Policy pid (Hash160Preimage h) sat contr) = Ok condition_default"

definition requires_path :: "btc \<Rightarrow> policy \<Rightarrow> bool" where
  "requires_path B p \<longleftrightarrow> \<not> is_ok (get_condition B [] p)"

subsection \<open>Extracting the policy of a miniscript and of a descriptor\<close>

datatype 'x terminal =
  TTrue | TFalse
| PkK "'x desc_pubkey" | PkH "'x desc_pubkey" | RawPkH nat
| TAfter locktime | TOlder rel_locktime
| TSha256 nat | THash256 nat | TRipemd160 nat | THash160 nat
| TMulti nat "'x desc_pubkey list" | TMultiA nat "'x desc_pubkey list"
| TAlt "'x terminal" | TSwap "'x terminal" | TCheck "'x terminal" | TDupIf "'x terminal"
| TVerify "'x terminal" | TNonZero "'x terminal" | TZeroNotEqual "'x terminal"
| TAndV "'x terminal" "'x terminal" | TAndB "'x terminal" "'x terminal"
| TAndOr "'x terminal" "'x terminal" "'x terminal"
| TOrB "'x terminal" "'x terminal" | TOrD "'x terminal" "'x terminal"
| TOrC "'x terminal" "'x terminal" | TOrI "'x terminal" "'x terminal"
| TThresh nat "'x terminal list"

definition after_policy :: "'x pol_env \<Rightarrow> build_satisfaction \<Rightarrow> locktime \<Rightarrow> policy" where
  "after_policy E build_sat value =
     (let item = AbsoluteTimelock value;
          contribution = Complete \<lparr>csv = None, timelock = Some value\<rparr>;
          satis = (case build_sat of
             BsPsbtTimelocks p current_height _ \<Rightarrow>
               if check_after (after_new (Some current_height) False) value \<and>
                  list_all (\<lambda>i. psbt_check_after E p i value) [0..<length (inputs p)]
               then contribution else NoSat
           | _ \<Rightarrow> NoSat) in
      Policy (item_id E item) item satis contribution)"

definition older_policy :: "btc \<Rightarrow> 'x pol_env \<Rightarrow> build_satisfaction \<Rightarrow> rel_locktime \<Rightarrow> ('e, policy) res" where
  "older_policy B E build_sat value =
     (let item = RelativeTimelock value;
          contribution = Complete \<lparr>csv = Some (rel_sequence B value), timelock = None\<rparr> in
      res_bind (case build_sat of
           BsPsbtTimelocks p current_height input_max_height \<Rightarrow>
             res_bind (check_older B (older_new (Some current_height) (Some input_max_height) False) value)
               (\<lambda>older_sat.
             Ok (if older_sat \<and> list_all (\<lambda>i. psbt_check_older E p i value) [0..<length (inputs p)]
                 then contribution else NoSat))
         | _ \<Rightarrow> Ok NoSat)
        (\<lambda>satis. Ok (Policy (item_id E item) item satis contribution)))"

fun extract_policy :: "btc \<Rightarrow> 'x pol_env \<Rightarrow> bool \<Rightarrow> 's signers_container \<Rightarrow> build_satisfaction
    \<Rightarrow> 'x terminal \<Rightarrow> (policy_error, policy option) res" where
  "extract_policy B E tap S bs TTrue = Ok None"
| "extract_policy B E tap S bs TFalse = Ok None"
| "extract_policy B E tap S bs (PkK k) = Ok (Some (make_signature E tap k S bs))"
| "extract_policy B E tap S bs (PkH k) = Ok (Some (make_signature E tap k S bs))"
| "extract_policy B E tap S bs (TAfter value) = Ok (Some (after_policy E bs value))"
| "extract_policy B E tap S bs (TOlder value) = res_bind (older_policy B E bs value) (\<lambda>p. Ok (Some p))"
| "extract_policy B E tap S bs (TSha256 h) = Ok (Some (policy_new E (Sha256Preimage h)))"
| "extract_policy B E tap S bs (THash256 h) = Ok (Some (policy_new E (Hash256Preimage h)))"
| "extract_policy B E tap S bs (TRipemd160 h) = Ok (Some (policy_new E (Ripemd160Preimage h)))"
| "extract_policy B E tap S bs (THash160 h) = Ok (Some (policy_new E (Hash160Preimage h)))"
| "extract_policy B E tap S bs (TMulti k keys) = make_multi B E tap k keys S bs False"
| "extract_policy B E tap S bs (TMultiA k keys) = make_multi B E tap k keys S bs False"
| "extract_policy B E tap S bs (TAlt t) = extract_policy B E tap S bs t"
| "extract_policy B E tap S bs (TSwap t) = extract_policy B E tap S bs t"
| "extract_policy B E tap S bs (TCheck t) = extract_policy B E tap S bs t"
| "extract_policy B E tap S bs (TDupIf t) = extract_policy B E tap S bs t"
| "extract_policy B E tap S bs (TVerify t) = extract_policy B E tap S bs t"
| "extract_policy B E tap S bs (TNonZero t) = extract_policy B E tap S bs t"
| "extract_policy B E tap S bs (TZeroNotEqual t) = extract_policy B E tap S bs t"
| "extract_policy B E tap S bs (TAndV a b) =
     res_bind (extract_policy B E tap S bs a) (\<lambda>pa.
     res_bind (extract_policy B E tap S bs b) (\<lambda>pb. make_and B E pa pb))"
| "extract_policy B E tap S bs (TAndB a b) =
     res_bind (extract_policy B E tap S bs a) (\<lambda>pa.
     res_bind (extract_policy B E tap S bs b) (\<lambda>pb. make_and B E pa pb))"
| "extract_policy B E tap S bs (TAndOr x y z) =
     res_bind (extract_policy B E tap S bs x) (\<lambda>px.
     res_bind (extract_policy B E tap S bs y) (\<lambda>py.
     res_bind (make_and B E px py) (\<lambda>pxy.
     res_bind (extract_policy B E tap S bs z) (\<lambda>pz. make_or B E pxy pz))))"
| "extract_policy B E tap S bs (TOrB a b) =
     res_bind (extract_policy B E tap S bs a) (\<lambda>pa.
     res_bind (extract_policy B E tap S bs b) (\<lambda>pb. make_or B E pa pb))"
| "extract_policy B E tap S bs (TOrD a b) =
     res_bind (extract_policy B E tap S bs a) (\<lambda>pa.
     res_bind (extract_policy B E tap S bs b) (\<lambda>pb. make_or B E pa pb))"
| "extract_policy B E tap S bs (TOrC a b) =
     res_bind (extract_policy B E tap S bs a) (\<lambda>pa.
     res_bind (extract_policy B E tap S bs b) (\<lambda>pb. make_or B E pa pb))"
| "extract_policy B E tap S bs (TOrI a b) =
     res_bind (extract_policy B E tap S bs a) (\<lambda>pa.
     res_bind (extract_policy B E tap S bs b) (\<lambda>pb. make_or B E pa pb))"
| "extract_policy B E tap S bs (TThresh k nodes) =
     res_bind (res_map (\<lambda>t. t) (map (extract_policy B E tap S bs) nodes)) (\<lambda>options.
     let mapped = List.map_filter (\<lambda>x. x) options in
     if length mapped < length nodes then
       (case checked_sub k (length nodes - length mapped) of
          None \<Rightarrow> Ok None
        | Some x \<Rightarrow> make_thresh B E mapped x)
     else make_thresh B E mapped k)"
| "extract_policy B E tap S bs (RawPkH h) = Ok None"

text \<open>The script tree of a taproot descriptor; miniscript iterates its leaves from left to right.\<close>

datatype 'x tap_tree = TapLeaf "'x terminal" | TapNode "'x tap_tree" "'x tap_tree"

primrec tap_leaves :: "'x tap_tree \<Rightarrow> 'x terminal list" where
  "tap_leaves (TapLeaf t) = [t]"
| "tap_leaves (TapNode a b) = tap_leaves a @ tap_leaves b"

datatype 'x descriptor_form =
  DPkh "'x desc_pubkey" | DWpkh "'x desc_pubkey" | DShWpkh "'x desc_pubkey"
| DShMs "'x terminal" | DShSortedMulti nat "'x desc_pubkey list"
| DShWshMs "'x terminal" | DShWshSortedMulti nat "'x desc_pubkey list"
| DWshMs "'x terminal" | DWshSortedMulti nat "'x desc_pubkey list"
| DBare "'x terminal"
| DTr "'x desc_pubkey" "'x tap_tree option"

fun extract_descriptor_policy :: "btc \<Rightarrow> 'x pol_env \<Rightarrow> 's signers_container \<Rightarrow> build_satisfaction
    \<Rightarrow> 'x descriptor_form \<Rightarrow> (policy_error, policy option) res" where
  "extract_descriptor_policy B E S bs (DPkh k) = Ok (Some (make_signature E False k S bs))"
| "extract_descriptor_policy B E S bs (DWpkh k) = Ok (Some (make_signature E False k S bs))"
| "extract_descriptor_policy B E S bs (DShWpkh k) = Ok (Some (make_signature E False k S bs))"
| "extract_descriptor_policy B E S bs (DShMs t) = extract_policy B E False S bs t"
| "extract_descriptor_policy B E S bs (DShSortedMulti k keys) = make_multi B E False k keys S bs True"
| "extract_descriptor_policy B E S bs (DShWshMs t) = extract_policy B E False S bs t"
| "extract_descriptor_policy B E S bs (DShWshSortedMulti k keys) = make_multi B E False k keys S bs True"
| "extract_descriptor_policy B E S bs (DWshMs t) = extract_policy B E False S bs t"
| "extract_descriptor_policy B E S bs (DWshSortedMulti k keys) = make_multi B E False k keys S bs True"
| "extract_descriptor_policy B E S bs (DBare t) = extract_policy B E False S bs t"
| "extract_descriptor_policy B E S bs (DTr internal tree) =
     (let key_spend_sig = make_signature E True internal S bs in
      case tree of
        None \<Rightarrow> Ok (Some key_spend_sig)
      | Some scripts \<Rightarrow>
          res_bind (res_map (extract_policy B E True S bs) (tap_leaves scripts)) (\<lambda>options.
          make_thresh B E (key_spend_sig # List.map_filter (\<lambda>x. x) options) 1))"

end
