(* ===== verification/Wallet_State.thy ===== *)
theory Wallet_State
  imports Change_Set Policy
begin

section \<open>The wallet and its state (src/wallet/mod.rs)\<close>

text \<open>
  The struct \<open>Wallet\<close> as a record, and the operations that read or change one part of it:
  addresses, used marks, unspent outputs, staged changes, locked outpoints, updates from the
  chain. The script index, the transaction graph, the local chain and the canonical view are
  structures of \<open>bdk_chain\<close>; descriptors are structures of \<open>miniscript\<close>. Their types are type
  variables and their operations are the fields of the records below, named after the functions
  the wallet calls; an argument \<open>A\<close> collects them. An operation that changes the wallet returns the
  changed record. Networks are identified by numbers and addresses are their text.
\<close>

subsection \<open>What the wallet calls\<close>

record full_txout =
  ft_outpoint :: outpoint
  ft_txout :: txout
  ft_spent_by :: "txid option"
  ft_pos :: chain_position
  ft_is_on_coinbase :: bool

record canon_tx =
  ct_txid :: txid
  ct_tx :: transaction
  ct_pos :: chain_position

type_synonym spk_index = "keychain_kind \<times> u32"

record ('d, 'ix, 'ixc) index_api =
  ia_keychains :: "'ix \<Rightarrow> (keychain_kind \<times> 'd) list"
  ia_descriptor :: "'ix \<Rightarrow> keychain_kind \<Rightarrow> 'd option"
  ia_unused_spks :: "'ix \<Rightarrow> keychain_kind \<Rightarrow> (u32 \<times> script) list"
  ia_next_index :: "'ix \<Rightarrow> keychain_kind \<Rightarrow> (u32 \<times> bool) option"
  ia_last_revealed :: "'ix \<Rightarrow> keychain_kind \<Rightarrow> u32 option"
  ia_reveal_next :: "keychain_kind \<Rightarrow> 'ix \<Rightarrow> ((u32 \<times> script) \<times> 'ixc) option \<times> 'ix"
  ia_next_unused :: "keychain_kind \<Rightarrow> 'ix \<Rightarrow> ((u32 \<times> script) \<times> 'ixc) option \<times> 'ix"
  ia_reveal_to :: "keychain_kind \<Rightarrow> u32 \<Rightarrow> 'ix \<Rightarrow> ((u32 \<times> script) list \<times> 'ixc) option \<times> 'ix"
  ia_reveal_multi :: "(keychain_kind, u32) btree \<Rightarrow> 'ix \<Rightarrow> 'ixc \<times> 'ix"
  ia_mark_used :: "keychain_kind \<Rightarrow> u32 \<Rightarrow> 'ix \<Rightarrow> bool \<times> 'ix"
  ia_unmark_used :: "keychain_kind \<Rightarrow> u32 \<Rightarrow> 'ix \<Rightarrow> bool \<times> 'ix"
  ia_index_of_spk :: "'ix \<Rightarrow> script \<Rightarrow> spk_index option"
  ia_outpoints :: "'ix \<Rightarrow> (spk_index \<times> outpoint) list"
  ia_txout :: "'ix \<Rightarrow> outpoint \<Rightarrow> (spk_index \<times> txout) option"
  ia_is_tx_relevant :: "'ix \<Rightarrow> transaction \<Rightarrow> bool"
  ia_sent_and_received :: "'ix \<Rightarrow> transaction \<Rightarrow> amount \<times> amount"
  ia_net_value :: "'ix \<Rightarrow> transaction \<Rightarrow> int"

text \<open>\<open>TxUpdate\<close>, with the fields the wallet sets itself and the rest of it.\<close>

record 'u tx_update =
  tu_txouts :: "(outpoint, txout) btree"
  tu_evicted_ats :: "(txid \<times> nat) list"
  tu_rest :: 'u

record ('tg, 'ix, 'tgc, 'ixc, 'u, 'blk) graph_api =
  ga_get_tx :: "'tg \<Rightarrow> txid \<Rightarrow> transaction option"
  ga_get_txout :: "'tg \<Rightarrow> outpoint \<Rightarrow> txout option"
  ga_calculate_fee :: "'tg \<Rightarrow> transaction \<Rightarrow> amount option"
  ga_apply_update :: "'u tx_update \<Rightarrow> 'tg \<times> 'ix \<Rightarrow> ('tgc \<times> 'ixc) \<times> ('tg \<times> 'ix)"
  ga_apply_block :: "'blk \<Rightarrow> u32 \<Rightarrow> 'tg \<times> 'ix \<Rightarrow> ('tgc \<times> 'ixc) \<times> ('tg \<times> 'ix)"
  ga_insert_unconfirmed :: "(transaction \<times> nat) list \<Rightarrow> 'tg \<times> 'ix \<Rightarrow> ('tgc \<times> 'ixc) \<times> ('tg \<times> 'ix)"
  ga_empty_update :: 'u

text \<open>\<open>CannotConnectError\<close> carries the height to include.\<close>

type_synonym cannot_connect = u32

datatype apply_header_error = InconsistentBlocks | CannotConnect cannot_connect

record balance =
  bal_immature :: amount
  bal_trusted_pending :: amount
  bal_untrusted_pending :: amount
  bal_confirmed :: amount

record ('ch, 'lc, 'cu, 'tg, 'cv, 'blk) chain_api =
  ca_tip :: "'ch \<Rightarrow> block_id"
  ca_genesis_hash :: "'ch \<Rightarrow> nat"
  ca_from_genesis :: "nat \<Rightarrow> 'ch \<times> 'lc"
  ca_from_changeset :: "'lc \<Rightarrow> 'ch option"
  ca_apply_update :: "'cu \<Rightarrow> 'ch \<Rightarrow> (cannot_connect, 'lc \<times> 'ch) res"
  ca_apply_header :: "'blk \<Rightarrow> u32 \<Rightarrow> block_id \<Rightarrow> 'ch \<Rightarrow> (apply_header_error, 'lc \<times> 'ch) res"
  ca_prev_hash :: "'blk \<Rightarrow> nat"
  ca_block_hash :: "'blk \<Rightarrow> nat"
  ca_view :: "'ch \<Rightarrow> 'tg \<Rightarrow> block_id \<Rightarrow> 'cv"
  va_txs :: "'cv \<Rightarrow> canon_tx list"
  va_unspent :: "'cv \<Rightarrow> (spk_index \<times> outpoint) list \<Rightarrow> (spk_index \<times> full_txout) list"
  va_outputs :: "'cv \<Rightarrow> (spk_index \<times> outpoint) list \<Rightarrow> (spk_index \<times> full_txout) list"
  va_balance :: "'cv \<Rightarrow> (spk_index \<times> outpoint) list \<Rightarrow> (outpoint \<Rightarrow> bool) \<Rightarrow> u32 \<Rightarrow> balance"
  va_is_mature :: "full_txout \<Rightarrow> u32 \<Rightarrow> bool"

text \<open>\<open>'dd\<close> is a descriptor at a derivation index. \<open>da_spk d i\<close> is the \<open>i\<close>-th script of the
  unbounded iterator of a descriptor.\<close>

record ('d, 'dd, 'x) desc_api =
  da_form :: "'d \<Rightarrow> 'x descriptor_form"
  da_keys :: "'d \<Rightarrow> 'x desc_pubkey list"
  da_has_wildcard :: "'d \<Rightarrow> bool"
  da_spk :: "'d \<Rightarrow> u32 \<Rightarrow> script option"
  da_max_weight :: "'d \<Rightarrow> weight option"
  da_at_index :: "'d \<Rightarrow> u32 \<Rightarrow> 'dd option"
  da_update_unchecked :: "'dd \<Rightarrow> psbt_input \<Rightarrow> (nat, psbt_input) res"
  da_update_input :: "nat \<Rightarrow> 'dd \<Rightarrow> psbt \<Rightarrow> (nat, psbt) res"
  da_update_output :: "nat \<Rightarrow> 'dd \<Rightarrow> psbt \<Rightarrow> (nat, psbt) res"
  da_address :: "script \<Rightarrow> nat \<Rightarrow> string option"

record ('d, 'dd, 'x, 'ix, 'ixc, 'tg, 'tgc, 'u, 'blk, 'ch, 'lc, 'cu, 'cv) wallet_api =
  ixa :: "('d, 'ix, 'ixc) index_api"
  tga :: "('tg, 'ix, 'tgc, 'ixc, 'u, 'blk) graph_api"
  cha :: "('ch, 'lc, 'cu, 'tg, 'cv, 'blk) chain_api"
  dsa :: "('d, 'dd, 'x) desc_api"
  exa :: "('lc, 'tgc, 'ixc) ext_ops"

subsection \<open>The wallet\<close>

record ('s, 'd, 'ix, 'ixc, 'tg, 'tgc, 'ch, 'lc, 'cv) wallet =
  w_signers :: "'s signers_container"
  w_change_signers :: "'s signers_container"
  w_chain :: 'ch
  w_graph :: 'tg
  w_index :: 'ix
  w_stage :: "('d, nat, 'lc, 'tgc, 'ixc) change_set"
  w_network :: nat
  w_locked :: "outpoint list"
  w_view :: 'cv

record ('u, 'cu) wallet_update =
  up_last_active :: "(keychain_kind, u32) btree"
  up_tx_update :: "'u tx_update"
  up_chain :: "'cu option"

definition keychains where
  "keychains A w = ia_keychains (ixa A) (w_index w)"

definition map_keychain where
  "map_keychain A w keychain = (if length (keychains A w) = 1 then External else keychain)"

definition stage_merge where
  "stage_merge A cs w = w\<lparr>w_stage := cs_merge (exa A) (w_stage w) cs\<rparr>"

subsection \<open>Addresses\<close>

record address_info =
  ai_index :: u32
  ai_address :: string
  ai_keychain :: keychain_kind

definition address_info_of where
  "address_info_of A w keychain index spk =
     res_bind (expect (da_address (dsa A) spk (w_network w))) (\<lambda>addr.
     Ok \<lparr>ai_index = index, ai_address = addr, ai_keychain = keychain\<rparr>)"

text \<open>The script at an index, with the keychain it is taken from and the index that is used: a
  descriptor without a wildcard has the index 0 only.\<close>

definition peek_spk where
  "peek_spk A w keychain index =
     (let keychain = map_keychain A w keychain in
      res_bind (expect (ia_descriptor (ixa A) (w_index w) keychain)) (\<lambda>d.
      let index = (if \<not> da_has_wildcard (dsa A) d then 0 else index) in
      res_bind (expect (da_spk (dsa A) d index)) (\<lambda>spk. Ok (keychain, index, spk))))"

definition peek_address where
  "peek_address A w keychain index =
     res_bind (peek_spk A w keychain index) (\<lambda>(keychain, index, spk).
     address_info_of A w keychain index spk)"

definition reveal_next_address where
  "reveal_next_address A w keychain =
     (let keychain = map_keychain A w keychain in
      case ia_reveal_next (ixa A) keychain (w_index w) of (revealed, ix) \<Rightarrow>
      res_bind (expect revealed) (\<lambda>((index, spk), index_changeset).
      let w = stage_merge A (cs_from_indexer (exa A) index_changeset) (w\<lparr>w_index := ix\<rparr>) in
      res_bind (address_info_of A w keychain index spk) (\<lambda>ai. Ok (ai, w))))"

definition reveal_addresses_to where
  "reveal_addresses_to A w keychain index =
     (let keychain = map_keychain A w keychain in
      case ia_reveal_to (ixa A) keychain index (w_index w) of (revealed, ix) \<Rightarrow>
      res_bind (expect revealed) (\<lambda>(spks, index_changeset).
      let w = stage_merge A (cs_from_indexer (exa A) index_changeset) (w\<lparr>w_index := ix\<rparr>) in
      res_bind (res_map (\<lambda>(i, spk). address_info_of A w keychain i spk) spks) (\<lambda>ais. Ok (ais, w))))"

definition next_unused_address where
  "next_unused_address A w keychain =
     (let keychain = map_keychain A w keychain in
      case ia_next_unused (ixa A) keychain (w_index w) of (revealed, ix) \<Rightarrow>
      res_bind (expect revealed) (\<lambda>((index, spk), index_changeset).
      let w = stage_merge A (cs_from_indexed_graph (exa A) (mo_empty (tg_ops (exa A)), index_changeset))
                (w\<lparr>w_index := ix\<rparr>) in
      res_bind (address_info_of A w keychain index spk) (\<lambda>ai. Ok (ai, w))))"

definition mark_used where
  "mark_used A w keychain index =
     (case ia_mark_used (ixa A) keychain index (w_index w) of (b, ix) \<Rightarrow> (b, w\<lparr>w_index := ix\<rparr>))"

definition unmark_used where
  "unmark_used A w keychain index =
     (case ia_unmark_used (ixa A) keychain index (w_index w) of (b, ix) \<Rightarrow> (b, w\<lparr>w_index := ix\<rparr>))"

definition list_unused_addresses where
  "list_unused_addresses A w keychain =
     res_map (\<lambda>(index, spk). address_info_of A w keychain index spk)
       (ia_unused_spks (ixa A) (w_index w) (map_keychain A w keychain))"

definition is_mine where
  "is_mine A w spk \<longleftrightarrow> ia_index_of_spk (ixa A) (w_index w) spk \<noteq> None"

definition derivation_of_spk where
  "derivation_of_spk A w spk = ia_index_of_spk (ixa A) (w_index w) spk"

definition derivation_index where
  "derivation_index A w keychain = ia_last_revealed (ixa A) (w_index w) keychain"

definition next_derivation_index where
  "next_derivation_index A w keychain =
     res_bind (expect (ia_next_index (ixa A) (w_index w) (map_keychain A w keychain))) (\<lambda>e. Ok (fst e))"

definition public_descriptor where
  "public_descriptor A w keychain =
     expect (ia_descriptor (ixa A) (w_index w) (map_keychain A w keychain))"

definition get_descriptor_for_txout where
  "get_descriptor_for_txout A w txout =
     (case ia_index_of_spk (ixa A) (w_index w) (txo_script txout) of
        None \<Rightarrow> Ok None
      | Some (keychain, child) \<Rightarrow>
          res_bind (public_descriptor A w keychain) (\<lambda>d. Ok (da_at_index (dsa A) d child)))"

subsection \<open>Outputs and transactions\<close>

definition new_local_utxo :: "keychain_kind \<Rightarrow> u32 \<Rightarrow> full_txout \<Rightarrow> local_output" where
  "new_local_utxo keychain di full_txo =
     \<lparr>lo_outpoint = ft_outpoint full_txo, lo_txout = ft_txout full_txo, lo_keychain = keychain,
      lo_is_spent = (ft_spent_by full_txo \<noteq> None), lo_derivation_index = di,
      lo_chain_position = ft_pos full_txo\<rparr>"

definition list_unspent where
  "list_unspent A w =
     map (\<lambda>((k, i), full_txo). new_local_utxo k i full_txo)
       (va_unspent (cha A) (w_view w) (ia_outpoints (ixa A) (w_index w)))"

definition list_output where
  "list_output A w =
     map (\<lambda>((k, i), txo). new_local_utxo k i txo)
       (va_outputs (cha A) (w_view w) (ia_outpoints (ixa A) (w_index w)))"

text \<open>The label of the only outpoint of the query is \<open>()\<close> in the code and is not read.\<close>

definition get_utxo where
  "get_utxo A w op =
     (case ia_txout (ixa A) (w_index w) op of
        None \<Rightarrow> None
      | Some ((keychain, index), _) \<Rightarrow>
          (case va_unspent (cha A) (w_view w) [((keychain, index), op)] of
             [] \<Rightarrow> None
           | (_, txo) # _ \<Rightarrow> Some (new_local_utxo keychain index txo)))"

definition get_wallet_tx where
  "get_wallet_tx A w txid = find (\<lambda>c. ct_txid c = txid) (va_txs (cha A) (w_view w))"

definition transactions where
  "transactions A w = filter (\<lambda>c. ia_is_tx_relevant (ixa A) (w_index w) (ct_tx c)) (va_txs (cha A) (w_view w))"

definition map_transactions where
  "map_transactions A w =
     fold (\<lambda>c m. bt_insert (ct_txid c) (ct_tx c, ct_pos c) m) (transactions A w) []"

record tx_details =
  td_txid :: txid
  td_sent :: amount
  td_received :: amount
  td_fee :: "amount option"
  td_fee_rate :: "feerate option"
  td_balance_delta :: int
  td_chain_position :: chain_position
  td_tx :: transaction

text \<open>\<open>fee_div\<close> is the division of an amount by a weight.\<close>

definition calculate_fee_rate where
  "calculate_fee_rate B fee_div A w tx =
     map_option (\<lambda>fee. fee_div fee (tx_weight B tx)) (ga_calculate_fee (tga A) (w_graph w) tx)"

definition tx_details_of where
  "tx_details_of B fee_div A w txid =
     (case find (\<lambda>c. ct_txid c = txid) (transactions A w) of
        None \<Rightarrow> None
      | Some c \<Rightarrow>
          (case ia_sent_and_received (ixa A) (w_index w) (ct_tx c) of (sent, received) \<Rightarrow>
           Some \<lparr>td_txid = txid, td_sent = sent, td_received = received,
             td_fee = ga_calculate_fee (tga A) (w_graph w) (ct_tx c),
             td_fee_rate = calculate_fee_rate B fee_div A w (ct_tx c),
             td_balance_delta = ia_net_value (ixa A) (w_index w) (ct_tx c),
             td_chain_position = ct_pos c, td_tx = ct_tx c\<rparr>))"

definition is_tx_trusted where
  "is_tx_trusted A w txid =
     (case ga_get_tx (tga A) (w_graph w) txid of
        None \<Rightarrow> False
      | Some tx \<Rightarrow>
          (if tx_input tx = [] then False
           else list_all (\<lambda>txin. ia_txout (ixa A) (w_index w) (previous_output txin) \<noteq> None) (tx_input tx)))"

definition wallet_balance where
  "wallet_balance A w =
     va_balance (cha A) (w_view w) (ia_outpoints (ixa A) (w_index w))
       (\<lambda>op. is_tx_trusted A w (op_txid op)) 1"

subsection \<open>Signers\<close>

definition add_signer where
  "add_signer signer_id_of w keychain ord signer =
     (case keychain of
        External \<Rightarrow> w\<lparr>w_signers := fst (add_external (signer_id_of signer) ord signer (w_signers w))\<rparr>
      | Internal \<Rightarrow> w\<lparr>w_change_signers :=
            fst (add_external (signer_id_of signer) ord signer (w_change_signers w))\<rparr>)"

definition get_signers where
  "get_signers w keychain = (case keychain of External \<Rightarrow> w_signers w | Internal \<Rightarrow> w_change_signers w)"

text \<open>\<open>build\<close> is \<open>SignersContainer::build\<close> with its key map and descriptor.\<close>

definition set_keymap where
  "set_keymap A build w keychain keymap =
     (case ia_descriptor (ixa A) (w_index w) keychain of
        None \<Rightarrow> w
      | Some d \<Rightarrow>
          (case keychain of
             External \<Rightarrow> w\<lparr>w_signers := build keymap d\<rparr>
           | Internal \<Rightarrow> w\<lparr>w_change_signers := build keymap d\<rparr>))"

definition set_keymaps where
  "set_keymaps A build w keymaps = foldl (\<lambda>w (keychain, keymap). set_keymap A build w keychain keymap) w keymaps"

subsection \<open>Staged changes\<close>

definition staged where
  "staged A w = (if cs_is_empty (exa A) (w_stage w) then None else Some (w_stage w))"

text \<open>\<open>Merge::take\<close>: the staged changes, replaced by the default, unless they are empty.\<close>

definition take_staged where
  "take_staged A w =
     (if cs_is_empty (exa A) (w_stage w) then (None, w)
      else (Some (w_stage w), w\<lparr>w_stage := cs_default (exa A)\<rparr>))"

subsection \<open>Locked outpoints\<close>

definition is_outpoint_locked where
  "is_outpoint_locked w op \<longleftrightarrow> op \<in> set (w_locked w)"

definition lock_outpoint where
  "lock_outpoint A op w =
     (if op \<in> set (w_locked w) then w
      else stage_merge A (cs_from_locks (exa A) [(op, True)]) (w\<lparr>w_locked := w_locked w @ [op]\<rparr>))"

definition unlock_outpoint where
  "unlock_outpoint A op w =
     (if op \<in> set (w_locked w)
      then stage_merge A (cs_from_locks (exa A) [(op, False)])
             (w\<lparr>w_locked := filter (\<lambda>x. x \<noteq> op) (w_locked w)\<rparr>)
      else w)"

definition list_locked_unspent where
  "list_locked_unspent A w =
     map lo_outpoint (filter (\<lambda>l. is_outpoint_locked w (lo_outpoint l)) (list_unspent A w))"

subsection \<open>Updates\<close>

definition update_canonical_view where
  "update_canonical_view A w =
     w\<lparr>w_view := ca_view (cha A) (w_chain w) (w_graph w) (ca_tip (cha A) (w_chain w))\<rparr>"

definition apply_update where
  "apply_update A w update =
     res_bind
       (case up_chain update of
          Some chain_update \<Rightarrow>
            res_bind (ca_apply_update (cha A) chain_update (w_chain w)) (\<lambda>(lc, ch).
            Ok (cs_from_local_chain (exa A) lc, w\<lparr>w_chain := ch\<rparr>))
        | None \<Rightarrow> Ok (cs_default (exa A), w)) (\<lambda>(changeset, w).
     case ia_reveal_multi (ixa A) (up_last_active update) (w_index w) of (index_changeset, ix) \<Rightarrow>
     let changeset = cs_merge (exa A) changeset (cs_from_indexer (exa A) index_changeset) in
     case ga_apply_update (tga A) (up_tx_update update) (w_graph w, ix) of (graph_changeset, (tg, ix)) \<Rightarrow>
     let changeset = cs_merge (exa A) changeset (cs_from_indexed_graph (exa A) graph_changeset) in
     Ok (update_canonical_view A (stage_merge A changeset (w\<lparr>w_graph := tg, w_index := ix\<rparr>))))"

definition default_tx_update where
  "default_tx_update A = \<lparr>tu_txouts = [], tu_evicted_ats = [], tu_rest = ga_empty_update (tga A)\<rparr>"

definition graph_update where
  "graph_update tx_update = \<lparr>up_last_active = [], up_tx_update = tx_update, up_chain = None\<rparr>"

text \<open>\<open>expect\<close> on the outcome of an update: a panic when it fails.\<close>

fun expect_ok :: "('e, 'a) res \<Rightarrow> ('f, 'a) res" where
  "expect_ok (Ok x) = Ok x"
| "expect_ok (Err e) = Panic"
| "expect_ok Panic = Panic"

definition insert_txout where
  "insert_txout A w outpoint txout =
     expect_ok (apply_update A w (graph_update ((default_tx_update A)\<lparr>tu_txouts := [(outpoint, txout)]\<rparr>)))"

definition apply_block_connected_to where
  "apply_block_connected_to A w block height connected_to =
     res_bind (ca_apply_header (cha A) block height connected_to (w_chain w)) (\<lambda>(lc, ch).
     let changeset = cs_merge (exa A) (cs_default (exa A)) (cs_from_local_chain (exa A) lc) in
     case ga_apply_block (tga A) block height (w_graph w, w_index w) of (graph_changeset, (tg, ix)) \<Rightarrow>
     let changeset = cs_merge (exa A) changeset (cs_from_indexed_graph (exa A) graph_changeset) in
     Ok (update_canonical_view A
       (stage_merge A changeset (w\<lparr>w_chain := ch, w_graph := tg, w_index := ix\<rparr>))))"

definition connected_to_of where
  "connected_to_of A block height =
     (if height = 0 then \<lparr>bid_height = height, bid_hash = ca_block_hash (cha A) block\<rparr>
      else \<lparr>bid_height = height - 1, bid_hash = ca_prev_hash (cha A) block\<rparr>)"

definition apply_block where
  "apply_block A w block height =
     (case apply_block_connected_to A w block height (connected_to_of A block height) of
        Ok w' \<Rightarrow> Ok w'
      | Err InconsistentBlocks \<Rightarrow> Panic
      | Err (CannotConnect e) \<Rightarrow> Err e
      | Panic \<Rightarrow> Panic)"

definition apply_unconfirmed_txs where
  "apply_unconfirmed_txs A w unconfirmed_txs =
     (case ga_insert_unconfirmed (tga A) unconfirmed_txs (w_graph w, w_index w) of
        (graph_changeset, (tg, ix)) \<Rightarrow>
      update_canonical_view A (stage_merge A (cs_from_indexed_graph (exa A) graph_changeset)
        (w\<lparr>w_graph := tg, w_index := ix\<rparr>)))"

definition apply_evicted_txs where
  "apply_evicted_txs A w evicted_txs =
     (let canon_txids = map ct_txid (va_txs (cha A) (w_view w)) in
      expect_ok (apply_update A w (graph_update ((default_tx_update A)
        \<lparr>tu_evicted_ats := filter (\<lambda>(txid, _). txid \<in> set canon_txids) evicted_txs\<rparr>))))"

end
