(* ===== verification/Keys.thy ===== *)
theory Keys
  imports Policy "HOL-Library.AList"
begin

section \<open>Keys (src/keys/mod.rs, src/keys/bip39.rs)\<close>

text \<open>
  What can be written as a key of a descriptor: the network kinds a key is valid on, the public or
  secret \<open>DescriptorKey\<close> with its extraction into a public key and a key map, extended and
  derivable keys, generated keys, BIP39 seeds and mnemonics, and the helpers of the descriptor
  macros. \<open>Xpub\<close> and \<open>Xpriv\<close> are their network and the rest of their data; the elliptic curve
  operations, the parser of secret keys and the BIP39 library are the fields of \<open>key_api\<close> and
  \<open>bip39_api\<close>. A type that implements \<open>IntoDescriptorKey\<close> stands here as the outcome of its
  \<open>into_descriptor_key\<close>, one that implements \<open>DerivableKey\<close> as the record \<open>derivable\<close> of its two
  methods. A \<open>KeyMap\<close> is the list of its entries, with distinct keys.
\<close>

subsection \<open>Network kinds\<close>

type_synonym valid_network_kinds = "network_kind set"

definition any_network_kind :: valid_network_kinds where
  "any_network_kind = {Main, Test}"

definition mainnet_network_kind :: valid_network_kinds where
  "mainnet_network_kind = {Main}"

definition test_network_kind :: valid_network_kinds where
  "test_network_kind = {Test}"

definition intersect_network_kinds :: "valid_network_kinds \<Rightarrow> valid_network_kinds \<Rightarrow> valid_network_kinds" where
  "intersect_network_kinds a b = a \<inter> b"

definition kinds_of :: "network_kind \<Rightarrow> valid_network_kinds" where
  "kinds_of n = (if n = Main then mainnet_network_kind else test_network_kind)"

lemmas network_kind_defs = any_network_kind_def mainnet_network_kind_def test_network_kind_def
  intersect_network_kinds_def kinds_of_def

lemma any_network_kind_UNIV: "any_network_kind = UNIV"
  by (auto simp: any_network_kind_def) (metis network_kind.exhaust)

lemma kinds_of_singleton [simp]: "kinds_of n = {n}"
  by (cases n) (simp_all add: network_kind_defs)

subsection \<open>Errors\<close>

datatype key_error =
  InvalidScriptContext | InvalidNetworkKind | InvalidKeyChecksum
| KeyMessage string | KeyBip32 nat | KeyMiniscript nat

datatype descriptor_error =
  InvalidHdKeyPath | InvalidDescriptorChecksum | HardenedDerivationXpub | MultiPath
| KeyError key_error | PolicyError policy_error | InvalidDescriptorCharacter u8
| Bip32Error nat | Base58Error nat | PkError nat | MiniscriptError nat | HexError nat
| ExternalAndInternalAreTheSame

text \<open>\<open>From<KeyError> for DescriptorError\<close>, what \<open>?\<close> applies to a key error.\<close>

fun key_error_into :: "key_error \<Rightarrow> descriptor_error" where
  "key_error_into (KeyMiniscript e) = MiniscriptError e"
| "key_error_into (KeyBip32 e) = Bip32Error e"
| "key_error_into e = KeyError e"

subsection \<open>Script contexts\<close>

datatype script_context = CtxLegacy | CtxSegwitv0 | CtxTap

definition ctx_is_legacy :: "script_context \<Rightarrow> bool" where
  "ctx_is_legacy c \<longleftrightarrow> c = CtxLegacy"

definition ctx_is_segwit_v0 :: "script_context \<Rightarrow> bool" where
  "ctx_is_segwit_v0 c \<longleftrightarrow> c = CtxSegwitv0"

definition ctx_is_taproot :: "script_context \<Rightarrow> bool" where
  "ctx_is_taproot c \<longleftrightarrow> c = CtxTap"

subsection \<open>The data of keys\<close>

record 'd xkey =
  xkey_network :: network_kind
  xkey_data :: 'd

record 's private_key =
  pv_compressed :: bool
  pv_network :: network_kind
  pv_inner :: 's

record 's single_priv =
  sp_origin :: "key_source option"
  sp_key :: "'s private_key"

type_synonym 'p descriptor_public_key = "'p xkey desc_pubkey"
type_synonym ('s, 'v) descriptor_secret_key = "('s single_priv, 'v xkey) desc_secret"
type_synonym ('s, 'v, 'p) keymap = "('p descriptor_public_key \<times> ('s, 'v) descriptor_secret_key) list"

record ('s, 'v, 'p) key_api =
  ka_from_priv :: "'v xkey \<Rightarrow> 'p xkey"
  ka_to_public :: "('s, 'v) descriptor_secret_key \<Rightarrow> (string, 'p descriptor_public_key) res"
  ka_unexpected :: "string \<Rightarrow> nat"
  ka_secret_from_str :: "string \<Rightarrow> (string, ('s, 'v) descriptor_secret_key) res"
  ka_new_master :: "network_kind \<Rightarrow> u8 list \<Rightarrow> (nat, 'v xkey) res"
  ka_secret_from_slice :: "u8 list \<Rightarrow> (nat, 's) res"
  ka_invalid_child :: "u32 \<Rightarrow> nat"

fun is_hardened :: "child_number \<Rightarrow> bool" where
  "is_hardened (Normal _) = False"
| "is_hardened (Hardened _) = True"

subsection \<open>Key maps\<close>

definition km_insert :: "'k \<Rightarrow> 'v \<Rightarrow> ('k \<times> 'v) list \<Rightarrow> ('k \<times> 'v) list" where
  "km_insert k v m = AList.update k v m"

definition km_extend :: "('k \<times> 'v) list \<Rightarrow> ('k \<times> 'v) list \<Rightarrow> ('k \<times> 'v) list" where
  "km_extend m m' = fold (\<lambda>(k, v) acc. km_insert k v acc) m' m"

lemma km_extend_Nil [simp]: "km_extend m [] = m"
  by (simp add: km_extend_def)

lemma km_extend_Cons [simp]: "km_extend m (e # m') = km_extend (km_insert (fst e) (snd e) m) m'"
  by (simp add: km_extend_def split_beta)

lemma map_of_km_insert: "map_of (km_insert k v m) = (map_of m)(k \<mapsto> v)"
  by (simp add: km_insert_def update_conv')

lemma map_of_km_extend: "map_of (km_extend m m') = map_of m ++ map_of (rev m')"
  by (induction m' arbitrary: m) (auto simp: map_of_km_insert)

lemma distinct_km_insert: "distinct (map fst m) \<Longrightarrow> distinct (map fst (km_insert k v m))"
  by (simp add: km_insert_def distinct_update)

lemma distinct_km_extend: "distinct (map fst m) \<Longrightarrow> distinct (map fst (km_extend m m'))"
  by (induction m' arbitrary: m) (auto simp: distinct_km_insert)

lemma map_of_km_extend_distinct:
  "distinct (map fst m') \<Longrightarrow> map_of (km_extend m m') = map_of m ++ map_of m'"
  by (simp add: map_of_km_extend map_of_rev_distinct)

lemma keys_km_extend: "fst ` set (km_extend m m') = fst ` set m \<union> fst ` set m'"
proof -
  have "dom (map_of (km_extend m m')) = dom (map_of m) \<union> dom (map_of (rev m'))"
    by (simp add: map_of_km_extend Un_commute)
  then show ?thesis
    by (simp add: dom_map_of_conv_image_fst)
qed

subsection \<open>Descriptor keys\<close>

datatype ('s, 'v, 'p) descriptor_key =
  DkPublic "'p descriptor_public_key" valid_network_kinds
| DkSecret "('s, 'v) descriptor_secret_key" valid_network_kinds

type_synonym ('s, 'v, 'p) into_key = "(key_error, ('s, 'v, 'p) descriptor_key) res"

fun override_valid_network_kinds where
  "override_valid_network_kinds (DkPublic key _) kinds = DkPublic key kinds"
| "override_valid_network_kinds (DkSecret key _) kinds = DkSecret key kinds"

text \<open>\<open>extract\<close>: the public key, the key map entry of a secret key, the valid network kinds.\<close>

type_synonym ('s, 'v, 'p) extracted =
  "'p descriptor_public_key \<times> ('s, 'v, 'p) keymap \<times> valid_network_kinds"

fun dk_extract :: "('s, 'v, 'p) key_api \<Rightarrow> ('s, 'v, 'p) descriptor_key
    \<Rightarrow> (key_error, ('s, 'v, 'p) extracted) res" where
  "dk_extract K (DkPublic pub kinds) = Ok (pub, [], kinds)"
| "dk_extract K (DkSecret secret kinds) =
     res_bind (map_err (\<lambda>e. KeyMiniscript (ka_unexpected K e)) (ka_to_public K secret)) (\<lambda>pub.
     Ok (pub, km_insert pub secret [], kinds))"

text \<open>The implementations of \<open>IntoDescriptorKey\<close> for the key types of miniscript and bitcoin.\<close>

definition public_into_key :: "'p descriptor_public_key \<Rightarrow> ('s, 'v, 'p) into_key" where
  "public_into_key pub = Ok (DkPublic pub (case pub of
       XPubKey xk \<Rightarrow> if xkey_network (xk_key xk) = Main then mainnet_network_kind else test_network_kind
     | MultiXPubKey mk \<Rightarrow> if xkey_network (mk_key mk) = Main then mainnet_network_kind else test_network_kind
     | _ \<Rightarrow> any_network_kind))"

definition full_into_key :: "pubkey \<Rightarrow> ('s, 'v, 'p) into_key" where
  "full_into_key k = public_into_key (SingleFull None k)"

definition xonly_into_key :: "xonly_key \<Rightarrow> ('s, 'v, 'p) into_key" where
  "xonly_into_key k = public_into_key (SingleXOnly None k)"

definition secret_network :: "('s, 'v) descriptor_secret_key \<Rightarrow> network_kind" where
  "secret_network sec = (case sec of
     SecSingle sk \<Rightarrow> pv_network (sp_key sk)
   | SecXPrv xk \<Rightarrow> xkey_network (xk_key xk)
   | SecMultiXPrv mk \<Rightarrow> xkey_network (mk_key mk))"

definition secret_into_key :: "('s, 'v) descriptor_secret_key \<Rightarrow> ('s, 'v, 'p) into_key" where
  "secret_into_key sec = Ok (DkSecret sec
     (if secret_network sec = Main then mainnet_network_kind else test_network_kind))"

definition str_into_key :: "('s, 'v, 'p) key_api \<Rightarrow> string \<Rightarrow> ('s, 'v, 'p) into_key" where
  "str_into_key K str = res_bind (map_err KeyMessage (ka_secret_from_str K str)) secret_into_key"

definition private_into_key :: "'s private_key \<Rightarrow> ('s, 'v, 'p) into_key" where
  "private_into_key key = secret_into_key (SecSingle \<lparr>sp_origin = None, sp_key = key\<rparr>)"

subsection \<open>Extended and derivable keys\<close>

datatype ('v, 'p) extended_key = ExtPrivate "'v xkey" | ExtPublic "'p xkey"

fun has_secret :: "('v, 'p) extended_key \<Rightarrow> bool" where
  "has_secret (ExtPrivate _) = True"
| "has_secret (ExtPublic _) = False"

fun into_xprv :: "('v, 'p) extended_key \<Rightarrow> network_kind \<Rightarrow> 'v xkey option" where
  "into_xprv (ExtPrivate xprv) n = Some (xprv\<lparr>xkey_network := n\<rparr>)"
| "into_xprv (ExtPublic _) n = None"

definition into_xpub :: "('s, 'v, 'p) key_api \<Rightarrow> ('v, 'p) extended_key \<Rightarrow> network_kind \<Rightarrow> 'p xkey" where
  "into_xpub K ext n = (let xpub = (case ext of ExtPrivate xprv \<Rightarrow> ka_from_priv K xprv | ExtPublic xpub \<Rightarrow> xpub) in
     xpub\<lparr>xkey_network := n\<rparr>)"

record ('s, 'v, 'p) derivable =
  dv_extended :: "(key_error, ('v, 'p) extended_key) res"
  dv_descriptor_key :: "key_source option \<Rightarrow> child_number list \<Rightarrow> ('s, 'v, 'p) into_key"

text \<open>The provided \<open>into_descriptor_key\<close> of the trait, given the outcome of \<open>into_extended_key\<close>.\<close>

definition extended_into_key :: "(key_error, ('v, 'p) extended_key) res \<Rightarrow> key_source option
    \<Rightarrow> child_number list \<Rightarrow> ('s, 'v, 'p) into_key" where
  "extended_into_key ext origin path = res_bind ext (\<lambda>x. case x of
     ExtPrivate xprv \<Rightarrow> secret_into_key (SecXPrv
       \<lparr>xk_origin = origin, xk_key = xprv, xk_path = path, xk_wildcard = UnhardenedWildcard\<rparr>)
   | ExtPublic xpub \<Rightarrow> public_into_key (XPubKey
       \<lparr>xk_origin = origin, xk_key = xpub, xk_path = path, xk_wildcard = UnhardenedWildcard\<rparr>))"

text \<open>\<open>ExtendedKey\<close>, \<open>Xpub\<close> and \<open>Xpriv\<close> keep the provided method.\<close>

definition extended_derivable :: "(key_error, ('v, 'p) extended_key) res \<Rightarrow> ('s, 'v, 'p) derivable" where
  "extended_derivable ext = \<lparr>dv_extended = ext, dv_descriptor_key = extended_into_key ext\<rparr>"

definition xpub_derivable :: "'p xkey \<Rightarrow> ('s, 'v, 'p) derivable" where
  "xpub_derivable xpub = extended_derivable (Ok (ExtPublic xpub))"

definition xpriv_derivable :: "'v xkey \<Rightarrow> ('s, 'v, 'p) derivable" where
  "xpriv_derivable xprv = extended_derivable (Ok (ExtPrivate xprv))"

text \<open>The tuples \<open>(key, path)\<close> and \<open>(key, source, path)\<close>.\<close>

definition derivable_with_path :: "('s, 'v, 'p) derivable \<Rightarrow> child_number list \<Rightarrow> ('s, 'v, 'p) into_key" where
  "derivable_with_path key path = dv_descriptor_key key None path"

definition derivable_with_source ::
  "('s, 'v, 'p) derivable \<Rightarrow> key_source \<Rightarrow> child_number list \<Rightarrow> ('s, 'v, 'p) into_key" where
  "derivable_with_source key src path = dv_descriptor_key key (Some src) path"

subsection \<open>Generated keys\<close>

record 'k generated_key =
  gk_key :: 'k
  gk_valid_network_kinds :: valid_network_kinds

definition generated_derivable :: "('k \<Rightarrow> ('s, 'v, 'p) derivable) \<Rightarrow> 'k generated_key \<Rightarrow> ('s, 'v, 'p) derivable" where
  "generated_derivable as_derivable g = \<lparr>
     dv_extended = dv_extended (as_derivable (gk_key g)),
     dv_descriptor_key = (\<lambda>origin path.
       res_bind (dv_descriptor_key (as_derivable (gk_key g)) origin path) (\<lambda>key.
       Ok (override_valid_network_kinds key (gk_valid_network_kinds g))))\<rparr>"

definition generated_into_key :: "('k \<Rightarrow> ('s, 'v, 'p) into_key) \<Rightarrow> 'k generated_key \<Rightarrow> ('s, 'v, 'p) into_key" where
  "generated_into_key into_key g = res_bind (into_key (gk_key g)) (\<lambda>key.
     Ok (override_valid_network_kinds key (gk_valid_network_kinds g)))"

definition generate_xpriv :: "('s, 'v, 'p) key_api \<Rightarrow> network_kind \<Rightarrow> u8 list \<Rightarrow> (nat, 'v xkey generated_key) res" where
  "generate_xpriv K network entropy =
     (let (kind, valid_networks) =
        (if network = Main then (Main, mainnet_network_kind) else (Test, test_network_kind)) in
      res_bind (ka_new_master K kind entropy) (\<lambda>xprv.
      Ok \<lparr>gk_key = xprv, gk_valid_network_kinds = valid_networks\<rparr>))"

record private_key_options =
  po_compressed :: bool
  po_network :: network_kind

definition private_key_options_default :: private_key_options where
  "private_key_options_default = \<lparr>po_compressed = True, po_network = Main\<rparr>"

definition generate_private_key :: "('s, 'v, 'p) key_api \<Rightarrow> private_key_options \<Rightarrow> u8 list
    \<Rightarrow> (nat, 's private_key generated_key) res" where
  "generate_private_key K opts entropy =
     res_bind (ka_secret_from_slice K entropy) (\<lambda>inner.
     let key = \<lparr>pv_compressed = po_compressed opts, pv_network = po_network opts, pv_inner = inner\<rparr>;
         valid_networks = (if pv_network key = Main then mainnet_network_kind else test_network_kind) in
     Ok \<lparr>gk_key = key, gk_valid_network_kinds = valid_networks\<rparr>)"

subsection \<open>BIP39\<close>

datatype word_count = Words12 | Words15 | Words18 | Words21 | Words24

fun word_count_bits :: "word_count \<Rightarrow> nat" where
  "word_count_bits Words12 = 128"
| "word_count_bits Words15 = 160"
| "word_count_bits Words18 = 192"
| "word_count_bits Words21 = 224"
| "word_count_bits Words24 = 256"

record ('m, 'lang) bip39_api =
  bp_to_seed :: "'m \<Rightarrow> string \<Rightarrow> u8 list"
  bp_from_entropy :: "'lang \<Rightarrow> u8 list \<Rightarrow> (nat, 'm) res"

definition set_valid_on_any_network_kind :: "('s, 'v, 'p) descriptor_key \<Rightarrow> ('s, 'v, 'p) descriptor_key" where
  "set_valid_on_any_network_kind key = override_valid_network_kinds key any_network_kind"

text \<open>The \<open>DerivableKey\<close> of a seed, of a mnemonic with its passphrase, of a mnemonic alone and
  of a generated mnemonic: the master key of the main network, valid on every network.\<close>

definition any_network_derivable :: "(key_error, ('v, 'p) extended_key) res \<Rightarrow> ('s, 'v, 'p) derivable" where
  "any_network_derivable ext = \<lparr>dv_extended = ext,
     dv_descriptor_key = (\<lambda>origin path.
       res_bind ext (\<lambda>x.
       res_bind (extended_into_key (Ok x) origin path) (\<lambda>key. Ok (set_valid_on_any_network_kind key))))\<rparr>"

definition seed_extended :: "('s, 'v, 'p) key_api \<Rightarrow> u8 list \<Rightarrow> (key_error, ('v, 'p) extended_key) res" where
  "seed_extended K seed = res_bind (map_err KeyBip32 (ka_new_master K Main seed)) (\<lambda>xprv. Ok (ExtPrivate xprv))"

definition seed_derivable :: "('s, 'v, 'p) key_api \<Rightarrow> u8 list \<Rightarrow> ('s, 'v, 'p) derivable" where
  "seed_derivable K seed = any_network_derivable (seed_extended K seed)"

definition mnemonic_with_passphrase_derivable ::
  "('s, 'v, 'p) key_api \<Rightarrow> ('m, 'lang) bip39_api \<Rightarrow> 'm \<Rightarrow> string option \<Rightarrow> ('s, 'v, 'p) derivable" where
  "mnemonic_with_passphrase_derivable K P mnemonic passphrase =
     any_network_derivable (seed_extended K (bp_to_seed P mnemonic
       (case passphrase of Some s \<Rightarrow> s | None \<Rightarrow> [])))"

definition mnemonic_derivable ::
  "('s, 'v, 'p) key_api \<Rightarrow> ('m, 'lang) bip39_api \<Rightarrow> 'm \<Rightarrow> ('s, 'v, 'p) derivable" where
  "mnemonic_derivable K P mnemonic =
     any_network_derivable (dv_extended (mnemonic_with_passphrase_derivable K P mnemonic None
        :: ('s, 'v, 'p) derivable))"

definition generated_mnemonic_derivable ::
  "('s, 'v, 'p) key_api \<Rightarrow> ('m, 'lang) bip39_api \<Rightarrow> 'm generated_key \<Rightarrow> string option \<Rightarrow> ('s, 'v, 'p) derivable" where
  "generated_mnemonic_derivable K P g passphrase = mnemonic_with_passphrase_derivable K P (gk_key g) passphrase"

text \<open>\<open>&entropy[..n]\<close> panics past the end.\<close>

definition generate_mnemonic :: "('m, 'lang) bip39_api \<Rightarrow> word_count \<Rightarrow> 'lang \<Rightarrow> u8 list
    \<Rightarrow> (nat, 'm generated_key) res" where
  "generate_mnemonic P words lang entropy =
     res_bind (panic_unless (word_count_bits words div 8 \<le> length entropy)) (\<lambda>_.
     res_bind (bp_from_entropy P lang (take (word_count_bits words div 8) entropy)) (\<lambda>mnemonic.
     Ok \<lparr>gk_key = mnemonic, gk_valid_network_kinds = any_network_kind\<rparr>))"

subsection \<open>The keys of a multisig, and the leaves the macros build\<close>

definition into_extracted :: "('s, 'v, 'p) key_api \<Rightarrow> ('s, 'v, 'p) into_key
    \<Rightarrow> (key_error, ('s, 'v, 'p) extracted) res" where
  "into_extracted K key = res_bind key (dk_extract K)"

text \<open>The fold over what the keys of a list bring: the key maps joined, the network kinds met.\<close>

definition join_sources :: "(('s, 'v, 'p) keymap \<times> valid_network_kinds) list
    \<Rightarrow> ('s, 'v, 'p) keymap \<times> valid_network_kinds" where
  "join_sources srcs = fold (\<lambda>(km, kinds) (km_acc, kinds_acc).
     (km_extend km_acc km, intersect_network_kinds kinds_acc kinds)) srcs ([], any_network_kind)"

definition expand_multi_keys :: "('s, 'v, 'p) key_api \<Rightarrow> ('s, 'v, 'p) into_key list
    \<Rightarrow> (key_error, 'p descriptor_public_key list \<times> ('s, 'v, 'p) keymap \<times> valid_network_kinds) res" where
  "expand_multi_keys K keys = res_bind (res_map (into_extracted K) keys) (\<lambda>es.
     Ok (map fst es, join_sources (map snd es)))"

text \<open>What the code takes from miniscript: the type check of \<open>Miniscript::from_ast\<close> and
  \<open>check_global_validity\<close> in a script context, the bounds of a threshold, and the checks of the
  descriptor constructors.\<close>

record 'x ms_api =
  ms_type_check :: "script_context \<Rightarrow> 'x terminal \<Rightarrow> (nat, unit) res"
  ms_global_validity :: "script_context \<Rightarrow> 'x terminal \<Rightarrow> (nat, unit) res"
  ms_threshold_ok :: "nat \<Rightarrow> nat \<Rightarrow> bool"
  ms_multi_ok :: "nat \<Rightarrow> nat \<Rightarrow> bool"
  ms_multi_a_ok :: "nat \<Rightarrow> nat \<Rightarrow> bool"
  ms_abs_locktime :: "u32 \<Rightarrow> (nat, locktime) res"
  ms_rel_locktime :: "u32 \<Rightarrow> (nat, rel_locktime) res"
  ms_new_descriptor :: "'x descriptor_form \<Rightarrow> (nat, unit) res"

definition from_ast :: "'x ms_api \<Rightarrow> script_context \<Rightarrow> 'x terminal \<Rightarrow> (descriptor_error, 'x terminal) res" where
  "from_ast M ctx t = res_bind (map_err MiniscriptError (ms_type_check M ctx t)) (\<lambda>_. Ok t)"

definition check_miniscript :: "'x ms_api \<Rightarrow> script_context \<Rightarrow> 'x terminal \<Rightarrow> (descriptor_error, unit) res" where
  "check_miniscript M ctx t = map_err MiniscriptError (ms_global_validity M ctx t)"

text \<open>\<open>Miniscript::from_ast(..)?\<close> followed by \<open>check_miniscript()?\<close>.\<close>

definition checked_ast :: "'x ms_api \<Rightarrow> script_context \<Rightarrow> 'x terminal \<Rightarrow> (descriptor_error, 'x terminal) res" where
  "checked_ast M ctx t = res_bind (from_ast M ctx t) (\<lambda>ms.
     res_bind (check_miniscript M ctx ms) (\<lambda>_. Ok ms))"

lemma checked_ast_Ok [res_simps]:
  "checked_ast M ctx t = Ok ms \<longleftrightarrow> ms = t \<and> ms_type_check M ctx t = Ok () \<and> ms_global_validity M ctx t = Ok ()"
  by (auto simp: checked_ast_def from_ast_def check_miniscript_def res_simps)

type_synonym ('s, 'v, 'p) fragment_out =
  "'p xkey terminal \<times> ('s, 'v, 'p) keymap \<times> valid_network_kinds"

definition make_pk :: "('s, 'v, 'p) key_api \<Rightarrow> 'p xkey ms_api \<Rightarrow> script_context \<Rightarrow> ('s, 'v, 'p) into_key
    \<Rightarrow> (descriptor_error, ('s, 'v, 'p) fragment_out) res" where
  "make_pk K M ctx key = res_bind (map_err key_error_into (into_extracted K key)) (\<lambda>(pub, km, kinds).
     res_bind (checked_ast M ctx (PkK pub)) (\<lambda>ms. Ok (ms, km, kinds)))"

definition make_pkh :: "('s, 'v, 'p) key_api \<Rightarrow> 'p xkey ms_api \<Rightarrow> script_context \<Rightarrow> ('s, 'v, 'p) into_key
    \<Rightarrow> (descriptor_error, ('s, 'v, 'p) fragment_out) res" where
  "make_pkh K M ctx key = res_bind (map_err key_error_into (into_extracted K key)) (\<lambda>(pub, km, kinds).
     res_bind (checked_ast M ctx (PkH pub)) (\<lambda>ms. Ok (ms, km, kinds)))"

text \<open>\<open>variant\<close> builds the terminal; it panics on a threshold that is not valid.\<close>

definition keys_make_multi :: "('s, 'v, 'p) key_api \<Rightarrow> 'p xkey ms_api \<Rightarrow> script_context \<Rightarrow> nat
    \<Rightarrow> (nat \<Rightarrow> 'p descriptor_public_key list \<Rightarrow> (descriptor_error, 'p xkey terminal) res)
    \<Rightarrow> ('s, 'v, 'p) into_key list \<Rightarrow> (descriptor_error, ('s, 'v, 'p) fragment_out) res" where
  "keys_make_multi K M ctx thresh variant keys =
     res_bind (map_err key_error_into (expand_multi_keys K keys)) (\<lambda>(pubs, km, kinds).
     res_bind (variant thresh pubs) (\<lambda>t.
     res_bind (checked_ast M ctx t) (\<lambda>ms. Ok (ms, km, kinds))))"

type_synonym ('s, 'v, 'p) template_out =
  "'p xkey descriptor_form \<times> ('s, 'v, 'p) keymap \<times> valid_network_kinds"

definition make_sortedmulti :: "('s, 'v, 'p) key_api \<Rightarrow> nat \<Rightarrow> ('s, 'v, 'p) into_key list
    \<Rightarrow> (nat \<Rightarrow> 'p descriptor_public_key list \<Rightarrow> (descriptor_error, 'p xkey descriptor_form) res)
    \<Rightarrow> (descriptor_error, ('s, 'v, 'p) template_out) res" where
  "make_sortedmulti K thresh keys build_desc =
     res_bind (map_err key_error_into (expand_multi_keys K keys)) (\<lambda>(pubs, km, kinds).
     res_bind (build_desc thresh pubs) (\<lambda>d. Ok (d, km, kinds)))"

end
