(* ===== verification/Persisted.thy ===== *)
theory Persisted
  imports Wallet_State Keys
begin

section \<open>Creating, loading and persisting a wallet\<close>

text \<open>
  \<open>check_wallet_descriptor\<close> (src/descriptor/mod.rs), \<open>CreateParams\<close> and \<open>LoadParams\<close>
  (src/wallet/params.rs), \<open>create_with_params\<close>, \<open>load_with_params\<close> and \<open>make_indexed_graph\<close>
  (src/wallet/mod.rs), and \<open>PersistedWallet\<close> (src/wallet/persisted.rs). A descriptor to extract is
  a function of the network kind that may fail. What the construction takes from \<open>bdk_chain\<close>,
  \<open>miniscript\<close> and \<open>rust-bitcoin\<close> are the fields of \<open>new_api\<close>; \<open>na_build\<close> is
  \<open>SignersContainer::build\<close>, \<open>na_extend\<close> the extension of a key map. The persister of a SQLite
  transaction leaves partial writes, that of a connection rolls them back. The asynchronous variants
  have the same bodies.
\<close>

subsection \<open>Checks on descriptors\<close>

definition key_is_hardened :: "'x desc_pubkey \<Rightarrow> bool" where
  "key_is_hardened k = (case k of
     XPubKey xk \<Rightarrow> xk_wildcard xk = HardenedWildcard \<or> list_ex is_hardened (xk_path xk)
   | _ \<Rightarrow> False)"

record ('d, 'dd, 'x, 'ix, 'ixc, 'tg, 'tgc, 'km, 's) new_api =
  na_network_kind :: "nat \<Rightarrow> network_kind"
  na_genesis_hash :: "nat \<Rightarrow> nat"
  na_is_multipath :: "'d \<Rightarrow> bool"
  na_single_descriptors :: "'d \<Rightarrow> (nat, 'd list) res"
  na_sanity_check :: "'d \<Rightarrow> (nat, unit) res"
  na_descriptor_id :: "'d \<Rightarrow> nat"
  na_bad_descriptor :: nat
  na_DEFAULT_LOOKAHEAD :: u32
  na_build :: "'km \<Rightarrow> 'd \<Rightarrow> 's signers_container"
  na_extend :: "'km \<Rightarrow> 'km \<Rightarrow> 'km"
  na_empty_keymap :: 'km
  na_index :: "u32 \<Rightarrow> bool \<Rightarrow> 'ixc \<Rightarrow> 'ix"
  na_insert_descriptor :: "keychain_kind \<Rightarrow> 'd \<Rightarrow> 'ix \<Rightarrow> (bool, bool \<times> 'ix) res"
  na_graph :: "'tgc \<Rightarrow> 'ix \<Rightarrow> ('tg \<times> 'ix) \<times> ('tgc \<times> 'ixc)"

definition check_wallet_descriptor where
  "check_wallet_descriptor A N d =
     (if list_ex key_is_hardened (da_keys (dsa A) d) then Err HardenedDerivationXpub
      else if na_is_multipath N d then Err (MiniscriptError (na_bad_descriptor N))
      else map_err MiniscriptError (na_sanity_check N d))"

subsection \<open>Parameters\<close>

type_synonym ('d, 'km) descriptor_to_extract = "network_kind \<Rightarrow> (descriptor_error, 'd \<times> 'km) res"

definition make_descriptor_to_extract :: "(network_kind \<Rightarrow> (descriptor_error, 'd \<times> 'km) res) \<Rightarrow> ('d, 'km) descriptor_to_extract" where
  "make_descriptor_to_extract into_wallet_descriptor = (\<lambda>network_kind. into_wallet_descriptor network_kind)"

definition make_two_path_descriptor_to_extract where
  "make_two_path_descriptor_to_extract N into_wallet_descriptor index = (\<lambda>network_kind.
     res_bind (into_wallet_descriptor network_kind) (\<lambda>(desc, keymap).
     if \<not> na_is_multipath N desc then Err MultiPath
     else res_bind (map_err MiniscriptError (na_single_descriptors N desc)) (\<lambda>descriptors.
       if length descriptors \<noteq> 2 then Err MultiPath
       else Ok (descriptors ! index, keymap))))"

record ('d, 'km) create_params =
  cp_descriptor :: "('d, 'km) descriptor_to_extract"
  cp_descriptor_keymap :: 'km
  cp_change_descriptor :: "('d, 'km) descriptor_to_extract option"
  cp_change_descriptor_keymap :: 'km
  cp_network :: nat
  cp_genesis_hash :: "nat option"
  cp_lookahead :: u32
  cp_use_spk_cache :: bool

text \<open>\<open>Network::Bitcoin\<close> is network 0.\<close>

definition create_params_with where
  "create_params_with N descriptor change_descriptor =
     \<lparr>cp_descriptor = descriptor, cp_descriptor_keymap = na_empty_keymap N,
      cp_change_descriptor = change_descriptor, cp_change_descriptor_keymap = na_empty_keymap N,
      cp_network = 0, cp_genesis_hash = None, cp_lookahead = na_DEFAULT_LOOKAHEAD N, cp_use_spk_cache = False\<rparr>"

definition cp_new_single where
  "cp_new_single N descriptor = create_params_with N (make_descriptor_to_extract descriptor) None"

definition cp_new where
  "cp_new N descriptor change_descriptor =
     create_params_with N (make_descriptor_to_extract descriptor)
       (Some (make_descriptor_to_extract change_descriptor))"

definition cp_new_two_path where
  "cp_new_two_path N two_path_descriptor =
     create_params_with N (make_two_path_descriptor_to_extract N two_path_descriptor 0)
       (Some (make_two_path_descriptor_to_extract N two_path_descriptor 1))"

definition cp_keymap where
  "cp_keymap N keychain keymap P = (case keychain of
     External \<Rightarrow> P\<lparr>cp_descriptor_keymap := na_extend N (cp_descriptor_keymap P) keymap\<rparr>
   | Internal \<Rightarrow> P\<lparr>cp_change_descriptor_keymap := na_extend N (cp_change_descriptor_keymap P) keymap\<rparr>)"

definition cp_set_network where
  "cp_set_network network P = P\<lparr>cp_network := network\<rparr>"

definition cp_set_genesis_hash where
  "cp_set_genesis_hash h P = P\<lparr>cp_genesis_hash := Some h\<rparr>"

definition cp_set_lookahead where
  "cp_set_lookahead n P = P\<lparr>cp_lookahead := n\<rparr>"

definition cp_set_use_spk_cache where
  "cp_set_use_spk_cache b P = P\<lparr>cp_use_spk_cache := b\<rparr>"

record ('d, 'km) load_params =
  lp_descriptor_keymap :: 'km
  lp_change_descriptor_keymap :: 'km
  lp_lookahead :: u32
  lp_check_network :: "nat option"
  lp_check_genesis_hash :: "nat option"
  lp_check_descriptor :: "('d, 'km) descriptor_to_extract option option"
  lp_check_change_descriptor :: "('d, 'km) descriptor_to_extract option option"
  lp_extract_keys :: bool
  lp_use_spk_cache :: bool

definition lp_new where
  "lp_new N = \<lparr>lp_descriptor_keymap = na_empty_keymap N, lp_change_descriptor_keymap = na_empty_keymap N,
     lp_lookahead = na_DEFAULT_LOOKAHEAD N, lp_check_network = None, lp_check_genesis_hash = None,
     lp_check_descriptor = None, lp_check_change_descriptor = None, lp_extract_keys = False,
     lp_use_spk_cache = False\<rparr>"

definition lp_keymap where
  "lp_keymap N keychain keymap P = (case keychain of
     External \<Rightarrow> P\<lparr>lp_descriptor_keymap := na_extend N (lp_descriptor_keymap P) keymap\<rparr>
   | Internal \<Rightarrow> P\<lparr>lp_change_descriptor_keymap := na_extend N (lp_change_descriptor_keymap P) keymap\<rparr>)"

definition lp_descriptor where
  "lp_descriptor keychain expected_descriptor P =
     (let expected = map_option make_descriptor_to_extract expected_descriptor in
      case keychain of
        External \<Rightarrow> P\<lparr>lp_check_descriptor := Some expected\<rparr>
      | Internal \<Rightarrow> P\<lparr>lp_check_change_descriptor := Some expected\<rparr>)"

definition lp_two_path_descriptor where
  "lp_two_path_descriptor N expected_descriptor P =
     P\<lparr>lp_check_descriptor := Some (Some (make_two_path_descriptor_to_extract N expected_descriptor 0)),
       lp_check_change_descriptor := Some (Some (make_two_path_descriptor_to_extract N expected_descriptor 1))\<rparr>"

definition lp_set_check_network where
  "lp_set_check_network network P = P\<lparr>lp_check_network := Some network\<rparr>"

definition lp_set_check_genesis_hash where
  "lp_set_check_genesis_hash h P = P\<lparr>lp_check_genesis_hash := Some h\<rparr>"

definition lp_set_lookahead where
  "lp_set_lookahead n P = P\<lparr>lp_lookahead := n\<rparr>"

definition lp_set_extract_keys where
  "lp_set_extract_keys P = P\<lparr>lp_extract_keys := True\<rparr>"

definition lp_set_use_spk_cache where
  "lp_set_use_spk_cache b P = P\<lparr>lp_use_spk_cache := b\<rparr>"

subsection \<open>Construction\<close>

text \<open>The error of \<open>insert_descriptor\<close> is \<open>True\<close> for \<open>DescriptorAlreadyAssigned\<close> and \<open>False\<close> for
  \<open>KeychainAlreadyAssigned\<close>. The changes of the graph and the index are merged into the stage.\<close>

definition make_index where
  "make_index N indexer_changeset descriptor change_descriptor lookahead use_spk_cache =
     res_bind (expect_ok (na_insert_descriptor N External descriptor
         (na_index N lookahead use_spk_cache indexer_changeset))) (\<lambda>(descriptor_inserted, idx).
     res_bind (panic_unless descriptor_inserted) (\<lambda>_.
     case change_descriptor of
       None \<Rightarrow> Ok idx
     | Some change_descriptor \<Rightarrow>
         (case na_insert_descriptor N Internal change_descriptor idx of
            Ok (change_descriptor_inserted, idx) \<Rightarrow>
              res_bind (panic_unless change_descriptor_inserted) (\<lambda>_. Ok idx)
          | Err True \<Rightarrow> Err ExternalAndInternalAreTheSame
          | Err False \<Rightarrow> Panic
          | Panic \<Rightarrow> Panic)))"

definition make_indexed_graph where
  "make_indexed_graph A N stage tx_graph_changeset indexer_changeset descriptor change_descriptor
       lookahead use_spk_cache =
     res_bind (make_index N indexer_changeset descriptor change_descriptor lookahead use_spk_cache) (\<lambda>idx.
     case na_graph N tx_graph_changeset idx of ((tg, ix), (tgc, ixc)) \<Rightarrow>
     Ok (stage\<lparr>cs_tx_graph := mo_merge (tg_ops (exa A)) (cs_tx_graph stage) tgc,
               cs_indexer := mo_merge (ix_ops (exa A)) (cs_indexer stage) ixc\<rparr>, tg, ix))"

definition extract_change_descriptor where
  "extract_change_descriptor A N network_kind P =
     (case cp_change_descriptor P of
        None \<Rightarrow> Ok (None, signers_new)
      | Some make_desc \<Rightarrow>
          res_bind (make_desc network_kind) (\<lambda>(change_descriptor, internal_keymap).
          res_bind (check_wallet_descriptor A N change_descriptor) (\<lambda>_.
          Ok (Some change_descriptor,
              na_build N (na_extend N internal_keymap (cp_change_descriptor_keymap P)) change_descriptor))))"

definition create_with_params where
  "create_with_params A N P =
     (let network = cp_network P;
          network_kind = na_network_kind N network;
          genesis_hash = (case cp_genesis_hash P of Some h \<Rightarrow> h | None \<Rightarrow> na_genesis_hash N network) in
      case ca_from_genesis (cha A) genesis_hash of (chain, chain_changeset) \<Rightarrow>
      res_bind (cp_descriptor P network_kind) (\<lambda>(descriptor, descriptor_keymap).
      res_bind (check_wallet_descriptor A N descriptor) (\<lambda>_.
      let signers = na_build N (na_extend N descriptor_keymap (cp_descriptor_keymap P)) descriptor in
      res_bind (extract_change_descriptor A N network_kind P) (\<lambda>(change_descriptor, change_signers).
      let stage = (cs_default (exa A))\<lparr>cs_descriptor := Some descriptor,
            cs_change_descriptor := change_descriptor, cs_local_chain := chain_changeset,
            cs_network := Some network\<rparr> in
      res_bind (make_indexed_graph A N stage (mo_empty (tg_ops (exa A))) (mo_empty (ix_ops (exa A)))
          descriptor change_descriptor (cp_lookahead P) (cp_use_spk_cache P)) (\<lambda>(stage, tg, ix).
      Ok \<lparr>w_signers = signers, w_change_signers = change_signers, w_chain = chain, w_graph = tg,
          w_index = ix, w_stage = stage, w_network = network, w_locked = [],
          w_view = ca_view (cha A) chain tg (ca_tip (cha A) chain)\<rparr>)))))"

datatype 'd load_mismatch =
  MismatchNetwork nat nat
| MismatchGenesis nat nat
| MismatchDescriptor keychain_kind "'d option" "'d option"

datatype 'd load_error =
  LoadDescriptor descriptor_error
| MissingNetwork
| MissingGenesis
| LoadMissingDescriptor keychain_kind
| Mismatch "'d load_mismatch"

text \<open>The external descriptor against what is expected: the key map to use.\<close>

definition check_external where
  "check_external N network_kind P descriptor =
     (case lp_check_descriptor P of
        None \<Rightarrow> Ok (lp_descriptor_keymap P)
      | Some None \<Rightarrow> Err (Mismatch (MismatchDescriptor External (Some descriptor) None))
      | Some (Some make_desc) \<Rightarrow>
          res_bind (map_err LoadDescriptor (make_desc network_kind)) (\<lambda>(exp_desc, keymap).
          if na_descriptor_id N descriptor \<noteq> na_descriptor_id N exp_desc
          then Err (Mismatch (MismatchDescriptor External (Some descriptor) (Some exp_desc)))
          else Ok (if lp_extract_keys P then na_extend N (lp_descriptor_keymap P) keymap
                   else lp_descriptor_keymap P)))"

text \<open>The change descriptor: the one to use with its key map.\<close>

definition check_internal where
  "check_internal A N network_kind P change_descriptor =
     (case (change_descriptor, lp_check_change_descriptor P) of
        (None, None) \<Rightarrow> Ok (None, lp_change_descriptor_keymap P)
      | (None, Some None) \<Rightarrow> Ok (None, lp_change_descriptor_keymap P)
      | (None, Some (Some make_desc)) \<Rightarrow>
          res_bind (map_err LoadDescriptor (make_desc network_kind)) (\<lambda>(exp_desc, _).
          Err (Mismatch (MismatchDescriptor Internal None (Some exp_desc))))
      | (Some desc, None) \<Rightarrow>
          res_bind (map_err LoadDescriptor (check_wallet_descriptor A N desc)) (\<lambda>_.
          Ok (Some desc, lp_change_descriptor_keymap P))
      | (Some desc, Some None) \<Rightarrow> Err (Mismatch (MismatchDescriptor Internal (Some desc) None))
      | (Some desc, Some (Some make_desc)) \<Rightarrow>
          res_bind (map_err LoadDescriptor (check_wallet_descriptor A N desc)) (\<lambda>_.
          res_bind (map_err LoadDescriptor (make_desc network_kind)) (\<lambda>(exp_desc, keymap).
          if na_descriptor_id N desc \<noteq> na_descriptor_id N exp_desc
          then Err (Mismatch (MismatchDescriptor Internal (Some desc) (Some exp_desc)))
          else Ok (Some desc, if lp_extract_keys P then na_extend N (lp_change_descriptor_keymap P) keymap
                              else lp_change_descriptor_keymap P))))"

definition check_identity where
  "check_identity A P network chain =
     res_bind (case lp_check_network P of
         None \<Rightarrow> Ok ()
       | Some exp_network \<Rightarrow>
           fail_if (network \<noteq> exp_network) (Mismatch (MismatchNetwork network exp_network))) (\<lambda>_.
     case lp_check_genesis_hash P of
       None \<Rightarrow> Ok ()
     | Some exp_genesis_hash \<Rightarrow>
         fail_if (ca_genesis_hash (cha A) chain \<noteq> exp_genesis_hash)
           (Mismatch (MismatchGenesis (ca_genesis_hash (cha A) chain) exp_genesis_hash)))"

definition locked_of_changeset :: "lock_changes \<Rightarrow> outpoint list" where
  "locked_of_changeset m = map fst (filter (\<lambda>(_, is_locked). is_locked) m)"

definition load_with_params where
  "load_with_params A N changeset P =
     (if cs_is_empty (exa A) changeset then Ok None
      else
        res_bind (ok_or (cs_network changeset) MissingNetwork) (\<lambda>network.
        let network_kind = na_network_kind N network in
        res_bind (ok_or (ca_from_changeset (cha A) (cs_local_chain changeset)) MissingGenesis) (\<lambda>chain.
        res_bind (check_identity A P network chain) (\<lambda>_.
        res_bind (ok_or (cs_descriptor changeset) (LoadMissingDescriptor External)) (\<lambda>descriptor.
        res_bind (map_err LoadDescriptor (check_wallet_descriptor A N descriptor)) (\<lambda>_.
        res_bind (check_external N network_kind P descriptor) (\<lambda>external_keymap.
        let signers = na_build N external_keymap descriptor in
        res_bind (check_internal A N network_kind P (cs_change_descriptor changeset))
            (\<lambda>(change_descriptor, internal_keymap).
        let change_signers = (case change_descriptor of
              Some d \<Rightarrow> na_build N internal_keymap d | None \<Rightarrow> signers_new) in
        res_bind (map_err LoadDescriptor (make_indexed_graph A N (cs_default (exa A))
            (cs_tx_graph changeset) (cs_indexer changeset) descriptor change_descriptor
            (lp_lookahead P) (lp_use_spk_cache P))) (\<lambda>(stage, tg, ix).
        Ok (Some \<lparr>w_signers = signers, w_change_signers = change_signers, w_chain = chain, w_graph = tg,
            w_index = ix, w_stage = stage, w_network = network,
            w_locked = locked_of_changeset (cs_locked_outpoints changeset),
            w_view = ca_view (cha A) chain tg (ca_tip (cha A) chain)\<rparr>))))))))))"

subsection \<open>Persisted wallets\<close>

text \<open>A persister: both operations return the store they leave behind, whatever the outcome.\<close>

record ('p, 'cs, 'e) persister =
  pe_initialize :: "'p \<Rightarrow> ('e, 'cs) res \<times> 'p"
  pe_persist :: "'cs \<Rightarrow> 'p \<Rightarrow> ('e, unit) res \<times> 'p"

datatype ('e, 'cs) create_with_persist_error =
  CreatePersist 'e
| DataAlreadyExists 'cs
| CreateDescriptor descriptor_error

datatype ('e, 'd) load_with_persist_error =
  LoadPersist 'e
| InvalidChangeSet "'d load_error"

definition create_persisted where
  "create_persisted A N M params p =
     (case pe_initialize M p of
        (Err e, p) \<Rightarrow> (Err (CreatePersist e), p)
      | (Panic, p) \<Rightarrow> (Panic, p)
      | (Ok existing, p) \<Rightarrow>
          if \<not> cs_is_empty (exa A) existing then (Err (DataAlreadyExists existing), p)
          else (case create_with_params A N params of
                  Err e \<Rightarrow> (Err (CreateDescriptor e), p)
                | Panic \<Rightarrow> (Panic, p)
                | Ok inner \<Rightarrow>
                    (case take_staged A inner of
                       (None, inner) \<Rightarrow> (Ok inner, p)
                     | (Some changeset, inner) \<Rightarrow>
                         (case pe_persist M changeset p of
                            (Ok _, p) \<Rightarrow> (Ok inner, p)
                          | (Err e, p) \<Rightarrow> (Err (CreatePersist e), p)
                          | (Panic, p) \<Rightarrow> (Panic, p)))))"

definition load_persisted where
  "load_persisted A N M params p =
     (case pe_initialize M p of
        (Err e, p) \<Rightarrow> (Err (LoadPersist e), p)
      | (Panic, p) \<Rightarrow> (Panic, p)
      | (Ok changeset, p) \<Rightarrow> (map_err InvalidChangeSet (load_with_params A N changeset params), p))"

text \<open>\<open>persist\<close>: the outcome, the wallet and the store. The stage is taken only after success.\<close>

definition persist_wallet where
  "persist_wallet A M w p =
     (case staged A w of
        None \<Rightarrow> (Ok False, w, p)
      | Some stage \<Rightarrow>
          (case pe_persist M stage p of
             (Ok _, p) \<Rightarrow> (Ok True, snd (take_staged A w), p)
           | (Err e, p) \<Rightarrow> (Err e, w, p)
           | (Panic, p) \<Rightarrow> (Panic, w, p)))"

text \<open>The persister of an open SQLite transaction, which its caller commits or rolls back: what a step
  wrote before a failure is still in it.\<close>

definition transaction_initialize where
  "transaction_initialize X D db =
     (case init_sqlite_tables D db of
        (Ok _, db') \<Rightarrow> (from_sqlite X D db', db')
      | (Err e, db') \<Rightarrow> (Err e, db')
      | (Panic, db') \<Rightarrow> (Panic, db'))"

definition transaction_persist where
  "transaction_persist D changeset db = persist_to_sqlite D changeset db"

definition transaction_persister where
  "transaction_persister X D = \<lparr>pe_initialize = transaction_initialize X D, pe_persist = transaction_persist D\<rparr>"

text \<open>The persister of a SQLite connection: every call is one database transaction of its own. It is
  committed when everything succeeded; when a step or the commit fails it is dropped, which rolls it
  back.\<close>

definition in_transaction where
  "in_transaction D f db =
     (case sql_error D BeginTransaction db of
        Some e \<Rightarrow> (Err e, db)
      | None \<Rightarrow>
          (case f db of
             (Ok a, db') \<Rightarrow>
               (case sql_error D CommitTransaction db' of Some e \<Rightarrow> (Err e, db) | None \<Rightarrow> (Ok a, db'))
           | (Err e, _) \<Rightarrow> (Err e, db)
           | (Panic, _) \<Rightarrow> (Panic, db)))"

definition sqlite_initialize where
  "sqlite_initialize X D db = in_transaction D (transaction_initialize X D) db"

definition sqlite_persist where
  "sqlite_persist D changeset db = in_transaction D (transaction_persist D changeset) db"

definition sqlite_persister where
  "sqlite_persister X D = \<lparr>pe_initialize = sqlite_initialize X D, pe_persist = sqlite_persist D\<rparr>"

text \<open>The persister of a \<open>bdk_file_store::Store\<close>: reading it whole and appending to it are the store's.\<close>

record ('f, 'cs, 'le, 'we) file_store_api =
  fs_dump :: "'f \<Rightarrow> ('le, 'cs option) res"
  fs_append :: "'cs \<Rightarrow> 'f \<Rightarrow> ('we, unit) res \<times> 'f"

datatype ('le, 'we) file_store_error = FileLoad 'le | FileWrite 'we

definition unwrap_or_default where
  "unwrap_or_default X changeset = (case changeset of Some c \<Rightarrow> c | None \<Rightarrow> cs_default X)"

definition file_store_initialize where
  "file_store_initialize X F f =
     (map_err FileLoad (res_bind (fs_dump F f) (\<lambda>changeset. Ok (unwrap_or_default X changeset))), f)"

definition file_store_persist where
  "file_store_persist F changeset f = (case fs_append F changeset f of (r, f') \<Rightarrow> (map_err FileWrite r, f'))"

definition file_store_persister where
  "file_store_persister X F = \<lparr>pe_initialize = file_store_initialize X F, pe_persist = file_store_persist F\<rparr>"

subsection \<open>The entry points on the parameters\<close>

definition create_wallet where
  "create_wallet A N M params p = create_persisted A N M params p"

definition create_wallet_no_persist where
  "create_wallet_no_persist A N params = create_with_params A N params"

definition load_wallet where
  "load_wallet A N M params p = load_persisted A N M params p"

definition load_wallet_no_persist where
  "load_wallet_no_persist A N params changeset = load_with_params A N changeset params"

end
