(* ===== verification/Tx_Builder.thy ===== *)
theory Tx_Builder
  imports Wallet_State Coin_Selection
begin

section \<open>The transaction builder (src/wallet/tx_builder.rs)\<close>

text \<open>
  The parameters a \<open>TxBuilder\<close> collects, one definition per method (prefix \<open>tb_\<close>), the ordering of
  a transaction and the change policy. A builder borrows the wallet, which its methods only read;
  they are functions of the wallet and the parameters. The custom orderings and
  \<open>sort_unstable_by\<close> are functions of the caller and of the standard library.
\<close>

datatype fee_policy = FeeRate feerate | FeeAmount amount

text \<open>\<open>FeeRate::BROADCAST_MIN\<close>, one satoshi per virtual byte, in satoshi per 1000 weight units.\<close>

definition BROADCAST_MIN :: feerate where
  "BROADCAST_MIN = 250"

definition fee_policy_default :: fee_policy where
  "fee_policy_default = FeeRate BROADCAST_MIN"

record previous_fee =
  pf_absolute :: amount
  pf_rate :: feerate

datatype ('i, 'o) tx_ordering =
  Shuffle | Untouched | Custom "'i \<Rightarrow> 'i \<Rightarrow> bool" "'o \<Rightarrow> 'o \<Rightarrow> bool"

datatype change_spend_policy = ChangeAllowed | OnlyChange | ChangeForbidden

fun is_satisfied_by :: "change_spend_policy \<Rightarrow> local_output \<Rightarrow> bool" where
  "is_satisfied_by ChangeAllowed u \<longleftrightarrow> True"
| "is_satisfied_by OnlyChange u \<longleftrightarrow> lo_keychain u = Internal"
| "is_satisfied_by ChangeForbidden u \<longleftrightarrow> lo_keychain u = External"

record tx_params =
  p_recipients :: "(script \<times> amount) list"
  p_drain_wallet :: bool
  p_drain_to :: "script option"
  p_fee_policy :: "fee_policy option"
  p_internal_policy_path :: "policy_path option"
  p_external_policy_path :: "policy_path option"
  p_utxos :: "weighted_utxo list"
  p_unspendable :: "outpoint list"
  p_manually_selected_only :: bool
  p_sighash :: "u32 option"
  p_ordering :: "(txin, txout) tx_ordering"
  p_locktime :: "locktime option"
  p_sequence :: "u32 option"
  p_version :: "int option"
  p_change_policy :: change_spend_policy
  p_only_witness_utxo :: bool
  p_add_global_xpubs :: bool
  p_bumping_fee :: "previous_fee option"
  p_current_height :: "locktime option"
  p_allow_dust :: bool
  p_mweb_tx :: "u8 list option"

definition tx_params_default :: tx_params where
  "tx_params_default = \<lparr>p_recipients = [], p_drain_wallet = False, p_drain_to = None,
     p_fee_policy = None, p_internal_policy_path = None, p_external_policy_path = None, p_utxos = [],
     p_unspendable = [], p_manually_selected_only = False, p_sighash = None, p_ordering = Shuffle,
     p_locktime = None, p_sequence = None, p_version = None, p_change_policy = ChangeAllowed,
     p_only_witness_utxo = False, p_add_global_xpubs = False, p_bumping_fee = None,
     p_current_height = None, p_allow_dust = False, p_mweb_tx = None\<rparr>"

subsection \<open>Setters\<close>

definition tb_fee_rate :: "feerate \<Rightarrow> tx_params \<Rightarrow> tx_params" where
  "tb_fee_rate rate P = P\<lparr>p_fee_policy := Some (FeeRate rate)\<rparr>"

definition tb_fee_absolute :: "amount \<Rightarrow> tx_params \<Rightarrow> tx_params" where
  "tb_fee_absolute a P = P\<lparr>p_fee_policy := Some (FeeAmount a)\<rparr>"

definition tb_policy_path :: "policy_path \<Rightarrow> keychain_kind \<Rightarrow> tx_params \<Rightarrow> tx_params" where
  "tb_policy_path path keychain P = (case keychain of
     Internal \<Rightarrow> P\<lparr>p_internal_policy_path := Some path\<rparr>
   | External \<Rightarrow> P\<lparr>p_external_policy_path := Some path\<rparr>)"

definition tb_manually_selected_only :: "tx_params \<Rightarrow> tx_params" where
  "tb_manually_selected_only P = P\<lparr>p_manually_selected_only := True\<rparr>"

definition tb_unspendable :: "outpoint list \<Rightarrow> tx_params \<Rightarrow> tx_params" where
  "tb_unspendable ops P = P\<lparr>p_unspendable := remdups ops\<rparr>"

definition tb_add_unspendable :: "outpoint \<Rightarrow> tx_params \<Rightarrow> tx_params" where
  "tb_add_unspendable op P = P\<lparr>p_unspendable := List.insert op (p_unspendable P)\<rparr>"

definition tb_sighash :: "u32 \<Rightarrow> tx_params \<Rightarrow> tx_params" where
  "tb_sighash s P = P\<lparr>p_sighash := Some s\<rparr>"

definition tb_ordering :: "(txin, txout) tx_ordering \<Rightarrow> tx_params \<Rightarrow> tx_params" where
  "tb_ordering ord P = P\<lparr>p_ordering := ord\<rparr>"

definition tb_nlocktime :: "locktime \<Rightarrow> tx_params \<Rightarrow> tx_params" where
  "tb_nlocktime l P = P\<lparr>p_locktime := Some l\<rparr>"

definition tb_version :: "int \<Rightarrow> tx_params \<Rightarrow> tx_params" where
  "tb_version v P = P\<lparr>p_version := Some v\<rparr>"

definition tb_do_not_spend_change :: "tx_params \<Rightarrow> tx_params" where
  "tb_do_not_spend_change P = P\<lparr>p_change_policy := ChangeForbidden\<rparr>"

definition tb_only_spend_change :: "tx_params \<Rightarrow> tx_params" where
  "tb_only_spend_change P = P\<lparr>p_change_policy := OnlyChange\<rparr>"

definition tb_change_policy :: "change_spend_policy \<Rightarrow> tx_params \<Rightarrow> tx_params" where
  "tb_change_policy c P = P\<lparr>p_change_policy := c\<rparr>"

definition tb_only_witness_utxo :: "tx_params \<Rightarrow> tx_params" where
  "tb_only_witness_utxo P = P\<lparr>p_only_witness_utxo := True\<rparr>"

definition tb_add_global_xpubs :: "tx_params \<Rightarrow> tx_params" where
  "tb_add_global_xpubs P = P\<lparr>p_add_global_xpubs := True\<rparr>"

definition tb_drain_wallet :: "tx_params \<Rightarrow> tx_params" where
  "tb_drain_wallet P = P\<lparr>p_drain_wallet := True\<rparr>"

definition tb_set_exact_sequence :: "u32 \<Rightarrow> tx_params \<Rightarrow> tx_params" where
  "tb_set_exact_sequence s P = P\<lparr>p_sequence := Some s\<rparr>"

text \<open>\<open>LockTime::from_height\<close>: heights are below 500 million.\<close>

definition locktime_from_height :: "u32 \<Rightarrow> locktime option" where
  "locktime_from_height h = (if h < 500000000 then Some (Blocks h) else None)"

definition tb_current_height :: "u32 \<Rightarrow> tx_params \<Rightarrow> ('e, tx_params) res" where
  "tb_current_height height P =
     res_bind (expect (locktime_from_height height)) (\<lambda>l. Ok (P\<lparr>p_current_height := Some l\<rparr>))"

definition tb_allow_dust :: "bool \<Rightarrow> tx_params \<Rightarrow> tx_params" where
  "tb_allow_dust b P = P\<lparr>p_allow_dust := b\<rparr>"

definition tb_set_recipients :: "(script \<times> amount) list \<Rightarrow> tx_params \<Rightarrow> tx_params" where
  "tb_set_recipients rs P = P\<lparr>p_recipients := rs\<rparr>"

definition tb_add_recipient :: "script \<Rightarrow> amount \<Rightarrow> tx_params \<Rightarrow> tx_params" where
  "tb_add_recipient s a P = P\<lparr>p_recipients := p_recipients P @ [(s, a)]\<rparr>"

text \<open>\<open>pegin_script\<close> is \<open>bdk_chain::mweb_pegin_script_pubkey\<close>, \<open>op_return_script\<close> is
  \<open>ScriptBuf::new_op_return\<close>.\<close>

definition tb_add_mweb_pegin :: "('h \<Rightarrow> script) \<Rightarrow> 'h \<Rightarrow> amount \<Rightarrow> tx_params \<Rightarrow> tx_params" where
  "tb_add_mweb_pegin pegin_script kernel_id a P = tb_add_recipient (pegin_script kernel_id) a P"

definition tb_mweb_tx :: "u8 list \<Rightarrow> tx_params \<Rightarrow> tx_params" where
  "tb_mweb_tx body P = P\<lparr>p_mweb_tx := Some body\<rparr>"

definition tb_apply_mweb_pegin :: "('h \<Rightarrow> script) \<Rightarrow> 'h \<Rightarrow> amount \<Rightarrow> u8 list \<Rightarrow> tx_params \<Rightarrow> tx_params" where
  "tb_apply_mweb_pegin pegin_script kernel_id pegin_amount body P =
     tb_mweb_tx body (tb_add_mweb_pegin pegin_script kernel_id pegin_amount P)"

definition tb_add_data :: "('b \<Rightarrow> script) \<Rightarrow> 'b \<Rightarrow> tx_params \<Rightarrow> tx_params" where
  "tb_add_data op_return_script data P = tb_add_recipient (op_return_script data) 0 P"

definition tb_drain_to :: "script \<Rightarrow> tx_params \<Rightarrow> tx_params" where
  "tb_drain_to s P = P\<lparr>p_drain_to := Some s\<rparr>"

definition attach_mweb_tx :: "u8 list \<Rightarrow> transaction \<Rightarrow> transaction" where
  "attach_mweb_tx body tx = tx\<lparr>tx_mw_tx := Some body\<rparr>"

subsection \<open>Choosing UTXOs by hand\<close>

datatype add_utxo_error = UnknownUtxo outpoint

text \<open>\<open>filter(|op| visited.insert(op))\<close>: the first occurrence of every element, in order.\<close>

fun first_visits :: "'a list \<Rightarrow> 'a list \<Rightarrow> 'a list" where
  "first_visits visited [] = []"
| "first_visits visited (x # xs) =
     (if x \<in> set visited then first_visits visited xs else x # first_visits (x # visited) xs)"

definition unspent_map :: "local_output list \<Rightarrow> outpoint \<Rightarrow> local_output option" where
  "unspent_map ls = foldl (\<lambda>m l. m(lo_outpoint l \<mapsto> l)) Map.empty ls"

definition weighted_local where
  "weighted_local A w output =
     res_bind (public_descriptor A w (lo_keychain output)) (\<lambda>d.
     res_bind (expect (da_max_weight (dsa A) d)) (\<lambda>sw.
     Ok \<lparr>satisfaction_weight = sw, wu_utxo = Local output\<rparr>))"

definition add_utxos where
  "add_utxos A w outpoints P =
     (let unspent = unspent_map (list_unspent A w) in
      res_bind (res_map (\<lambda>op. res_bind (ok_or (unspent op) (UnknownUtxo op)) (weighted_local A w))
                  (first_visits [] outpoints)) (\<lambda>utxos.
      Ok (P\<lparr>p_utxos := filter (\<lambda>wutxo. utxo_outpoint (wu_utxo wutxo) \<notin> set outpoints) (p_utxos P)
                 @ utxos\<rparr>)))"

definition add_utxo where
  "add_utxo A w outpoint P = add_utxos A w [outpoint] P"

datatype add_foreign_utxo_error =
  InvalidTxid txid outpoint
| InvalidOutpoint outpoint
| MissingUtxo

definition check_foreign :: "btc \<Rightarrow> outpoint \<Rightarrow> psbt_input \<Rightarrow> (add_foreign_utxo_error, unit) res" where
  "check_foreign B outpoint psbt_input =
     (case non_witness_utxo psbt_input of
        Some tx \<Rightarrow>
          if compute_txid B tx \<noteq> op_txid outpoint then Err (InvalidTxid (compute_txid B tx) outpoint)
          else if length (tx_output tx) \<le> unat (op_vout outpoint) then Err (InvalidOutpoint outpoint)
          else Ok ()
      | None \<Rightarrow> if witness_utxo psbt_input = None then Err MissingUtxo else Ok ())"

definition add_foreign_utxo_with_sequence :: "btc \<Rightarrow> outpoint \<Rightarrow> psbt_input \<Rightarrow> weight \<Rightarrow> u32 \<Rightarrow> tx_params
    \<Rightarrow> (add_foreign_utxo_error, tx_params) res" where
  "add_foreign_utxo_with_sequence B outpoint psbt_input sw sequ P =
     res_bind (check_foreign B outpoint psbt_input) (\<lambda>_.
     let new = \<lparr>satisfaction_weight = sw, wu_utxo = Foreign outpoint sequ psbt_input\<rparr> in
     case List.find (\<lambda>(idx, wutxo). utxo_outpoint (wu_utxo wutxo) = outpoint) (List.enumerate 0 (p_utxos P)) of
       None \<Rightarrow> Ok (P\<lparr>p_utxos := p_utxos P @ [new]\<rparr>)
     | Some (idx, wutxo) \<Rightarrow>
         (case wu_utxo wutxo of
            Local _ \<Rightarrow> Ok P
          | Foreign _ _ _ \<Rightarrow>
              Ok (P\<lparr>p_utxos := (take idx (p_utxos P) @ drop (Suc idx) (p_utxos P)) @ [new]\<rparr>)))"

definition add_foreign_utxo :: "btc \<Rightarrow> outpoint \<Rightarrow> psbt_input \<Rightarrow> weight \<Rightarrow> tx_params
    \<Rightarrow> (add_foreign_utxo_error, tx_params) res" where
  "add_foreign_utxo B outpoint psbt_input sw P =
     add_foreign_utxo_with_sequence B outpoint psbt_input sw 0xFFFFFFFF P"

definition u32_saturating_add :: "u32 \<Rightarrow> u32 \<Rightarrow> u32" where
  "u32_saturating_add a b = (if unat a + unat b < 2 ^ 32 then a + b else 0xFFFFFFFF)"

definition u32_saturating_sub :: "u32 \<Rightarrow> u32 \<Rightarrow> u32" where
  "u32_saturating_sub a b = (if b \<le> a then a - b else 0)"

definition confirmations :: "u32 \<Rightarrow> local_output \<Rightarrow> u32" where
  "confirmations tip_height utxo =
     (case pos_height_upper_bound (lo_chain_position utxo) of
        None \<Rightarrow> 0
      | Some h \<Rightarrow> u32_saturating_sub (u32_saturating_add tip_height 1) h)"

definition exclude_below_confirmations where
  "exclude_below_confirmations A w min_confirms P =
     (let tip_height = bid_height (ca_tip (cha A) (w_chain w));
          to_exclude = map lo_outpoint
            (filter (\<lambda>utxo. confirmations tip_height utxo < min_confirms) (list_unspent A w)) in
      P\<lparr>p_unspendable := fold List.insert to_exclude (p_unspendable P)\<rparr>)"

definition exclude_unconfirmed where
  "exclude_unconfirmed A w P = exclude_below_confirmations A w 1 P"

subsection \<open>Ordering\<close>

record sorters =
  sort_txins :: "(txin \<Rightarrow> txin \<Rightarrow> bool) \<Rightarrow> txin list \<Rightarrow> txin list"
  sort_txouts :: "(txout \<Rightarrow> txout \<Rightarrow> bool) \<Rightarrow> txout list \<Rightarrow> txout list"

definition sort_tx_with_aux_rand :: "sorters \<Rightarrow> ('r \<Rightarrow> u32 \<times> 'r) \<Rightarrow> (txin, txout) tx_ordering \<Rightarrow> transaction \<Rightarrow> 'r
    \<Rightarrow> transaction \<times> 'r" where
  "sort_tx_with_aux_rand S next_u32 ord tx rng =
     (case ord of
        Untouched \<Rightarrow> (tx, rng)
      | Shuffle \<Rightarrow>
          (case shuffle_slice next_u32 (tx_input tx) rng of (ins, rng) \<Rightarrow>
          (case shuffle_slice next_u32 (tx_output tx) rng of (outs, rng) \<Rightarrow>
            (tx\<lparr>tx_input := ins, tx_output := outs\<rparr>, rng)))
      | Custom input_sort output_sort \<Rightarrow>
          (tx\<lparr>tx_input := sort_txins S input_sort (tx_input tx),
              tx_output := sort_txouts S output_sort (tx_output tx)\<rparr>, rng))"

end
