(* ===== verification/Create_Tx.thy ===== *)
theory Create_Tx
  imports Tx_Builder
begin

section \<open>Creating a transaction (Wallet::create_tx in src/wallet/mod.rs)\<close>

text \<open>
  \<open>create_tx\<close> is one function of the source; it is modelled as the composition of its stages, in
  the order of the source: the policies and their requirements, the version, the lock time, the
  sequence number, the fee policy, the outputs, the candidates, the drain script, the coin
  selection (an argument, with the contract \<open>coin_selector\<close>), the change output, the ordering and
  the completion of the PSBT. All changes of the wallet happen after the last step that can fail,
  so an error leaves the wallet as it was and the changed wallet is part of the \<open>Ok\<close> value only.
\<close>

datatype create_tx_error =
  CDescriptor policy_error
| CPolicy policy_error
| SpendingPolicyRequired keychain_kind
| Version0
| Version1Csv
| CLockTime locktime locktime
| RbfSequenceCsv u32 u32
| FeeTooLow amount
| FeeRateTooLow feerate
| NoUtxosSelected
| OutputBelowDustLimit nat
| EmptyScriptPubkey nat
| MwebPegInRequiresKernel nat
| MwebPegInMissingBody
| NoMwebCoins
| InsufficientMwebFunds amount amount
| CCoinSelection insufficient_funds
| NoRecipients
| CPsbt nat
| MissingKeyOrigin nat
| CUnknownUtxo
| CMissingNonWitnessUtxo outpoint
| CMiniscriptPsbt nat

subsection \<open>Policies and requirements\<close>

definition wallet_keychains where
  "wallet_keychains A w = bt_of_list (keychains A w)"

definition policy_of_descriptor where
  "policy_of_descriptor B E A signers d =
     res_bind (map_err CDescriptor
         (extract_descriptor_policy B E signers BsNone (da_form (dsa A) d))) expect"

definition wallet_policies where
  "wallet_policies B E A w =
     res_bind (expect (bt_get (wallet_keychains A w) External)) (\<lambda>ext_desc.
     res_bind (policy_of_descriptor B E A (w_signers w) ext_desc) (\<lambda>ext_policy.
     case bt_get (wallet_keychains A w) Internal of
       None \<Rightarrow> Ok (ext_policy, None)
     | Some int_desc \<Rightarrow>
         res_bind (policy_of_descriptor B E A (w_change_signers w) int_desc) (\<lambda>int_policy.
         Ok (ext_policy, Some int_policy))))"

definition check_policy_paths :: "btc \<Rightarrow> tx_params \<Rightarrow> policy \<Rightarrow> policy option \<Rightarrow> (create_tx_error, unit) res" where
  "check_policy_paths B P ext_policy int_policy =
     res_bind (fail_if (p_change_policy P \<noteq> OnlyChange \<and> requires_path B ext_policy
                  \<and> p_external_policy_path P = None) (SpendingPolicyRequired External)) (\<lambda>_.
     (case int_policy of
        None \<Rightarrow> Ok ()
      | Some int_policy \<Rightarrow>
          fail_if (p_change_policy P \<noteq> ChangeForbidden \<and> requires_path B int_policy
                  \<and> p_internal_policy_path P = None) (SpendingPolicyRequired Internal)))"

definition path_or_empty :: "policy_path option \<Rightarrow> policy_path" where
  "path_or_empty path = (case path of Some p \<Rightarrow> p | None \<Rightarrow> [])"

definition policy_requirements :: "btc \<Rightarrow> tx_params \<Rightarrow> policy \<Rightarrow> policy option \<Rightarrow> (create_tx_error, condition) res" where
  "policy_requirements B P ext_policy int_policy =
     res_bind (map_err CPolicy (get_condition B (path_or_empty (p_external_policy_path P)) ext_policy)) (\<lambda>ext_req.
     res_bind (case int_policy of
         None \<Rightarrow> Ok condition_default
       | Some policy \<Rightarrow>
           map_err CPolicy (get_condition B (path_or_empty (p_internal_policy_path P)) policy)) (\<lambda>int_req.
     map_err CPolicy (condition_merge B ext_req int_req)))"

subsection \<open>Version, lock time, sequence\<close>

definition choose_version :: "tx_params \<Rightarrow> condition \<Rightarrow> (create_tx_error, int) res" where
  "choose_version P req =
     (case p_version P of
        Some v \<Rightarrow>
          if v = 0 then Err Version0
          else if v = 1 \<and> csv req \<noteq> None then Err Version1Csv
          else Ok v
      | None \<Rightarrow> Ok 2)"

definition choose_current_height where
  "choose_current_height A w P =
     (case p_current_height P of
        None \<Rightarrow> expect (locktime_from_height (bid_height (ca_tip (cha A) (w_chain w))))
      | Some h \<Rightarrow> Ok h)"

definition is_blocks :: "locktime \<Rightarrow> bool" where
  "is_blocks l = (case l of Blocks _ \<Rightarrow> True | Seconds _ \<Rightarrow> False)"

definition choose_lock_time :: "locktime option \<Rightarrow> locktime option \<Rightarrow> locktime \<Rightarrow> (create_tx_error, locktime) res" where
  "choose_lock_time requested required current_height =
     (case requested of
        None \<Rightarrow>
          let fee_sniping_height = current_height in
          (case required of
             None \<Rightarrow> Ok fee_sniping_height
           | Some v \<Rightarrow>
               if is_blocks v \<and> locktime_less v fee_sniping_height then Ok fee_sniping_height
               else Ok v)
      | Some x \<Rightarrow>
          (case required of
             None \<Rightarrow> Ok x
           | Some r \<Rightarrow>
               if is_same_unit r x \<and> locktime_geq x r then Ok x
               else Err (CLockTime x r)))"

text \<open>\<open>Sequence::ENABLE_RBF_NO_LOCKTIME\<close>.\<close>

definition ENABLE_RBF_NO_LOCKTIME :: u32 where
  "ENABLE_RBF_NO_LOCKTIME = 0xFFFFFFFD"

definition choose_sequence :: "btc \<Rightarrow> u32 option \<Rightarrow> u32 option \<Rightarrow> (create_tx_error, u32) res" where
  "choose_sequence B requested required =
     (case (requested, required) of
        (None, None) \<Rightarrow> Ok ENABLE_RBF_NO_LOCKTIME
      | (None, Some c) \<Rightarrow> Ok c
      | (Some sequ, Some c) \<Rightarrow>
          if \<not> check_nsequence_rbf B sequ c then Err (RbfSequenceCsv sequ c) else Ok sequ
      | (Some sequ, None) \<Rightarrow> Ok sequ)"

subsection \<open>Fee policy and outputs\<close>

definition choose_fee :: "tx_params \<Rightarrow> (create_tx_error, feerate \<times> amount) res" where
  "choose_fee P =
     (case (case p_fee_policy P of Some f \<Rightarrow> f | None \<Rightarrow> fee_policy_default) of
        FeeAmount fee \<Rightarrow>
          (case p_bumping_fee P of
             None \<Rightarrow> Ok (0, fee)
           | Some previous \<Rightarrow>
               if fee < pf_absolute previous then Err (FeeTooLow (pf_absolute previous)) else Ok (0, fee))
      | FeeRate rate \<Rightarrow>
          (case p_bumping_fee P of
             None \<Rightarrow> Ok (rate, 0)
           | Some previous \<Rightarrow>
               res_bind (u64_add (pf_rate previous) BROADCAST_MIN) (\<lambda>required_feerate.
               if rate < required_feerate then Err (FeeRateTooLow required_feerate) else Ok (rate, 0))))"

fun add_recipients :: "btc \<Rightarrow> bool \<Rightarrow> nat \<Rightarrow> (script \<times> amount) list \<Rightarrow> txout list \<times> amount
    \<Rightarrow> (create_tx_error, txout list \<times> amount) res" where
  "add_recipients B allow_dust index [] (outs, outgoing) = Ok (outs, outgoing)"
| "add_recipients B allow_dust index ((script_pubkey, v) # rest) (outs, outgoing) =
     (if script_pubkey = [] then Err (MwebPegInRequiresKernel index)
      else if \<not> allow_dust \<and> is_dust B v script_pubkey \<and> \<not> is_op_return B script_pubkey
      then Err (OutputBelowDustLimit index)
      else
        res_bind (u64_add outgoing v) (\<lambda>outgoing.
        add_recipients B allow_dust (index + 1) rest
          (outs @ [\<lparr>txo_value = v, txo_script = script_pubkey\<rparr>], outgoing)))"

subsection \<open>Candidates\<close>

text \<open>The TRUC rule (BIP 431) for unconfirmed outputs.\<close>

definition truc_ok where
  "truc_ok A w v l \<longleftrightarrow>
     pos_is_confirmed (lo_chain_position l) \<or>
     (case ga_get_tx (tga A) (w_graph w) (op_txid (lo_outpoint l)) of
        None \<Rightarrow> False
      | Some tx \<Rightarrow> (tx_version tx = 3) = (v = (3 :: int)))"

definition may_spend where
  "may_spend A w P v l \<longleftrightarrow>
     truc_ok A w v l \<and>
     lo_outpoint l \<notin> set (map (\<lambda>wutxo. utxo_outpoint (wu_utxo wutxo)) (p_utxos P)) \<and>
     (length (keychains A w) = 1 \<or> is_satisfied_by (p_change_policy P) l) \<and>
     lo_outpoint l \<notin> set (p_unspendable P) \<and>
     (p_bumping_fee P = None \<or> pos_is_confirmed (lo_chain_position l))"

definition mature_unspent where
  "mature_unspent A w current_height =
     List.map_filter (\<lambda>((k, i), full_txo).
         if va_is_mature (cha A) full_txo current_height then Some (new_local_utxo k i full_txo) else None)
       (filter (\<lambda>(_, txo). \<not> is_outpoint_locked w (ft_outpoint txo))
         (va_unspent (cha A) (w_view w) (ia_outpoints (ixa A) (w_index w))))"

definition filter_utxos where
  "filter_utxos A w P current_height v =
     (if p_manually_selected_only P then Ok []
      else res_map (weighted_local A w) (filter (may_spend A w P v) (mature_unspent A w current_height)))"

definition candidates where
  "candidates A w P current_height v =
     (let required = p_utxos P in
      res_bind (filter_utxos A w P current_height v) (\<lambda>optional.
      if p_drain_wallet P then Ok (required @ optional, []) else Ok (required, optional)))"

text \<open>\<open>peek_address(..).script_pubkey()\<close> is the script the address was made from.\<close>

definition unused_or_next where
  "unused_or_next A w change_keychain =
     (case ia_unused_spks (ixa A) (w_index w) change_keychain of
        e # _ \<Rightarrow> Ok e
      | [] \<Rightarrow>
          res_bind (expect (ia_next_index (ixa A) (w_index w) change_keychain)) (\<lambda>(next_index, _).
          res_bind (peek_spk A w change_keychain next_index) (\<lambda>(keychain, index, spk).
          res_bind (address_info_of A w keychain index spk) (\<lambda>_. Ok (next_index, spk)))))"

definition choose_drain_script where
  "choose_drain_script A w P =
     (case p_drain_to P of
        Some drain_recipient \<Rightarrow> Ok (drain_recipient, None)
      | None \<Rightarrow>
          (let change_keychain = map_keychain A w Internal in
           res_bind (unused_or_next A w change_keychain) (\<lambda>(index, spk).
           Ok (spk, Some (change_keychain, index)))))"

subsection \<open>Inputs and change\<close>

definition make_input :: "u32 \<Rightarrow> utxo \<Rightarrow> txin" where
  "make_input n_sequence u =
     \<lparr>previous_output = utxo_outpoint u, script_sig = [],
      sequence = (case utxo_sequence u of Some s \<Rightarrow> s | None \<Rightarrow> n_sequence), witness = []\<rparr>"

definition check_outputs :: "tx_params \<Rightarrow> txout list \<Rightarrow> excess \<Rightarrow> (create_tx_error, unit) res" where
  "check_outputs P outs ex =
     (if outs = [] then
        (if p_drain_to P \<noteq> None \<and> (p_drain_wallet P \<or> p_utxos P \<noteq> []) then
           (case ex of
              NoChange dust remaining cfee \<Rightarrow>
                Err (CCoinSelection \<lparr>needed = dust,
                  available = (case checked_sub remaining cfee of Some d \<Rightarrow> d | None \<Rightarrow> 0)\<rparr>)
            | Change _ _ \<Rightarrow> Ok ())
         else Err NoRecipients)
      else Ok ())"

definition add_change :: "excess \<Rightarrow> script \<Rightarrow> txout list \<Rightarrow> txout list" where
  "add_change ex drain_script outs =
     (case ex of
        Change a _ \<Rightarrow> outs @ [\<lparr>txo_value = a, txo_script = drain_script\<rparr>]
      | NoChange _ _ _ \<Rightarrow> outs)"

subsection \<open>Completing the PSBT\<close>

record 'x xpub_api =
  xp_id :: "'x \<Rightarrow> nat"
  xp_depth :: "'x \<Rightarrow> nat"

definition get_extended_keys where
  "get_extended_keys D d = List.map_filter (\<lambda>k. case k of XPubKey xk \<Rightarrow> Some xk | _ \<Rightarrow> None) (da_keys D d)"

definition xpub_origin :: "'x xpub_api \<Rightarrow> 'x pol_env \<Rightarrow> 'x desc_xkey \<Rightarrow> (create_tx_error, key_source) res" where
  "xpub_origin X E xpub =
     (case xk_origin xpub of
        Some origin \<Rightarrow> Ok origin
      | None \<Rightarrow>
          if xp_depth X (xk_key xpub) = 0
          then Ok (xkey_root_fingerprint (key_fingerprint E) xpub, [])
          else Err (MissingKeyOrigin (xp_id X (xk_key xpub))))"

definition add_xpubs where
  "add_xpubs X E A w P p =
     (if \<not> p_add_global_xpubs P then Ok p
      else res_fold (\<lambda>p xpub. res_bind (xpub_origin X E xpub) (\<lambda>origin.
             Ok (p\<lparr>psbt_xpubs := bt_insert (xp_id X (xk_key xpub)) origin (psbt_xpubs p)\<rparr>)))
           p (concat (map (\<lambda>(_, d). get_extended_keys (dsa A) d) (keychains A w))))"

fun form_is_witness :: "'x descriptor_form \<Rightarrow> bool" where
  "form_is_witness (DWpkh _) = True"
| "form_is_witness (DShWpkh _) = True"
| "form_is_witness (DWshMs _) = True"
| "form_is_witness (DShWshMs _) = True"
| "form_is_witness (DShWshSortedMulti _ _) = True"
| "form_is_witness (DWshSortedMulti _ _) = True"
| "form_is_witness _ = False"

fun form_is_taproot :: "'x descriptor_form \<Rightarrow> bool" where
  "form_is_taproot (DTr _ _) = True"
| "form_is_taproot _ = False"

definition utxo_check_error :: nat where
  "utxo_check_error = 0"

definition fill_prevout where
  "fill_prevout D d only_witness_utxo prevout prev_tx pin =
     (let form = da_form D d;
          pin = (if form_is_witness form \<or> form_is_taproot form
                 then pin\<lparr>witness_utxo := Some prevout\<rparr> else pin) in
      if \<not> form_is_taproot form \<and> (\<not> form_is_witness form \<or> \<not> only_witness_utxo)
      then pin\<lparr>non_witness_utxo := Some prev_tx\<rparr> else pin)"

definition get_psbt_input where
  "get_psbt_input A w u st only_witness_utxo =
     res_bind (ok_or (ia_index_of_spk (ixa A) (w_index w) (txo_script (lo_txout u))) CUnknownUtxo) (\<lambda>(keychain, child).
     res_bind (public_descriptor A w keychain) (\<lambda>d.
     res_bind (expect (da_at_index (dsa A) d child)) (\<lambda>derived.
     res_bind (map_err CMiniscriptPsbt
         (da_update_unchecked (dsa A) derived (psbt_input_default\<lparr>sighash_type := st\<rparr>))) (\<lambda>pin.
     case ga_get_tx (tga A) (w_graph w) (op_txid (lo_outpoint u)) of
       None \<Rightarrow> Ok pin
     | Some prev_tx \<Rightarrow>
         res_bind (ok_or (get_nth (tx_output prev_tx) (unat (op_vout (lo_outpoint u))))
             (CMiniscriptPsbt utxo_check_error)) (\<lambda>prevout.
         Ok (fill_prevout (dsa A) d only_witness_utxo prevout prev_tx pin))))))"

definition local_psbt_input where
  "local_psbt_input A w P u =
     (case get_psbt_input A w u (p_sighash P) (p_only_witness_utxo P) of
        Err CUnknownUtxo \<Rightarrow> Ok (psbt_input_default\<lparr>sighash_type := p_sighash P\<rparr>)
      | r \<Rightarrow> r)"

definition foreign_psbt_input :: "btc \<Rightarrow> tx_params \<Rightarrow> outpoint \<Rightarrow> psbt_input \<Rightarrow> (create_tx_error, psbt_input) res" where
  "foreign_psbt_input B P outpoint pin =
     (let is_taproot = (case witness_utxo pin of Some t \<Rightarrow> is_p2tr B (txo_script t) | None \<Rightarrow> False) in
      if \<not> is_taproot \<and> \<not> p_only_witness_utxo P \<and> non_witness_utxo pin = None
      then Err (CMissingNonWitnessUtxo outpoint)
      else Ok pin)"

definition psbt_input_for where
  "psbt_input_for B A w P u =
     (case u of
        Local l \<Rightarrow> local_psbt_input A w P l
      | Foreign outpoint _ pin \<Rightarrow> foreign_psbt_input B P outpoint pin)"

text \<open>The loop over the inputs: \<open>lookup\<close> is the map of the selected UTXOs that are left.\<close>

fun fill_inputs :: "(utxo \<Rightarrow> ('e, psbt_input) res) \<Rightarrow> (outpoint \<Rightarrow> utxo option) \<Rightarrow> (psbt_input \<times> txin) list
    \<Rightarrow> ('e, psbt_input list) res" where
  "fill_inputs f lookup [] = Ok []"
| "fill_inputs f lookup ((pin, input) # rest) =
     (case lookup (previous_output input) of
        None \<Rightarrow> res_bind (fill_inputs f lookup rest) (\<lambda>pins. Ok (pin # pins))
      | Some u \<Rightarrow>
          res_bind (f u) (\<lambda>pin'.
          res_bind (fill_inputs f (lookup(previous_output input := None)) rest) (\<lambda>pins.
          Ok (pin' # pins))))"

definition selected_map :: "utxo list \<Rightarrow> outpoint \<Rightarrow> utxo option" where
  "selected_map us = foldl (\<lambda>m u. m(utxo_outpoint u \<mapsto> u)) Map.empty us"

definition update_one where
  "update_one A w p e =
     (case e of (is_input, index, out) \<Rightarrow>
      (case ia_index_of_spk (ixa A) (w_index w) (txo_script out) of
         None \<Rightarrow> Ok p
       | Some (keychain, child) \<Rightarrow>
           res_bind (public_descriptor A w keychain) (\<lambda>d.
           res_bind (expect (da_at_index (dsa A) d child)) (\<lambda>derived.
           if is_input then da_update_input (dsa A) index derived p
           else da_update_output (dsa A) index derived p))))"

definition update_psbt_with_descriptor where
  "update_psbt_with_descriptor B A w p =
     res_bind (res_map (get_utxo_for B p) [0..<length (inputs p)]) (\<lambda>ins.
     let utxos = List.map_filter (\<lambda>(i, u). map_option (\<lambda>u. (True, i, u)) u) (List.enumerate 0 ins)
           @ map (\<lambda>(i, out). (False, i, out)) (List.enumerate 0 (tx_output (unsigned_tx p))) in
     res_fold (update_one A w) p utxos)"

definition complete_transaction where
  "complete_transaction B X E A w tx us P =
     res_bind (add_xpubs X E A w P (psbt_from_unsigned_tx tx)) (\<lambda>p.
     res_bind (fill_inputs (psbt_input_for B A w P) (selected_map us)
         (zip (inputs p) (tx_input (unsigned_tx p)))) (\<lambda>pins.
     map_err CMiniscriptPsbt (update_psbt_with_descriptor B A w (p\<lparr>inputs := pins\<rparr>))))"

subsection \<open>The whole function\<close>

record tx_plan =
  pl_version :: int
  pl_lock_time :: locktime
  pl_height :: locktime
  pl_sequence :: u32
  pl_rate :: feerate
  pl_fee :: amount

definition plan_tx where
  "plan_tx B E A w P =
     res_bind (wallet_policies B E A w) (\<lambda>(ext_policy, int_policy).
     res_bind (check_policy_paths B P ext_policy int_policy) (\<lambda>_.
     res_bind (policy_requirements B P ext_policy int_policy) (\<lambda>requirements.
     res_bind (choose_version P requirements) (\<lambda>v.
     res_bind (choose_current_height A w P) (\<lambda>current_height.
     res_bind (choose_lock_time (p_locktime P) (timelock requirements) current_height) (\<lambda>lock_time.
     res_bind (choose_sequence B (p_sequence P) (csv requirements)) (\<lambda>n_sequence.
     res_bind (choose_fee P) (\<lambda>(rate, fee).
     Ok \<lparr>pl_version = v, pl_lock_time = lock_time, pl_height = current_height,
         pl_sequence = n_sequence, pl_rate = rate, pl_fee = fee\<rparr>))))))))"

definition record_change where
  "record_change A w ex drain_index =
     (case (ex, drain_index) of
        (Change _ _, Some (keychain, index)) \<Rightarrow>
          (case ia_reveal_to (ixa A) keychain index (w_index w) of
             (None, ix) \<Rightarrow> w\<lparr>w_index := ix\<rparr>
           | (Some (_, index_changeset), ix) \<Rightarrow>
               snd (mark_used A (stage_merge A (cs_from_indexer (exa A) index_changeset) (w\<lparr>w_index := ix\<rparr>))
                      keychain index))
      | _ \<Rightarrow> w)"

text \<open>From the plan to the sorted transaction: the selected outputs, the excess and the index of
  the change script come with it.\<close>

definition build_unsigned where
  "build_unsigned B A S next_u32 select w P plan rng =
     (let tx = \<lparr>tx_version = pl_version plan, tx_lock_time = pl_lock_time plan, tx_input = [],
                 tx_output = [], tx_mw_tx = None, tx_is_hog_ex = False\<rparr> in
      res_bind (fail_if (p_manually_selected_only P \<and> p_utxos P = []) NoUtxosSelected) (\<lambda>_.
      res_bind (add_recipients B (p_allow_dust P) 0 (p_recipients P) ([], 0)) (\<lambda>(outs, outgoing).
      let tx = tx\<lparr>tx_output := outs\<rparr> in
      res_bind (expect (fee_mul B (pl_rate plan) (tx_weight B tx))) (\<lambda>base_fee.
      res_bind (u64_add (pl_fee plan) base_fee) (\<lambda>fee_amount.
      res_bind (candidates A w P (locktime_u32 (pl_height plan)) (pl_version plan)) (\<lambda>(required, optional).
      res_bind (choose_drain_script A w P) (\<lambda>(drain_script, drain_index).
      res_bind (u64_add outgoing fee_amount) (\<lambda>target.
      res_bind (map_err CCoinSelection (select required optional (pl_rate plan) target drain_script rng)) (\<lambda>(r, rng).
      let tx = tx\<lparr>tx_input := map (make_input (pl_sequence plan)) (selected r)\<rparr> in
      res_bind (check_outputs P outs (cs_excess r)) (\<lambda>_.
      let tx = tx\<lparr>tx_output := add_change (cs_excess r) drain_script outs\<rparr> in
      let sorted_tx = sort_tx_with_aux_rand S next_u32 (p_ordering P) tx rng in
      Ok (fst sorted_tx, r, drain_index, snd sorted_tx)))))))))))"

definition create_tx where
  "create_tx B X E A S next_u32 select w P rng =
     res_bind (plan_tx B E A w P) (\<lambda>plan.
     res_bind (build_unsigned B A S next_u32 select w P plan rng) (\<lambda>(tx, r, drain_index, rng).
     res_bind (complete_transaction B X E A w tx (selected r) P) (\<lambda>p.
     Ok (p, record_change A w (cs_excess r) drain_index, rng))))"

text \<open>\<open>finish_mweb_pegin\<close>: the body must be there and one recipient must be a bridge output with
  witness version 9. \<open>is_bridge\<close> is \<open>bdk_chain::is_mweb_bridge_output\<close>.\<close>

definition finish_mweb_pegin where
  "finish_mweb_pegin is_bridge witness_version create P =
     (case p_mweb_tx P of
        None \<Rightarrow> Err MwebPegInMissingBody
      | Some mw_tx \<Rightarrow>
          if \<not> list_ex (\<lambda>(spk, _). is_bridge spk \<and> witness_version spk = Some (9 :: nat)) (p_recipients P)
          then Err MwebPegInMissingBody
          else res_bind (create P) (\<lambda>(p, rest). Ok ((p, mw_tx), rest)))"

end
