(* ===== verification/Policy_Facts.thy ===== *)
theory Policy_Facts
  imports Policy
begin

section \<open>Properties of spending policies\<close>

text \<open>
  The queue algorithms \<open>combinations\<close> and \<open>mix\<close> against the subsequences and the Cartesian
  product; the meaning of a condition (which lock time and sequence meet it) and of merging; the
  conditions of a partial satisfaction after \<open>finalize\<close>; the condition of a path against the lock
  times along it; that extraction never fails.
\<close>

subsection \<open>Combinations and mix\<close>

lemma set_subseqs_unfold:
  "set (subseqs w) = insert [] (\<Union>j < length w. (#) (w ! j) ` set (subseqs (drop (Suc j) w)))"
proof (induction w)
  case (Cons x w)
  have "{..<length (x # w)} = insert 0 (Suc ` {..<length w})"
    by (auto simp: lessThan_Suc_eq_insert_0)
  then show ?case
    using Cons by (auto simp: Let_def)
qed simp

lemma Nil_in_subseqs [simp]: "[] \<in> set (subseqs w)"
  by (induction w) (auto simp: Let_def)

definition completions :: "'a list \<Rightarrow> nat \<Rightarrow> nat \<times> 'a list \<Rightarrow> 'a list set" where
  "completions v k e = (if k \<le> length (snd e) then {snd e}
     else {snd e @ ys | ys. ys \<in> set (subseqs (drop (Suc (fst e)) v)) \<and> length (snd e) + length ys = k})"

lemma completions_unfold:
  assumes "length vals < k"
  shows "completions v k (index, vals) =
    (\<Union>j < length (drop (Suc index) v). completions v k (Suc (index + j), vals @ [drop (Suc index) v ! j]))"
  (is "?L = ?R")
proof -
  let ?w = "drop (Suc index) v"
  have tails: "drop (Suc (Suc (index + j))) v = drop (Suc j) ?w" for j
    by (simp add: add.commute)
  have "ys \<in> ?L \<longleftrightarrow> ys \<in> ?R" for ys
  proof
    assume "ys \<in> ?L"
    then obtain zs where zs: "ys = vals @ zs" "zs \<in> set (subseqs ?w)" "length vals + length zs = k"
      using assms by (auto simp: completions_def)
    with assms obtain j us where "j < length ?w" "zs = ?w ! j # us" "us \<in> set (subseqs (drop (Suc j) ?w))"
      using set_subseqs_unfold [of ?w] by auto
    then show "ys \<in> ?R"
      using zs by (auto simp: completions_def tails simp del: drop_drop)
  next
    assume "ys \<in> ?R"
    then obtain j where j: "j < length ?w" "ys \<in> completions v k (Suc (index + j), vals @ [?w ! j])"
      by blast
    then obtain us where "ys = vals @ ?w ! j # us" "us \<in> set (subseqs (drop (Suc j) ?w))"
      "Suc (length vals + length us) = k"
      using assms by (auto simp: completions_def tails simp del: drop_drop split: if_splits)
    moreover have "?w ! j # us \<in> set (subseqs ?w)"
      using set_subseqs_unfold [of ?w] j(1) calculation(2) by blast
    ultimately show "ys \<in> ?L"
      using assms by (auto simp: completions_def)
  qed
  then show ?thesis by blast
qed

lemma set_enumerate_map:
  "set (map (\<lambda>(j, x). f j x) (List.enumerate 0 w)) = (\<lambda>j. f j (w ! j)) ` {..<length w}"
proof -
  have "set (List.enumerate 0 w) = (\<lambda>j. (j, w ! j)) ` {..<length w}"
    by (auto simp: enumerate_eq_zip set_zip) (metis add_0 nth_upt)
  then show ?thesis
    by (simp add: image_image)
qed

lemma set_combinations_loop:
  "set (combinations_loop v k queue) = (\<Union>e \<in> set queue. completions v k e)"
proof (induction v k queue rule: combinations_loop.induct)
  case (2 v k index vals queue)
  show ?case
  proof (cases "k \<le> length vals")
    case True
    then show ?thesis
      using "2.IH"(1) by (simp add: completions_def)
  next
    case False
    then show ?thesis
      using "2.IH"(2) completions_unfold [of vals k v index]
      by (simp add: set_enumerate_map del: set_map)
  qed
qed simp

lemma set_combinations:
  assumes "1 \<le> k" "k \<le> length v"
  shows "\<exists>cs. combinations v k = (Ok cs :: ('e, 'a list list) res) \<and>
    set cs = {ys \<in> set (subseqs v). length ys = k}"
proof -
  let ?start = "map (\<lambda>(i, x). (i, [x])) (List.enumerate 0 v)"
  have "set (combinations_loop v k ?start) = (\<Union>j < length v. completions v k (j, [v ! j]))"
    by (simp add: set_combinations_loop set_enumerate_map del: set_map)
  also have "\<dots> = {ys \<in> set (subseqs v). length ys = k}"
  proof -
    have "completions v k (j, [v ! j]) = {ys. length ys = k \<and> ys \<in> (#) (v ! j) ` set (subseqs (drop (Suc j) v))}" for j
      using assms by (cases "k = 1") (auto simp: completions_def image_iff)
    then show ?thesis
      using assms set_subseqs_unfold [of v] by auto
  qed
  finally show ?thesis
    using assms by (simp add: combinations_def panic_unless_def)
qed

text \<open>\<open>combinations\<close> returns exactly the selections of the requested size. For a size between
  one and the number of items the result holds the subsequences of that length, and nothing else.\<close>

lemma combinations_subseqs:
  assumes "1 \<le> k" "k \<le> length v"
  shows "\<exists>cs. combinations v k = (Ok cs :: ('e, 'a list list) res) \<and>
    set cs = {ys \<in> set (subseqs v). length ys = k}"
  by (rule set_combinations [OF assms])

lemma combinations_subseqs_witness:
  "\<exists>cs. combinations [4, 7, 9 :: nat] 2 = (Ok cs :: (policy_error, nat list list) res) \<and>
    set cs = {ys \<in> set (subseqs [4, 7, 9]). length ys = 2}"
  by (rule combinations_subseqs) simp_all

lemma set_mix_loop:
  "\<forall>vals \<in> set queue. length vals \<le> length vec \<Longrightarrow>
    set (mix_loop vec queue) = (\<Union>vals \<in> set queue. (@) vals ` set (product_lists (drop (length vals) vec)))"
proof (induction vec queue rule: mix_loop.induct)
  case (2 vec vals queue)
  show ?case
  proof (cases "length vec \<le> length vals")
    case True
    then show ?thesis
      using 2 by simp
  next
    case False
    then have "drop (length vals) vec = vec ! length vals # drop (Suc (length vals)) vec"
      by (simp add: Cons_nth_drop_Suc)
    then have "(@) vals ` set (product_lists (drop (length vals) vec))
        = (\<Union>i \<in> set (vec ! length vals). (@) (vals @ [i]) ` set (product_lists (drop (Suc (length vals)) vec)))"
      by (auto simp: image_iff)
    moreover have "\<forall>w \<in> set (rev (map (\<lambda>i. vals @ [i]) (vec ! length vals)) @ queue). length w \<le> length vec"
      using False "2.prems" by auto
    ultimately show ?thesis
      using "2.IH"(2) False by simp
  qed
qed simp

lemma set_mix:
  assumes "vec \<noteq> []"
  shows "set (mix vec) = set (product_lists vec)"
proof (cases "list_ex (\<lambda>xs. xs = []) vec")
  case True
  then have "product_lists vec = []"
    by (induction vec) auto
  then show ?thesis
    using True by (simp add: mix_def)
next
  case False
  from assms obtain xs xss where vec: "vec = xs # xss"
    by (cases vec) auto
  have "set (mix_loop vec (map (\<lambda>i. [i]) xs)) = (\<Union>i \<in> set xs. (@) [i] ` set (product_lists xss))"
    by (subst set_mix_loop) (auto simp: vec)
  then show ?thesis
    using False by (auto simp: mix_def vec)
qed

text \<open>\<open>mix\<close> computes the Cartesian product: one element of every list, in the order of the
  lists, every choice and no other; in particular it is empty when one of the lists is.\<close>

lemma mix_product:
  assumes "vec \<noteq> []"
  shows "set (mix vec) = set (product_lists vec)"
  by (rule set_mix [OF assms])

lemma mix_product_witness:
  "set (mix [[1, 2], [3 :: nat]]) = set (product_lists [[1, 2], [3]])"
  by (rule mix_product) simp

subsection \<open>The meaning of conditions\<close>

text \<open>Which sequence number and lock time of a transaction meet a condition: the same unit, and at
  least the required value.\<close>

definition meets :: "btc \<Rightarrow> u32 \<Rightarrow> locktime \<Rightarrow> condition \<Rightarrow> bool" where
  "meets B sq lt c \<longleftrightarrow>
     (case csv c of None \<Rightarrow> True | Some s \<Rightarrow> seq_time B sq = seq_time B s \<and> s \<le> sq) \<and>
     (case timelock c of None \<Rightarrow> True | Some t \<Rightarrow> locktime_geq lt t)"

lemma meets_default [simp]: "meets B sq lt condition_default"
  by (simp add: meets_def condition_default_def)

lemma meets_null: "is_null c \<Longrightarrow> meets B sq lt c"
  by (simp add: meets_def is_null_def)

lemma merge_nlocktime_cases:
  "case merge_nlocktime a b of
     Ok c \<Rightarrow> locktime_geq lt c \<longleftrightarrow> locktime_geq lt a \<and> locktime_geq lt b
   | Err e \<Rightarrow> e = MixedTimelockUnits \<and> \<not> (locktime_geq lt a \<and> locktime_geq lt b)
   | Panic \<Rightarrow> False"
  by (cases a; cases b; cases lt) (auto simp: merge_nlocktime_def locktime_less_def locktime_geq_def)

lemma merge_nsequence_cases:
  "case merge_nsequence B a b of
     Ok c \<Rightarrow> seq_time B sq = seq_time B c \<and> c \<le> sq \<longleftrightarrow>
       (seq_time B sq = seq_time B a \<and> a \<le> sq) \<and> (seq_time B sq = seq_time B b \<and> b \<le> sq)
   | Err e \<Rightarrow> e = MixedTimelockUnits \<and>
       \<not> ((seq_time B sq = seq_time B a \<and> a \<le> sq) \<and> (seq_time B sq = seq_time B b \<and> b \<le> sq))
   | Panic \<Rightarrow> False"
  by (auto simp: merge_nsequence_def max_def)

lemma condition_merge_meets:
  "case condition_merge B a b of
     Ok c \<Rightarrow> meets B sq lt c \<longleftrightarrow> meets B sq lt a \<and> meets B sq lt b
   | Err e \<Rightarrow> e = MixedTimelockUnits \<and> \<not> (meets B sq lt a \<and> meets B sq lt b)
   | Panic \<Rightarrow> False"
proof -
  have c: "case merge_component (merge_nsequence B) (csv a) (csv b) of
     Ok c \<Rightarrow> (case c of None \<Rightarrow> True | Some s \<Rightarrow> seq_time B sq = seq_time B s \<and> s \<le> sq) \<longleftrightarrow>
        (case csv a of None \<Rightarrow> True | Some s \<Rightarrow> seq_time B sq = seq_time B s \<and> s \<le> sq) \<and>
        (case csv b of None \<Rightarrow> True | Some s \<Rightarrow> seq_time B sq = seq_time B s \<and> s \<le> sq)
   | Err e \<Rightarrow> e = MixedTimelockUnits \<and> \<not> (
        (case csv a of None \<Rightarrow> True | Some s \<Rightarrow> seq_time B sq = seq_time B s \<and> s \<le> sq) \<and>
        (case csv b of None \<Rightarrow> True | Some s \<Rightarrow> seq_time B sq = seq_time B s \<and> s \<le> sq))
   | Panic \<Rightarrow> False"
  proof (cases "csv a"; cases "csv b")
    fix x y assume "csv a = Some x" "csv b = Some y"
    then show ?thesis
      using merge_nsequence_cases [where B = B and a = x and b = y and sq = sq] by (cases "merge_nsequence B x y") auto
  qed auto
  have t: "case merge_component merge_nlocktime (timelock a) (timelock b) of
     Ok c \<Rightarrow> (case c of None \<Rightarrow> True | Some t \<Rightarrow> locktime_geq lt t) \<longleftrightarrow>
        (case timelock a of None \<Rightarrow> True | Some t \<Rightarrow> locktime_geq lt t) \<and>
        (case timelock b of None \<Rightarrow> True | Some t \<Rightarrow> locktime_geq lt t)
   | Err e \<Rightarrow> e = MixedTimelockUnits \<and> \<not> (
        (case timelock a of None \<Rightarrow> True | Some t \<Rightarrow> locktime_geq lt t) \<and>
        (case timelock b of None \<Rightarrow> True | Some t \<Rightarrow> locktime_geq lt t))
   | Panic \<Rightarrow> False"
  proof (cases "timelock a"; cases "timelock b")
    fix x y assume "timelock a = Some x" "timelock b = Some y"
    then show ?thesis
      using merge_nlocktime_cases [where a = x and b = y and lt = lt] by (cases "merge_nlocktime x y") auto
  qed auto
  show ?thesis
    using c t unfolding condition_merge_def meets_def
    by (auto split: res.splits option.splits)
qed

text \<open>Merging two conditions is their conjunction. When the merge succeeds, a sequence number
  and lock time meet the result exactly when they meet both conditions; when it fails, with
  \<open>MixedTimelockUnits\<close>, no sequence number and lock time meet both.\<close>

lemma merge_conjunction:
  "case condition_merge B a b of
     Ok c \<Rightarrow> meets B sq lt c \<longleftrightarrow> meets B sq lt a \<and> meets B sq lt b
   | Err e \<Rightarrow> e = MixedTimelockUnits \<and> \<not> (meets B sq lt a \<and> meets B sq lt b)
   | Panic \<Rightarrow> False"
  by (rule condition_merge_meets)

subsection \<open>Folding the conditions of a partial satisfaction\<close>

lemma set_List_insert [simp]: "set (List.insert x xs) = insert x (set xs)"
  by (simp add: List.insert_def insert_absorb)

definition folded_lookup :: "folded_condition_map \<Rightarrow> nat list \<Rightarrow> condition set" where
  "folded_lookup m key = (case bt_get m key of Some cs \<Rightarrow> set cs | None \<Rightarrow> {})"

lemma fold_entry_insert:
  "bt_wf acc \<Longrightarrow> bt_wf (fold entry_insert entries acc) \<and>
    folded_lookup (fold entry_insert entries acc) key
      = folded_lookup acc key \<union> {c. (key, c) \<in> set entries}"
proof (induction entries arbitrary: acc)
  case (Cons kv entries)
  have wf: "bt_wf (entry_insert kv acc)"
    using Cons.prems by (simp add: entry_insert_def bt_simps)
  have "folded_lookup (entry_insert kv acc) key
      = folded_lookup acc key \<union> {c. (key, c) = kv}"
    using Cons.prems
    by (cases kv) (auto simp: entry_insert_def folded_lookup_def bt_simps split: option.splits)
  then show ?case
    using Cons.IH [OF wf] by auto
qed simp

lemma set_map_filter: "set (List.map_filter f xs) = {y. \<exists>x \<in> set xs. f x = Some y}"
  by (induction xs) (auto simp: List.map_filter_simps split: option.splits)

lemma folded_entries_iff:
  "(key, c) \<in> set (folded_entries B conditions indexes) \<longleftrightarrow> key \<in> set indexes \<and>
    (\<exists>x \<in> set (mix (map (\<lambda>i. case bt_get conditions i of Some cs \<Rightarrow> cs | None \<Rightarrow> []) key)).
      merge_all B x = Ok c)"
proof -
  have ok: "(case r of Ok c \<Rightarrow> Some (k, c) | _ \<Rightarrow> None) = Some y \<longleftrightarrow> (\<exists>c. r = Ok c \<and> y = (k, c))"
    for r :: "(policy_error, condition) res" and k y
    by (cases r) auto
  show ?thesis
    by (auto simp: folded_entries_def set_map_filter ok)
qed

lemma in_product_lists: "xs \<in> set (product_lists xss) \<longleftrightarrow> list_all2 (\<lambda>x ys. x \<in> set ys) xs xss"
  by (induction xss arbitrary: xs) (auto simp: list_all2_Cons2)

lemma finalized_conditions:
  assumes "1 \<le> m" "m \<le> length items"
  shows "\<exists>folded. sat_finalize B (Partial n m items srt conditions) = Ok (PartialComplete n m items srt folded) \<and>
    (\<forall>key c. c \<in> folded_lookup folded key \<longleftrightarrow> key \<in> set (subseqs items) \<and> length key = m \<and>
      (\<exists>choice. list_all2 (\<lambda>x i. \<exists>cs. bt_get conditions i = Some cs \<and> x \<in> set cs) choice key \<and>
        merge_all B choice = Ok c))"
proof -
  from set_combinations [OF assms, where 'e = policy_error] obtain indexes where
    idx: "combinations items m = (Ok indexes :: (policy_error, _) res)"
      "set indexes = {ys \<in> set (subseqs items). length ys = m}" by blast
  let ?folded = "fold entry_insert (folded_entries B conditions indexes) []"
  let ?sets = "map (\<lambda>i. case bt_get conditions i of Some cs \<Rightarrow> cs | None \<Rightarrow> [])"
  have "c \<in> folded_lookup ?folded key \<longleftrightarrow> key \<in> set (subseqs items) \<and> length key = m \<and>
      (\<exists>choice. list_all2 (\<lambda>x i. \<exists>cs. bt_get conditions i = Some cs \<and> x \<in> set cs) choice key \<and>
        merge_all B choice = Ok c)" for key c
  proof -
    have "c \<in> folded_lookup ?folded key \<longleftrightarrow> (key, c) \<in> set (folded_entries B conditions indexes)"
      using fold_entry_insert [of "[]" "folded_entries B conditions indexes" key]
      by (simp add: bt_simps folded_lookup_def)
    moreover have "x \<in> set (mix (?sets key)) \<longleftrightarrow>
        list_all2 (\<lambda>x i. \<exists>cs. bt_get conditions i = Some cs \<and> x \<in> set cs) x key"
      if "key \<in> set indexes" for x
    proof -
      have "key \<noteq> []"
        using that idx(2) assms(1) by auto
      moreover have "y \<in> set (case bt_get conditions i of Some cs \<Rightarrow> cs | None \<Rightarrow> []) \<longleftrightarrow>
          (\<exists>cs. bt_get conditions i = Some cs \<and> y \<in> set cs)" for y i
        by (cases "bt_get conditions i") simp_all
      ultimately show ?thesis
        by (simp add: set_mix in_product_lists list_all2_map2)
    qed
    ultimately show ?thesis
      using idx(2) unfolding folded_entries_iff by blast
  qed
  then show ?thesis
    using assms(2) idx(1) by (simp add: sat_finalize_def)
qed

text \<open>C36: the folded conditions of a satisfied threshold are exactly the ways to satisfy it. When a
  partial satisfaction holds at least \<open>m\<close> items, \<open>finalize\<close> makes it complete, and a condition is
  listed under a set of items exactly when the set is a choice of \<open>m\<close> of the items, the condition
  is the merge of one condition of each of them, and that merge succeeded.\<close>

theorem finalize_conditions:
  assumes "1 \<le> m" "m \<le> length items"
  shows "\<exists>folded. sat_finalize B (Partial n m items srt conditions) = Ok (PartialComplete n m items srt folded) \<and>
    (\<forall>key c. c \<in> folded_lookup folded key \<longleftrightarrow> key \<in> set (subseqs items) \<and> length key = m \<and>
      (\<exists>choice. list_all2 (\<lambda>x i. \<exists>cs. bt_get conditions i = Some cs \<and> x \<in> set cs) choice key \<and>
        merge_all B choice = Ok c))"
  by (rule finalized_conditions [OF assms])

theorem finalize_conditions_witness:
  "\<exists>folded. sat_finalize btc_example (Partial 2 1 [0, 1] None
      [(0, [condition_default]), (1, [\<lparr>csv = None, timelock = Some (Blocks 5)\<rparr>])])
    = Ok (PartialComplete 2 1 [0, 1] None folded) \<and>
    \<lparr>csv = None, timelock = Some (Blocks 5)\<rparr> \<in> folded_lookup folded [1]"
proof -
  let ?conds = "[(0, [condition_default]), (1, [\<lparr>csv = None, timelock = Some (Blocks 5)\<rparr>])]"
  let ?c = "\<lparr>csv = None, timelock = Some (Blocks 5)\<rparr>"
  have "list_all2 (\<lambda>x i. \<exists>cs. bt_get ?conds i = Some cs \<and> x \<in> set cs) [?c] [1 :: nat]"
    by (simp add: bt_get_def)
  moreover have "merge_all btc_example [?c] = Ok ?c"
    by (simp add: merge_all_def condition_merge_def condition_default_def)
  ultimately show ?thesis
    using finalize_conditions [of 1 "[0, 1]" btc_example 2 None ?conds] by fastforce
qed

subsection \<open>Thresholds never fail to build\<close>

definition counts_as_item :: "satisfaction \<Rightarrow> bool" where
  "counts_as_item s = (case s of Complete _ \<Rightarrow> True | PartialComplete _ _ _ _ _ \<Rightarrow> True | _ \<Rightarrow> False)"

definition item_indexes :: "satisfaction list \<Rightarrow> nat \<Rightarrow> nat list" where
  "item_indexes ss k = map fst (filter (\<lambda>e. counts_as_item (snd e)) (List.enumerate k ss))"

lemma item_indexes_Cons:
  "item_indexes (s # ss) k = (if counts_as_item s then k # item_indexes ss (Suc k) else item_indexes ss (Suc k))"
  by (simp add: item_indexes_def)

lemma sat_add_fresh:
  assumes "index < n" "index \<notin> set items"
  shows "\<exists>conds'. sat_add (Partial n m items srt conds) s index
    = Ok (Partial n m (if counts_as_item s then items @ [index] else items) srt conds')"
  using assms by (auto simp: sat_add_def counts_as_item_def split: satisfaction.splits)

lemma add_items_Ok:
  assumes "k + length ps \<le> n" "\<forall>i \<in> set items. i < k" "\<forall>i \<in> set items'. i < k"
  shows "\<exists>conds1 conds1'. add_items (Partial n m items srt conds) (Partial n m items' srt conds') ps k
    = Ok (Partial n m (items @ item_indexes (map fst ps) k) srt conds1,
          Partial n m (items' @ item_indexes (map snd ps) k) srt conds1')"
  using assms
proof (induction ps arbitrary: k items items' conds conds')
  case Nil
  then show ?case by (simp add: item_indexes_def)
next
  case (Cons p ps)
  obtain c s where p: "p = (c, s)" by (cases p)
  have lt: "k < n" "k \<notin> set items" "k \<notin> set items'"
    using Cons.prems by auto
  from sat_add_fresh [OF lt(1,2)] obtain c1 where c1:
    "sat_add (Partial n m items srt conds) c k
      = Ok (Partial n m (if counts_as_item c then items @ [k] else items) srt c1)" by blast
  from sat_add_fresh [OF lt(1,3)] obtain c2 where c2:
    "sat_add (Partial n m items' srt conds') s k
      = Ok (Partial n m (if counts_as_item s then items' @ [k] else items') srt c2)" by blast
  have "\<forall>i \<in> set (if counts_as_item c then items @ [k] else items). i < Suc k"
    "\<forall>i \<in> set (if counts_as_item s then items' @ [k] else items'). i < Suc k" "Suc k + length ps \<le> n"
    using Cons.prems by (auto simp: less_Suc_eq)
  from Cons.IH [OF this(3,1,2), of c1 c2] show ?case
    by (auto simp: p c1 c2 item_indexes_Cons)
qed

definition completes :: "nat \<Rightarrow> satisfaction list \<Rightarrow> bool" where
  "completes threshold ss \<longleftrightarrow> threshold \<le> length (filter counts_as_item ss)"

lemma length_item_indexes: "length (item_indexes ss k) = length (filter counts_as_item ss)"
  by (induction ss arbitrary: k) (auto simp: item_indexes_Cons item_indexes_def)

lemma sat_finalize_Partial:
  assumes "1 \<le> m"
  shows "\<exists>s. sat_finalize B (Partial n m items srt conds) = Ok s \<and> (counts_as_item s \<longleftrightarrow> m \<le> length items)"
proof (cases "m \<le> length items")
  case True
  from finalized_conditions [OF assms True, of B n srt conds] show ?thesis
    using True by (auto simp: counts_as_item_def)
next
  case False
  then show ?thesis
    by (simp add: sat_finalize_def counts_as_item_def)
qed

lemma thresh_is_built:
  assumes "1 \<le> threshold"
  shows "\<exists>p. make_thresh B E items threshold = Ok (Some p) \<and> pol_item p = Thresh items threshold \<and>
    (counts_as_item (pol_contribution p) \<longleftrightarrow> completes threshold (map pol_contribution items)) \<and>
    (counts_as_item (pol_satisfaction p) \<longleftrightarrow> completes threshold (map pol_satisfaction items))"
proof -
  let ?ps = "map (\<lambda>p. (pol_contribution p, pol_satisfaction p)) items"
  let ?start = "Partial (length items) threshold [] None []"
  have maps: "map fst ?ps = map pol_contribution items" "map snd ?ps = map pol_satisfaction items"
    by simp_all
  from add_items_Ok [of 0 ?ps "length items" "[]" "[]" threshold None "[]" "[]"]
  obtain c1 c2 where add: "add_items ?start ?start ?ps 0
    = Ok (Partial (length items) threshold (item_indexes (map pol_contribution items) 0) None c1,
          Partial (length items) threshold (item_indexes (map pol_satisfaction items) 0) None c2)"
    unfolding maps by auto
  from sat_finalize_Partial [OF assms, of B "length items" "item_indexes (map pol_contribution items) 0" None c1]
    sat_finalize_Partial [OF assms, of B "length items" "item_indexes (map pol_satisfaction items) 0" None c2]
  show ?thesis
    using assms
    by (auto simp: make_thresh_def add Let_def completes_def length_item_indexes)
qed

text \<open>C34: a threshold policy can always be built, and the wallet contributes enough to it exactly
  when it contributes to enough of its items. For a threshold of at least one \<open>make_thresh\<close> returns
  a policy over the given items; its contribution (and, for a PSBT, its satisfaction) counts as
  complete exactly when those of at least \<open>threshold\<close> items do.\<close>

theorem thresh_completes:
  assumes "1 \<le> threshold"
  shows "\<exists>p. make_thresh B E items threshold = Ok (Some p) \<and> pol_item p = Thresh items threshold \<and>
    (counts_as_item (pol_contribution p) \<longleftrightarrow> completes threshold (map pol_contribution items)) \<and>
    (counts_as_item (pol_satisfaction p) \<longleftrightarrow> completes threshold (map pol_satisfaction items))"
  by (rule thresh_is_built [OF assms])

text \<open>An environment for concrete runs.\<close>

definition example_env :: "nat pol_env" where
  "example_env = \<lparr>item_id = (\<lambda>i. case i of AbsoluteTimelock _ \<Rightarrow> ''lock'' | Thresh _ _ \<Rightarrow> ''thresh'' | _ \<Rightarrow> ''leaf''),
     key_fingerprint = of_nat, full_key_hash = (\<lambda>k. k), xonly_key_hash = (\<lambda>k. k),
     psbt_check_after = (\<lambda>p i t. True), psbt_check_older = (\<lambda>p i t. True)\<rparr>"

theorem thresh_completes_witness:
  "\<exists>p. make_thresh btc_example example_env [after_policy example_env BsNone (Blocks 5),
       policy_new example_env (Sha256Preimage 3)] 1 = Ok (Some p) \<and>
     counts_as_item (pol_contribution p) \<and> \<not> counts_as_item (pol_satisfaction p)"
  using thresh_completes [of 1 btc_example example_env "[after_policy example_env BsNone (Blocks 5),
       policy_new example_env (Sha256Preimage 3)]"]
  by (auto simp: completes_def after_policy_def policy_new_def counts_as_item_def Let_def)

subsection \<open>The condition of a path\<close>

text \<open>The lock times a path runs into: those of the leaves below the selected items.\<close>

fun pick_indexes :: "nat list \<Rightarrow> 'a list \<Rightarrow> nat \<Rightarrow> 'a list" where
  "pick_indexes sel [] k = []"
| "pick_indexes sel (x # xs) k = (if k \<in> set sel then x # pick_indexes sel xs (Suc k) else pick_indexes sel xs (Suc k))"

lemma pick_indexes_subset: "set (pick_indexes sel xs k) \<subseteq> set xs"
  by (induction sel xs k rule: pick_indexes.induct) auto

lemma pick_indexes_map: "pick_indexes sel (map f xs) k = map f (pick_indexes sel xs k)"
  by (induction sel xs k rule: pick_indexes.induct) auto

fun path_conditions :: "btc \<Rightarrow> policy_path \<Rightarrow> policy \<Rightarrow> condition list" where
  "path_conditions B path (Policy pid (Thresh items threshold) sat contr) =
     concat (pick_indexes
       (selected_items path pid (if length items = threshold then [0..<threshold] else []))
       (map (path_conditions B path) items) 0)"
| "path_conditions B path (Policy pid (AbsoluteTimelock value) sat contr) =
     [\<lparr>csv = None, timelock = Some value\<rparr>]"
| "path_conditions B path (Policy pid (RelativeTimelock value) sat contr) =
     [\<lparr>csv = Some (rel_sequence B value), timelock = None\<rparr>]"
| "path_conditions B path (Policy pid _ sat contr) = []"

lemma condition_merge_Ok:
  "condition_merge B a b = Ok c \<Longrightarrow> meets B sq lt c \<longleftrightarrow> meets B sq lt a \<and> meets B sq lt b"
  using condition_merge_meets [where B = B and a = a and b = b and sq = sq and lt = lt] by simp

lemma merge_selected_all_Ok:
  "merge_selected B sel acc rs k = Ok c \<Longrightarrow> r \<in> set (pick_indexes sel rs k) \<Longrightarrow> \<exists>d. r = Ok d"
  by (induction B sel acc rs k rule: merge_selected.induct) (auto simp: res_simps split: if_splits)

text \<open>A property of conditions that a merge keeps and reflects holds of the condition of a path exactly
  when it holds of every lock time along it. To be met by a transaction is one such property, not to
  need a sequence number is another.\<close>

locale condition_property =
  fixes Q :: "btc \<Rightarrow> condition \<Rightarrow> bool"
  assumes merge_iff: "condition_merge B a b = Ok c \<Longrightarrow> Q B c \<longleftrightarrow> Q B a \<and> Q B b"
    and default: "Q B condition_default"
begin

lemma null: "is_null c \<Longrightarrow> Q B c"
  using default [of B] by (cases c) (simp add: is_null_def condition_default_def)

lemma merge_selected_iff:
  "merge_selected B sel acc rs k = Ok c \<Longrightarrow>
    (Q B c \<longleftrightarrow> Q B acc \<and> (\<forall>r \<in> set (pick_indexes sel rs k). \<exists>d. r = Ok d \<and> Q B d))"
proof (induction B sel acc rs k rule: merge_selected.induct)
  case (2 B sel acc r rs k)
  show ?case
  proof (cases "k \<in> set sel")
    case True
    then obtain d acc' where d: "r = Ok d" "condition_merge B acc d = Ok acc'"
      "merge_selected B sel acc' rs (Suc k) = Ok c"
      using "2.prems" by (auto simp: res_simps)
    note IH = "2.IH"(1) [OF True d(3)]
    show ?thesis
      using IH merge_iff [OF d(2)] by (simp add: True d(1))
  next
    case False
    then show ?thesis
      using "2.IH"(2) "2.prems" by simp
  qed
qed simp

lemma path_iff:
  assumes "get_condition B path p = Ok c"
  shows "Q B c \<longleftrightarrow> (\<forall>l \<in> set (path_conditions B path p). Q B l)"
  using assms
proof (induction B path p arbitrary: c rule: get_condition.induct)
  case (1 B path pid items threshold sat contr)
  let ?sel = "selected_items path pid (if length items = threshold then [0..<threshold] else [])"
  have child: "Q B d \<longleftrightarrow> (\<forall>l \<in> set (path_conditions B path i). Q B l)"
    if "i \<in> set items" "get_condition B path i = Ok d" for i d
    using "1.IH" [OF _ _ that] by simp
  show ?case
  proof (cases "list_all ok_null (map (get_condition B path) items)")
    case True
    have "\<forall>l \<in> set (path_conditions B path i). Q B l" if "i \<in> set items" for i
    proof -
      have "ok_null (get_condition B path i)"
        using True that by (auto simp: list_all_iff)
      then obtain d where "get_condition B path i = Ok d" "is_null d"
        by (auto simp: ok_null_def split: res.splits)
      then show ?thesis
        using child [OF that] null by blast
    qed
    then show ?thesis
      using True "1.prems" default [of B] pick_indexes_subset [of ?sel "map (path_conditions B path) items" 0]
      by fastforce
  next
    case False
    then have run: "merge_selected B ?sel condition_default (map (get_condition B path) items) 0 = Ok c"
      using "1.prems" by (auto simp: Let_def split: option.splits if_splits)
    from merge_selected_iff [OF run]
    have "Q B c \<longleftrightarrow> (\<forall>i \<in> set (pick_indexes ?sel items 0). \<exists>d. get_condition B path i = Ok d \<and> Q B d)"
      by (simp add: pick_indexes_map default)
    also have "\<dots> \<longleftrightarrow> (\<forall>i \<in> set (pick_indexes ?sel items 0). \<forall>l \<in> set (path_conditions B path i). Q B l)"
    proof (rule ball_cong [OF refl])
      fix i assume i: "i \<in> set (pick_indexes ?sel items 0)"
      then have "get_condition B path i \<in> set (pick_indexes ?sel (map (get_condition B path) items) 0)"
        by (simp add: pick_indexes_map)
      from merge_selected_all_Ok [OF run this] obtain d where d: "get_condition B path i = Ok d" ..
      have "i \<in> set items"
        by (rule subsetD [OF pick_indexes_subset i])
      from child [OF this d] d show "(\<exists>d. get_condition B path i = Ok d \<and> Q B d) \<longleftrightarrow>
          (\<forall>l \<in> set (path_conditions B path i). Q B l)"
        by simp
    qed
    finally show ?thesis
      by (simp add: pick_indexes_map)
  qed
qed (auto simp: default Let_def split: option.splits if_splits)

end

interpretation met: condition_property "\<lambda>B c. meets B sq lt c" for sq lt
  by unfold_locales (simp_all add: condition_merge_Ok)

lemma condition_merge_csv:
  "condition_merge B a b = Ok c \<Longrightarrow> csv c = None \<longleftrightarrow> csv a = None \<and> csv b = None"
  by (cases "csv a"; cases "csv b") (auto simp: condition_merge_def res_simps)

interpretation unsequenced: condition_property "\<lambda>B c. csv c = None"
  by unfold_locales (simp_all add: condition_merge_csv condition_default_def)

lemma path_condition_meets:
  "get_condition B path p = Ok c \<Longrightarrow>
    meets B sq lt c \<longleftrightarrow> (\<forall>l \<in> set (path_conditions B path p). meets B sq lt l)"
  by (rule met.path_iff)

text \<open>C35: the condition of a path is the conjunction of the lock times along it. When the code
  computes a condition for a path through the policy, a transaction's sequence number and lock time
  meet it exactly when they meet every lock time below the items the path selects.\<close>

theorem path_condition_exact:
  assumes "get_condition B path p = Ok c"
  shows "meets B sq lt c \<longleftrightarrow> (\<forall>l \<in> set (path_conditions B path p). meets B sq lt l)"
  by (rule path_condition_meets [OF assms])

definition example_policy :: policy where
  "example_policy = Policy ''thresh'' (Thresh [
      Policy ''a'' (AbsoluteTimelock (Blocks 5)) NoSat NoSat,
      Policy ''b'' (AbsoluteTimelock (Blocks 9)) NoSat NoSat,
      Policy ''c'' (Sha256Preimage 3) NoSat NoSat] 2) NoSat NoSat"

theorem path_condition_exact_witness:
  "meets btc_example 0 (Blocks 9) \<lparr>csv = None, timelock = Some (Blocks 9)\<rparr> \<longleftrightarrow>
    (\<forall>l \<in> {\<lparr>csv = None, timelock = Some (Blocks 5)\<rparr>, \<lparr>csv = None, timelock = Some (Blocks 9)\<rparr>}.
      meets btc_example 0 (Blocks 9) l)"
proof -
  have "get_condition btc_example [(''thresh'', [0, 1])] example_policy
      = Ok \<lparr>csv = None, timelock = Some (Blocks 9)\<rparr>"
    by (simp add: example_policy_def Let_def selected_items_def bt_get_def ok_null_def is_null_def
        condition_default_def condition_merge_def merge_nlocktime_def locktime_less_def)
  from path_condition_exact [OF this] show ?thesis
    by (simp add: example_policy_def Let_def selected_items_def bt_get_def)
qed

subsection \<open>Extraction\<close>

definition no_timelock_build :: "build_satisfaction \<Rightarrow> bool" where
  "no_timelock_build bs = (case bs of BsPsbtTimelocks _ _ _ \<Rightarrow> False | _ \<Rightarrow> True)"

lemma make_thresh_is_ok: "is_ok (make_thresh B E items k)"
proof (cases "k = 0")
  case True
  then show ?thesis by (simp add: make_thresh_def)
next
  case False
  then show ?thesis
    using thresh_is_built [of k B E items] by (auto simp: is_ok_iff)
qed

lemma make_and_is_ok: "is_ok (make_and B E a b)"
  by (auto simp: make_and_def make_thresh_is_ok split: option.splits)

lemma make_or_is_ok: "is_ok (make_or B E a b)"
  by (auto simp: make_or_def make_thresh_is_ok split: option.splits)

lemma sat_add_Complete:
  assumes "index < n" "index \<notin> set items"
  shows "\<exists>conds'. sat_add (Partial n m items srt conds) (Complete c) index
    = Ok (Partial n m (items @ [index]) srt conds')"
  using assms by (simp add: sat_add_def)

lemma sat_add_if:
  assumes "index < n" "\<forall>i \<in> set items. i < index"
  obtains items1 conds1 where
    "(if b then sat_add (Partial n m items srt conds) (Complete c) index else Ok (Partial n m items srt conds))
      = Ok (Partial n m items1 srt conds1)" "\<forall>i \<in> set items1. i < Suc index"
proof (cases b)
  case True
  have "index \<notin> set items"
    using assms(2) by auto
  from sat_add_Complete [OF assms(1) this] obtain conds' where
    "sat_add (Partial n m items srt conds) (Complete c) index = Ok (Partial n m (items @ [index]) srt conds')"
    by blast
  then show ?thesis
    using that [of "items @ [index]" conds'] True assms(2) by (auto simp: less_Suc_eq)
next
  case False
  then show ?thesis
    using that [of items conds] assms(2) by (auto simp: less_Suc_eq)
qed

lemma add_multi_keys_Ok:
  assumes "k + length keys \<le> n" "\<forall>i \<in> set items. i < k" "\<forall>i \<in> set items'. i < k"
  shows "\<exists>c s. add_multi_keys E tap S bs (Partial n m items srt conds) (Partial n m items' srt conds') keys k
    = Ok (Partial n m (fst c) srt (snd c), Partial n m (fst s) srt (snd s))"
  using assms
proof (induction keys arbitrary: k items items' conds conds')
  case Nil
  then show ?case by auto
next
  case (Cons key keys)
  have lt: "k < n"
    using Cons.prems(1) by simp
  from sat_add_if [OF lt Cons.prems(2)] obtain items1 conds1 where c:
    "(if find_signer S (signer_id_of_key E key) \<noteq> None
      then sat_add (Partial n m items srt conds) (Complete condition_default) k
      else Ok (Partial n m items srt conds)) = Ok (Partial n m items1 srt conds1)"
    "\<forall>i \<in> set items1. i < Suc k" .
  let ?signed = "case bs_psbt bs of Some p \<Rightarrow> find_signature E tap p key | None \<Rightarrow> False"
  from sat_add_if [OF lt Cons.prems(3)] obtain items2 conds2 where s:
    "(if ?signed then sat_add (Partial n m items' srt conds') (Complete condition_default) k
      else Ok (Partial n m items' srt conds')) = Ok (Partial n m items2 srt conds2)"
    "\<forall>i \<in> set items2. i < Suc k" .
  have s': "(case bs_psbt bs of
        Some p \<Rightarrow> if find_signature E tap p key
                  then sat_add (Partial n m items' srt conds') (Complete condition_default) k
                  else Ok (Partial n m items' srt conds')
      | None \<Rightarrow> Ok (Partial n m items' srt conds')) = Ok (Partial n m items2 srt conds2)"
    using s(1) by (cases "bs_psbt bs") simp_all
  have "Suc k + length keys \<le> n"
    using Cons.prems(1) by simp
  from Cons.IH [OF this c(2) s(2)] show ?case
    unfolding add_multi_keys.simps c(1) s' res_bind.simps .
qed

lemma sat_finalize_is_ok: "is_ok (sat_finalize B (Partial n m items srt conds))"
proof (cases "m \<le> length items")
  case True
  then show ?thesis
    by (simp add: sat_finalize_def combinations_def panic_unless_def)
qed (simp add: sat_finalize_def)

lemma make_multi_is_ok: "is_ok (make_multi B E tap k keys S bs srt)"
proof -
  from add_multi_keys_Ok [of 0 keys "length keys" "[]" "[]" E tap S bs k "Some srt" "[]" "[]"]
  obtain c s where
    "add_multi_keys E tap S bs (Partial (length keys) k [] (Some srt) [])
       (Partial (length keys) k [] (Some srt) []) keys 0
     = Ok (Partial (length keys) k (fst c) (Some srt) (snd c), Partial (length keys) k (fst s) (Some srt) (snd s))"
    by auto
  then show ?thesis
    using sat_finalize_is_ok [of B "length keys" k "fst c" "Some srt" "snd c"]
      sat_finalize_is_ok [of B "length keys" k "fst s" "Some srt" "snd s"]
    by (auto simp: make_multi_def Let_def is_ok_iff)
qed

lemma older_policy_is_ok: "no_timelock_build bs \<Longrightarrow> is_ok (older_policy B E bs value)"
  by (cases bs) (simp_all add: older_policy_def no_timelock_build_def Let_def)

lemma is_ok_bind: "is_ok m \<Longrightarrow> (\<And>x. is_ok (f x)) \<Longrightarrow> is_ok (res_bind m f)"
  by (cases m) auto

lemma is_ok_res_map: "(\<And>x. x \<in> set xs \<Longrightarrow> is_ok (f x)) \<Longrightarrow> is_ok (res_map f xs)"
  by (induction xs) (auto intro!: is_ok_bind)

lemma extract_policy_is_ok:
  assumes "no_timelock_build bs"
  shows "is_ok (extract_policy B E tap S bs t)"
  using assms
proof (induction B E tap S bs t rule: extract_policy.induct)
  case (27 B E tap S bs k nodes)
  have "is_ok (res_map (\<lambda>t. t) (map (extract_policy B E tap S bs) nodes))"
    by (rule is_ok_res_map) (use 27 in auto)
  then show ?case
    by (auto simp: Let_def make_thresh_is_ok intro!: is_ok_bind split: option.splits)
qed (auto intro!: is_ok_bind simp: make_and_is_ok make_or_is_ok make_multi_is_ok older_policy_is_ok)

text \<open>A policy can be extracted from every descriptor. Without a check of lock times against a
  PSBT, the extraction returns for every descriptor, key set and PSBT: none of the errors of the
  satisfaction machinery (an item added twice, added out of range, added to a complete item) can
  occur.\<close>

lemma descriptor_policy_total:
  assumes "no_timelock_build bs"
  shows "is_ok (extract_descriptor_policy B E S bs d)"
  using extract_policy_is_ok [OF assms]
  by (cases "(B, E, S, bs, d)" rule: extract_descriptor_policy.cases)
     (auto simp: make_multi_is_ok make_thresh_is_ok Let_def intro!: is_ok_bind is_ok_res_map split: option.splits)

lemma descriptor_policy_total_witness:
  "is_ok (extract_descriptor_policy btc_example example_env (signers_new :: nat signers_container) BsNone
     (DTr (SingleXOnly None 4) (Some (TapLeaf (TAndV (TVerify (PkK (SingleXOnly None 5))) (TAfter (Blocks 9)))))))"
  by (rule descriptor_policy_total) (simp add: no_timelock_build_def)

end
