(* ===== verification/Create_Tx_Facts.thy ===== *)
theory Create_Tx_Facts
  imports Create_Tx Selectors Bnb Policy_Facts
begin

section \<open>What a created transaction guarantees\<close>

text \<open>
  The properties of \<open>create_tx\<close>, for any coin selection that keeps the contract \<open>coin_selector\<close>,
  any sort that keeps the contract \<open>unstable_sort\<close>, and descriptors whose PSBT updates leave the
  unsigned transaction alone (\<open>psbt_updates_lawful\<close>).
\<close>

definition psbt_updates_lawful where
  "psbt_updates_lawful D \<longleftrightarrow>
     (\<forall>i d p p'. da_update_input D i d p = Ok p' \<longrightarrow> unsigned_tx p' = unsigned_tx p) \<and>
     (\<forall>i d p p'. da_update_output D i d p = Ok p' \<longrightarrow> unsigned_tx p' = unsigned_tx p)"

definition sorters_lawful :: "sorters \<Rightarrow> bool" where
  "sorters_lawful S \<longleftrightarrow> unstable_sort (sort_txins S) \<and> unstable_sort (sort_txouts S)"

definition recipient_out :: "script \<times> amount \<Rightarrow> txout" where
  "recipient_out e = \<lparr>txo_value = snd e, txo_script = fst e\<rparr>"

definition outputs_total :: "txout list \<Rightarrow> amount" where
  "outputs_total outs = sum_list (map txo_value outs)"

lemma outputs_total_simps [simp]:
  "outputs_total [] = 0" "outputs_total (x # xs) = txo_value x + outputs_total xs"
  "outputs_total (xs @ ys) = outputs_total xs + outputs_total ys"
  by (simp_all add: outputs_total_def)

lemma outputs_total_mset: "mset xs = mset ys \<Longrightarrow> outputs_total xs = outputs_total ys"
  by (metis mset_map outputs_total_def sum_mset_sum_list)

subsection \<open>The stages\<close>

lemma add_recipients_Ok:
  "add_recipients B allow_dust i recs acc = Ok res \<Longrightarrow>
     fst res = fst acc @ map recipient_out recs \<and>
     snd res = snd acc + outputs_total (map recipient_out recs) \<and>
     (\<forall>e \<in> set recs. fst e \<noteq> [] \<and>
        (allow_dust \<or> \<not> is_dust B (snd e) (fst e) \<or> is_op_return B (fst e)))"
proof (induction B allow_dust i recs acc rule: add_recipients.induct)
  case (2 B allow_dust index script_pubkey v rest outs outgoing)
  from 2(2) obtain og where s: "script_pubkey \<noteq> []"
    "allow_dust \<or> \<not> is_dust B v script_pubkey \<or> is_op_return B script_pubkey"
    "u64_add outgoing v = (Ok og :: (create_tx_error, amount) res)"
    "add_recipients B allow_dust (index + 1) rest
        (outs @ [\<lparr>txo_value = v, txo_script = script_pubkey\<rparr>], og) = Ok res"
    by (auto simp: res_simps split: if_splits)
  from s(1,2) have c: "\<not> (\<not> allow_dust \<and> is_dust B v script_pubkey \<and> \<not> is_op_return B script_pubkey)"
    by blast
  from 2(1) [OF s(1) c s(4)] show ?case
    using s(1-3) by (auto simp: recipient_out_def res_simps)
qed auto

lemma sort_tx_mset:
  assumes "sorters_lawful S" and "sort_tx_with_aux_rand S next_u32 ord tx rng = (tx', rng')"
  shows "mset (tx_input tx') = mset (tx_input tx)" "mset (tx_output tx') = mset (tx_output tx)"
    "tx_version tx' = tx_version tx" "tx_lock_time tx' = tx_lock_time tx"
proof -
  note sorts = assms(1) [unfolded sorters_lawful_def, THEN conjunct1]
    assms(1) [unfolded sorters_lawful_def, THEN conjunct2]
  show "mset (tx_input tx') = mset (tx_input tx)" "mset (tx_output tx') = mset (tx_output tx)"
    "tx_version tx' = tx_version tx" "tx_lock_time tx' = tx_lock_time tx"
    using assms(2) mset_shuffle_slice [of next_u32 "tx_input tx" rng]
      mset_shuffle_slice [of next_u32 "tx_output tx" "snd (shuffle_slice next_u32 (tx_input tx) rng)"]
      unstable_sort.usort_mset [OF sorts(1)] unstable_sort.usort_mset [OF sorts(2)]
    by (cases ord; auto simp: sort_tx_with_aux_rand_def split: prod.splits)+
qed

lemma res_fold_keeps:
  assumes "\<And>p e p'. f p e = Ok p' \<Longrightarrow> g p' = g p"
  shows "res_fold f p xs = Ok p' \<Longrightarrow> g p' = g p"
  using assms by (induction xs arbitrary: p) (auto simp: res_simps)

lemma add_xpubs_unsigned: "add_xpubs X E A w P p = Ok p' \<Longrightarrow> unsigned_tx p' = unsigned_tx p \<and> inputs p' = inputs p"
  by (auto simp: add_xpubs_def res_simps split: if_splits
      elim!: res_fold_keeps [rotated, where g = "\<lambda>p. (unsigned_tx p, inputs p)", simplified])

lemma complete_unsigned:
  assumes "psbt_updates_lawful (dsa A)" and "complete_transaction B X E A w tx us P = Ok p"
  shows "unsigned_tx p = tx"
proof -
  have one: "unsigned_tx p' = unsigned_tx p"
    if "update_one A w p e = (Ok p' :: (nat, psbt) res)" for p e p'
    using that assms(1)
    by (auto simp: update_one_def psbt_updates_lawful_def res_simps split: option.splits prod.splits if_splits)
  from assms(2) obtain p1 pins where
    "add_xpubs X E A w P (psbt_from_unsigned_tx tx) = Ok p1"
    "update_psbt_with_descriptor B A w (p1\<lparr>inputs := pins\<rparr>) = (Ok p :: (nat, psbt) res)"
    by (auto simp: complete_transaction_def res_simps)
  then show ?thesis
    using add_xpubs_unsigned [of X E A w P "psbt_from_unsigned_tx tx" p1]
    by (auto simp: update_psbt_with_descriptor_def res_simps psbt_from_unsigned_tx_def Let_def
        dest!: res_fold_keeps [rotated, where g = unsigned_tx] one)
qed

lemma build_unsigned_OkE:
  assumes "build_unsigned B A S next_u32 select w P plan rng = Ok (tx, r, drain_index, rng')"
  obtains outs outgoing base_fee required optional drain_script rng1
  where "\<not> (p_manually_selected_only P \<and> p_utxos P = [])"
    "add_recipients B (p_allow_dust P) 0 (p_recipients P) ([], 0) = Ok (outs, outgoing)"
    "fee_mul B (pl_rate plan) (tx_weight B \<lparr>tx_version = pl_version plan, tx_lock_time = pl_lock_time plan,
        tx_input = [], tx_output = outs, tx_mw_tx = None, tx_is_hog_ex = False\<rparr>) = Some base_fee"
    "candidates A w P (locktime_u32 (pl_height plan)) (pl_version plan)
       = (Ok (required, optional) :: (create_tx_error, _) res)"
    "choose_drain_script A w P = (Ok (drain_script, drain_index) :: (create_tx_error, _) res)"
    "select required optional (pl_rate plan) (outgoing + (pl_fee plan + base_fee)) drain_script rng
       = Ok (r, rng1)"
    "check_outputs P outs (cs_excess r) = Ok ()"
    "sort_tx_with_aux_rand S next_u32 (p_ordering P)
       \<lparr>tx_version = pl_version plan, tx_lock_time = pl_lock_time plan,
        tx_input = map (make_input (pl_sequence plan)) (selected r),
        tx_output = add_change (cs_excess r) drain_script outs, tx_mw_tx = None, tx_is_hog_ex = False\<rparr>
       rng1 = (tx, rng')"
  using assms
  by (auto simp: build_unsigned_def res_simps Let_def intro: that)

lemma create_tx_OkE:
  assumes "create_tx B X E A S next_u32 select w P rng = Ok (p, w', rng')"
    and "psbt_updates_lawful (dsa A)"
  obtains plan tx r drain_index where "plan_tx B E A w P = Ok plan"
    "build_unsigned B A S next_u32 select w P plan rng = Ok (tx, r, drain_index, rng')"
    "complete_transaction B X E A w tx (selected r) P = Ok p"
    "unsigned_tx p = tx" "w' = record_change A w (cs_excess r) drain_index"
  using assms by (auto simp: create_tx_def res_simps complete_unsigned intro: that)

subsection \<open>Candidates\<close>

lemma weighted_local_Ok: "weighted_local A w l = Ok wu \<Longrightarrow> wu_utxo wu = Local l"
  by (auto simp: weighted_local_def res_simps)

lemma res_map_weighted_local: "res_map (weighted_local A w) ls = Ok wus \<Longrightarrow> map wu_utxo wus = map Local ls"
  by (induction ls arbitrary: wus) (auto simp: res_simps dest: weighted_local_Ok)

definition offered where
  "offered A w P h v =
     (if p_manually_selected_only P then [] else filter (may_spend A w P v) (mature_unspent A w h))"

lemma candidates_Ok:
  assumes "candidates A w P h v = Ok (required, optional)"
  shows "map wu_utxo (required @ optional) = map wu_utxo (p_utxos P) @ map Local (offered A w P h v)"
    "take (length (p_utxos P)) required = p_utxos P" "p_drain_wallet P \<Longrightarrow> optional = []"
  using assms
  by (auto simp: candidates_def filter_utxos_def offered_def Let_def res_simps
      dest: res_map_weighted_local split: if_splits)

lemma candidates_member:
  assumes "candidates A w P h v = (Ok (required, optional) :: (create_tx_error, _) res)"
    and "wu \<in> set (required @ optional)" and "wu \<notin> set (p_utxos P)"
  obtains l where "l \<in> set (offered A w P h v)" "weighted_local A w l = (Ok wu :: (create_tx_error, _) res)"
proof -
  from assms(1) obtain opt where "filter_utxos A w P h v = (Ok opt :: (create_tx_error, _) res)"
    "set (required @ optional) = set (p_utxos P @ opt)"
    by (auto simp: candidates_def Let_def res_simps split: if_splits)
  with assms(2,3) have "res_map (weighted_local A w) (offered A w P h v) = (Ok opt :: (create_tx_error, _) res)"
    "wu \<in> set opt"
    by (auto simp: filter_utxos_def offered_def split: if_splits)
  then obtain i where "i < length (offered A w P h v)"
    "weighted_local A w (offered A w P h v ! i) = (Ok wu :: (create_tx_error, _) res)"
    by (auto simp: res_map_Ok_iff list_all2_conv_all_nth in_set_conv_nth)
  then show thesis
    using that nth_mem by blast
qed

text \<open>What an output offered to the selection satisfies.\<close>

definition eligible where
  "eligible A w P v l \<longleftrightarrow>
     l \<in> set (list_unspent A w) \<and> \<not> p_manually_selected_only P \<and>
     lo_outpoint l \<notin> set (w_locked w) \<and> lo_outpoint l \<notin> set (p_unspendable P) \<and>
     (length (keychains A w) = 1 \<or> is_satisfied_by (p_change_policy P) l) \<and>
     (p_bumping_fee P \<noteq> None \<longrightarrow> pos_is_confirmed (lo_chain_position l)) \<and>
     truc_ok A w v l"

lemma mature_unspent_in:
  "l \<in> set (mature_unspent A w h) \<longleftrightarrow>
     (\<exists>k i t. ((k, i), t) \<in> set (va_unspent (cha A) (w_view w) (ia_outpoints (ixa A) (w_index w))) \<and>
        l = new_local_utxo k i t \<and> lo_outpoint l \<notin> set (w_locked w) \<and> va_is_mature (cha A) t h)"
  by (force simp: mature_unspent_def List.map_filter_def is_outpoint_locked_def new_local_utxo_def
      split: if_splits)

lemma offered_eligible: "l \<in> set (offered A w P h v) \<Longrightarrow> eligible A w P v l"
  by (force simp: offered_def eligible_def may_spend_def mature_unspent_in list_unspent_def split: if_splits)

lemma selected_from_candidates:
  assumes "candidates A w P h v = Ok (required, optional)"
    and "mset us \<subseteq># mset (map wu_utxo (required @ optional))" and "u \<in> set us"
  shows "u \<in> wu_utxo ` set (p_utxos P) \<or> (\<exists>l. u = Local l \<and> eligible A w P v l)"
proof -
  have "u \<in> set (map wu_utxo (required @ optional))"
    using set_mset_mono [OF assms(2)] assms(3) by auto
  then show ?thesis
    unfolding candidates_Ok(1) [OF assms(1)] by (auto dest: offered_eligible)
qed

subsection \<open>Money\<close>

definition flat_fee :: "tx_params \<Rightarrow> amount" where
  "flat_fee P = (case p_fee_policy P of Some (FeeAmount fee) \<Rightarrow> fee | _ \<Rightarrow> 0)"

lemma choose_fee_flat: "choose_fee P = Ok (rate, fee) \<Longrightarrow> fee = flat_fee P"
  by (auto simp: choose_fee_def flat_fee_def fee_policy_default_def res_simps
      split: option.splits fee_policy.splits if_splits)

lemma plan_tx_fee: "plan_tx B E A w P = Ok plan \<Longrightarrow> choose_fee P = Ok (pl_rate plan, pl_fee plan)"
  by (auto simp: plan_tx_def res_simps)

definition change_outputs :: "excess \<Rightarrow> script \<Rightarrow> txout list" where
  "change_outputs ex s = add_change ex s []"

lemma add_change_append: "add_change ex s outs = outs @ change_outputs ex s"
  by (simp add: add_change_def change_outputs_def split: excess.split)

lemma outputs_total_change: "outputs_total (change_outputs ex s) = excess_amount ex"
  by (cases ex) (simp_all add: change_outputs_def add_change_def)

text \<open>What is built: the selected outputs with the contract of the selection, and the outputs of
  the transaction up to their order.\<close>

lemma build_unsigned_facts:
  assumes sel: "coin_selector B select" and S: "sorters_lawful S"
    and run: "build_unsigned B A S next_u32 select w P plan rng = Ok (tx, r, drain_index, rng')"
  obtains base_fee required optional drain_script
  where "candidates A w P (locktime_u32 (pl_height plan)) (pl_version plan)
       = (Ok (required, optional) :: (create_tx_error, _) res)"
    "fee_mul B (pl_rate plan) (tx_weight B \<lparr>tx_version = pl_version plan, tx_lock_time = pl_lock_time plan,
        tx_input = [], tx_output = map recipient_out (p_recipients P), tx_mw_tx = None,
        tx_is_hog_ex = False\<rparr>) = Some base_fee"
    "choose_drain_script A w P = (Ok (drain_script, drain_index) :: (create_tx_error, _) res)"
    "mset (tx_input tx) = mset (map (make_input (pl_sequence plan)) (selected r))"
    "mset (tx_output tx) = mset (map recipient_out (p_recipients P) @ change_outputs (cs_excess r) drain_script)"
    "tx_version tx = pl_version plan" "tx_lock_time tx = pl_lock_time plan"
    "take (length required) (selected r) = map wu_utxo required"
    "mset (selected r) \<subseteq># mset (map wu_utxo (required @ optional))"
    "\<forall>u \<in> set (selected r). utxo_ok u"
    "outputs_total (map recipient_out (p_recipients P)) + pl_fee plan + base_fee + fee_amount r
       + excess_amount (cs_excess r) \<le> total_in (selected r)"
    "\<forall>a f. cs_excess r = Change a f \<longrightarrow> dust_limit B drain_script \<le> a"
proof -
  from run obtain outs outgoing base_fee required optional drain_script rng1 where b:
    "add_recipients B (p_allow_dust P) 0 (p_recipients P) ([], 0) = Ok (outs, outgoing)"
    "fee_mul B (pl_rate plan) (tx_weight B \<lparr>tx_version = pl_version plan, tx_lock_time = pl_lock_time plan,
        tx_input = [], tx_output = outs, tx_mw_tx = None, tx_is_hog_ex = False\<rparr>) = Some base_fee"
    "candidates A w P (locktime_u32 (pl_height plan)) (pl_version plan)
       = (Ok (required, optional) :: (create_tx_error, _) res)"
    "choose_drain_script A w P = (Ok (drain_script, drain_index) :: (create_tx_error, _) res)"
    "select required optional (pl_rate plan) (outgoing + (pl_fee plan + base_fee)) drain_script rng
       = Ok (r, rng1)"
    "sort_tx_with_aux_rand S next_u32 (p_ordering P)
       \<lparr>tx_version = pl_version plan, tx_lock_time = pl_lock_time plan,
        tx_input = map (make_input (pl_sequence plan)) (selected r),
        tx_output = add_change (cs_excess r) drain_script outs, tx_mw_tx = None, tx_is_hog_ex = False\<rparr>
       rng1 = (tx, rng')"
    by (rule build_unsigned_OkE)
  have outs: "outs = map recipient_out (p_recipients P)" "outgoing = outputs_total outs"
    using add_recipients_Ok [OF b(1)] by auto
  note sorted = sort_tx_mset [OF S b(6)]
  show thesis
    by (rule that [of required optional base_fee drain_script])
      (use b(2,3,4) sorted outs coin_selector.select_required [OF sel b(5)]
        coin_selector.select_available [OF sel b(5)] coin_selector.select_readable [OF sel b(5)]
        coin_selector.covers_outgoing [OF sel b(5)] coin_selector.change_not_dust [OF sel b(5)]
       in \<open>auto simp: add_change_append\<close>)
qed

lemma previous_outputs_make_input: "map previous_output (map (make_input n) us) = map utxo_outpoint us"
  by (simp add: make_input_def)

lemma map_mset_eq: "mset xs = mset ys \<Longrightarrow> mset (map f xs) = mset (map f ys)"
  by simp

lemma tx_balances:
  assumes "coin_selector B select" and "sorters_lawful S" and "psbt_updates_lawful (dsa A)"
    and "create_tx B X E A S next_u32 select w P rng = Ok (p, w', rng')"
  shows "\<exists>us change.
     mset (map previous_output (tx_input (unsigned_tx p))) = mset (map utxo_outpoint us) \<and>
     (\<forall>u \<in> set us. utxo_ok u \<and> (u \<in> wu_utxo ` set (p_utxos P) \<or> u \<in> Local ` set (list_unspent A w))) \<and>
     mset (tx_output (unsigned_tx p)) = mset (map recipient_out (p_recipients P) @ change) \<and>
     length change \<le> 1 \<and>
     (\<forall>c \<in> set change. dust_limit B (txo_script c) \<le> txo_value c \<and>
        (\<forall>s. p_drain_to P = Some s \<longrightarrow> txo_script c = s)) \<and>
     outputs_total (tx_output (unsigned_tx p)) + flat_fee P \<le> total_in us"
proof -
  from assms(4,3) obtain plan tx r drain_index where c:
    "plan_tx B E A w P = Ok plan"
    "build_unsigned B A S next_u32 select w P plan rng = Ok (tx, r, drain_index, rng')"
    "unsigned_tx p = tx"
    by (rule create_tx_OkE)
  have fee: "pl_fee plan = flat_fee P"
    by (rule choose_fee_flat [OF plan_tx_fee [OF c(1)]])
  from assms(1,2) c(2) obtain base_fee required optional drain_script where f:
    "choose_drain_script A w P = (Ok (drain_script, drain_index) :: (create_tx_error, _) res)"
    "mset (tx_input tx) = mset (map (make_input (pl_sequence plan)) (selected r))"
    "mset (tx_output tx) = mset (map recipient_out (p_recipients P) @ change_outputs (cs_excess r) drain_script)"
    "\<forall>u \<in> set (selected r). utxo_ok u"
    "outputs_total (map recipient_out (p_recipients P)) + pl_fee plan + base_fee + fee_amount r
       + excess_amount (cs_excess r) \<le> total_in (selected r)"
    "\<forall>a f. cs_excess r = Change a f \<longrightarrow> dust_limit B drain_script \<le> a"
    and cand: "candidates A w P (locktime_u32 (pl_height plan)) (pl_version plan)
       = (Ok (required, optional) :: (create_tx_error, _) res)"
    and avail: "mset (selected r) \<subseteq># mset (map wu_utxo (required @ optional))"
    by (rule build_unsigned_facts)
  have from_wallet: "u \<in> wu_utxo ` set (p_utxos P) \<or> u \<in> Local ` set (list_unspent A w)"
    if "u \<in> set (selected r)" for u
    using selected_from_candidates [OF cand avail that] by (auto simp: eligible_def)
  have "mset (map previous_output (tx_input tx)) = mset (map utxo_outpoint (selected r))"
    using map_mset_eq [OF f(2), of previous_output] by (simp only: previous_outputs_make_input)
  moreover have "outputs_total (tx_output tx) + flat_fee P \<le> total_in (selected r)"
    using outputs_total_mset [OF f(3)] f(5) fee by (simp add: outputs_total_change)
  moreover have "\<forall>s. p_drain_to P = Some s \<longrightarrow> drain_script = s"
    using f(1) by (auto simp: choose_drain_script_def)
  ultimately show ?thesis
    using f(3,4,6) c(3) from_wallet
    by (intro exI [of _ "selected r"] exI [of _ "change_outputs (cs_excess r) drain_script"])
      (auto simp: change_outputs_def add_change_def split: excess.splits)
qed

text \<open>C1: a created transaction pays every recipient and never spends more than it has. Its
  outputs are the recipients and at most one change output, which is not dust and goes where the
  caller asked for it; the selected outputs, which are the ones its inputs spend, are worth at
  least the outputs and the absolute fee asked for.\<close>

theorem created_tx_balances:
  assumes "coin_selector B select" and "sorters_lawful S" and "psbt_updates_lawful (dsa A)"
    and "create_tx B X E A S next_u32 select w P rng = Ok (p, w', rng')"
  shows "\<exists>us change.
     mset (map previous_output (tx_input (unsigned_tx p))) = mset (map utxo_outpoint us) \<and>
     (\<forall>u \<in> set us. utxo_ok u \<and> (u \<in> wu_utxo ` set (p_utxos P) \<or> u \<in> Local ` set (list_unspent A w))) \<and>
     mset (tx_output (unsigned_tx p)) = mset (map recipient_out (p_recipients P) @ change) \<and>
     length change \<le> 1 \<and>
     (\<forall>c \<in> set change. dust_limit B (txo_script c) \<le> txo_value c \<and>
        (\<forall>s. p_drain_to P = Some s \<longrightarrow> txo_script c = s)) \<and>
     outputs_total (tx_output (unsigned_tx p)) + flat_fee P \<le> total_in us"
  by (rule tx_balances [OF assms])

subsection \<open>Inputs\<close>

lemma build_unsigned_inputs:
  assumes "coin_selector B select" and "sorters_lawful S"
    and "build_unsigned B A S next_u32 select w P plan rng = Ok (tx, r, drain_index, rng')"
  obtains required optional where
    "candidates A w P (locktime_u32 (pl_height plan)) (pl_version plan)
       = (Ok (required, optional) :: (create_tx_error, _) res)"
    "mset (map previous_output (tx_input tx)) = mset (map utxo_outpoint (selected r))"
    "take (length required) (selected r) = map wu_utxo required"
    "mset (selected r) \<subseteq># mset (map wu_utxo (required @ optional))"
    "set (tx_input tx) = make_input (pl_sequence plan) ` set (selected r)"
    "tx_version tx = pl_version plan" "tx_lock_time tx = pl_lock_time plan"
proof (rule build_unsigned_facts [OF assms])
  fix base_fee required optional drain_script
  assume a: "candidates A w P (locktime_u32 (pl_height plan)) (pl_version plan)
       = (Ok (required, optional) :: (create_tx_error, _) res)"
    "mset (tx_input tx) = mset (map (make_input (pl_sequence plan)) (selected r))"
    "take (length required) (selected r) = map wu_utxo required"
    "mset (selected r) \<subseteq># mset (map wu_utxo (required @ optional))"
    "tx_version tx = pl_version plan" "tx_lock_time tx = pl_lock_time plan"
  have "mset (map previous_output (tx_input tx)) = mset (map utxo_outpoint (selected r))"
    using map_mset_eq [OF a(2), of previous_output] by (simp only: previous_outputs_make_input)
  moreover have "set (tx_input tx) = make_input (pl_sequence plan) ` set (selected r)"
    using arg_cong [OF a(2), of set_mset] by simp
  ultimately show thesis
    using a by (intro that)
qed

lemma required_selected:
  assumes "candidates A w P h v = Ok (required, optional)"
    and "take (length required) us = map wu_utxo required"
  shows "mset (map wu_utxo required) \<subseteq># mset us" "mset (map wu_utxo (p_utxos P)) \<subseteq># mset (map wu_utxo required)"
proof -
  show "mset (map wu_utxo required) \<subseteq># mset us"
    using assms(2) by (metis append_take_drop_id mset_append mset_subset_eq_add_left)
  have "required = p_utxos P @ drop (length (p_utxos P)) required"
    using candidates_Ok(2) [OF assms(1)] by (metis append_take_drop_id)
  then show "mset (map wu_utxo (p_utxos P)) \<subseteq># mset (map wu_utxo required)"
    by (metis map_append mset_append mset_subset_eq_add_left)
qed

lemma tx_inputs:
  assumes "coin_selector B select" and "sorters_lawful S" and "psbt_updates_lawful (dsa A)"
    and "create_tx B X E A S next_u32 select w P rng = Ok (p, w', rng')"
  shows "(\<forall>op \<in> set (map previous_output (tx_input (unsigned_tx p))).
       op \<in> (\<lambda>wu. utxo_outpoint (wu_utxo wu)) ` set (p_utxos P) \<or>
       (\<exists>l. lo_outpoint l = op \<and> eligible A w P (tx_version (unsigned_tx p)) l)) \<and>
     mset (map (\<lambda>wu. utxo_outpoint (wu_utxo wu)) (p_utxos P))
       \<subseteq># mset (map previous_output (tx_input (unsigned_tx p))) \<and>
     (p_drain_wallet P \<longrightarrow> (\<forall>h. choose_current_height A w P = (Ok h :: (create_tx_error, locktime) res) \<longrightarrow>
       lo_outpoint ` set (offered A w P (locktime_u32 h) (tx_version (unsigned_tx p)))
         \<subseteq> set (map previous_output (tx_input (unsigned_tx p)))))"
proof -
  from assms(4,3) obtain plan tx r drain_index where c:
    "plan_tx B E A w P = Ok plan"
    "build_unsigned B A S next_u32 select w P plan rng = Ok (tx, r, drain_index, rng')"
    "unsigned_tx p = tx"
    by (rule create_tx_OkE)
  from assms(1,2) c(2) obtain required optional where f:
    "candidates A w P (locktime_u32 (pl_height plan)) (pl_version plan)
       = (Ok (required, optional) :: (create_tx_error, _) res)"
    "mset (map previous_output (tx_input tx)) = mset (map utxo_outpoint (selected r))"
    "take (length required) (selected r) = map wu_utxo required"
    "mset (selected r) \<subseteq># mset (map wu_utxo (required @ optional))"
    "tx_version tx = pl_version plan"
    by (rule build_unsigned_inputs)
  have ops: "set (map previous_output (tx_input tx)) = utxo_outpoint ` set (selected r)"
    using arg_cong [OF f(2), of set_mset] by simp
  have inputs_from: "\<forall>op \<in> set (map previous_output (tx_input tx)).
       op \<in> (\<lambda>wu. utxo_outpoint (wu_utxo wu)) ` set (p_utxos P) \<or>
       (\<exists>l. lo_outpoint l = op \<and> eligible A w P (tx_version tx) l)"
    unfolding ops f(5) using selected_from_candidates [OF f(1,4)] by fastforce
  note req = required_selected [OF f(1,3)]
  have "image_mset utxo_outpoint (mset (map wu_utxo (p_utxos P))) \<subseteq># image_mset utxo_outpoint (mset (selected r))"
    by (rule image_mset_subseteq_mono [OF subset_mset.order_trans [OF req(2,1)]])
  then have manual: "mset (map (\<lambda>wu. utxo_outpoint (wu_utxo wu)) (p_utxos P))
       \<subseteq># mset (map previous_output (tx_input tx))"
    unfolding f(2) by (simp add: multiset.map_comp comp_def)
  have "lo_outpoint ` set (offered A w P (locktime_u32 h) (tx_version tx)) \<subseteq> set (map previous_output (tx_input tx))"
    if "p_drain_wallet P" "choose_current_height A w P = (Ok h :: (create_tx_error, locktime) res)" for h
  proof -
    have "pl_height plan = h"
      using c(1) that(2) by (auto simp: plan_tx_def res_simps)
    then have "set (map Local (offered A w P (locktime_u32 h) (tx_version tx))) \<subseteq> set (map wu_utxo required)"
      using candidates_Ok(1) [OF f(1)] candidates_Ok(3) [OF f(1) that(1)] f(5)
      by (metis append_Nil2 set_append sup_ge2)
    then have "Local ` set (offered A w P (locktime_u32 h) (tx_version tx)) \<subseteq> set (selected r)"
      using set_mset_mono [OF req(1)] by (auto simp flip: set_map)
    then show ?thesis
      unfolding ops by force
  qed
  then show ?thesis
    using inputs_from manual c(3) by blast
qed

text \<open>C2: a created transaction spends what it was told to spend, and nothing it must not. Every
  input was chosen by hand or is an eligible output of the wallet: unspent, not locked, not marked
  unspendable, allowed by the change policy, confirmed when a fee is bumped, and not against the
  TRUC rule for the version. Every output chosen by hand is spent, and when the wallet is drained
  so is every output that was offered.\<close>

theorem created_tx_inputs:
  assumes "coin_selector B select" and "sorters_lawful S" and "psbt_updates_lawful (dsa A)"
    and "create_tx B X E A S next_u32 select w P rng = Ok (p, w', rng')"
  shows "(\<forall>op \<in> set (map previous_output (tx_input (unsigned_tx p))).
       op \<in> (\<lambda>wu. utxo_outpoint (wu_utxo wu)) ` set (p_utxos P) \<or>
       (\<exists>l. lo_outpoint l = op \<and> eligible A w P (tx_version (unsigned_tx p)) l)) \<and>
     mset (map (\<lambda>wu. utxo_outpoint (wu_utxo wu)) (p_utxos P))
       \<subseteq># mset (map previous_output (tx_input (unsigned_tx p))) \<and>
     (p_drain_wallet P \<longrightarrow> (\<forall>h. choose_current_height A w P = (Ok h :: (create_tx_error, locktime) res) \<longrightarrow>
       lo_outpoint ` set (offered A w P (locktime_u32 h) (tx_version (unsigned_tx p)))
         \<subseteq> set (map previous_output (tx_input (unsigned_tx p)))))"
  by (rule tx_inputs [OF assms])

lemma distinct_map_filter_option:
  "distinct (map f (map g xs)) \<Longrightarrow> (\<And>x y. h x = Some y \<Longrightarrow> y = g x) \<Longrightarrow>
    distinct (map f (List.map_filter h xs))"
  by (induction xs) (force simp: List.map_filter_def split: option.splits)+

lemma distinct_offered:
  assumes "distinct (map lo_outpoint (list_unspent A w))"
  shows "distinct (map lo_outpoint (offered A w P h v))"
proof -
  let ?us = "va_unspent (cha A) (w_view w) (ia_outpoints (ixa A) (w_index w))"
  let ?g = "\<lambda>((k, i), t). new_local_utxo k i t"
  have "distinct (map lo_outpoint (map ?g (filter (\<lambda>(_, txo). \<not> is_outpoint_locked w (ft_outpoint txo)) ?us)))"
    using assms distinct_map_filter [of "\<lambda>e. lo_outpoint (?g e)" ?us]
    by (simp add: list_unspent_def comp_def)
  then have "distinct (map lo_outpoint (mature_unspent A w h))"
    unfolding mature_unspent_def by (rule distinct_map_filter_option) (auto split: if_splits)
  then show ?thesis
    by (simp add: offered_def distinct_map_filter)
qed

lemma offered_not_manual:
  "(\<lambda>wu. utxo_outpoint (wu_utxo wu)) ` set (p_utxos P) \<inter> lo_outpoint ` set (offered A w P h v) = {}"
proof -
  have "lo_outpoint l \<notin> (\<lambda>wu. utxo_outpoint (wu_utxo wu)) ` set (p_utxos P)" if "l \<in> set (offered A w P h v)" for l
    using that by (simp add: offered_def may_spend_def split: if_splits)
  then show ?thesis
    unfolding disjoint_iff by (metis imageE)
qed

lemma tx_inputs_distinct:
  assumes "coin_selector B select" and "sorters_lawful S" and "psbt_updates_lawful (dsa A)"
    and "distinct (map (\<lambda>wu. utxo_outpoint (wu_utxo wu)) (p_utxos P))"
    and "distinct (map lo_outpoint (list_unspent A w))"
    and "create_tx B X E A S next_u32 select w P rng = Ok (p, w', rng')"
  shows "distinct (map previous_output (tx_input (unsigned_tx p)))"
proof -
  from assms(6,3) obtain plan :: tx_plan and tx r drain_index where c:
    "build_unsigned B A S next_u32 select w P plan rng = Ok (tx, r, drain_index, rng')"
    "unsigned_tx p = tx"
    by (rule create_tx_OkE)
  from assms(1,2) c(1) obtain required optional where f:
    "candidates A w P (locktime_u32 (pl_height plan)) (pl_version plan)
       = (Ok (required, optional) :: (create_tx_error, _) res)"
    "mset (map previous_output (tx_input tx)) = mset (map utxo_outpoint (selected r))"
    "mset (selected r) \<subseteq># mset (map wu_utxo (required @ optional))"
    by (rule build_unsigned_inputs)
  let ?off = "offered A w P (locktime_u32 (pl_height plan)) (pl_version plan)"
  have "distinct (map utxo_outpoint (map wu_utxo (p_utxos P) @ map Local ?off))"
    using assms(4) distinct_offered [OF assms(5), of P "locktime_u32 (pl_height plan)" "pl_version plan"]
      offered_not_manual [of P A w "locktime_u32 (pl_height plan)" "pl_version plan"]
    by (simp add: comp_def)
  then have "distinct (map utxo_outpoint (map wu_utxo (required @ optional)))"
    by (simp only: candidates_Ok(1) [OF f(1)])
  moreover have "mset (map utxo_outpoint (selected r)) \<subseteq># mset (map utxo_outpoint (map wu_utxo (required @ optional)))"
    using image_mset_subseteq_mono [OF f(3)] by (simp only: mset_map)
  ultimately have "distinct (map utxo_outpoint (selected r))"
    by (rule distinct_mset_subset [rotated])
  then show ?thesis
    using f(2) c(2) by (metis mset_eq_imp_distinct_iff)
qed

text \<open>No output is spent twice. When the outputs chosen by hand are distinct, as the builder
  keeps them, and the wallet lists every unspent output once, the inputs of a created transaction
  are distinct.\<close>

lemma created_tx_no_double_spend:
  assumes "coin_selector B select" and "sorters_lawful S" and "psbt_updates_lawful (dsa A)"
    and "distinct (map (\<lambda>wu. utxo_outpoint (wu_utxo wu)) (p_utxos P))"
    and "distinct (map lo_outpoint (list_unspent A w))"
    and "create_tx B X E A S next_u32 select w P rng = Ok (p, w', rng')"
  shows "distinct (map previous_output (tx_input (unsigned_tx p)))"
  by (rule tx_inputs_distinct [OF assms])

subsection \<open>Lock times and sequence numbers\<close>

lemma choose_lock_time_meets:
  "choose_lock_time requested required h = Ok lt \<Longrightarrow>
    (case required of None \<Rightarrow> True | Some t \<Rightarrow> locktime_geq lt t)"
proof -
  have refl: "locktime_geq t t" for t
    by (cases t) (simp_all add: locktime_geq_def)
  have less: "locktime_less t h \<Longrightarrow> locktime_geq h t" for t
    by (cases t; cases h) (auto simp: locktime_geq_def locktime_less_def)
  show "choose_lock_time requested required h = Ok lt \<Longrightarrow>
    (case required of None \<Rightarrow> True | Some t \<Rightarrow> locktime_geq lt t)"
    using refl less by (auto simp: choose_lock_time_def Let_def split: option.splits if_splits)
qed

lemma choose_sequence_meets:
  "choose_sequence B requested required = Ok sq \<Longrightarrow>
    (case required of None \<Rightarrow> True | Some s \<Rightarrow> seq_time B sq = seq_time B s \<and> s \<le> sq)"
  by (auto simp: choose_sequence_def check_nsequence_rbf_def split: option.splits if_splits)

text \<open>Every lock time on the chosen paths through the wallet's policies.\<close>

definition required_locks :: "btc \<Rightarrow> tx_params \<Rightarrow> policy \<Rightarrow> policy option \<Rightarrow> condition set" where
  "required_locks B P ext_policy int_policy =
     set (path_conditions B (path_or_empty (p_external_policy_path P)) ext_policy) \<union>
     (case int_policy of
        None \<Rightarrow> {}
      | Some policy \<Rightarrow> set (path_conditions B (path_or_empty (p_internal_policy_path P)) policy))"

lemma policy_requirements_meets:
  assumes "policy_requirements B P ext_policy int_policy = Ok c" and "meets B sq lt c"
  shows "\<forall>l \<in> required_locks B P ext_policy int_policy. meets B sq lt l"
proof -
  from assms(1) obtain e i where e:
    "get_condition B (path_or_empty (p_external_policy_path P)) ext_policy = Ok e"
    "condition_merge B e i = Ok c"
    "case int_policy of None \<Rightarrow> True
     | Some policy \<Rightarrow> get_condition B (path_or_empty (p_internal_policy_path P)) policy = Ok i"
    by (auto simp: policy_requirements_def res_simps split: option.splits)
  then show ?thesis
    using assms(2) condition_merge_Ok [OF e(2)]
    by (auto simp: required_locks_def path_condition_meets split: option.splits)
qed

lemma policy_requirements_csv:
  assumes "policy_requirements B P ext_policy int_policy = Ok c"
  shows "csv c = None \<longleftrightarrow> (\<forall>l \<in> required_locks B P ext_policy int_policy. csv l = None)"
proof -
  from assms obtain e i where e:
    "get_condition B (path_or_empty (p_external_policy_path P)) ext_policy = Ok e"
    "condition_merge B e i = Ok c"
    "case int_policy of None \<Rightarrow> i = condition_default
     | Some policy \<Rightarrow> get_condition B (path_or_empty (p_internal_policy_path P)) policy = Ok i"
    by (auto simp: policy_requirements_def res_simps split: option.splits)
  then show ?thesis
    using condition_merge_csv [OF e(2)]
    by (auto simp: required_locks_def unsequenced.path_iff condition_default_def split: option.splits)
qed

lemma plan_tx_meets:
  assumes "plan_tx B E A w P = Ok plan"
  obtains ext_policy int_policy c where
    "wallet_policies B E A w = (Ok (ext_policy, int_policy) :: (create_tx_error, _) res)"
    "policy_requirements B P ext_policy int_policy = Ok c"
    "meets B (pl_sequence plan) (pl_lock_time plan) c"
    "csv c \<noteq> None \<Longrightarrow> pl_version plan \<noteq> 1" "pl_version plan \<noteq> 0"
proof -
  from assms obtain ext_policy int_policy c where p:
    "wallet_policies B E A w = (Ok (ext_policy, int_policy) :: (create_tx_error, _) res)"
    "policy_requirements B P ext_policy int_policy = Ok c"
    "choose_version P c = Ok (pl_version plan)"
    "choose_lock_time (p_locktime P) (timelock c) (pl_height plan) = Ok (pl_lock_time plan)"
    "choose_sequence B (p_sequence P) (csv c) = Ok (pl_sequence plan)"
    by (auto simp: plan_tx_def res_simps)
  show thesis
    by (rule that [OF p(1,2)])
      (use p(3) choose_lock_time_meets [OF p(4)] choose_sequence_meets [OF p(5)]
       in \<open>auto simp: meets_def choose_version_def split: option.splits if_splits\<close>)
qed


text \<open>With the ordering \<open>Untouched\<close> nothing is moved. The inputs begin with the outputs chosen
  by hand and the outputs are the recipients, both in the order in which they were added; a change
  output comes last.\<close>

lemma untouched_keeps_order:
  assumes "coin_selector B select" and "psbt_updates_lawful (dsa A)"
    and "p_ordering P = Untouched"
    and "create_tx B X E A S next_u32 select w P rng = Ok (p, w', rng')"
  shows "take (length (p_utxos P)) (map previous_output (tx_input (unsigned_tx p)))
       = map (\<lambda>wu. utxo_outpoint (wu_utxo wu)) (p_utxos P) \<and>
     (tx_output (unsigned_tx p) = map recipient_out (p_recipients P) \<or>
      (\<exists>change. tx_output (unsigned_tx p) = map recipient_out (p_recipients P) @ [change]))"
proof -
  from assms(4,2) obtain plan :: tx_plan and tx r drain_index where c:
    "build_unsigned B A S next_u32 select w P plan rng = Ok (tx, r, drain_index, rng')"
    "unsigned_tx p = tx"
    by (rule create_tx_OkE)
  from c(1) obtain outs outgoing required optional drain_script rng1 target where b:
    "add_recipients B (p_allow_dust P) 0 (p_recipients P) ([], 0) = Ok (outs, outgoing)"
    "candidates A w P (locktime_u32 (pl_height plan)) (pl_version plan)
       = (Ok (required, optional) :: (create_tx_error, _) res)"
    "select required optional (pl_rate plan) target drain_script rng = Ok (r, rng1)"
    "sort_tx_with_aux_rand S next_u32 (p_ordering P)
       \<lparr>tx_version = pl_version plan, tx_lock_time = pl_lock_time plan,
        tx_input = map (make_input (pl_sequence plan)) (selected r),
        tx_output = add_change (cs_excess r) drain_script outs, tx_mw_tx = None, tx_is_hog_ex = False\<rparr>
       rng1 = (tx, rng')"
    by (rule build_unsigned_OkE)
  have tx: "map previous_output (tx_input tx) = map utxo_outpoint (selected r)"
    "tx_output tx = outs @ change_outputs (cs_excess r) drain_script"
    using b(4) assms(3)
    by (auto simp: sort_tx_with_aux_rand_def add_change_append make_input_def)
  have le: "length (p_utxos P) \<le> length required"
    using arg_cong [OF candidates_Ok(2) [OF b(2)], of length] by simp
  have "take (length (p_utxos P)) (selected r) = take (length (p_utxos P)) (take (length required) (selected r))"
    using le by (simp add: min_def)
  also have "\<dots> = map wu_utxo (p_utxos P)"
    using coin_selector.select_required [OF assms(1) b(3)] candidates_Ok(2) [OF b(2)] by (simp add: take_map)
  finally have "take (length (p_utxos P)) (map previous_output (tx_input tx))
      = map (\<lambda>wu. utxo_outpoint (wu_utxo wu)) (p_utxos P)"
    unfolding tx(1) by (simp add: take_map comp_def)
  then show ?thesis
    using add_recipients_Ok [OF b(1)] tx(2) c(2)
    by (cases "cs_excess r") (auto simp: change_outputs_def add_change_def)
qed

end
