(* ===== verification/Fee_Rates.thy ===== *)
theory Fee_Rates
  imports Create_Tx_Facts
begin

section \<open>The fee rate of a created transaction\<close>

text \<open>
  A second contract on top of \<open>coin_selector\<close>: the fee an algorithm reports covers the inputs it
  selected, at the rate it was given. With it, a transaction created with a fee rate pays at least
  that rate for the weight the builder estimates: the transaction with its recipients and without
  inputs, each selected input with its satisfaction weight, and the change output. The products are
  rounded up one by one, which \<open>fee_lawful\<close> states of the multiplication.
\<close>

definition fee_lawful :: "btc \<Rightarrow> bool" where
  "fee_lawful B \<longleftrightarrow> fee_subadditive B \<and> (\<forall>r. fee_mul B r 0 = Some 0) \<and>
     (\<forall>r w w'. w \<le> w' \<longrightarrow> fee_mul B r w' \<noteq> None \<longrightarrow> fee_mul B r w \<noteq> None)"

lemma fee_split:
  assumes "fee_lawful B" and "fee_mul B r (w + w') = Some g"
  obtains f f' where "fee_mul B r w = Some f" "fee_mul B r w' = Some f'" "g \<le> f + f'"
proof -
  obtain f f' where "fee_mul B r w = Some f" "fee_mul B r w' = Some f'"
    using assms unfolding fee_lawful_def by (metis le_add1 le_add2 not_None_eq option.distinct(1))
  then show thesis
    using assms that unfolding fee_lawful_def fee_subadditive_def by blast
qed

lemma fee_split3:
  assumes "fee_lawful B" and "fee_mul B r (a + b + c) = Some g"
  obtains f1 f2 f3 where "fee_mul B r a = Some f1" "fee_mul B r b = Some f2" "fee_mul B r c = Some f3"
    "g \<le> f1 + f2 + f3"
proof -
  from assms obtain f f3 where f: "fee_mul B r (a + b) = Some f" "fee_mul B r c = Some f3" "g \<le> f + f3"
    by (rule fee_split)
  from assms(1) f(1) obtain f1 f2 where "fee_mul B r a = Some f1" "fee_mul B r b = Some f2" "f \<le> f1 + f2"
    by (rule fee_split)
  with f(2,3) show thesis
    by (intro that [of f1 f2 f3]) simp_all
qed

lemma fee_lawful_example [simp]: "fee_lawful btc_example"
proof -
  have "(r * w + 999) div 1000 \<le> (r * w' + 999) div 1000" if "w \<le> w'" for r w w' :: nat
    by (intro div_le_mono add_right_mono mult_le_mono2 that)
  then have "fee_mul btc_example r w \<noteq> None" if "w \<le> w'" "fee_mul btc_example r w' \<noteq> None" for r w w'
    using that by (simp add: btc_example_def split: if_splits) (meson order_trans)
  moreover have "fee_mul btc_example r 0 = Some 0" for r
    by (simp add: btc_example_def)
  ultimately show ?thesis
    using fee_subadditive_example unfolding fee_lawful_def by blast
qed

definition inputs_weight :: "btc \<Rightarrow> weighted_utxo list \<Rightarrow> weight" where
  "inputs_weight B ws = sum_list (map (in_weight B) ws)"

locale fee_paying_selector = coin_selector +
  assumes select_rate: "fee_lawful B \<Longrightarrow> select required optional rate target s rng = Ok (r, rng') \<Longrightarrow>
      \<exists>ws. selected r = map wu_utxo ws \<and> mset ws \<subseteq># mset (required @ optional) \<and>
        (\<forall>f. fee_mul B rate (inputs_weight B ws) = Some f \<longrightarrow> f \<le> fee_amount r)"

lemma sorted_selection_rate:
  assumes "select_sorted_utxos B (map (Pair True) req @ map (Pair False) opt') rate target s = Ok r"
    and "mset opt' = mset opt"
  shows "\<exists>ws. selected r = map wu_utxo ws \<and> mset ws \<subseteq># mset (req @ opt) \<and>
    (\<forall>f. fee_mul B rate (inputs_weight B ws) = Some f \<longrightarrow> f \<le> fee_amount r)"
proof -
  from select_sorted_Ok [OF assms(1)] obtain pre post where p:
    "map (Pair True) req @ map (Pair False) opt' = pre @ post" "selected r = utxos_of pre"
    "fee_mul B rate (weights_of B pre) = Some (fee_amount r)"
    by metis
  have "mset (map snd pre) \<subseteq># mset (map snd (pre @ post))"
    by simp
  also have "map snd (pre @ post) = req @ opt'"
    by (simp flip: p(1) add: comp_def)
  finally show ?thesis
    using p(2,3) assms(2)
    by (intro exI [of _ "map snd pre"]) (simp add: inputs_weight_def comp_def)
qed

sublocale sorted_selector \<subseteq> largest: fee_paying_selector B "largest_first_select B usort"
proof
  fix required optional rate target s and rng :: 'a and r rng'
  assume "largest_first_select B usort required optional rate target s rng = Ok (r, rng')"
  then have "select_sorted_utxos B
      (map (Pair True) required @ map (Pair False) (rev (usort value_le optional))) rate target s = Ok r"
    by (auto simp: largest_first_select_def Let_def res_simps)
  then show "\<exists>ws. selected r = map wu_utxo ws \<and> mset ws \<subseteq># mset (required @ optional) \<and>
        (\<forall>f. fee_mul B rate (inputs_weight B ws) = Some f \<longrightarrow> f \<le> fee_amount r)"
    by (rule sorted_selection_rate) (simp add: usort_mset)
qed

sublocale sorted_selector \<subseteq> oldest: fee_paying_selector B "oldest_first_select B usort"
proof
  fix required optional rate target s and rng :: 'a and r rng'
  assume "oldest_first_select B usort required optional rate target s rng = Ok (r, rng')"
  then have "select_sorted_utxos B
      (map (Pair True) required @ map (Pair False) (usort (age_le B) optional)) rate target s = Ok r"
    by (auto simp: oldest_first_select_def Let_def res_simps)
  then show "\<exists>ws. selected r = map wu_utxo ws \<and> mset ws \<subseteq># mset (required @ optional) \<and>
        (\<forall>f. fee_mul B rate (inputs_weight B ws) = Some f \<longrightarrow> f \<le> fee_amount r)"
    by (rule sorted_selection_rate) (simp add: usort_mset)
qed

sublocale random_selector \<subseteq> draw: fee_paying_selector B "single_random_draw_select B next_u32"
proof
  fix required optional :: "weighted_utxo list" and rate target s and rng :: 'r and r rng'
  obtain opt' rng2 where sh: "shuffle_slice next_u32 optional rng = (opt', rng2)"
    by (cases "shuffle_slice next_u32 optional rng")
  assume "single_random_draw_select B next_u32 required optional rate target s rng = Ok (r, rng')"
  then have "select_sorted_utxos B
      (map (Pair True) required @ map (Pair False) opt') rate target s = Ok r"
    by (auto simp: single_random_draw_select_def sh Let_def res_simps)
  moreover have "mset opt' = mset optional"
    using mset_shuffle_slice [of next_u32 optional rng] by (simp add: sh)
  ultimately show "\<exists>ws. selected r = map wu_utxo ws \<and> mset ws \<subseteq># mset (required @ optional) \<and>
        (\<forall>f. fee_mul B rate (inputs_weight B ws) = Some f \<longrightarrow> f \<le> fee_amount r)"
    by (rule sorted_selection_rate)
qed

subsection \<open>Branch and bound\<close>

lemma groups_fee:
  assumes "fee_lawful B"
  shows "groups_ok B rate gs \<Longrightarrow> fee_mul B rate (inputs_weight B (map og_utxo gs)) = Some f \<Longrightarrow>
    f \<le> sum_list (map og_fee gs)"
proof (induction gs arbitrary: f)
  case Nil
  then show ?case
    using assms by (simp add: fee_lawful_def inputs_weight_def)
next
  case (Cons g gs)
  from Cons.prems(2) have "fee_mul B rate (in_weight B (og_utxo g) + inputs_weight B (map og_utxo gs)) = Some f"
    by (simp add: inputs_weight_def)
  with assms obtain a b where "fee_mul B rate (in_weight B (og_utxo g)) = Some a"
    "fee_mul B rate (inputs_weight B (map og_utxo gs)) = Some b" "f \<le> a + b"
    by (rule fee_split)
  then show ?case
    using Cons.IH [of b] Cons.prems(1) by simp
qed

locale bnb_fee_selector = bnb_search usort B + fallback: fee_paying_selector B fallback
  for usort B and fallback :: "weighted_utxo list \<Rightarrow> weighted_utxo list \<Rightarrow> feerate \<Rightarrow> amount
    \<Rightarrow> script \<Rightarrow> 'r \<Rightarrow> (insufficient_funds, cs_result \<times> 'r) res"

sublocale bnb_fee_selector \<subseteq> contract: bnb_selector usort B fallback
  by unfold_locales

sublocale bnb_fee_selector \<subseteq> bnb: fee_paying_selector B "bnb_select B usort soc fallback" for soc
proof
  fix required optional :: "weighted_utxo list" and rate target s and rng :: 'r
    and r :: cs_result and rng' :: 'r
  let ?pos = "filter (\<lambda>g. 0 < og_eff g)"
  let ?goal = "\<exists>ws. selected r = map wu_utxo ws \<and> mset ws \<subseteq># mset (required @ optional) \<and>
        (\<forall>f. fee_mul B rate (inputs_weight B ws) = Some f \<longrightarrow> f \<le> fee_amount r)"
  assume lawful: "fee_lawful B"
    and run: "bnb_select B usort soc fallback required optional rate target s rng = Ok (r, rng')"
  show ?goal
  proof (rule bnb_select_OkE [OF run], elim disjE conjE)
    fix reqs alls
    assume g: "map og_utxo reqs = required" "map og_utxo alls = optional" "groups_ok B rate (reqs @ alls)"
    have chosen: ?goal
      if res: "bnb_result_of B reqs (int target) rate s (effs reqs) chosen r"
        and sub: "mset chosen \<subseteq># mset (?pos alls)" for chosen
    proof -
      have ok: "groups_ok B rate (reqs @ chosen)"
        using g(3) chosen_submset(2) [OF sub] by (auto intro: groups_ok_subset)
      have "mset (map og_utxo chosen) \<subseteq># mset optional"
        using chosen_submset(1) [OF sub, of og_utxo] g(2) by simp
      then have "mset (map og_utxo (reqs @ chosen)) \<subseteq># mset (required @ optional)"
        using g(1) by auto
      then show ?thesis
        using res groups_fee [OF lawful ok]
        by (intro exI [of _ "map og_utxo (reqs @ chosen)"]) (auto simp: bnb_result_of_def comp_def)
    qed
    {
      assume "bnb_result_of B reqs (int target) rate s (effs reqs) [] r"
      then show ?goal using chosen [of "[]"] by simp
    next
      fix cf
      assume "bnb B usort reqs (?pos alls) (effs reqs) (effs (?pos alls)) (int target) (int cf) s rate = Ok r"
      then obtain ch where "bnb_solution (effs reqs) (?pos alls) (int target) (int cf) ch"
        "bnb_result_of B reqs (int target) rate s (effs reqs) ch r"
        by (rule bnb_sound) auto
      then show ?goal
        using chosen [of ch] by (simp add: bnb_solution_def)
    next
      assume "fallback required optional rate target s rng = Ok (r, rng')"
      then show ?goal
        by (rule fallback.select_rate [OF lawful])
    }
  qed
qed

interpretation default_fee_sel: bnb_fee_selector sort_by B "single_random_draw_select B next_u32"
  for B next_u32
  by unfold_locales

subsection \<open>The whole transaction\<close>

text \<open>The weight the builder charges for a change output. An output of no value is not charged: it
  arises only for a script without a dust limit, when the remainder does not cover its fee.\<close>

definition change_weight :: "btc \<Rightarrow> txout list \<Rightarrow> weight" where
  "change_weight B change = (case change of [] \<Rightarrow> 0
     | c # _ \<Rightarrow> if txo_value c = 0 then 0
         else (case weight_from_vb B (script_ser_len B (txo_script c) + 8) of Some w \<Rightarrow> w | None \<Rightarrow> 0))"

lemma decide_change_weight:
  assumes "decide_change B remain rate s = (Ok ex :: (insufficient_funds, excess) res)"
    and "fee_lawful B" and "fee_mul B rate (change_weight B (change_outputs ex s)) = Some f"
  shows "excess_amount ex + f \<le> remain"
proof (cases ex)
  case (Change a g)
  show ?thesis
  proof (cases "a = 0")
    case True
    then show ?thesis
      using assms(2,3) Change
      by (simp add: change_weight_def change_outputs_def add_change_def fee_lawful_def)
  next
    case False
    then show ?thesis
      using assms(1,3) Change
      by (auto simp: decide_change_def Let_def res_simps checked_sub_def change_weight_def
          change_outputs_def add_change_def split: if_splits)
  qed
qed (use assms in \<open>simp add: change_weight_def change_outputs_def add_change_def fee_lawful_def\<close>)

definition unfunded_tx :: "int \<Rightarrow> locktime \<Rightarrow> (script \<times> amount) list \<Rightarrow> transaction" where
  "unfunded_tx v lock_time recipients = \<lparr>tx_version = v, tx_lock_time = lock_time, tx_input = [],
     tx_output = map recipient_out recipients, tx_mw_tx = None, tx_is_hog_ex = False\<rparr>"

lemma choose_fee_rate:
  "choose_fee P = Ok (r, fee) \<Longrightarrow> p_fee_policy P = Some (FeeRate rate) \<Longrightarrow> r = rate"
  by (auto simp: choose_fee_def res_simps split: option.splits if_splits)

text \<open>A selected output that was not chosen by hand is an unspent output of the wallet, with the weight
  its descriptor needs to be spent.\<close>

lemma weighted_candidate:
  assumes "candidates A w P h v = (Ok (required, optional) :: (create_tx_error, _) res)"
    and "wu \<in> set (required @ optional)" and "wu \<notin> set (p_utxos P)"
  shows "\<exists>l \<in> set (list_unspent A w). \<exists>d. wu_utxo wu = Local l \<and>
    public_descriptor A w (lo_keychain l) = (Ok d :: (create_tx_error, _) res) \<and>
    da_max_weight (dsa A) d = Some (satisfaction_weight wu)"
  using assms
  by (elim candidates_member)
    (auto simp: weighted_local_def res_simps dest!: offered_eligible simp: eligible_def)

lemma tx_pays_rate:
  assumes sel: "fee_paying_selector B select" and S: "sorters_lawful S"
    and U: "psbt_updates_lawful (dsa A)" and fees: "fee_lawful B"
    and rate: "p_fee_policy P = Some (FeeRate rate)"
    and run: "create_tx B X E A S next_u32 select w P rng = Ok (p, w', rng')"
  shows "\<exists>ws change.
     mset (map previous_output (tx_input (unsigned_tx p))) = mset (map (\<lambda>wu. utxo_outpoint (wu_utxo wu)) ws) \<and>
     (\<forall>wu \<in> set ws. utxo_ok (wu_utxo wu) \<and>
        (wu \<in> set (p_utxos P) \<or>
         (\<exists>l \<in> set (list_unspent A w). \<exists>d. wu_utxo wu = Local l \<and>
            public_descriptor A w (lo_keychain l) = (Ok d :: (create_tx_error, _) res) \<and>
            da_max_weight (dsa A) d = Some (satisfaction_weight wu)))) \<and>
     mset (tx_output (unsigned_tx p)) = mset (map recipient_out (p_recipients P) @ change) \<and>
     length change \<le> 1 \<and>
     (\<forall>f. fee_mul B rate (tx_weight B (unfunded_tx (tx_version (unsigned_tx p)) (tx_lock_time (unsigned_tx p))
           (p_recipients P)) + inputs_weight B ws + change_weight B change) = Some f \<longrightarrow>
        outputs_total (tx_output (unsigned_tx p)) + f \<le> sum_list (map wu_value ws))"
proof -
  from sel have sel': "coin_selector B select"
    by (rule fee_paying_selector.axioms)
  from run U obtain plan tx r drain_index where c: "plan_tx B E A w P = Ok plan"
    "build_unsigned B A S next_u32 select w P plan rng = Ok (tx, r, drain_index, rng')"
    "unsigned_tx p = tx"
    by (rule create_tx_OkE)
  have pl_rate: "pl_rate plan = rate"
    by (rule choose_fee_rate [OF plan_tx_fee [OF c(1)] rate])
  from c(2) obtain outs outgoing base_fee required optional drain_script rng1 where b:
    "add_recipients B (p_allow_dust P) 0 (p_recipients P) ([], 0) = Ok (outs, outgoing)"
    "fee_mul B (pl_rate plan) (tx_weight B \<lparr>tx_version = pl_version plan, tx_lock_time = pl_lock_time plan,
        tx_input = [], tx_output = outs, tx_mw_tx = None, tx_is_hog_ex = False\<rparr>) = Some base_fee"
    "candidates A w P (locktime_u32 (pl_height plan)) (pl_version plan)
       = (Ok (required, optional) :: (create_tx_error, _) res)"
    "select required optional (pl_rate plan) (outgoing + (pl_fee plan + base_fee)) drain_script rng
       = Ok (r, rng1)"
    "sort_tx_with_aux_rand S next_u32 (p_ordering P)
       \<lparr>tx_version = pl_version plan, tx_lock_time = pl_lock_time plan,
        tx_input = map (make_input (pl_sequence plan)) (selected r),
        tx_output = add_change (cs_excess r) drain_script outs, tx_mw_tx = None, tx_is_hog_ex = False\<rparr>
       rng1 = (tx, rng')"
    by (rule build_unsigned_OkE)
  note sorted = sort_tx_mset [OF S b(5), simplified]
  have outs: "outs = map recipient_out (p_recipients P)" "outgoing = outputs_total outs"
    using add_recipients_Ok [OF b(1)] by auto
  obtain ws where ws: "selected r = map wu_utxo ws" "mset ws \<subseteq># mset (required @ optional)"
    "\<And>f. fee_mul B rate (inputs_weight B ws) = Some f \<Longrightarrow> f \<le> fee_amount r"
    using fee_paying_selector.select_rate [OF sel fees b(4)] pl_rate by blast
  obtain remain where funds: "total_in (selected r) = outgoing + (pl_fee plan + base_fee) + fee_amount r + remain"
    "decide_change B remain rate drain_script = (Ok (cs_excess r) :: (insufficient_funds, excess) res)"
    using coin_selector.select_funds [OF sel' b(4)] pl_rate by auto
  let ?change = "change_outputs (cs_excess r) drain_script"
  have out: "mset (tx_output tx) = mset (map recipient_out (p_recipients P) @ ?change)"
    using sorted outs by (simp add: add_change_append)
  have pays: "outputs_total (tx_output tx) + f \<le> sum_list (map wu_value ws)"
    if whole: "fee_mul B rate (tx_weight B (unfunded_tx (tx_version tx) (tx_lock_time tx) (p_recipients P))
          + inputs_weight B ws + change_weight B ?change) = Some f" for f
  proof -
    obtain f1 f2 f3 where f: "fee_mul B rate (tx_weight B (unfunded_tx (tx_version tx) (tx_lock_time tx) (p_recipients P))) = Some f1"
      "fee_mul B rate (inputs_weight B ws) = Some f2" "fee_mul B rate (change_weight B ?change) = Some f3"
      "f \<le> f1 + f2 + f3"
      using whole by (rule fee_split3 [OF fees])
    have "f1 = base_fee"
      using f(1) b(2) sorted outs pl_rate by (simp add: unfunded_tx_def)
    moreover have "sum_list (map wu_value ws) = total_in (selected r)"
      by (simp add: ws(1) total_in_def comp_def)
    ultimately show ?thesis
      using decide_change_weight [OF funds(2) fees f(3)] ws(3) [OF f(2)] f(4) funds(1) outs
        outputs_total_mset [OF out] by (simp add: outputs_total_change)
  qed
  have "mset (map previous_output (tx_input tx)) = mset (map utxo_outpoint (selected r))"
    using sorted(1) by (simp add: multiset.map_comp comp_def make_input_def)
  moreover have "length ?change \<le> 1"
    by (simp add: change_outputs_def add_change_def split: excess.split)
  moreover have "utxo_ok (wu_utxo wu) \<and> (wu \<in> set (p_utxos P) \<or>
      (\<exists>l \<in> set (list_unspent A w). \<exists>d. wu_utxo wu = Local l \<and>
         public_descriptor A w (lo_keychain l) = (Ok d :: (create_tx_error, _) res) \<and>
         da_max_weight (dsa A) d = Some (satisfaction_weight wu)))" if wu: "wu \<in> set ws" for wu
  proof -
    have "wu \<in> set (required @ optional)"
      using set_mset_mono [OF ws(2)] wu by auto
    then show ?thesis
      using coin_selector.select_readable [OF sel' b(4)] wu weighted_candidate [OF b(3)]
      by (auto simp: ws(1))
  qed
  ultimately show ?thesis
    using out pays c(3)
    by (intro exI [of _ ws] exI [of _ ?change]) (simp add: ws(1) comp_def)
qed

text \<open>C4: a transaction created with a fee rate pays it. Every input is an output chosen by hand or an
  unspent output of the wallet, with the weight its descriptor needs to be spent; what these outputs
  are worth over the outputs of the transaction is at least the rate times the estimated weight: the
  transaction with the recipients and no inputs, every input with its satisfaction weight, and the
  change output.\<close>

theorem created_tx_pays_rate:
  assumes sel: "fee_paying_selector B select" and S: "sorters_lawful S"
    and U: "psbt_updates_lawful (dsa A)" and fees: "fee_lawful B"
    and rate: "p_fee_policy P = Some (FeeRate rate)"
    and run: "create_tx B X E A S next_u32 select w P rng = Ok (p, w', rng')"
  shows "\<exists>ws change.
     mset (map previous_output (tx_input (unsigned_tx p))) = mset (map (\<lambda>wu. utxo_outpoint (wu_utxo wu)) ws) \<and>
     (\<forall>wu \<in> set ws. utxo_ok (wu_utxo wu) \<and>
        (wu \<in> set (p_utxos P) \<or>
         (\<exists>l \<in> set (list_unspent A w). \<exists>d. wu_utxo wu = Local l \<and>
            public_descriptor A w (lo_keychain l) = (Ok d :: (create_tx_error, _) res) \<and>
            da_max_weight (dsa A) d = Some (satisfaction_weight wu)))) \<and>
     mset (tx_output (unsigned_tx p)) = mset (map recipient_out (p_recipients P) @ change) \<and>
     length change \<le> 1 \<and>
     (\<forall>f. fee_mul B rate (tx_weight B (unfunded_tx (tx_version (unsigned_tx p)) (tx_lock_time (unsigned_tx p))
           (p_recipients P)) + inputs_weight B ws + change_weight B change) = Some f \<longrightarrow>
        outputs_total (tx_output (unsigned_tx p)) + f \<le> sum_list (map wu_value ws))"
  by (rule tx_pays_rate [OF assms])

end
