(* ===== verification/Example_Wallet.thy ===== *)
theory Example_Wallet
  imports Fee_Rates
begin

section \<open>A concrete wallet\<close>

text \<open>
  A wallet with two keychains and two unspent outputs over simple instances of the external parts,
  and runs of \<open>create_tx\<close> on it: the theorems about created transactions are applied to them.
\<close>

definition example_index_api :: "(nat, nat, (nat, nat) btree) index_api" where
  "example_index_api = \<lparr>
     ia_keychains = (\<lambda>ix. [(External, 0), (Internal, 1)]),
     ia_descriptor = (\<lambda>ix k. Some (case k of External \<Rightarrow> 0 | Internal \<Rightarrow> 1)),
     ia_unused_spks = (\<lambda>ix k. []),
     ia_next_index = (\<lambda>ix k. Some (of_nat ix, True)),
     ia_last_revealed = (\<lambda>ix k. if ix = 0 then None else Some (of_nat (ix - 1))),
     ia_reveal_next = (\<lambda>k ix. (Some ((of_nat ix, [9, 9]), [(ix, 1)]), Suc ix)),
     ia_next_unused = (\<lambda>k ix. (Some ((of_nat ix, [9, 9]), [(ix, 1)]), Suc ix)),
     ia_reveal_to = (\<lambda>k i ix. (Some ([(i, [9, 9])], [(unat i, 1)]), max ix (Suc (unat i)))),
     ia_reveal_multi = (\<lambda>m ix. ([], ix)),
     ia_mark_used = (\<lambda>k i ix. (True, ix)),
     ia_unmark_used = (\<lambda>k i ix. (True, ix)),
     ia_index_of_spk = (\<lambda>ix s. if s = [1, 1] then Some (External, 0) else None),
     ia_outpoints = (\<lambda>ix. [((External, 0), OutPoint 7 0), ((External, 0), OutPoint 8 0)]),
     ia_txout = (\<lambda>ix op. Some ((External, 0), \<lparr>txo_value = 9000, txo_script = [1, 1]\<rparr>)),
     ia_is_tx_relevant = (\<lambda>ix tx. True),
     ia_sent_and_received = (\<lambda>ix tx. (0, 0)),
     ia_net_value = (\<lambda>ix tx. 0)\<rparr>"

definition example_full_txout :: "outpoint \<Rightarrow> full_txout" where
  "example_full_txout op = \<lparr>ft_outpoint = op, ft_txout = \<lparr>txo_value = 9000, txo_script = [1, 1]\<rparr>,
     ft_spent_by = None,
     ft_pos = Confirmed \<lparr>cbt_block = \<lparr>bid_height = 100, bid_hash = 4\<rparr>, cbt_time = 3\<rparr> None,
     ft_is_on_coinbase = False\<rparr>"

definition example_graph_api :: "(transaction list, nat, (nat, nat) btree, (nat, nat) btree, nat, nat) graph_api" where
  "example_graph_api = \<lparr>
     ga_get_tx = (\<lambda>g txid. List.find (\<lambda>tx. compute_txid btc_example tx = txid) g),
     ga_get_txout = (\<lambda>g op. Option.bind (List.find (\<lambda>tx. compute_txid btc_example tx = op_txid op) g)
        (\<lambda>tx. get_nth (tx_output tx) (unat (op_vout op)))),
     ga_calculate_fee = (\<lambda>g tx. Some 300),
     ga_apply_update = (\<lambda>u (g, ix). (([], []), (g, ix))),
     ga_apply_block = (\<lambda>b h (g, ix). (([], []), (g, ix))),
     ga_insert_unconfirmed = (\<lambda>txs (g, ix). (([], []), (g @ map fst txs, ix))),
     ga_empty_update = 0\<rparr>"

definition example_chain_api :: "(nat, (nat, nat) btree, nat, transaction list, nat list, nat) chain_api" where
  "example_chain_api = \<lparr>
     ca_tip = (\<lambda>ch. \<lparr>bid_height = of_nat ch, bid_hash = ch\<rparr>),
     ca_genesis_hash = (\<lambda>ch. 0),
     ca_from_genesis = (\<lambda>h. (0, [(0, h)])),
     ca_from_changeset = (\<lambda>lc. if lc = [] then None else Some (Max (set (map fst lc)))),
     ca_apply_update = (\<lambda>cu ch. Ok ([(cu, cu)], cu)),
     ca_apply_header = (\<lambda>b h c ch. Ok ([(unat h, b)], unat h)),
     ca_prev_hash = (\<lambda>b. b - 1),
     ca_block_hash = (\<lambda>b. b),
     ca_view = (\<lambda>ch tg b. [ch]),
     va_txs = (\<lambda>cv. []),
     va_unspent = (\<lambda>cv ops. map (\<lambda>(k, op). (k, example_full_txout op)) ops),
     va_outputs = (\<lambda>cv ops. map (\<lambda>(k, op). (k, example_full_txout op)) ops),
     va_balance = (\<lambda>cv ops trust conf. \<lparr>bal_immature = 0, bal_trusted_pending = 0, bal_untrusted_pending = 0,
        bal_confirmed = 9000 * length ops\<rparr>),
     va_is_mature = (\<lambda>t h. True)\<rparr>"

definition example_desc_api :: "(nat, nat \<times> u32, nat) desc_api" where
  "example_desc_api = \<lparr>
     da_form = (\<lambda>d. DWpkh (SingleFull None 1)),
     da_keys = (\<lambda>d. [SingleFull None 1]),
     da_has_wildcard = (\<lambda>d. True),
     da_spk = (\<lambda>d i. Some [9, 9]),
     da_max_weight = (\<lambda>d. Some 100),
     da_at_index = (\<lambda>d i. Some (d, i)),
     da_update_unchecked = (\<lambda>dd pin. Ok pin),
     da_update_input = (\<lambda>i dd p. Ok p),
     da_update_output = (\<lambda>i dd p. Ok p),
     da_address = (\<lambda>s n. Some ''addr'')\<rparr>"

definition example_api where
  "example_api = \<lparr>ixa = example_index_api, tga = example_graph_api, cha = example_chain_api,
     dsa = example_desc_api, exa = example_ops\<rparr>"

definition example_wallet where
  "example_wallet = \<lparr>w_signers = ([] :: nat signers_container), w_change_signers = [], w_chain = (200 :: nat),
     w_graph = ([] :: transaction list), w_index = (3 :: nat),
     w_stage = (cs_default example_ops :: (nat, nat, (nat, nat) btree, (nat, nat) btree, (nat, nat) btree) change_set),
     w_network = 0, w_locked = [], w_view = [200 :: nat]\<rparr>"

definition example_sorters :: sorters where
  "example_sorters = \<lparr>sort_txins = sort_by, sort_txouts = sort_by\<rparr>"

definition example_xpubs :: "nat xpub_api" where
  "example_xpubs = \<lparr>xp_id = (\<lambda>x. x), xp_depth = (\<lambda>x. 0)\<rparr>"

definition example_params :: tx_params where
  "example_params = tb_fee_rate 250 (tb_ordering Untouched (tb_add_recipient [2, 2, 2] 10000 tx_params_default))"

lemmas example_defs = example_index_api_def example_graph_api_def example_chain_api_def example_desc_api_def
  example_api_def example_wallet_def example_sorters_def example_xpubs_def example_params_def
  tb_fee_rate_def tb_ordering_def tb_add_recipient_def tx_params_default_def

lemma example_keychains:
  "keychains example_api example_wallet = [(External, 0), (Internal, 1)]"
  "wallet_keychains example_api example_wallet = [(External, 0), (Internal, 1)]"
  by (simp_all add: keychains_def wallet_keychains_def example_defs bt_extend_def less_keychain_kind_def)

definition example_wallet_policy :: policy where
  "example_wallet_policy = make_signature example_env False (SingleFull None 1) ([] :: nat signers_container) BsNone"

lemma example_policy_of:
  "policy_of_descriptor btc_example example_env example_api (w_signers example_wallet) d = Ok example_wallet_policy"
  "policy_of_descriptor btc_example example_env example_api (w_change_signers example_wallet) d
     = Ok example_wallet_policy"
  by (simp_all add: policy_of_descriptor_def example_defs example_wallet_policy_def)

lemma example_wallet_policies:
  "wallet_policies btc_example example_env example_api example_wallet
     = Ok (example_wallet_policy, Some example_wallet_policy)"
  by (simp add: wallet_policies_def example_keychains bt_get_def example_policy_of)

lemma example_condition:
  "get_condition btc_example path example_wallet_policy = Ok condition_default"
  by (simp add: example_wallet_policy_def make_signature_def make_generic_signature_def policy_new_def Let_def)

lemma example_requires_path: "\<not> requires_path btc_example example_wallet_policy"
  by (simp add: requires_path_def example_condition)

lemma example_requirements:
  "check_policy_paths btc_example example_params example_wallet_policy (Some example_wallet_policy) = Ok ()"
  "policy_requirements btc_example example_params example_wallet_policy (Some example_wallet_policy)
     = Ok condition_default"
  by (simp_all add: check_policy_paths_def example_requires_path policy_requirements_def example_condition
      condition_merge_def condition_default_def fail_if_def)

lemma example_choices:
  "choose_version example_params condition_default = Ok 2"
  "choose_current_height example_api example_wallet example_params = Ok (Blocks 200)"
  "choose_lock_time (p_locktime example_params) None (Blocks 200) = Ok (Blocks 200)"
  "choose_sequence btc_example (p_sequence example_params) None = Ok 0xFFFFFFFD"
  "choose_fee example_params = Ok (250, 0)"
  by (simp_all add: choose_version_def choose_current_height_def example_defs locktime_from_height_def
      choose_lock_time_def choose_sequence_def choose_fee_def ENABLE_RBF_NO_LOCKTIME_def)

definition example_plan :: tx_plan where
  "example_plan = \<lparr>pl_version = 2, pl_lock_time = Blocks 200, pl_height = Blocks 200,
     pl_sequence = 0xFFFFFFFD, pl_rate = 250, pl_fee = 0\<rparr>"

lemma example_planned:
  "plan_tx btc_example example_env example_api example_wallet example_params = Ok example_plan"
  by (simp add: plan_tx_def example_wallet_policies example_requirements example_choices
      condition_default_def [symmetric]) (simp add: condition_default_def example_choices example_plan_def)

lemma example_candidates:
  "candidates example_api example_wallet example_params 200 2
     = Ok ([], map (\<lambda>op. \<lparr>satisfaction_weight = 100,
         wu_utxo = Local (new_local_utxo External 0 (example_full_txout op))\<rparr>) [OutPoint 7 0, OutPoint 8 0])"
  by (simp add: candidates_def filter_utxos_def example_defs mature_unspent_def List.map_filter_def
      is_outpoint_locked_def may_spend_def truc_ok_def new_local_utxo_def example_full_txout_def
      weighted_local_def public_descriptor_def map_keychain_def keychains_def)

lemma example_drain_script:
  "choose_drain_script example_api example_wallet example_params = Ok ([9, 9], Some (Internal, 3))"
  by (simp add: choose_drain_script_def unused_or_next_def peek_spk_def address_info_of_def example_defs
      map_keychain_def keychains_def)

lemma example_recipients:
  "add_recipients btc_example False 0 (p_recipients example_params) ([], 0)
     = Ok ([\<lparr>txo_value = 10000, txo_script = [2, 2, 2]\<rparr>], 10000)"
  by (simp add: example_defs is_dust_def btc_example_def u64_add_def U64_MAX_def)

definition example_coin :: "outpoint \<Rightarrow> utxo" where
  "example_coin op = Local (new_local_utxo External 0 (example_full_txout op))"

definition example_selected :: cs_result where
  "example_selected = \<lparr>selected = [example_coin (OutPoint 8 0), example_coin (OutPoint 7 0)],
     fee_amount = 132, cs_excess = Change 7813 11\<rparr>"

lemma example_selection:
  "largest_first_select btc_example sort_by [] (map (\<lambda>op. \<lparr>satisfaction_weight = 100,
         wu_utxo = Local (new_local_utxo External 0 (example_full_txout op))\<rparr>) [OutPoint 7 0, OutPoint 8 0])
       250 10044 [9, 9] rng = Ok (example_selected, rng)"
  by (simp add: largest_first_select_def select_eval value_le_def example_full_txout_def new_local_utxo_def
      Let_def panic_unless_def example_selected_def example_coin_def)

definition example_unsigned :: transaction where
  "example_unsigned = \<lparr>tx_version = 2, tx_lock_time = Blocks 200,
     tx_input = map (make_input 0xFFFFFFFD) (selected example_selected),
     tx_output = [\<lparr>txo_value = 10000, txo_script = [2, 2, 2]\<rparr>, \<lparr>txo_value = 7813, txo_script = [9, 9]\<rparr>],
     tx_mw_tx = None, tx_is_hog_ex = False\<rparr>"

lemma example_params_fields:
  "p_manually_selected_only example_params = False" "p_allow_dust example_params = False"
  "p_ordering example_params = Untouched" "p_add_global_xpubs example_params = False"
  "p_utxos example_params = []" "p_fee_policy example_params = Some (FeeRate 250)"
  by (simp_all add: example_defs)

lemma example_base_fee:
  "fee_mul btc_example 250 (tx_weight btc_example \<lparr>tx_version = 2, tx_lock_time = Blocks 200, tx_input = [],
     tx_output = [\<lparr>txo_value = 10000, txo_script = [2, 2, 2]\<rparr>], tx_mw_tx = None, tx_is_hog_ex = False\<rparr>) = Some 44"
  by (simp add: btc_example_def U64_MAX_def)

lemma example_built:
  "build_unsigned btc_example example_api example_sorters nx (largest_first_select btc_example sort_by)
     example_wallet example_params example_plan (0 :: u32)
   = Ok (example_unsigned, example_selected, Some (Internal, 3), 0)"
  by (simp add: build_unsigned_def example_params_fields example_plan_def example_recipients fail_if_def
      example_candidates [simplified] example_drain_script example_base_fee example_selection [simplified]
      u64_add_def U64_MAX_def)
    (simp add: check_outputs_def add_change_def sort_tx_with_aux_rand_def example_selected_def example_unsigned_def)

lemma example_input_for:
  "psbt_input_for btc_example example_api example_wallet example_params (example_coin op)
     = Ok psbt_input_default"
  by (simp add: psbt_input_for_def example_coin_def local_psbt_input_def get_psbt_input_def new_local_utxo_def
      example_full_txout_def example_defs public_descriptor_def map_keychain_def keychains_def psbt_input_default_def)

lemma example_filled:
  "fill_inputs (psbt_input_for btc_example example_api example_wallet example_params)
     (selected_map (selected example_selected))
     (zip (inputs (psbt_from_unsigned_tx example_unsigned)) (tx_input example_unsigned))
   = Ok [psbt_input_default, psbt_input_default]"
proof -
  have op: "utxo_outpoint (example_coin op) = op" for op
    by (simp add: example_coin_def new_local_utxo_def example_full_txout_def)
  show ?thesis
    by (simp add: psbt_from_unsigned_tx_def example_unsigned_def example_selected_def selected_map_def
        make_input_def op example_input_for)
qed

lemma example_updated:
  "update_psbt_with_descriptor btc_example example_api example_wallet (psbt_from_unsigned_tx example_unsigned)
   = Ok (psbt_from_unsigned_tx example_unsigned)"
  by (simp add: update_psbt_with_descriptor_def psbt_from_unsigned_tx_def example_unsigned_def
      example_selected_def get_utxo_for_def get_nth_def psbt_input_default_def List.map_filter_def
      update_one_def example_defs upt_rec)

lemma example_completed:
  "complete_transaction btc_example example_xpubs example_env example_api example_wallet example_unsigned
     (selected example_selected) example_params
   = Ok (psbt_from_unsigned_tx example_unsigned)"
proof -
  have "psbt_from_unsigned_tx example_unsigned\<lparr>inputs := [psbt_input_default, psbt_input_default]\<rparr>
      = psbt_from_unsigned_tx example_unsigned" "unsigned_tx (psbt_from_unsigned_tx example_unsigned) = example_unsigned"
    by (simp_all add: psbt_from_unsigned_tx_def example_unsigned_def example_selected_def)
  then show ?thesis
    by (simp add: complete_transaction_def add_xpubs_def example_params_fields example_filled example_updated)
qed

lemma example_created:
  "create_tx btc_example example_xpubs example_env example_api example_sorters (\<lambda>r. (r, r + 1))
     (largest_first_select btc_example sort_by) example_wallet example_params (0 :: u32)
   = Ok (psbt_from_unsigned_tx example_unsigned,
       record_change example_api example_wallet (Change 7813 11) (Some (Internal, 3)), 0)"
  by (simp add: create_tx_def example_planned example_built example_completed) (simp add: example_selected_def)

lemma example_lawful:
  "coin_selector btc_example (largest_first_select btc_example sort_by)"
  "fee_paying_selector btc_example (largest_first_select btc_example sort_by)"
  "sorters_lawful example_sorters" "psbt_updates_lawful (dsa example_api)"
  by (simp_all add: sorted_sel.largest.coin_selector_axioms sorted_sel.largest.fee_paying_selector_axioms
      sorters_lawful_def psbt_updates_lawful_def example_defs)

subsection \<open>The theorems at this run\<close>

lemma example_unsigned_psbt:
  "unsigned_tx (psbt_from_unsigned_tx example_unsigned) = example_unsigned"
  "tx_version example_unsigned = 2" "tx_lock_time example_unsigned = Blocks 200"
  "map previous_output (tx_input example_unsigned) = [OutPoint 8 0, OutPoint 7 0]"
  "outputs_total (tx_output example_unsigned) = 17813"
  "p_recipients example_params = [([2, 2, 2], 10000)]"
  by (simp_all add: psbt_from_unsigned_tx_def example_unsigned_def example_selected_def make_input_def
      example_coin_def new_local_utxo_def example_full_txout_def example_defs)

theorem created_tx_balances_witness:
  "\<exists>us. mset [OutPoint 8 0, OutPoint 7 0] = mset (map utxo_outpoint us) \<and> (17813 :: nat) \<le> total_in us"
  using created_tx_balances [OF example_lawful(1,3,4) example_created]
  unfolding example_unsigned_psbt by (metis (no_types, lifting) add_leE)

theorem created_tx_inputs_witness:
  "\<exists>l. lo_outpoint l = OutPoint 7 0 \<and> eligible example_api example_wallet example_params 2 l"
  using created_tx_inputs [OF example_lawful(1,3,4) example_created]
  unfolding example_unsigned_psbt by (simp add: example_params_fields)

lemma created_tx_no_double_spend_witness: "distinct [OutPoint 8 0, OutPoint 7 0]"
proof -
  have "distinct (map (\<lambda>wu. utxo_outpoint (wu_utxo wu)) (p_utxos example_params))"
    "distinct (map lo_outpoint (list_unspent example_api example_wallet))"
    by (simp_all add: example_params_fields list_unspent_def example_defs new_local_utxo_def
        example_full_txout_def)
  from created_tx_no_double_spend [OF example_lawful(1,3,4) this example_created]
  show ?thesis
    unfolding example_unsigned_psbt .
qed


lemma untouched_keeps_order_witness:
  "tx_output example_unsigned = [recipient_out ([2, 2, 2], 10000)] \<or>
    (\<exists>change. tx_output example_unsigned = [recipient_out ([2, 2, 2], 10000), change])"
  using untouched_keeps_order [OF example_lawful(1,4) example_params_fields(3) example_created]
  unfolding example_unsigned_psbt by simp

theorem created_tx_pays_rate_witness:
  "\<exists>ws change. mset [OutPoint 8 0, OutPoint 7 0] = mset (map (\<lambda>wu. utxo_outpoint (wu_utxo wu)) ws) \<and>
     (\<forall>wu \<in> set ws. wu_utxo wu \<in> Local ` set (list_unspent example_api example_wallet)) \<and>
     (\<forall>f. fee_mul btc_example 250 (tx_weight btc_example (unfunded_tx 2 (Blocks 200) [([2, 2, 2], 10000)])
       + inputs_weight btc_example ws + change_weight btc_example change) = Some f \<longrightarrow>
     17813 + f \<le> sum_list (map wu_value ws))"
  using created_tx_pays_rate [OF example_lawful(2,3,4) fee_lawful_example example_params_fields(6) example_created]
  unfolding example_unsigned_psbt example_params_fields(5) by (elim exE conjE) (intro exI conjI, assumption, auto)

end
