(* ===== verification/Store_Runs.thy ===== *)
theory Store_Runs
  imports Persisted Example_Wallet
begin

section \<open>What survives in the store\<close>

text \<open>
  The contracts of a persister: \<open>recording_store\<close>, after a successful write the store tells what was
  written, and \<open>durable_store\<close>, a failed one changes nothing. Of the persisters of
  src/wallet/persisted.rs that of an open SQLite transaction keeps the first, those of a SQLite
  connection and of a file store keep both. Then the runs of a persisted wallet, as a step relation over the
  wallet and the store in which writes may fail and the process may restart; and the invariant of
  these runs: what the store holds, merged with the staged changes, says what network, chain and
  locked outpoints the wallet has.
\<close>

subsection \<open>The contract of a persister\<close>

text \<open>What a change set tells of the wallet: its network, its descriptors, the chain it builds and the
  locked outpoints.\<close>

definition tells_same where
  "tells_same chain_of c c' \<longleftrightarrow> cs_network c = cs_network c' \<and> cs_descriptor c = cs_descriptor c' \<and>
     cs_change_descriptor c = cs_change_descriptor c' \<and>
     chain_of (cs_local_chain c) = chain_of (cs_local_chain c') \<and>
     (\<forall>op. bt_get (cs_locked_outpoints c) op = Some True \<longleftrightarrow> bt_get (cs_locked_outpoints c') op = Some True)"

text \<open>After a successful write the store tells what it told, with what was written. It need not read as
  the merge: a store may drop what no longer matters, as the tables of this crate and of
  \<open>bdk_chain\<close> drop the rows of unlocked outpoints and of removed blocks.\<close>

locale recording_store =
  fixes X :: "('lc, 'tg, 'ix) ext_ops"
    and M :: "('p, ('d, nat, 'lc, 'tg, 'ix) change_set, 'e) persister"
    and contents :: "'p \<Rightarrow> ('d, nat, 'lc, 'tg, 'ix) change_set option"
    and chain_of :: "'lc \<Rightarrow> 'ch option"
  assumes ext: "ext_lawful X"
    and contents_wf: "contents p = Some c \<Longrightarrow> cs_wf X c"
    and initialize_ok: "pe_initialize M p = (Ok c, p') \<Longrightarrow> contents p' = Some c"
    and initialize_same: "contents p = Some b \<Longrightarrow> pe_initialize M p = (Ok c, p') \<Longrightarrow> c = b"
    and persist_ok: "contents p = Some b \<Longrightarrow> cs_wf X c \<Longrightarrow> pe_persist M c p = (Ok u, p')
      \<Longrightarrow> \<exists>c'. contents p' = Some c' \<and> tells_same chain_of c' (cs_merge X b c)"

text \<open>A durable store in addition keeps what it has when a write fails.\<close>

locale durable_store = recording_store +
  assumes persist_fail: "\<not> is_ok (fst (pe_persist M c p)) \<Longrightarrow> contents (snd (pe_persist M c p)) = contents p"

sublocale recording_store \<subseteq> changes: mergeable
    "cs_wf X :: ('d, nat, 'lc, 'tg, 'ix) change_set \<Rightarrow> bool" "cs_merge X" "cs_default X" "cs_is_empty X"
  by (rule cs_mergeable [OF ext])

lemma bt_wf_filter: "bt_wf m \<Longrightarrow> bt_wf (filter P m)"
  by (simp add: bt_wf_def sorted_wrt_map sorted_wrt_filter)

lemma bt_get_filter:
  assumes "bt_wf m"
  shows "bt_get (filter (\<lambda>e. P (snd e)) m) k = (case bt_get m k of Some v \<Rightarrow> if P v then Some v else None | None \<Rightarrow> None)"
proof -
  have "bt_get (filter (\<lambda>e. P (snd e)) m) k = Some v \<longleftrightarrow> bt_get m k = Some v \<and> P v" for v
    by (auto simp: bt_get_Some_iff [OF assms] bt_get_Some_iff [OF bt_wf_filter [OF assms]])
  then show ?thesis
    by (cases "bt_get m k") (metis (mono_tags, lifting) not_Some_eq option.simps(4,5) option.inject)+
qed

subsection \<open>The SQLite persisters\<close>

text \<open>What is assumed of the tables of \<open>bdk_chain\<close>. Their change sets can be read back after they
  were written and after the schema was set up again, and what is read is well formed. Of the graph
  and the index nothing more: their tables replace columns, which is not always the merge.\<close>

definition store_reads :: "'a merge_ops \<Rightarrow> ('a, 't, 'e) store_ops \<Rightarrow> bool" where
  "store_reads M S \<longleftrightarrow>
     (\<forall>t t' a x. so_load S t = Ok a \<longrightarrow> mo_wf M x \<longrightarrow> so_save S x t = (Ok (), t') \<longrightarrow> (\<exists>a'. so_load S t' = Ok a')) \<and>
     (\<forall>t t' a. so_init S t = (Ok (), t') \<longrightarrow> so_load S t = Ok a \<longrightarrow> so_load S t' = Ok a) \<and>
     (\<forall>t a. so_load S t = Ok a \<longrightarrow> mo_wf M a)"

text \<open>A change set of a local chain maps heights to the hash of the block now there, or to nothing when
  the block was removed: \<open>blocks\<close> is this map. Merging overrides height by height. The table has a
  row per height with a block: a removed block's row is deleted, and what is read has no entry for
  it. The chain is built from the blocks that are there.\<close>

definition present :: "(nat \<Rightarrow> nat option option) \<Rightarrow> nat \<Rightarrow> nat option option" where
  "present m h = (case m h of Some (Some b) \<Rightarrow> Some (Some b) | _ \<Rightarrow> None)"

locale block_table =
  fixes M :: "'lc merge_ops" and S :: "('lc, 'lct, 'e) store_ops" and chain_of :: "'lc \<Rightarrow> 'ch option"
    and blocks :: "'lc \<Rightarrow> nat \<Rightarrow> nat option option"
  assumes merge_blocks: "mo_wf M a \<Longrightarrow> mo_wf M x \<Longrightarrow> blocks (mo_merge M a x) = blocks a ++ blocks x"
    and save_blocks: "so_load S t = Ok a \<Longrightarrow> mo_wf M x \<Longrightarrow> so_save S x t = (Ok (), t') \<Longrightarrow> so_load S t' = Ok a' \<Longrightarrow>
      blocks a' = present (blocks a ++ blocks x)"
    and chain_blocks: "mo_wf M a \<Longrightarrow> mo_wf M b \<Longrightarrow> present (blocks a) = present (blocks b) \<Longrightarrow> chain_of a = chain_of b"
begin

lemma present_present: "present (present m) = present m"
  by (auto simp: present_def split: option.split)

lemma chain_kept:
  assumes "so_load S t = Ok a" "mo_wf M a" "mo_wf M x" "so_save S x t = (Ok (), t')" "so_load S t' = Ok a'" "mo_wf M a'"
    and "mo_wf M (mo_merge M a x)"
  shows "chain_of a' = chain_of (mo_merge M a x)"
  using assms save_blocks [OF assms(1,3,4,5)] merge_blocks [OF assms(2,3)]
  by (intro chain_blocks) (simp_all add: present_present)

end

text \<open>A query of this crate that the database answers, it answers whatever rows the tables have.\<close>

definition selects_answered where
  "selects_answered D \<longleftrightarrow> (\<forall>db db'. (sql_error D SelectWallet db = None \<longrightarrow> sql_error D SelectWallet db' = None) \<and>
     (sql_error D SelectLocks db = None \<longrightarrow> sql_error D SelectLocks db' = None))"

definition db_lawful where
  "db_lawful X D chain_of blocks \<longleftrightarrow> store_reads (lc_ops X) (lc_store D) \<and> store_reads (tg_ops X) (tg_store D) \<and>
     store_reads (ix_ops X) (ix_store D) \<and> selects_answered D \<and>
     block_table (lc_ops X) (lc_store D) chain_of blocks"

definition sqlite_contents where
  "sqlite_contents X D db = (case from_sqlite X D db of Ok c \<Rightarrow> Some c | _ \<Rightarrow> None)"

lemma sqlite_contents_Some [simp]: "sqlite_contents X D db = Some c \<longleftrightarrow> from_sqlite X D db = Ok c"
  by (simp add: sqlite_contents_def split: res.split)

lemma store_readsD:
  assumes "store_reads M S"
  shows "so_load S t = Ok a \<Longrightarrow> mo_wf M a"
    "so_init S t = (Ok (), t') \<Longrightarrow> so_load S t = Ok a \<Longrightarrow> so_load S t' = Ok a"
    "so_load S t = Ok a \<Longrightarrow> mo_wf M x \<Longrightarrow> so_save S x t = (Ok (), t') \<Longrightarrow> \<exists>a'. so_load S t' = Ok a'"
  using assms unfolding store_reads_def by blast+

lemma db_lawfulD:
  assumes "db_lawful X D chain_of blocks"
  shows "store_reads (lc_ops X) (lc_store D)" "store_reads (tg_ops X) (tg_store D)"
    "store_reads (ix_ops X) (ix_store D)" "selects_answered D" "block_table (lc_ops X) (lc_store D) chain_of blocks"
  using assms by (simp_all add: db_lawful_def)

lemma from_sqlite_wf: "db_lawful X D chain_of blocks \<Longrightarrow> from_sqlite X D db = Ok c \<Longrightarrow> cs_wf X c"
  using store_readsD(1) [OF db_lawfulD(1)] store_readsD(1) [OF db_lawfulD(2)] store_readsD(1) [OF db_lawfulD(3)]
  by (auto simp: from_sqlite_Ok cs_wf_def lock_table_map_facts)

lemma from_sqlite_init:
  assumes "db_lawful X D chain_of blocks" "init_sqlite_tables D db = (Ok u, db')" "from_sqlite X D db = Ok c"
  shows "from_sqlite X D db' = Ok c"
proof -
  from assms(2) have "db_row db' = db_row db" "db_locks db' = db_locks db"
    "so_init (lc_store D) (db_lc db) = (Ok (), db_lc db')" "so_init (tg_store D) (db_tg db) = (Ok (), db_tg db')"
    "so_init (ix_store D) (db_ix db) = (Ok (), db_ix db')"
    by (auto simp: init_sqlite_tables_def run_steps_Ok exec_sql_Ok on_part_Ok simp del: run_steps.simps(2))
  then show ?thesis
    using assms(3) store_readsD(2) [OF db_lawfulD(1) [OF assms(1)], of "db_lc db" "db_lc db'"]
      store_readsD(2) [OF db_lawfulD(2) [OF assms(1)], of "db_tg db" "db_tg db'"]
      store_readsD(2) [OF db_lawfulD(3) [OF assms(1)], of "db_ix db" "db_ix db'"]
      db_lawfulD(4) [OF assms(1), unfolded selects_answered_def, rule_format, of db db']
    by (auto simp: from_sqlite_Ok)
qed

lemma from_sqlite_persist:
  assumes X: "ext_lawful X" and law: "db_lawful X D chain_of blocks" and wf: "cs_wf X c"
    and old: "from_sqlite X D db = Ok b" and run: "persist_to_sqlite D c db = (Ok u, db')"
  shows "\<exists>c'. from_sqlite X D db' = Ok c' \<and> tells_same chain_of c' (cs_merge X b c)"
proof -
  note law = db_lawfulD [OF law] and saved = persist_to_sqlite_Ok [OF run]
  have wf_c: "mo_wf (lc_ops X) (cs_local_chain c)" "mo_wf (tg_ops X) (cs_tx_graph c)" "mo_wf (ix_ops X) (cs_indexer c)"
    "bt_wf (cs_locked_outpoints c)"
    using wf by (simp_all add: cs_wf_def)
  have loads: "so_load (lc_store D) (db_lc db) = Ok (cs_local_chain b)" "so_load (tg_store D) (db_tg db) = Ok (cs_tx_graph b)"
    "so_load (ix_store D) (db_ix db) = Ok (cs_indexer b)" "bt_wf (cs_locked_outpoints b)"
    "sql_error D SelectWallet db = None" "sql_error D SelectLocks db = None"
    using old by (auto simp: from_sqlite_Ok lock_table_map_facts)
  obtain lc tg ix where "so_load (lc_store D) (db_lc db') = Ok lc" "so_load (tg_store D) (db_tg db') = Ok tg"
    "so_load (ix_store D) (db_ix db') = Ok ix"
    using store_readsD(3) [OF law(1) loads(1) wf_c(1) saved(3)] store_readsD(3) [OF law(2) loads(2) wf_c(2) saved(4)]
      store_readsD(3) [OF law(3) loads(3) wf_c(3) saved(5)] by blast
  moreover have "sql_error D SelectWallet db' = None" "sql_error D SelectLocks db' = None"
    using law(4) loads(5,6) unfolding selects_answered_def by blast+
  ultimately obtain c' where c': "from_sqlite X D db' = Ok c'" and lc: "cs_local_chain c' = lc"
    and lc_load: "so_load (lc_store D) (db_lc db') = Ok lc"
    by (simp add: from_sqlite_Ok)
  note read = sqlite_read_back [OF wf_c(4) old run c']
  have wf_b: "mo_wf (lc_ops X) (cs_local_chain b)"
    using store_readsD(1) [OF law(1) loads(1)] .
  have "chain_of (cs_local_chain c') = chain_of (mo_merge (lc_ops X) (cs_local_chain b) (cs_local_chain c))"
    unfolding lc
    using X wf_b wf_c(1) store_readsD(1) [OF law(1) lc_load]
    by (intro block_table.chain_kept [OF law(5) loads(1) wf_b wf_c(1) saved(3) lc_load])
      (auto simp: ext_lawful_def lawful_def intro: mergeable.wf_merge)
  moreover have "bt_get (cs_locked_outpoints c') op = Some True \<longleftrightarrow>
      bt_get (cs_locked_outpoints (cs_merge X b c)) op = Some True" for op
    using read(4) [of op] loads(4) wf_c(4)
    by (simp add: cs_merge_def lock_merge_def bt_get_extend map_add_def split: option.splits)
  ultimately show ?thesis
    using c' read(1-3) by (simp add: tells_same_def cs_merge_def)
qed

lemma in_transaction_Ok:
  "in_transaction D f db = (Ok a, db') \<Longrightarrow> f db = (Ok a, db')"
  by (auto simp: in_transaction_def split: option.splits prod.splits res.splits)

lemma in_transaction_fail: "\<not> is_ok (fst (in_transaction D f db)) \<Longrightarrow> snd (in_transaction D f db) = db"
  by (auto simp: in_transaction_def split: option.splits prod.splits res.splits)

lemma transaction_initialize_Ok:
  "transaction_initialize X D db = (Ok c, db') \<longleftrightarrow> init_sqlite_tables D db = (Ok (), db') \<and> from_sqlite X D db' = Ok c"
  by (auto simp: transaction_initialize_def split: prod.splits res.splits)

text \<open>Both persisters record what is written; that of a connection is durable.\<close>

lemma transaction_recording_store:
  assumes "ext_lawful X" and "db_lawful X D chain_of blocks"
  shows "recording_store X (transaction_persister X D :: (('d, nat, 'lct, 'tgt, 'ixt) wallet_db, _, 'e) persister)
    (sqlite_contents X D) chain_of"
proof
  fix p p' :: "('d, nat, 'lct, 'tgt, 'ixt) wallet_db" and c b u
  show "ext_lawful X" by (rule assms(1))
  show "sqlite_contents X D p = Some c \<Longrightarrow> cs_wf X c"
    using from_sqlite_wf [OF assms(2)] by simp
  show "pe_initialize (transaction_persister X D) p = (Ok c, p') \<Longrightarrow> sqlite_contents X D p' = Some c"
    by (simp add: transaction_persister_def transaction_initialize_Ok)
  show "sqlite_contents X D p = Some b \<Longrightarrow> pe_initialize (transaction_persister X D) p = (Ok c, p') \<Longrightarrow> c = b"
    using from_sqlite_init [OF assms(2), of p "()" p' b] by (simp add: transaction_persister_def transaction_initialize_Ok)
  show "sqlite_contents X D p = Some b \<Longrightarrow> cs_wf X c \<Longrightarrow> pe_persist (transaction_persister X D) c p = (Ok u, p')
      \<Longrightarrow> \<exists>c'. sqlite_contents X D p' = Some c' \<and> tells_same chain_of c' (cs_merge X b c)"
    using from_sqlite_persist [OF assms, of c p b u p']
    by (simp add: transaction_persister_def transaction_persist_def)
qed

lemma sqlite_durable_store:
  assumes "ext_lawful X" and "db_lawful X D chain_of blocks"
  shows "durable_store X (sqlite_persister X D :: (('d, nat, 'lct, 'tgt, 'ixt) wallet_db, _, 'e) persister)
    (sqlite_contents X D) chain_of"
proof -
  note in_tx = transaction_recording_store [OF assms]
  note defs = sqlite_persister_def sqlite_initialize_def sqlite_persist_def
  have init: "pe_initialize (transaction_persister X D) p = (Ok c, p')" if "pe_initialize (sqlite_persister X D) p = (Ok c, p')" for p c p'
    using that by (auto simp: defs transaction_persister_def dest: in_transaction_Ok)
  have persist: "pe_persist (transaction_persister X D) c p = (Ok u, p')" if "pe_persist (sqlite_persister X D) c p = (Ok u, p')" for p c u p'
    using that by (auto simp: defs transaction_persister_def dest: in_transaction_Ok)
  show ?thesis
  proof (intro durable_store.intro durable_store_axioms.intro recording_store.intro)
    fix p p' :: "('d, nat, 'lct, 'tgt, 'ixt) wallet_db" and c b u
    show "ext_lawful X" by (rule assms(1))
    show "sqlite_contents X D p = Some c \<Longrightarrow> cs_wf X c"
      by (rule recording_store.contents_wf [OF in_tx])
    show "pe_initialize (sqlite_persister X D) p = (Ok c, p') \<Longrightarrow> sqlite_contents X D p' = Some c"
      by (rule recording_store.initialize_ok [OF in_tx init])
    show "sqlite_contents X D p = Some b \<Longrightarrow> pe_initialize (sqlite_persister X D) p = (Ok c, p') \<Longrightarrow> c = b"
      by (rule recording_store.initialize_same [OF in_tx _ init])
    show "sqlite_contents X D p = Some b \<Longrightarrow> cs_wf X c \<Longrightarrow> pe_persist (sqlite_persister X D) c p = (Ok u, p')
        \<Longrightarrow> \<exists>c'. sqlite_contents X D p' = Some c' \<and> tells_same chain_of c' (cs_merge X b c)"
      by (rule recording_store.persist_ok [OF in_tx _ _ persist])
    show "\<not> is_ok (fst (pe_persist (sqlite_persister X D) c p)) \<Longrightarrow>
        sqlite_contents X D (snd (pe_persist (sqlite_persister X D) c p)) = sqlite_contents X D p"
      by (simp add: defs in_transaction_fail)
  qed
qed

locale lawful_sqlite =
  fixes X :: "('lc, 'tg, 'ix) ext_ops" and D :: "('d, nat, 'lc, 'tg, 'ix, 'lct, 'tgt, 'ixt, 'e) db_ops"
    and chain_of :: "'lc \<Rightarrow> 'ch option" and blocks :: "'lc \<Rightarrow> nat \<Rightarrow> nat option option"
  assumes sqlite_ext: "ext_lawful X" and sqlite_db: "db_lawful X D chain_of blocks"

sublocale lawful_sqlite \<subseteq> in_tx: recording_store X
    "transaction_persister X D :: (('d, nat, 'lct, 'tgt, 'ixt) wallet_db, _, 'e) persister" "sqlite_contents X D" chain_of
  by (rule transaction_recording_store [OF sqlite_ext sqlite_db])

sublocale lawful_sqlite \<subseteq> durable_store X
    "sqlite_persister X D :: (('d, nat, 'lct, 'tgt, 'ixt) wallet_db, _, 'e) persister" "sqlite_contents X D" chain_of
  by (rule sqlite_durable_store [OF sqlite_ext sqlite_db])

text \<open>The concrete database is lawful: hash 0 stands for a removed block, and the chain is made of the
  other entries.\<close>

definition example_blocks :: "(nat, nat) btree \<Rightarrow> nat \<Rightarrow> nat option option" where
  "example_blocks a h = map_option (\<lambda>b. if b = 0 then None else Some b) (bt_get a h)"

definition example_chain_of :: "(nat, nat) btree \<Rightarrow> (nat, nat) btree option" where
  "example_chain_of a = (let there = filter (\<lambda>e. snd e \<noteq> 0) a in if there = [] then None else Some there)"

lemma present_example: "present (example_blocks a) h = map_option Some (bt_get (filter (\<lambda>e. snd e \<noteq> 0) a) h)"
  if "bt_wf a"
  by (simp add: present_def example_blocks_def bt_get_filter [OF that] split: option.split)

interpretation example_table: block_table map_ops block_store example_chain_of example_blocks
proof
  fix a x a' b t t' :: "(nat, nat) btree"
  assume "mo_wf map_ops a"
  then have a: "bt_wf a" by (simp add: map_ops_def)
  show "example_blocks (mo_merge map_ops a x) = example_blocks a ++ example_blocks x" if "mo_wf map_ops x"
    using that a
    by (intro ext) (auto simp: map_ops_def example_blocks_def bt_simps map_add_def split: option.split)
  show "example_chain_of a = example_chain_of b"
    if "mo_wf map_ops b" "present (example_blocks a) = present (example_blocks b)"
  proof -
    have b: "bt_wf b" using that(1) by (simp add: map_ops_def)
    have "map_option Some (bt_get (filter (\<lambda>e. snd e \<noteq> 0) a) h) = map_option Some (bt_get (filter (\<lambda>e. snd e \<noteq> 0) b) h)" for h
      using that(2) by (metis present_example [OF a] present_example [OF b])
    then have "bt_get (filter (\<lambda>e. snd e \<noteq> 0) a) = bt_get (filter (\<lambda>e. snd e \<noteq> 0) b)"
      by (intro ext) (metis option.inj_map_strong option.inject)
    then have "filter (\<lambda>e. snd e \<noteq> 0) a = filter (\<lambda>e. snd e \<noteq> 0) b"
      by (intro bt_ext bt_wf_filter a b)
    then show ?thesis by (simp add: example_chain_of_def)
  qed
next
  fix t t' a x a' :: "(nat, nat) btree"
  assume l: "so_load block_store t = Ok a" and x: "mo_wf map_ops x" and s: "so_save block_store x t = (Ok (), t')"
    and l': "so_load block_store t' = Ok a'"
  then have t: "bt_wf t" "a = t" "a' = t'" "t' = filter (\<lambda>e. snd e \<noteq> 0) (bt_extend t x)" "bt_wf x"
    by (auto simp: block_store_def map_ops_def split: if_splits)
  show "example_blocks a' = present (example_blocks a ++ example_blocks x)"
    using t by (intro ext) (auto simp: present_def example_blocks_def bt_get_filter bt_simps map_add_def split: option.split)
qed

lemma example_db_lawful: "db_lawful example_ops example_db_ops example_chain_of example_blocks"
  using example_table.block_table_axioms
  by (auto simp: db_lawful_def store_reads_def selects_answered_def example_ops_def example_db_ops_def map_ops_def
      map_store_def block_store_def bt_simps bt_wf_filter split: if_splits)

interpretation example_sqlite: lawful_sqlite example_ops example_db_ops example_chain_of example_blocks
  by unfold_locales (simp_all add: example_db_lawful)

text \<open>So does the persister of a file store, when the file is what was appended to it.\<close>

definition file_contents where
  "file_contents X F f = (case fs_dump F f of Ok changeset \<Rightarrow> Some (unwrap_or_default X changeset) | _ \<Rightarrow> None)"

locale lawful_file_store =
  fixes X :: "('lc, 'tg, 'ix) ext_ops"
    and F :: "('f, ('d, nat, 'lc, 'tg, 'ix) change_set, 'le, 'we) file_store_api"
    and chain_of :: "'lc \<Rightarrow> 'ch option"
  assumes file_ext: "ext_lawful X"
    and dump_wf: "fs_dump F f = Ok b \<Longrightarrow> cs_wf X (unwrap_or_default X b)"
    and dump_append: "fs_dump F f = Ok b \<Longrightarrow> cs_wf X c \<Longrightarrow> fs_append F c f = (Ok u, f') \<Longrightarrow>
      \<exists>b'. fs_dump F f' = Ok b' \<and> unwrap_or_default X b' = cs_merge X (unwrap_or_default X b) c"
    and append_fail: "\<not> is_ok (fst (fs_append F c f)) \<Longrightarrow> fs_dump F (snd (fs_append F c f)) = fs_dump F f"

lemma is_ok_map_err [simp]: "is_ok (map_err g m) = is_ok m"
  by (cases m) simp_all

sublocale lawful_file_store \<subseteq> durable_store X "file_store_persister X F" "file_contents X F" chain_of
proof
  fix p p' :: 'f and c b u
  show "ext_lawful X" by (rule file_ext)
  show "file_contents X F p = Some c \<Longrightarrow> cs_wf X c"
    using dump_wf by (auto simp: file_contents_def split: res.splits)
  show "pe_initialize (file_store_persister X F) p = (Ok c, p') \<Longrightarrow> file_contents X F p' = Some c"
    by (auto simp: file_store_persister_def file_store_initialize_def file_contents_def res_simps)
  show "file_contents X F p = Some b \<Longrightarrow> pe_initialize (file_store_persister X F) p = (Ok c, p') \<Longrightarrow> c = b"
    by (auto simp: file_store_persister_def file_store_initialize_def file_contents_def res_simps split: res.splits)
  show "file_contents X F p = Some b \<Longrightarrow> cs_wf X c \<Longrightarrow> pe_persist (file_store_persister X F) c p = (Ok u, p')
      \<Longrightarrow> \<exists>c'. file_contents X F p' = Some c' \<and> tells_same chain_of c' (cs_merge X b c)"
    using dump_append [of p _ c u p']
    by (fastforce simp: file_store_persister_def file_store_persist_def file_contents_def res_simps tells_same_def
        split: prod.splits res.splits)
  show "\<not> is_ok (fst (pe_persist (file_store_persister X F) c p)) \<Longrightarrow>
      file_contents X F (snd (pe_persist (file_store_persister X F) c p)) = file_contents X F p"
    using append_fail [of c p]
    by (auto simp: file_store_persister_def file_store_persist_def file_contents_def split: prod.splits)
qed

text \<open>A file as the list of what was appended.\<close>

definition list_file :: "(example_change_set list, example_change_set, string, string) file_store_api" where
  "list_file = \<lparr>fs_dump = (\<lambda>f. if list_all (cs_wf example_ops) f
         then Ok (if f = [] then None else Some (foldl (cs_merge example_ops) (cs_default example_ops) f)) else Err ''corrupt''),
     fs_append = (\<lambda>c f. (Ok (), f @ [c]))\<rparr>"

lemma list_file_dump:
  "fs_dump list_file f = Ok b \<Longrightarrow> list_all (cs_wf example_ops) f \<and>
    unwrap_or_default example_ops b = foldl (cs_merge example_ops) (cs_default example_ops) f"
  by (auto simp: list_file_def unwrap_or_default_def split: if_splits)

lemma list_file_append: "fs_append list_file c f = (Ok (), f @ [c])"
  by (simp add: list_file_def)

lemma list_file_total:
  "list_all (cs_wf example_ops) f \<Longrightarrow> \<exists>b. fs_dump list_file f = Ok b"
  by (simp add: list_file_def)

interpretation example_file: lawful_file_store example_ops list_file example_chain_of
proof
  note m = cs_mergeable [OF ext_lawful_example]
  show "ext_lawful example_ops" by simp
  show "fs_dump list_file f = Ok c \<Longrightarrow> cs_wf example_ops (unwrap_or_default example_ops c)" for f c
    using list_file_dump [of f c] mergeable.foldl_wf [OF m mergeable.wf_empty [OF m], of f] by (simp add: list_all_iff)
  show "\<exists>b'. fs_dump list_file f' = Ok b' \<and>
      unwrap_or_default example_ops b' = cs_merge example_ops (unwrap_or_default example_ops b) c"
    if "fs_dump list_file f = Ok b" "cs_wf example_ops c" "fs_append list_file c f = (Ok u, f')" for f b c u f'
  proof -
    have f': "f' = f @ [c]" using that(3) by (simp add: list_file_append)
    have "\<exists>b'. fs_dump list_file f' = Ok b'"
      using list_file_total [of f'] that(1,2) list_file_dump [of f b] by (auto simp: f')
    then obtain b' where "fs_dump list_file f' = Ok b'" by blast
    then show ?thesis
      using list_file_dump [of f b] list_file_dump [of f' b'] that(1) by (auto simp: f')
  qed
qed (simp add: list_file_append)

subsection \<open>Runs\<close>

text \<open>
  One step of a program that keeps a wallet in a store: an operation on the wallet, a write of the
  staged changes, which may succeed or fail, or a restart, which forgets the wallet and loads it.
  \<open>record_change\<close> is what a created transaction leaves in the wallet.
\<close>

inductive wallet_step for A N M where
  Lock: "wallet_step A N M (w, p) (lock_outpoint A op w, p)"
| Unlock: "wallet_step A N M (w, p) (unlock_outpoint A op w, p)"
| Reveal: "reveal_next_address A w k = (Ok (ai, w') :: (unit, _) res) \<Longrightarrow> wallet_step A N M (w, p) (w', p)"
| Reveal_to: "reveal_addresses_to A w k i = (Ok (ais, w') :: (unit, _) res) \<Longrightarrow> wallet_step A N M (w, p) (w', p)"
| Next_unused: "next_unused_address A w k = (Ok (ai, w') :: (unit, _) res) \<Longrightarrow> wallet_step A N M (w, p) (w', p)"
| Mark: "wallet_step A N M (w, p) (snd (mark_used A w k i), p)"
| Unmark: "wallet_step A N M (w, p) (snd (unmark_used A w k i), p)"
| Created: "wallet_step A N M (w, p) (record_change A w ex di, p)"
| Update: "apply_update A w (u :: (_, _) wallet_update) = Ok w' \<Longrightarrow> wallet_step A N M (w, p) (w', p)"
| Block: "apply_block_connected_to A w b h (at :: block_id) = Ok w' \<Longrightarrow> wallet_step A N M (w, p) (w', p)"
| Unconfirmed: "wallet_step A N M (w, p) (apply_unconfirmed_txs A w txs, p)"
| Persist: "persist_wallet A M w p = (r, w', p') \<Longrightarrow> wallet_step A N M (w, p) (w', p')"
| Restart: "load_persisted A N M (P :: (_, _) load_params) p = (Ok (Some w'), p') \<Longrightarrow> wallet_step A N M (w, p) (w', p')"

inductive wallet_run for A N M p\<^sub>0 where
  Start: "create_persisted A N M (P :: (_, _) create_params) p\<^sub>0 = (Ok w, p) \<Longrightarrow> wallet_run A N M p\<^sub>0 (w, p)"
| Step: "wallet_run A N M p\<^sub>0 s \<Longrightarrow> wallet_step A N M s s' \<Longrightarrow> wallet_run A N M p\<^sub>0 s'"

inductive_cases wallet_stepE: "wallet_step A N M (w, p) s'"

lemma create_tx_step:
  assumes "create_tx B X E A S next_u32 select w P rng = Ok (psbt, w', rng')"
  shows "wallet_step A N M (w, p) (w', p)"
proof -
  from assms obtain ex di where "w' = record_change A w ex di"
    by (auto simp: create_tx_def res_simps)
  then show ?thesis
    by (simp add: Created)
qed

text \<open>What the external parts promise: the change sets they emit are well formed, and a chain is
  what its change sets, merged in order, build.\<close>

definition chain_replays where
  "chain_replays A \<longleftrightarrow>
     (\<forall>h ch lc. ca_from_genesis (cha A) h = (ch, lc) \<longrightarrow>
        mo_wf (lc_ops (exa A)) lc \<and> ca_from_changeset (cha A) lc = Some ch) \<and>
     (\<forall>u ch lc ch'. ca_apply_update (cha A) u ch = Ok (lc, ch') \<longrightarrow> mo_wf (lc_ops (exa A)) lc \<and>
        (\<forall>a. mo_wf (lc_ops (exa A)) a \<longrightarrow> ca_from_changeset (cha A) a = Some ch \<longrightarrow>
           ca_from_changeset (cha A) (mo_merge (lc_ops (exa A)) a lc) = Some ch')) \<and>
     (\<forall>b h at ch lc ch'. ca_apply_header (cha A) b h at ch = Ok (lc, ch') \<longrightarrow> mo_wf (lc_ops (exa A)) lc \<and>
        (\<forall>a. mo_wf (lc_ops (exa A)) a \<longrightarrow> ca_from_changeset (cha A) a = Some ch \<longrightarrow>
           ca_from_changeset (cha A) (mo_merge (lc_ops (exa A)) a lc) = Some ch'))"

definition index_emits_wf where
  "index_emits_wf A \<longleftrightarrow>
     (\<forall>k ix e c ix'. ia_reveal_next (ixa A) k ix = (Some (e, c), ix') \<longrightarrow> mo_wf (ix_ops (exa A)) c) \<and>
     (\<forall>k ix e c ix'. ia_next_unused (ixa A) k ix = (Some (e, c), ix') \<longrightarrow> mo_wf (ix_ops (exa A)) c) \<and>
     (\<forall>k i ix e c ix'. ia_reveal_to (ixa A) k i ix = (Some (e, c), ix') \<longrightarrow> mo_wf (ix_ops (exa A)) c) \<and>
     (\<forall>m ix. mo_wf (ix_ops (exa A)) (fst (ia_reveal_multi (ixa A) m ix)))"

definition graph_emits_wf where
  "graph_emits_wf A N \<longleftrightarrow>
     (let wf = (\<lambda>c. mo_wf (tg_ops (exa A)) (fst c) \<and> mo_wf (ix_ops (exa A)) (snd c)) in
      (\<forall>u g. wf (fst (ga_apply_update (tga A) u g))) \<and>
      (\<forall>b h g. wf (fst (ga_apply_block (tga A) b h g))) \<and>
      (\<forall>txs g. wf (fst (ga_insert_unconfirmed (tga A) txs g))) \<and>
      (\<forall>tgc ix. wf (snd (na_graph N tgc ix))))"

definition replays where
  "replays A N \<longleftrightarrow> ext_lawful (exa A) \<and> chain_replays A \<and> index_emits_wf A \<and> graph_emits_wf A N"

lemma replays_index:
  assumes "replays A N"
  shows "ia_reveal_next (ixa A) k ix = (Some (e, c), ix') \<Longrightarrow> mo_wf (ix_ops (exa A)) c"
    "ia_next_unused (ixa A) k ix = (Some (e, c), ix') \<Longrightarrow> mo_wf (ix_ops (exa A)) c"
    "ia_reveal_to (ixa A) k i ix = (Some (e', c), ix') \<Longrightarrow> mo_wf (ix_ops (exa A)) c"
    "mo_wf (ix_ops (exa A)) (fst (ia_reveal_multi (ixa A) m ix))"
  using assms unfolding replays_def index_emits_wf_def by blast+

lemma replays_graph:
  assumes "replays A N"
  shows "mo_wf (tg_ops (exa A)) (fst (fst (ga_apply_update (tga A) u g)))"
    "mo_wf (ix_ops (exa A)) (snd (fst (ga_apply_update (tga A) u g)))"
    "mo_wf (tg_ops (exa A)) (fst (fst (ga_apply_block (tga A) b h g)))"
    "mo_wf (ix_ops (exa A)) (snd (fst (ga_apply_block (tga A) b h g)))"
    "mo_wf (tg_ops (exa A)) (fst (fst (ga_insert_unconfirmed (tga A) txs g)))"
    "mo_wf (ix_ops (exa A)) (snd (fst (ga_insert_unconfirmed (tga A) txs g)))"
    "mo_wf (tg_ops (exa A)) (fst (snd (na_graph N tgc ix)))"
    "mo_wf (ix_ops (exa A)) (snd (snd (na_graph N tgc ix)))"
  using assms unfolding replays_def graph_emits_wf_def Let_def by blast+

lemma replays_chain:
  assumes "replays A N"
  shows "ca_from_genesis (cha A) hash = (ch, lc) \<Longrightarrow>
      mo_wf (lc_ops (exa A)) lc \<and> ca_from_changeset (cha A) lc = Some ch"
    "ca_apply_update (cha A) u ch = Ok (lc, ch') \<Longrightarrow> mo_wf (lc_ops (exa A)) lc \<and>
      (\<forall>a. mo_wf (lc_ops (exa A)) a \<longrightarrow> ca_from_changeset (cha A) a = Some ch \<longrightarrow>
         ca_from_changeset (cha A) (mo_merge (lc_ops (exa A)) a lc) = Some ch')"
    "ca_apply_header (cha A) b h at ch = Ok (lc, ch') \<Longrightarrow> mo_wf (lc_ops (exa A)) lc \<and>
      (\<forall>a. mo_wf (lc_ops (exa A)) a \<longrightarrow> ca_from_changeset (cha A) a = Some ch \<longrightarrow>
         ca_from_changeset (cha A) (mo_merge (lc_ops (exa A)) a lc) = Some ch')"
  using assms unfolding replays_def chain_replays_def by blast+

subsection \<open>The invariant\<close>

text \<open>\<open>remembers A c w\<close>: the change set says which network, chain and locks the wallet has.\<close>

definition remembers where
  "remembers A c w \<longleftrightarrow> cs_network c = Some (w_network w) \<and>
     ca_from_changeset (cha A) (cs_local_chain c) = Some (w_chain w) \<and>
     (\<forall>op. op \<in> set (w_locked w) \<longleftrightarrow> bt_get (cs_locked_outpoints c) op = Some True)"

definition recoverable where
  "recoverable A C s \<longleftrightarrow> (\<exists>b. C (snd s) = Some b \<and> cs_wf (exa A) b \<and> cs_wf (exa A) (w_stage (fst s)) \<and>
     remembers A (cs_merge (exa A) b (w_stage (fst s))) (fst s))"

lemma remembers_same:
  "tells_same (ca_from_changeset (cha A)) c c' \<Longrightarrow> remembers A c w \<longleftrightarrow> remembers A c' w"
  by (simp add: remembers_def tells_same_def)

lemma cs_wf_locks: "cs_wf X c \<Longrightarrow> bt_wf (cs_locked_outpoints c)"
  by (simp add: cs_wf_def)

text \<open>A step that merges a change set into the stage and keeps the store.\<close>

lemma recoverable_stage:
  assumes "replays A N" and "recoverable A C (w, p)" and "cs_wf (exa A) c"
    and "w_stage w' = cs_merge (exa A) (w_stage w) c"
    and "\<And>b. cs_wf (exa A) b \<Longrightarrow> remembers A b w \<Longrightarrow> remembers A (cs_merge (exa A) b c) w'"
  shows "recoverable A C (w', p)"
proof -
  have m: "mergeable (cs_wf (exa A)) (cs_merge (exa A)) (cs_default (exa A)) (cs_is_empty (exa A))"
    using assms(1) by (auto simp: replays_def intro: cs_mergeable)
  from assms(2) obtain b where b: "C p = Some b" "cs_wf (exa A) b" "cs_wf (exa A) (w_stage w)"
    "remembers A (cs_merge (exa A) b (w_stage w)) w"
    by (auto simp: recoverable_def)
  have "cs_merge (exa A) b (w_stage w') = cs_merge (exa A) (cs_merge (exa A) b (w_stage w)) c"
    using mergeable.merge_assoc [OF m b(2,3) assms(3)] assms(4) by simp
  then show ?thesis
    using b assms(3-5) mergeable.wf_merge [OF m] by (auto simp: recoverable_def)
qed

text \<open>The change sets of the operations: what they are made of and what they do not touch.\<close>

lemma lawful_unit:
  assumes "lawful M"
  shows "mo_wf M (mo_empty M)" "mo_wf M a \<Longrightarrow> mo_merge M a (mo_empty M) = a"
    "mo_wf M a \<Longrightarrow> mo_merge M (mo_empty M) a = a"
  by (rule mergeable.wf_empty [OF lawfulD [OF assms]], erule mergeable.merge_empty_right [OF lawfulD [OF assms]],
      erule mergeable.merge_empty_left [OF lawfulD [OF assms]])

lemma ext_lawfulD:
  assumes "ext_lawful X"
  shows "mo_wf (lc_ops X) (mo_empty (lc_ops X))" "mo_wf (tg_ops X) (mo_empty (tg_ops X))"
    "mo_wf (ix_ops X) (mo_empty (ix_ops X))"
    "mo_wf (lc_ops X) a \<Longrightarrow> mo_merge (lc_ops X) a (mo_empty (lc_ops X)) = a"
    "mo_wf (lc_ops X) a \<Longrightarrow> mo_merge (lc_ops X) (mo_empty (lc_ops X)) a = a"
    "mo_wf (tg_ops X) b \<Longrightarrow> mo_merge (tg_ops X) (mo_empty (tg_ops X)) b = b"
    "mo_wf (ix_ops X) i \<Longrightarrow> mo_merge (ix_ops X) (mo_empty (ix_ops X)) i = i"
  using assms by (simp_all add: ext_lawful_def lawful_unit)

lemma cs_wf_parts:
  assumes "ext_lawful X"
  shows "cs_wf X (cs_default X)"
    "mo_wf (ix_ops X) i \<Longrightarrow> cs_wf X (cs_from_indexer X i)"
    "mo_wf (lc_ops X) l \<Longrightarrow> cs_wf X (cs_from_local_chain X l)"
    "mo_wf (tg_ops X) (fst g) \<Longrightarrow> mo_wf (ix_ops X) (snd g) \<Longrightarrow> cs_wf X (cs_from_indexed_graph X g)"
    "bt_wf k \<Longrightarrow> cs_wf X (cs_from_locks X k)"
  by (simp_all add: cs_wf_def cs_default_def cs_from_indexer_def cs_from_local_chain_def
      cs_from_indexed_graph_def cs_from_locks_def ext_lawfulD [OF assms] bt_simps)

lemma cs_wf_merge: "ext_lawful X \<Longrightarrow> cs_wf X a \<Longrightarrow> cs_wf X b \<Longrightarrow> cs_wf X (cs_merge X a b)"
  by (rule mergeable.wf_merge [OF cs_mergeable])

text \<open>A change set that says nothing of network, chain and locks.\<close>

definition says_nothing where
  "says_nothing X c \<longleftrightarrow> cs_network c = None \<and> cs_local_chain c = mo_empty (lc_ops X) \<and> cs_locked_outpoints c = []"

lemma says_nothing_parts:
  "says_nothing X (cs_from_indexer X i)" "says_nothing X (cs_from_indexed_graph X g)" "says_nothing X (cs_default X)"
  by (simp_all add: says_nothing_def cs_from_indexer_def cs_from_indexed_graph_def cs_default_def)

lemma remembers_nothing:
  assumes "ext_lawful (exa A)" and "says_nothing (exa A) c" and "cs_wf (exa A) b" and "remembers A b w"
    and "w_network w' = w_network w" "w_chain w' = w_chain w" "w_locked w' = w_locked w"
  shows "remembers A (cs_merge (exa A) b c) w'"
  using assms
  by (simp add: remembers_def says_nothing_def cs_merge_def cs_wf_def ext_lawfulD lock_merge_def bt_extend_Nil)

lemma recoverable_silent:
  assumes "replays A N" and "recoverable A C (w, p)" and "cs_wf (exa A) c" and "says_nothing (exa A) c"
    and "w_stage w' = cs_merge (exa A) (w_stage w) c"
    and "w_network w' = w_network w" "w_chain w' = w_chain w" "w_locked w' = w_locked w"
  shows "recoverable A C (w', p)"
  using assms(1) by (intro recoverable_stage [OF assms(1,2,3,5)] remembers_nothing [OF _ assms(4) _ _ assms(6-8)])
    (simp_all add: replays_def)

lemma recoverable_same:
  assumes "recoverable A C (w, p)" and "w_stage w' = w_stage w"
    and "w_network w' = w_network w" "w_chain w' = w_chain w" "w_locked w' = w_locked w"
  shows "recoverable A C (w', p)"
  using assms by (simp add: recoverable_def remembers_def)

text \<open>Locks.\<close>

lemma bt_wf_single: "bt_wf [e]"
  by (simp add: bt_wf_def)

lemma remembers_lock:
  assumes "ext_lawful (exa A)" and "cs_wf (exa A) b" and "remembers A b w"
    and "w_network w' = w_network w" "w_chain w' = w_chain w"
    and "\<And>x. x \<in> set (w_locked w') \<longleftrightarrow> (if x = op then locked else x \<in> set (w_locked w))"
  shows "remembers A (cs_merge (exa A) b (cs_from_locks (exa A) [(op, locked)])) w'"
proof -
  have "bt_get (lock_merge (cs_locked_outpoints b) [(op, locked)]) = (bt_get (cs_locked_outpoints b))(op \<mapsto> locked)"
    using cs_wf_locks [OF assms(2)] by (simp add: lock_merge_def bt_extend_def bt_get_insert)
  moreover have "mo_merge (lc_ops (exa A)) (cs_local_chain b) (mo_empty (lc_ops (exa A))) = cs_local_chain b"
    using assms(1,2) by (simp add: ext_lawfulD cs_wf_def)
  ultimately show ?thesis
    using assms(3-6) by (simp add: remembers_def cs_merge_def cs_from_locks_def cs_default_def)
qed

lemma recoverable_lock:
  assumes "replays A N" and "recoverable A C (w, p)"
  shows "recoverable A C (lock_outpoint A op w, p)"
proof (cases "op \<in> set (w_locked w)")
  case False
  have "ext_lawful (exa A)" using assms(1) by (simp add: replays_def)
  then show ?thesis
    using False
    by (intro recoverable_stage [OF assms, of "cs_from_locks (exa A) [(op, True)]"]
        remembers_lock [where w = w])
      (auto simp: lock_outpoint_def stage_merge_def cs_wf_parts bt_wf_single)
qed (use assms in \<open>simp add: lock_outpoint_def\<close>)

lemma recoverable_unlock:
  assumes "replays A N" and "recoverable A C (w, p)"
  shows "recoverable A C (unlock_outpoint A op w, p)"
proof (cases "op \<in> set (w_locked w)")
  case True
  have "ext_lawful (exa A)" using assms(1) by (simp add: replays_def)
  then show ?thesis
    using True
    by (intro recoverable_stage [OF assms, of "cs_from_locks (exa A) [(op, False)]"]
        remembers_lock [where w = w])
      (auto simp: unlock_outpoint_def stage_merge_def cs_wf_parts bt_wf_single)
qed (use assms in \<open>simp add: unlock_outpoint_def\<close>)

text \<open>The index.\<close>

lemma recoverable_indexer:
  assumes "replays A N" and "recoverable A C (w, p)" and "mo_wf (ix_ops (exa A)) c"
  shows "recoverable A C (stage_merge A (cs_from_indexer (exa A) c) (w\<lparr>w_index := ix\<rparr>), p)"
  using assms(3) assms(1)
  by (intro recoverable_silent [OF assms(1,2) _ says_nothing_parts(1)])
    (simp_all add: stage_merge_def cs_wf_parts replays_def)

lemma recoverable_reveal:
  assumes "replays A N" and "recoverable A C (w, p)" and "reveal_next_address A w k = Ok (ai, w')"
  shows "recoverable A C (w', p)"
proof -
  from assms(3) obtain e c ix where "ia_reveal_next (ixa A) (map_keychain A w k) (w_index w) = (Some (e, c), ix)"
    and w': "w' = stage_merge A (cs_from_indexer (exa A) c) (w\<lparr>w_index := ix\<rparr>)"
    by (auto simp: reveal_next_address_def res_simps Let_def split: prod.splits)
  then show ?thesis
    unfolding w' by (intro recoverable_indexer [OF assms(1,2)]) (rule replays_index [OF assms(1)])
qed

lemma recoverable_reveal_to:
  assumes "replays A N" and "recoverable A C (w, p)" and "reveal_addresses_to A w k i = Ok (ais, w')"
  shows "recoverable A C (w', p)"
proof -
  from assms(3) obtain e c ix where "ia_reveal_to (ixa A) (map_keychain A w k) i (w_index w) = (Some (e, c), ix)"
    and w': "w' = stage_merge A (cs_from_indexer (exa A) c) (w\<lparr>w_index := ix\<rparr>)"
    by (auto simp: reveal_addresses_to_def res_simps Let_def split: prod.splits)
  then show ?thesis
    unfolding w' by (intro recoverable_indexer [OF assms(1,2)]) (rule replays_index [OF assms(1)])
qed

lemma recoverable_next_unused:
  assumes "replays A N" and "recoverable A C (w, p)" and "next_unused_address A w k = Ok (ai, w')"
  shows "recoverable A C (w', p)"
proof -
  from assms(3) obtain e c ix where e: "ia_next_unused (ixa A) (map_keychain A w k) (w_index w) = (Some (e, c), ix)"
    and w': "w' = stage_merge A (cs_from_indexed_graph (exa A) (mo_empty (tg_ops (exa A)), c)) (w\<lparr>w_index := ix\<rparr>)"
    by (auto simp: next_unused_address_def res_simps Let_def split: prod.splits)
  have "mo_wf (ix_ops (exa A)) c" "ext_lawful (exa A)"
    using assms(1) replays_index(2) [OF assms(1) e] by (simp_all add: replays_def)
  then show ?thesis
    unfolding w'
    by (intro recoverable_silent [OF assms(1,2) _ says_nothing_parts(2)])
      (simp_all add: stage_merge_def cs_wf_parts ext_lawfulD)
qed

lemma recoverable_mark:
  assumes "recoverable A C (w, p)"
  shows "recoverable A C (snd (mark_used A w k i), p)" "recoverable A C (snd (unmark_used A w k i), p)"
  by (rule recoverable_same [OF assms]; simp add: mark_used_def unmark_used_def split: prod.split)+

lemma recoverable_record_change:
  assumes "replays A N" and "recoverable A C (w, p)"
  shows "recoverable A C (record_change A w ex di, p)"
proof (cases ex)
  case (Change amt fee)
  show ?thesis
  proof (cases di)
    case None
    then show ?thesis using Change assms(2) by (simp add: record_change_def)
  next
    case (Some ki)
    obtain k i where ki: "ki = (k, i)" by (cases ki)
    obtain r ix where r: "ia_reveal_to (ixa A) k i (w_index w) = (r, ix)" by (cases "ia_reveal_to (ixa A) k i (w_index w)")
    show ?thesis
    proof (cases r)
      case None
      have "recoverable A C (w\<lparr>w_index := ix\<rparr>, p)"
        by (rule recoverable_same [OF assms(2)]) simp_all
      then show ?thesis using Change Some ki r None by (simp add: record_change_def)
    next
      case (Some ec)
      obtain e c where ec: "ec = (e, c)" by (cases ec)
      have "mo_wf (ix_ops (exa A)) c"
        by (rule replays_index(3) [OF assms(1)]) (use r Some ec in simp)
      then have "recoverable A C (snd (mark_used A (stage_merge A (cs_from_indexer (exa A) c) (w\<lparr>w_index := ix\<rparr>)) k i), p)"
        by (intro recoverable_mark recoverable_indexer [OF assms])
      then show ?thesis using Change \<open>di = Some ki\<close> ki r Some ec by (simp add: record_change_def)
    qed
  qed
qed (use assms(2) in \<open>simp add: record_change_def\<close>)

text \<open>Updates of the chain and the graph. What they merge into the stage: a change of the chain and
  changes of the graph and the index.\<close>

definition chain_graph_changes where
  "chain_graph_changes X lc gc = cs_merge X (cs_merge X (cs_default X) (cs_from_local_chain X lc)) (cs_from_indexed_graph X gc)"

lemma chain_graph_changes:
  assumes "ext_lawful X" "mo_wf (lc_ops X) lc" "mo_wf (tg_ops X) (fst gc)" "mo_wf (ix_ops X) (snd gc)"
  shows "cs_wf X (chain_graph_changes X lc gc)" "cs_network (chain_graph_changes X lc gc) = None"
    "cs_locked_outpoints (chain_graph_changes X lc gc) = []" "cs_local_chain (chain_graph_changes X lc gc) = lc"
proof -
  show "cs_wf X (chain_graph_changes X lc gc)"
    using assms by (simp add: chain_graph_changes_def cs_wf_parts cs_wf_merge)
qed (use assms in \<open>simp_all add: chain_graph_changes_def cs_merge_def cs_from_local_chain_def
      cs_from_indexed_graph_def cs_default_def lock_merge_def bt_extend_Nil ext_lawfulD\<close>)

lemma remembers_chain:
  assumes "cs_network c = None" "cs_locked_outpoints c = []" and "remembers A b w"
    and "ca_from_changeset (cha A) (mo_merge (lc_ops (exa A)) (cs_local_chain b) (cs_local_chain c)) = Some (w_chain w')"
    and "w_network w' = w_network w" "w_locked w' = w_locked w"
  shows "remembers A (cs_merge (exa A) b c) w'"
  using assms by (simp add: remembers_def cs_merge_def lock_merge_def bt_extend_Nil)

lemma recoverable_chain:
  assumes "replays A N" and "recoverable A C (w, p)" and "cs_wf (exa A) c"
    and "cs_network c = None" "cs_locked_outpoints c = []"
    and "w_stage w' = cs_merge (exa A) (w_stage w) c"
    and "w_network w' = w_network w" "w_locked w' = w_locked w"
    and "\<And>a. mo_wf (lc_ops (exa A)) a \<Longrightarrow> ca_from_changeset (cha A) a = Some (w_chain w)
      \<Longrightarrow> ca_from_changeset (cha A) (mo_merge (lc_ops (exa A)) a (cs_local_chain c)) = Some (w_chain w')"
  shows "recoverable A C (w', p)"
  using assms(9)
  by (intro recoverable_stage [OF assms(1,2,3,6)] remembers_chain [OF assms(4,5) _ _ assms(7,8)])
    (auto simp: remembers_def cs_wf_def)

lemma recoverable_block:
  assumes "replays A N" and "recoverable A C (w, p)" and "apply_block_connected_to A w b h at = Ok w'"
  shows "recoverable A C (w', p)"
proof -
  obtain gc tg ix where g: "ga_apply_block (tga A) b h (w_graph w, w_index w) = (gc, (tg, ix))"
    by (metis surj_pair)
  from assms(3) obtain lc ch where c: "ca_apply_header (cha A) b h at (w_chain w) = Ok (lc, ch)"
    and w': "w' = update_canonical_view A (stage_merge A (chain_graph_changes (exa A) lc gc)
          (w\<lparr>w_chain := ch, w_graph := tg, w_index := ix\<rparr>))"
    by (auto simp: apply_block_connected_to_def res_simps Let_def g chain_graph_changes_def)
  have "ext_lawful (exa A)" "mo_wf (tg_ops (exa A)) (fst gc)" "mo_wf (ix_ops (exa A)) (snd gc)"
    using assms(1) replays_graph(3,4) [OF assms(1), of b h "(w_graph w, w_index w)"] by (simp_all add: replays_def g)
  moreover note replay = replays_chain(3) [OF assms(1) c]
  ultimately show ?thesis
    by (intro recoverable_chain [OF assms(1,2), of "chain_graph_changes (exa A) lc gc"])
      (simp_all add: w' update_canonical_view_def stage_merge_def chain_graph_changes)
qed

lemma recoverable_unconfirmed:
  assumes "replays A N" and "recoverable A C (w, p)"
  shows "recoverable A C (apply_unconfirmed_txs A w txs, p)"
proof -
  obtain gc tg ix where g: "ga_insert_unconfirmed (tga A) txs (w_graph w, w_index w) = (gc, (tg, ix))"
    by (metis surj_pair)
  have "mo_wf (tg_ops (exa A)) (fst gc)" "mo_wf (ix_ops (exa A)) (snd gc)" "ext_lawful (exa A)"
    using assms(1) replays_graph(5,6) [OF assms(1), of txs "(w_graph w, w_index w)"] by (simp_all add: replays_def g)
  then show ?thesis
    by (intro recoverable_silent [OF assms _ says_nothing_parts(2) [of _ gc]])
      (simp_all add: apply_unconfirmed_txs_def g update_canonical_view_def stage_merge_def cs_wf_parts)
qed

text \<open>\<open>apply_update\<close> merges the same kind of change, with the change of the index it reveals.\<close>

definition update_changes where
  "update_changes X c i gc = cs_merge X (cs_merge X c (cs_from_indexer X i)) (cs_from_indexed_graph X gc)"

lemma update_changes:
  assumes "ext_lawful X" "cs_wf X c" "cs_network c = None" "cs_locked_outpoints c = []"
    "mo_wf (ix_ops X) i" "mo_wf (tg_ops X) (fst gc)" "mo_wf (ix_ops X) (snd gc)"
  shows "cs_wf X (update_changes X c i gc)" "cs_network (update_changes X c i gc) = None"
    "cs_locked_outpoints (update_changes X c i gc) = []"
    "cs_local_chain (update_changes X c i gc) = cs_local_chain c"
proof -
  show "cs_wf X (update_changes X c i gc)"
    using assms by (simp add: update_changes_def cs_wf_parts cs_wf_merge)
  have "mo_wf (lc_ops X) (cs_local_chain c)"
    using assms(2) by (simp add: cs_wf_def)
  then show "cs_local_chain (update_changes X c i gc) = cs_local_chain c"
    using assms(1) by (simp add: update_changes_def cs_merge_def cs_from_indexer_def
        cs_from_indexed_graph_def cs_default_def ext_lawfulD)
  show "cs_network (update_changes X c i gc) = None" "cs_locked_outpoints (update_changes X c i gc) = []"
    using assms(3,4) by (simp_all add: update_changes_def cs_merge_def cs_from_indexer_def
        cs_from_indexed_graph_def cs_default_def lock_merge_def bt_extend_Nil)
qed

lemma recoverable_update:
  assumes "replays A N" and "recoverable A C (w, p)" and "apply_update A w u = Ok w'"
  shows "recoverable A C (w', p)"
proof -
  obtain ic ix where i: "ia_reveal_multi (ixa A) (up_last_active u) (w_index w) = (ic, ix)"
    by (metis surj_pair)
  obtain gc tg ix' where g: "ga_apply_update (tga A) (up_tx_update u) (w_graph w, ix) = (gc, (tg, ix'))"
    by (metis surj_pair)
  have ext: "ext_lawful (exa A)" and emitted: "mo_wf (ix_ops (exa A)) ic"
    "mo_wf (tg_ops (exa A)) (fst gc)" "mo_wf (ix_ops (exa A)) (snd gc)"
    using assms(1) replays_index(4) [OF assms(1), of "up_last_active u" "w_index w"]
      replays_graph(1,2) [OF assms(1), of "up_tx_update u" "(w_graph w, ix)"] by (simp_all add: replays_def i g)
  obtain c ch where c: "cs_wf (exa A) c" "cs_network c = None" "cs_locked_outpoints c = []"
    and replay: "\<And>a. mo_wf (lc_ops (exa A)) a \<Longrightarrow> ca_from_changeset (cha A) a = Some (w_chain w)
      \<Longrightarrow> ca_from_changeset (cha A) (mo_merge (lc_ops (exa A)) a (cs_local_chain c)) = Some ch"
    and w': "w' = update_canonical_view A (stage_merge A (update_changes (exa A) c ic gc)
          (w\<lparr>w_chain := ch, w_graph := tg, w_index := ix'\<rparr>))"
  proof (cases "up_chain u")
    case None
    show thesis
    proof (rule that [of "cs_default (exa A)" "w_chain w"])
      show "w' = update_canonical_view A (stage_merge A (update_changes (exa A) (cs_default (exa A)) ic gc)
          (w\<lparr>w_chain := w_chain w, w_graph := tg, w_index := ix'\<rparr>))"
        using assms(3) by (simp add: apply_update_def None i g Let_def update_changes_def)
    qed (use cs_wf_parts(1) [OF ext] in \<open>simp_all add: cs_default_def ext_lawfulD [OF ext]\<close>)
  next
    case (Some cu)
    with assms(3) obtain lc ch where cu: "ca_apply_update (cha A) cu (w_chain w) = Ok (lc, ch)"
      and w': "w' = update_canonical_view A (stage_merge A (update_changes (exa A) (cs_from_local_chain (exa A) lc) ic gc)
          (w\<lparr>w_chain := ch, w_graph := tg, w_index := ix'\<rparr>))"
      by (auto simp: apply_update_def i g Let_def update_changes_def res_simps)
    show thesis
      using replays_chain(2) [OF assms(1) cu] cs_wf_parts(3) [OF ext, of lc]
      by (intro that [OF _ _ _ _ w']) (simp_all add: cs_from_local_chain_def cs_default_def)
  qed
  show ?thesis
    using update_changes [OF ext c emitted] replay
    by (intro recoverable_chain [OF assms(1,2), of "update_changes (exa A) c ic gc"])
      (simp_all add: w' update_canonical_view_def stage_merge_def)
qed

text \<open>Writing the staged changes, and loading them.\<close>

lemma locked_of_changeset:
  "bt_wf m \<Longrightarrow> op \<in> set (locked_of_changeset m) \<longleftrightarrow> bt_get m op = Some True"
  by (force simp: locked_of_changeset_def bt_get_Some_iff)

text \<open>A failed construction tells nothing; a wallet that was built has the network, the chain and
  the locks of its change set, and a stage that says nothing of them.\<close>

lemma make_indexed_graph_stage:
  assumes "replays A N" and "make_indexed_graph A N stage tgc ixc d cd la spc = Ok (stage', tg, ix)"
  obtains gc where "mo_wf (tg_ops (exa A)) (fst gc)" "mo_wf (ix_ops (exa A)) (snd gc)"
    "stage' = stage\<lparr>cs_tx_graph := mo_merge (tg_ops (exa A)) (cs_tx_graph stage) (fst gc),
       cs_indexer := mo_merge (ix_ops (exa A)) (cs_indexer stage) (snd gc)\<rparr>"
proof -
  from assms(2) obtain ix0 where m: "make_index N ixc d cd la spc = Ok ix0"
    by (auto simp: make_indexed_graph_def res_simps)
  obtain g gc where g: "na_graph N tgc ix0 = (g, gc)" by (metis surj_pair)
  have "stage' = stage\<lparr>cs_tx_graph := mo_merge (tg_ops (exa A)) (cs_tx_graph stage) (fst gc),
       cs_indexer := mo_merge (ix_ops (exa A)) (cs_indexer stage) (snd gc)\<rparr>"
    using assms(2) by (simp add: make_indexed_graph_def m g split: prod.splits)
  then show thesis
    using that [of gc] replays_graph(7,8) [OF assms(1), of tgc ix0] by (simp add: g)
qed

lemma load_with_params_state:
  assumes "replays A N" and "load_with_params A N c P = Ok (Some w)"
  shows "cs_network c = Some (w_network w)"
    "ca_from_changeset (cha A) (cs_local_chain c) = Some (w_chain w)"
    "w_locked w = locked_of_changeset (cs_locked_outpoints c)"
    "cs_wf (exa A) (w_stage w)" "says_nothing (exa A) (w_stage w)"
proof -
  from assms(2) obtain network chain descriptor cd la spc stage tg ix where
    "cs_network c = Some network" "ca_from_changeset (cha A) (cs_local_chain c) = Some chain"
    and g: "make_indexed_graph A N (cs_default (exa A)) (cs_tx_graph c) (cs_indexer c) descriptor cd la spc
       = Ok (stage, tg, ix)"
    and "w_network w = network" "w_chain w = chain" "w_stage w = stage"
      "w_locked w = locked_of_changeset (cs_locked_outpoints c)"
    by (auto simp: load_with_params_def res_simps Let_def split: if_splits)
  then show "cs_network c = Some (w_network w)"
    "ca_from_changeset (cha A) (cs_local_chain c) = Some (w_chain w)"
    "w_locked w = locked_of_changeset (cs_locked_outpoints c)" by simp_all
  have ext: "ext_lawful (exa A)" using assms(1) by (simp add: replays_def)
  show "cs_wf (exa A) (w_stage w)" "says_nothing (exa A) (w_stage w)"
    by (rule make_indexed_graph_stage [OF assms(1) g];
        simp add: \<open>w_stage w = stage\<close> cs_wf_def says_nothing_def cs_default_def ext_lawfulD [OF ext] bt_wf_Nil)+
qed

lemma create_with_params_state:
  assumes "replays A N" and "create_with_params A N P = Ok w"
  shows "cs_wf (exa A) (w_stage w)" "remembers A (w_stage w) w"
proof -
  let ?h = "case cp_genesis_hash P of Some h \<Rightarrow> h | None \<Rightarrow> na_genesis_hash N (cp_network P)"
  obtain chain lc where c: "ca_from_genesis (cha A) ?h = (chain, lc)" by (metis surj_pair)
  from assms(2) obtain d cd la spc stage tg ix where
    g: "make_indexed_graph A N ((cs_default (exa A))\<lparr>cs_descriptor := Some d, cs_change_descriptor := cd,
        cs_local_chain := lc, cs_network := Some (cp_network P)\<rparr>)
      (mo_empty (tg_ops (exa A))) (mo_empty (ix_ops (exa A))) d cd la spc = Ok (stage, tg, ix)"
    and w: "w_network w = cp_network P" "w_chain w = chain" "w_stage w = stage" "w_locked w = []"
    by (auto simp: create_with_params_def res_simps Let_def c)
  have ext: "ext_lawful (exa A)" using assms(1) by (simp add: replays_def)
  note chain = replays_chain(1) [OF assms(1) c]
  show "cs_wf (exa A) (w_stage w)" "remembers A (w_stage w) w"
    by (rule make_indexed_graph_stage [OF assms(1) g];
        simp add: w chain cs_wf_def remembers_def cs_default_def ext_lawfulD [OF ext] bt_wf_Nil bt_get_Nil)+
qed

context recording_store
begin

lemma restart_recoverable:
  assumes "exa A = X" and "replays A N" and "load_persisted A N M P p = (Ok (Some w), p')"
  shows "recoverable A contents (w, p')"
proof -
  from assms(3) obtain c where i: "pe_initialize M p = (Ok c, p')" and l: "load_with_params A N c P = Ok (Some w)"
    by (auto simp: load_persisted_def res_simps split: prod.splits res.splits)
  note c = initialize_ok [OF i] contents_wf [OF initialize_ok [OF i]]
  note w = load_with_params_state [OF assms(2) l]
  have "remembers A c w"
    using w by (simp add: remembers_def locked_of_changeset cs_wf_locks [OF c(2)])
  then have "remembers A (cs_merge X c (w_stage w)) w"
    using remembers_nothing [of A "w_stage w" c w w] w assms(1) ext c(2) by simp
  then show ?thesis
    using c w assms(1) by (auto simp: recoverable_def)
qed

text \<open>A wallet whose stage has just been written is recoverable from what is there.\<close>

lemma written_recoverable:
  assumes "exa A = X" "chain_of = ca_from_changeset (cha A)"
    and "contents p = Some c" "tells_same chain_of c m" "remembers A m w"
  shows "recoverable A contents (w\<lparr>w_stage := cs_default X\<rparr>, p)"
proof -
  have "remembers A c w"
    using assms(2,4,5) by (simp add: remembers_same)
  then show ?thesis
    using assms(1,3) contents_wf [OF assms(3)] changes.wf_empty changes.merge_empty_right
    by (simp add: recoverable_def remembers_def)
qed

lemma create_recoverable:
  assumes "exa A = X" "chain_of = ca_from_changeset (cha A)"
    and "replays A N" and "create_persisted A N M P p\<^sub>0 = (Ok w, p)"
  shows "recoverable A contents (w, p)"
proof -
  obtain i p1 where i: "pe_initialize M p\<^sub>0 = (i, p1)" by (metis surj_pair)
  from assms(4) obtain existing inner where e: "i = Ok existing" "cs_is_empty X existing"
    and inner: "create_with_params A N P = Ok inner"
    by (auto simp: create_persisted_def i assms(1) split: res.splits if_splits)
  have b: "contents p1 = Some existing" using initialize_ok i e(1) by simp
  then have existing: "existing = cs_default X"
    using changes.is_empty_iff [OF contents_wf [OF b]] e(2) by simp
  note state = create_with_params_state [OF assms(3) inner, unfolded assms(1)]
  have "\<not> cs_is_empty X (w_stage inner)"
    using state(2) by (simp add: remembers_def cs_is_empty_def)
  then have taken: "take_staged A inner = (Some (w_stage inner), inner\<lparr>w_stage := cs_default X\<rparr>)"
    by (simp add: take_staged_def assms(1))
  obtain o' q where o: "pe_persist M (w_stage inner) p1 = (o', q)" by (metis surj_pair)
  with assms(4) have w: "w = inner\<lparr>w_stage := cs_default X\<rparr>" "p = q" "o' = Ok ()"
    by (auto simp: create_persisted_def i e assms(1) inner taken split: res.splits)
  obtain c where c: "contents p = Some c" "tells_same chain_of c (w_stage inner)"
    using persist_ok [OF b state(1)] o w existing changes.merge_empty_left [OF state(1)] by auto
  show ?thesis
    unfolding w(1) by (rule written_recoverable [OF assms(1,2) c state(2)])
qed

end

context durable_store
begin

text \<open>Whatever its outcome, \<open>persist\<close> keeps what store and stage say together.\<close>

lemma persist_cases:
  assumes "exa A = X" and "persist_wallet A M w p = (r, w', p')"
    and "contents p = Some b" and "cs_wf X (w_stage w)"
  shows "(\<not> is_ok r \<and> w' = w \<and> contents p' = Some b) \<or>
    (r = Ok False \<and> w' = w \<and> p' = p \<and> w_stage w = cs_default X) \<or>
    (r = Ok True \<and> w' = w\<lparr>w_stage := cs_default X\<rparr> \<and> w_stage w \<noteq> cs_default X \<and>
      pe_persist M (w_stage w) p = (Ok (), p') \<and>
      (\<exists>c. contents p' = Some c \<and> tells_same chain_of c (cs_merge X b (w_stage w))))"
proof (cases "cs_is_empty X (w_stage w)")
  case True
  then show ?thesis
    using assms changes.is_empty_iff [OF assms(4)] by (auto simp: persist_wallet_def staged_def)
next
  case False
  obtain o' q where o: "pe_persist M (w_stage w) p = (o', q)" by (metis surj_pair)
  have "w_stage w \<noteq> cs_default X" using False changes.is_empty_iff [OF assms(4)] by simp
  then show ?thesis
    using False assms(1,2) o persist_ok [OF assms(3,4)] persist_fail [of "w_stage w" p] assms(3)
    by (cases o') (auto simp: persist_wallet_def staged_def take_staged_def)
qed

lemma persist_recoverable:
  assumes "exa A = X" "chain_of = ca_from_changeset (cha A)"
    and "recoverable A contents (w, p)" and "persist_wallet A M w p = (r, w', p')"
  shows "recoverable A contents (w', p')"
proof -
  from assms(1,3) obtain b where b: "contents p = Some b" "cs_wf X b" "cs_wf X (w_stage w)"
    "remembers A (cs_merge X b (w_stage w)) w"
    by (auto simp: recoverable_def)
  then show ?thesis
    using persist_cases [OF assms(1,4) b(1,3)] written_recoverable [OF assms(1,2) _ _ b(4)] assms(1,3)
    by (auto simp: recoverable_def)
qed

lemma step_recoverable:
  assumes "exa A = X" "chain_of = ca_from_changeset (cha A)"
    and "replays A N" and "recoverable A contents s" and "wallet_step A N M s s'"
  shows "recoverable A contents s'"
  using assms(5,4)
proof (cases rule: wallet_step.cases)
  case (Persist w p r w' p')
  then show ?thesis using persist_recoverable [OF assms(1,2)] assms(4) by simp
next
  case (Restart P p w' p' w)
  then show ?thesis using restart_recoverable [OF assms(1,3)] by simp
qed (use assms(3,4) in \<open>auto intro: recoverable_lock recoverable_unlock recoverable_reveal recoverable_reveal_to
      recoverable_next_unused recoverable_mark recoverable_record_change recoverable_update
      recoverable_block recoverable_unconfirmed\<close>)

lemma run_recoverable:
  assumes "exa A = X" "chain_of = ca_from_changeset (cha A)" and "replays A N" and "wallet_run A N M p\<^sub>0 s"
  shows "recoverable A contents s"
  using assms(4)
  by induction (auto intro: create_recoverable [OF assms(1-3)] step_recoverable [OF assms(1-3)])

text \<open>After a successful write the store alone tells what the wallet knows, and loading it gives it back.\<close>

lemma persisted_then_loaded:
  assumes "exa A = X" "chain_of = ca_from_changeset (cha A)"
    and "replays A N" and "recoverable A contents (w, p)"
    and "persist_wallet A M w p = (Ok changed, w', p')"
    and "load_persisted A N M P p' = (Ok loaded, p'')"
  shows "\<exists>w2. loaded = Some w2 \<and> w_network w2 = w_network w \<and> w_chain w2 = w_chain w \<and>
    set (w_locked w2) = set (w_locked w)"
proof -
  have "recoverable A contents (w', p')"
    by (rule persist_recoverable [OF assms(1,2,4,5)])
  moreover have w': "w_stage w' = cs_default X" "w_network w' = w_network w" "w_chain w' = w_chain w"
    "w_locked w' = w_locked w"
    using assms(4) persist_cases [OF assms(1,5)] by (auto simp: recoverable_def assms(1))
  ultimately obtain b where b: "contents p' = Some b" "cs_wf X b" "remembers A b w'"
    using changes.merge_empty_right by (auto simp: recoverable_def assms(1))
  from assms(6) obtain c where i: "pe_initialize M p' = (Ok c, p'')" and l: "load_with_params A N c P = Ok loaded"
    by (auto simp: load_persisted_def res_simps split: prod.splits res.splits)
  have "c = b"
    by (rule initialize_same [OF b(1) i])
  then have "loaded \<noteq> None"
    using l b(3) by (auto simp: load_with_params_def remembers_def cs_is_empty_def res_simps Let_def split: if_splits)
  then obtain w2 where w2: "loaded = Some w2" by blast
  note state = load_with_params_state [OF assms(3) l [unfolded w2]]
  have "set (w_locked w2) = set (w_locked w')"
    using b(3) by (intro set_eqI) (simp add: state(3) locked_of_changeset cs_wf_locks [OF b(2)] remembers_def \<open>c = b\<close>)
  then show ?thesis
    using w2 state(1,2) b(3) w' by (simp add: remembers_def \<open>c = b\<close>)
qed

end

subsection \<open>The SQLite persister\<close>

lemma sqlite_durable:
  "replays A N \<Longrightarrow> db_lawful (exa A) D (ca_from_changeset (cha A)) blocks \<Longrightarrow>
    durable_store (exa A) (sqlite_persister (exa A) D) (sqlite_contents (exa A) D) (ca_from_changeset (cha A))"
  by (rule sqlite_durable_store) (simp_all add: replays_def)

end
