(* ===== verification/Store_Facts.thy ===== *)
theory Store_Facts
  imports Store_Runs
begin

section \<open>Persisted wallets: what the runs keep\<close>

text \<open>
  The properties of a wallet kept in a SQLite store, over all the runs of \<open>Store_Runs\<close>: what a
  restart brings back, what a failed write leaves, over a connection and in an open transaction, when
  a wallet is created or loaded at all. They
  are applied to a run of a wallet with two keychains over a store that starts empty.
\<close>

subsection \<open>A concrete run\<close>

text \<open>A concrete run: two keychains, a store that starts empty.\<close>

definition ledger_chain_api :: "((nat, nat) btree, (nat, nat) btree, nat, transaction list, nat list, nat) chain_api" where
  "ledger_chain_api = \<lparr>
     ca_tip = (\<lambda>ch. \<lparr>bid_height = of_nat (length ch), bid_hash = length ch\<rparr>),
     ca_genesis_hash = (\<lambda>ch. snd (hd ch)),
     ca_from_genesis = (\<lambda>h. ([(0, max 1 h)], [(0, max 1 h)])),
     ca_from_changeset = example_chain_of,
     ca_apply_update = (\<lambda>cu ch. Ok ([(cu, max 1 cu)], bt_extend ch [(cu, max 1 cu)])),
     ca_apply_header = (\<lambda>b h c ch. Ok ([(unat h, max 1 b)], bt_extend ch [(unat h, max 1 b)])),
     ca_prev_hash = (\<lambda>b. b - 1),
     ca_block_hash = (\<lambda>b. b),
     ca_view = (\<lambda>ch tg b. [length ch]),
     va_txs = (\<lambda>cv. []),
     va_unspent = (\<lambda>cv ops. map (\<lambda>(k, op). (k, example_full_txout op)) ops),
     va_outputs = (\<lambda>cv ops. map (\<lambda>(k, op). (k, example_full_txout op)) ops),
     va_balance = (\<lambda>cv ops trust conf. \<lparr>bal_immature = 0, bal_trusted_pending = 0, bal_untrusted_pending = 0,
        bal_confirmed = 9000 * length ops\<rparr>),
     va_is_mature = (\<lambda>t h. True)\<rparr>"

definition ledger_api where
  "ledger_api = \<lparr>ixa = example_index_api, tga = example_graph_api, cha = ledger_chain_api,
     dsa = example_desc_api, exa = example_ops\<rparr>"

definition ledger_new_api :: "(nat, nat \<times> u32, nat, nat, (nat, nat) btree, transaction list,
    (nat, nat) btree, unit, nat) new_api" where
  "ledger_new_api = \<lparr>
     na_network_kind = (\<lambda>n. if n = 0 then Main else Test), na_genesis_hash = (\<lambda>n. 77), na_is_multipath = (\<lambda>d. False),
     na_single_descriptors = (\<lambda>d. Ok [d]), na_sanity_check = (\<lambda>d. Ok ()), na_descriptor_id = (\<lambda>d. d),
     na_bad_descriptor = 0, na_DEFAULT_LOOKAHEAD = 25, na_build = (\<lambda>k d. signers_new), na_extend = (\<lambda>a b. ()), na_empty_keymap = (),
     na_index = (\<lambda>l c ixc. 0), na_insert_descriptor = (\<lambda>k d ix. Ok (True, ix)),
     na_graph = (\<lambda>tgc ix. (([], ix), ([], [])))\<rparr>"

definition ledger_db :: "(nat, nat, (nat, nat) btree, (nat, nat) btree, (nat, nat) btree) wallet_db" where
  "ledger_db = \<lparr>db_row = None, db_locks = [], db_lc = [], db_tg = [], db_ix = []\<rparr>"

definition ledger_params where
  "ledger_params = cp_new ledger_new_api (\<lambda>n. Ok (4, ())) (\<lambda>n. Ok (5, ()))"

lemmas ledger_defs = ledger_api_def ledger_chain_api_def ledger_new_api_def ledger_db_def ledger_params_def
  example_index_api_def example_graph_api_def example_desc_api_def example_ops_def map_ops_def
  example_db_ops_def map_store_def block_store_def

lemma example_chain_insert:
  assumes "bt_wf a" "example_chain_of a = Some ch" "v \<noteq> 0"
  shows "example_chain_of (bt_extend a [(k, v)]) = Some (bt_extend ch [(k, v)])"
proof -
  have ch: "ch = filter (\<lambda>e. snd e \<noteq> 0) a" "bt_wf ch"
    using assms(1,2) by (auto simp: example_chain_of_def Let_def bt_wf_filter split: if_splits)
  have "filter (\<lambda>e. snd e \<noteq> 0) (bt_extend a [(k, v)]) = bt_extend ch [(k, v)]"
    using assms(1,3) ch by (intro bt_ext bt_wf_filter ext) (auto simp: bt_simps bt_extend_def bt_get_filter)
  then show ?thesis
    using bt_extend_not_Nil [of "[(k, v)]" ch] by (simp add: example_chain_of_def)
qed

lemma ledger_replays: "replays ledger_api ledger_new_api"
proof -
  have "chain_replays ledger_api"
    unfolding chain_replays_def
    by (auto simp: ledger_api_def ledger_chain_api_def example_ops_def map_ops_def bt_wf_def example_chain_insert)
      (auto simp: example_chain_of_def)
  then show ?thesis
    unfolding replays_def index_emits_wf_def graph_emits_wf_def
    using ext_lawful_example
    by (auto simp: ledger_defs bt_wf_def split: if_splits)
qed

definition ledger_wallet :: "example_change_set \<Rightarrow> outpoint list \<Rightarrow> (nat, nat, nat, (nat, nat) btree, transaction list,
    (nat, nat) btree, (nat, nat) btree, (nat, nat) btree, nat list) wallet" where
  "ledger_wallet stage locked = \<lparr>w_signers = (signers_new :: nat signers_container), w_change_signers = signers_new,
     w_chain = [(0 :: nat, 77 :: nat)], w_graph = ([] :: transaction list), w_index = (0 :: nat),
     w_stage = stage, w_network = 0, w_locked = locked, w_view = [1 :: nat]\<rparr>"

definition ledger_stage :: example_change_set where
  "ledger_stage = (cs_default example_ops)\<lparr>cs_descriptor := Some 4, cs_change_descriptor := Some 5,
     cs_network := Some 0, cs_local_chain := [(0, 77)]\<rparr>"

lemma ledger_create:
  "create_with_params ledger_api ledger_new_api ledger_params = Ok (ledger_wallet ledger_stage [])"
  by (simp add: ledger_defs create_with_params_def cp_new_def create_params_with_def
      make_descriptor_to_extract_def check_wallet_descriptor_def key_is_hardened_def extract_change_descriptor_def
      make_indexed_graph_def make_index_def panic_unless_def Let_def ledger_wallet_def ledger_stage_def cs_default_def
      bt_extend_Nil)

abbreviation ledger_M where
  "ledger_M \<equiv> sqlite_persister example_ops example_db_ops"

definition ledger_saved :: "outpoint list \<Rightarrow> (nat, nat, (nat, nat) btree, (nat, nat) btree, (nat, nat) btree) wallet_db" where
  "ledger_saved locks = ledger_db\<lparr>db_row := Some (Some 4, Some 5, Some 0), db_locks := locks, db_lc := [(0, 77)]\<rparr>"

lemma ledger_exa: "exa ledger_api = example_ops"
  by (simp add: ledger_api_def)

lemma ledger_load_db:
  "pe_initialize ledger_M ledger_db = (Ok (cs_default example_ops), ledger_db)"
  "pe_initialize ledger_M (ledger_saved locks)
     = (Ok (ledger_stage\<lparr>cs_locked_outpoints := lock_table_map locks\<rparr>), ledger_saved locks)"
  by (simp_all add: sqlite_persister_def sqlite_initialize_def transaction_initialize_def in_transaction_def
     init_sqlite_tables_def from_sqlite_def sql_ok_def exec_sql_def on_local_chain_def on_tx_graph_def on_indexer_def ledger_defs
     ledger_saved_def ledger_stage_def cs_default_def bt_wf_def lock_table_map_def)

lemma ledger_save:
  "pe_persist ledger_M ledger_stage ledger_db = (Ok (), ledger_saved [])"
  "pe_persist ledger_M ((cs_default example_ops)\<lparr>cs_locked_outpoints := [(op, True)]\<rparr>) (ledger_saved [])
     = (Ok (), ledger_saved [op])"
  by (simp_all add: sqlite_persister_def sqlite_persist_def transaction_persist_def in_transaction_def
     persist_to_sqlite_def wallet_statements_def exec_sql_def for_some_def lock_stmt_def ledger_defs Let_def
     ledger_saved_def ledger_stage_def cs_default_def on_local_chain_def on_tx_graph_def on_indexer_def
     upsert_descriptor_def upsert_change_descriptor_def upsert_network_def bt_extend_def insert_lock_def)

lemma ledger_empty: "cs_is_empty example_ops (cs_default example_ops :: example_change_set)"
  "\<not> cs_is_empty example_ops (ledger_stage\<lparr>cs_locked_outpoints := m\<rparr>)" "\<not> cs_is_empty example_ops ledger_stage"
  "\<not> cs_is_empty example_ops ((cs_default example_ops :: example_change_set)\<lparr>cs_locked_outpoints := [e]\<rparr>)"
  by (simp_all add: cs_is_empty_def cs_default_def ledger_stage_def lock_is_empty_def example_ops_def map_ops_def)

lemma ledger_created:
  "create_persisted ledger_api ledger_new_api ledger_M ledger_params ledger_db
     = (Ok (ledger_wallet (cs_default example_ops) []), ledger_saved [])"
  by (simp add: create_persisted_def ledger_load_db ledger_exa ledger_empty ledger_create take_staged_def
      ledger_save ledger_wallet_def)

lemma ledger_locked:
  "lock_outpoint ledger_api op (ledger_wallet (cs_default example_ops) [])
     = ledger_wallet ((cs_default example_ops)\<lparr>cs_locked_outpoints := [(op, True)]\<rparr>) [op]"
  by (simp add: lock_outpoint_def stage_merge_def ledger_wallet_def ledger_exa cs_from_locks_def cs_merge_def
      cs_default_def lock_merge_def bt_extend_def example_ops_def map_ops_def)

lemma ledger_persisted:
  "persist_wallet ledger_api ledger_M
      (ledger_wallet ((cs_default example_ops)\<lparr>cs_locked_outpoints := [(op, True)]\<rparr>) [op]) (ledger_saved [])
   = (Ok True, ledger_wallet (cs_default example_ops) [op], ledger_saved [op])"
  by (simp add: persist_wallet_def staged_def take_staged_def ledger_exa ledger_wallet_def ledger_empty ledger_save)

lemma ledger_loaded:
  "load_persisted ledger_api ledger_new_api ledger_M (lp_new ledger_new_api) (ledger_saved [op])
     = (Ok (Some (ledger_wallet (cs_default example_ops) [op])), ledger_saved [op])"
  by (simp add: load_persisted_def ledger_load_db load_with_params_def ledger_exa ledger_empty)
    (simp add: lp_new_def ledger_defs ledger_stage_def check_identity_def
      check_wallet_descriptor_def key_is_hardened_def check_external_def check_internal_def
      make_indexed_graph_def make_index_def panic_unless_def Let_def ledger_wallet_def cs_default_def
      example_chain_of_def locked_of_changeset_def lock_table_map_def bt_extend_Nil)

lemma ledger_run:
  "wallet_run ledger_api ledger_new_api ledger_M ledger_db
     (ledger_wallet ((cs_default example_ops)\<lparr>cs_locked_outpoints := [(op, True)]\<rparr>) [op], ledger_saved [])"
  using wallet_run.Step [OF wallet_run.Start [OF ledger_created] wallet_step.Lock, of op]
  by (simp add: ledger_locked)

lemma db_lawful_ledger:
  "db_lawful (exa ledger_api) example_db_ops (ca_from_changeset (cha ledger_api)) example_blocks"
  using example_db_lawful by (simp add: ledger_exa ledger_api_def ledger_chain_api_def)

lemmas ledger_run_exa = ledger_run [folded ledger_exa]

subsection \<open>Writes that fail in the middle\<close>

text \<open>What the wallet's own tables hold once a change set has been written whole. No statement of
  \<open>persist_to_sqlite\<close> changes it, so neither does any part of a write.\<close>

definition tables_after where
  "tables_after c db =
     (write_once (case db_row db of Some (d, _, _) \<Rightarrow> d | None \<Rightarrow> None) (cs_descriptor c),
      write_once (case db_row db of Some (_, d, _) \<Rightarrow> d | None \<Rightarrow> None) (cs_change_descriptor c),
      write_once (case db_row db of Some (_, _, n) \<Rightarrow> n | None \<Rightarrow> None) (cs_network c),
      \<lambda>op. case bt_get (cs_locked_outpoints c) op of Some locked \<Rightarrow> locked | None \<Rightarrow> op \<in> set (db_locks db))"

lemma coalesce_write_once: "coalesce a b = write_once a b"
  by (cases a) simp_all

lemma write_once_twice: "write_once (write_once a b) b = write_once a b"
  by (cases a; cases b) simp_all

lemma write_once_cases: "write_once a b = (case a of Some x \<Rightarrow> Some x | None \<Rightarrow> b)"
  by (cases a) simp_all

lemma statement_keeps_tables_after:
  assumes "bt_wf (cs_locked_outpoints c)" and "s \<in> set (wallet_statements c)"
  shows "tables_after c (stmt_effect s db) = tables_after c db"
proof (cases s)
  case (UpsertDescriptor d)
  then have "cs_descriptor c = Some d"
    using assms(2) by (auto simp: wallet_statements_def for_some_def lock_stmt_def split: option.splits if_splits)
  then show ?thesis
    using UpsertDescriptor
    by (cases "db_row db") (auto simp: tables_after_def upsert_descriptor_def coalesce_write_once write_once_twice
        cong: option.case_cong)
next
  case (UpsertChangeDescriptor d)
  then have "cs_change_descriptor c = Some d"
    using assms(2) by (auto simp: wallet_statements_def for_some_def lock_stmt_def split: option.splits if_splits)
  then show ?thesis
    using UpsertChangeDescriptor
    by (cases "db_row db") (auto simp: tables_after_def upsert_change_descriptor_def coalesce_write_once write_once_twice
        cong: option.case_cong)
next
  case (UpsertNetwork n)
  then have "cs_network c = Some n"
    using assms(2) by (auto simp: wallet_statements_def for_some_def lock_stmt_def split: option.splits if_splits)
  then show ?thesis
    using UpsertNetwork
    by (cases "db_row db") (auto simp: tables_after_def upsert_network_def coalesce_write_once write_once_twice
        cong: option.case_cong)
next
  case (InsertLock op)
  then have "bt_get (cs_locked_outpoints c) op = Some True"
    using assms(2)
    by (auto simp: wallet_statements_def for_some_def lock_stmt_def bt_get_Some_iff [OF assms(1)] split: option.splits if_splits)
  then show ?thesis
    using InsertLock by (auto simp: tables_after_def insert_lock_def split: option.split)
next
  case (DeleteLock op)
  then have "bt_get (cs_locked_outpoints c) op = Some False"
    using assms(2)
    by (auto simp: wallet_statements_def for_some_def lock_stmt_def bt_get_Some_iff [OF assms(1)] split: option.splits if_splits)
  then show ?thesis
    using DeleteLock by (auto simp: tables_after_def delete_lock_def split: option.split)
qed simp_all

lemma statements_keep_tables_after:
  "bt_wf (cs_locked_outpoints c) \<Longrightarrow> set stmts \<subseteq> set (wallet_statements c) \<Longrightarrow>
    run_steps (map (exec_sql D) stmts) db = (r, db') \<Longrightarrow> tables_after c db' = tables_after c db"
  by (induction stmts arbitrary: db)
    (auto simp: exec_sql_def statement_keeps_tables_after split: option.splits)

lemma run_steps_append_any:
  "run_steps (fs @ gs) s = (case run_steps fs s of (Ok _, s') \<Rightarrow> run_steps gs s' | other \<Rightarrow> other)"
  by (induction fs arbitrary: s) (auto split: prod.split res.split)

lemma stores_keep_tables_after:
  assumes "run_steps [on_local_chain f, on_tx_graph g, on_indexer h] db = (r, db')"
  shows "tables_after c db' = tables_after c db"
proof -
  have "db_row db' = db_row db \<and> db_locks db' = db_locks db"
    using assms by (auto simp: on_local_chain_def on_tx_graph_def on_indexer_def split: prod.splits res.splits)
  then show ?thesis
    by (simp add: tables_after_def cong: option.case_cong)
qed

lemma partial_write_keeps_tables_after:
  assumes "bt_wf (cs_locked_outpoints c)" and "persist_to_sqlite D c db = (r, db')"
  shows "tables_after c db' = tables_after c db"
proof -
  obtain r1 db1 where 1: "run_steps (map (exec_sql D) (wallet_statements c)) db = (r1, db1)"
    by (metis surj_pair)
  have "tables_after c db1 = tables_after c db"
    by (rule statements_keep_tables_after [OF assms(1) subset_refl 1])
  then show ?thesis
    using assms(2)
    by (cases r1) (auto simp: persist_to_sqlite_def run_steps_append_any 1 simp del: run_steps.simps
        dest: stores_keep_tables_after [where c = c])
qed

lemma from_sqlite_tables:
  assumes "from_sqlite X D db = Ok c"
  shows "cs_descriptor c = (case db_row db of Some (d, _, _) \<Rightarrow> d | None \<Rightarrow> None)"
    "cs_change_descriptor c = (case db_row db of Some (_, d, _) \<Rightarrow> d | None \<Rightarrow> None)"
    "cs_network c = (case db_row db of Some (_, _, n) \<Rightarrow> n | None \<Rightarrow> None)"
    "bt_get (cs_locked_outpoints c) op = Some True \<longleftrightarrow> op \<in> set (db_locks db)"
  using assms by (auto simp: from_sqlite_Ok lock_table_map_facts split: if_splits)

text \<open>So what is read after a write that went through is what the tables were bound to hold before it.\<close>

lemma written_tables:
  assumes "bt_wf (cs_locked_outpoints c)" and "persist_to_sqlite D c db = (Ok u, db')" and "from_sqlite X D db' = Ok new"
  shows "(cs_descriptor new, cs_change_descriptor new, cs_network new,
    \<lambda>op. bt_get (cs_locked_outpoints new) op = Some True) = tables_after c db"
proof -
  note written = persist_to_sqlite_Ok(1,2) [OF assms(2)] and read = from_sqlite_tables [OF assms(3)]
  have "bt_get (cs_locked_outpoints new) op = Some True \<longleftrightarrow>
      (case bt_get (cs_locked_outpoints c) op of Some locked \<Rightarrow> locked | None \<Rightarrow> op \<in> set (db_locks db))" for op
    using set_store_locks [OF bt_distinct_keys [OF assms(1)], of op "db_locks db"]
    by (simp add: read(4) written(2) bt_get_def [of "cs_locked_outpoints c"])
  then show ?thesis
    by (simp add: tables_after_def read(1-3) written(1) upsert_all_columns)
qed

lemma persist_wallet_failed_db:
  assumes "persist_wallet A (sqlite_persister X D) w db = (r, w', db')" and "\<not> is_ok r"
  shows "db' = db"
  using assms in_transaction_fail [of D "transaction_persist D (w_stage w)" db]
  by (cases "sqlite_persist D (w_stage w) db"; cases "fst (sqlite_persist D (w_stage w) db)")
    (auto simp: persist_wallet_def staged_def sqlite_persister_def sqlite_persist_def split: if_splits)

subsection \<open>Properties\<close>

text \<open>C8: in every run of a wallet over a SQLite store, with writes that succeed or fail and restarts
  in between, what the store holds merged with the staged changes tells the wallet's network, its
  chain, and exactly which outpoints are locked.\<close>

theorem run_store_tells_wallet:
  assumes "replays A N" and "db_lawful (exa A) D (ca_from_changeset (cha A)) blocks"
    and "wallet_run A N (sqlite_persister (exa A) D) db\<^sub>0 (w, db)"
  shows "\<exists>stored. from_sqlite (exa A) D db = Ok stored \<and>
    (let known = cs_merge (exa A) stored (w_stage w) in
     cs_network known = Some (w_network w) \<and>
     ca_from_changeset (cha A) (cs_local_chain known) = Some (w_chain w) \<and>
     (\<forall>op. is_outpoint_locked w op \<longleftrightarrow> bt_get (cs_locked_outpoints known) op = Some True))"
  using durable_store.run_recoverable [OF sqlite_durable [OF assms(1,2)] refl refl assms(1,3)]
  by (auto simp: recoverable_def remembers_def Let_def is_outpoint_locked_def)

theorem run_store_tells_wallet_witness:
  "\<exists>stored. from_sqlite (exa ledger_api) example_db_ops (ledger_saved []) = Ok stored \<and>
     bt_get (cs_locked_outpoints (cs_merge (exa ledger_api) stored
       ((cs_default (exa ledger_api))\<lparr>cs_locked_outpoints := [(OutPoint 7 0, True)]\<rparr>))) (OutPoint 7 0) = Some True"
  using run_store_tells_wallet [OF ledger_replays db_lawful_ledger ledger_run_exa, of "OutPoint 7 0"]
  by (auto simp: Let_def ledger_wallet_def is_outpoint_locked_def)

text \<open>C10: a restart brings back what was persisted. From any state of any run, when the staged changes
  are persisted and the store is then loaded, loading never answers that there is no wallet, and the
  wallet that comes back has the network, the chain and the locked outpoints of the one that was
  persisted.\<close>

theorem restart_recovers:
  assumes "replays A N" and "db_lawful (exa A) D (ca_from_changeset (cha A)) blocks"
    and "wallet_run A N (sqlite_persister (exa A) D) db\<^sub>0 (w, db)"
    and "persist_wallet A (sqlite_persister (exa A) D) w db = (Ok changed, w', db')"
    and "load_persisted A N (sqlite_persister (exa A) D) P db' = (Ok loaded, db'')"
  shows "\<exists>w2. loaded = Some w2 \<and> w_network w2 = w_network w \<and> w_chain w2 = w_chain w \<and>
    set (w_locked w2) = set (w_locked w)"
proof -
  let ?M = "sqlite_persister (exa A) D"
  have d: "durable_store (exa A) ?M (sqlite_contents (exa A) D) (ca_from_changeset (cha A))"
    by (rule sqlite_durable [OF assms(1,2)])
  have r: "recoverable A (sqlite_contents (exa A) D) (w, db)"
    by (rule durable_store.run_recoverable [OF d refl refl assms(1,3)])
  show ?thesis
    using durable_store.persisted_then_loaded [OF d refl refl assms(1) r assms(4,5)] .
qed

theorem restart_recovers_witness:
  "load_persisted ledger_api ledger_new_api (sqlite_persister (exa ledger_api) example_db_ops)
       (lp_new ledger_new_api) (ledger_saved [OutPoint 7 0])
     = (Ok (Some (ledger_wallet (cs_default example_ops) [OutPoint 7 0])), ledger_saved [OutPoint 7 0]) \<and>
   set (w_locked (ledger_wallet (cs_default example_ops) [OutPoint 7 0])) = {OutPoint 7 0}"
proof (intro conjI)
  show "load_persisted ledger_api ledger_new_api (sqlite_persister (exa ledger_api) example_db_ops)
       (lp_new ledger_new_api) (ledger_saved [OutPoint 7 0])
     = (Ok (Some (ledger_wallet (cs_default example_ops) [OutPoint 7 0])), ledger_saved [OutPoint 7 0])"
    by (simp add: ledger_exa ledger_loaded)
  obtain w2 where "Some (ledger_wallet (cs_default example_ops) [OutPoint 7 0]) = Some w2"
    and "set (w_locked w2) = {OutPoint 7 0}"
    using restart_recovers [OF ledger_replays db_lawful_ledger ledger_run_exa
        ledger_persisted [of "OutPoint 7 0", folded ledger_exa] ledger_loaded [of "OutPoint 7 0", folded ledger_exa]]
    by (auto simp: ledger_wallet_def)
  then show "set (w_locked (ledger_wallet (cs_default example_ops) [OutPoint 7 0])) = {OutPoint 7 0}"
    by simp
qed

text \<open>C11: a write over a connection happens whole or not at all. In any state of any run, when \<open>persist\<close>
  does not succeed, the wallet is unchanged, staged changes included, and so is the database. When it
  succeeds nothing is staged any more and nothing else of the wallet changed; what was staged, if
  anything, went to the tables of the chain, the graph and the index; and what the store now tells
  of network, descriptors, chain and locked outpoints is what it told, merged with what was staged.\<close>

theorem persist_loses_nothing:
  assumes "replays A N" and "db_lawful (exa A) D (ca_from_changeset (cha A)) blocks"
    and "wallet_run A N (sqlite_persister (exa A) D) db\<^sub>0 (w, db)"
    and "persist_wallet A (sqlite_persister (exa A) D) w db = (r, w', db')"
  shows "if is_ok r
    then staged A w' = None \<and> w' = w\<lparr>w_stage := w_stage w'\<rparr> \<and>
      (case staged A w of None \<Rightarrow> db' = db | Some stage \<Rightarrow>
         so_save (lc_store D) (cs_local_chain stage) (db_lc db) = (Ok (), db_lc db') \<and>
         so_save (tg_store D) (cs_tx_graph stage) (db_tg db) = (Ok (), db_tg db') \<and>
         so_save (ix_store D) (cs_indexer stage) (db_ix db) = (Ok (), db_ix db')) \<and>
      (\<exists>before after. from_sqlite (exa A) D db = Ok before \<and> from_sqlite (exa A) D db' = Ok after \<and>
         tells_same (ca_from_changeset (cha A)) after (cs_merge (exa A) before (w_stage w)))
    else w' = w \<and> db' = db"
proof -
  let ?M = "sqlite_persister (exa A) D"
  have d: "durable_store (exa A) ?M (sqlite_contents (exa A) D) (ca_from_changeset (cha A))"
    by (rule sqlite_durable [OF assms(1,2)])
  have "recoverable A (sqlite_contents (exa A) D) (w, db)"
    by (rule durable_store.run_recoverable [OF d refl refl assms(1,3)])
  then obtain b where b: "from_sqlite (exa A) D db = Ok b" "cs_wf (exa A) b" "cs_wf (exa A) (w_stage w)"
    by (auto simp: recoverable_def)
  have m: "mergeable (cs_wf (exa A)) (cs_merge (exa A)) (cs_default (exa A)) (cs_is_empty (exa A))"
    using assms(1) by (auto simp: replays_def intro: cs_mergeable)
  have none: "staged A v = None" if "w_stage v = cs_default (exa A)" for v
    using that mergeable.is_empty_iff [OF m mergeable.wf_empty [OF m]] by (simp add: staged_def)
  have some: "staged A w = Some (w_stage w)" if "w_stage w \<noteq> cs_default (exa A)"
    using that mergeable.is_empty_iff [OF m b(3)] by (simp add: staged_def)
  consider "\<not> is_ok r" "w' = w" | "r = Ok False" "w' = w" "db' = db" "w_stage w = cs_default (exa A)"
    | c where "r = Ok True" "w' = w\<lparr>w_stage := cs_default (exa A)\<rparr>" "w_stage w \<noteq> cs_default (exa A)"
      "pe_persist ?M (w_stage w) db = (Ok (), db')" "from_sqlite (exa A) D db' = Ok c"
      "tells_same (ca_from_changeset (cha A)) c (cs_merge (exa A) b (w_stage w))"
    using durable_store.persist_cases [OF d refl assms(4), of b] b(1,3) by fastforce
  then show ?thesis
  proof cases
    case 1
    then show ?thesis
      using persist_wallet_failed_db [OF assms(4)] by simp
  next
    case 2
    then show ?thesis
      using none b(1) mergeable.merge_empty_right [OF m b(2)] by (auto simp: tells_same_def)
  next
    case 3
    have "persist_to_sqlite D (w_stage w) db = (Ok (), db')"
      using 3(4) by (auto simp: sqlite_persister_def sqlite_persist_def transaction_persist_def dest: in_transaction_Ok)
    then show ?thesis
      using 3 none [of w'] some b(1) by (auto dest: persist_to_sqlite_Ok(3-5))
  qed
qed

theorem persist_loses_nothing_witness:
  "staged ledger_api (ledger_wallet (cs_default (exa ledger_api) :: example_change_set) [OutPoint 7 0]) = None \<and>
   (\<exists>before after. from_sqlite (exa ledger_api) example_db_ops (ledger_saved []) = Ok before \<and>
     from_sqlite (exa ledger_api) example_db_ops (ledger_saved [OutPoint 7 0]) = Ok after \<and>
     tells_same (ca_from_changeset (cha ledger_api)) after (cs_merge (exa ledger_api) before
       ((cs_default (exa ledger_api))\<lparr>cs_locked_outpoints := [(OutPoint 7 0, True)]\<rparr>)))"
  using persist_loses_nothing [OF ledger_replays db_lawful_ledger ledger_run_exa
      ledger_persisted [of "OutPoint 7 0", folded ledger_exa]]
  by (simp add: ledger_wallet_def)

text \<open>\<open>create\<close> refuses a store that has data: no wallet is created over it whatever the parameters, and
  the store still reads the same.\<close>

lemma create_refuses_existing:
  assumes "ext_lawful (exa A)" and "db_lawful (exa A) D chain_of blocks"
    and "from_sqlite (exa A) D db = Ok existing" and "existing \<noteq> cs_default (exa A)"
    and "create_persisted A N (sqlite_persister (exa A) D) P db = (r, db')"
  shows "\<not> is_ok r" "from_sqlite (exa A) D db' = Ok existing"
    "is_ok (fst (sqlite_initialize (exa A) D db)) \<Longrightarrow> r = Err (DataAlreadyExists existing)"
proof -
  have "\<not> cs_is_empty (exa A) existing"
    using assms(4) mergeable.is_empty_iff [OF cs_mergeable [OF assms(1)] from_sqlite_wf [OF assms(2,3)]] by simp
  moreover have "c = existing \<and> from_sqlite (exa A) D db1 = Ok existing"
    if "sqlite_initialize (exa A) D db = (Ok c, db1)" for c db1
    using in_transaction_Ok [of D "transaction_initialize (exa A) D" db c db1] that
      from_sqlite_init [OF assms(2) _ assms(3)]
    by (auto simp: sqlite_initialize_def transaction_initialize_Ok)
  moreover have "snd (sqlite_initialize (exa A) D db) = db" if "\<not> is_ok (fst (sqlite_initialize (exa A) D db))"
    using that by (auto simp: sqlite_initialize_def intro: in_transaction_fail)
  ultimately show "\<not> is_ok r" "from_sqlite (exa A) D db' = Ok existing"
    "is_ok (fst (sqlite_initialize (exa A) D db)) \<Longrightarrow> r = Err (DataAlreadyExists existing)"
    using assms(3,5)
    by (cases "sqlite_initialize (exa A) D db"; cases "fst (sqlite_initialize (exa A) D db)";
      fastforce simp: create_persisted_def sqlite_persister_def)+
qed

text \<open>C39: over an open transaction, a write that failed in the middle can be tried again. What it wrote
  stays, and the wallet keeps everything it had staged; when the next \<open>persist\<close> succeeds, whatever
  had failed, nothing is staged any more, and descriptors, network and locked outpoints read as if the
  change set had been written once to the database as it was before the failure.\<close>

theorem retried_write_completes:
  assumes "bt_wf (cs_locked_outpoints (w_stage w))" and "from_sqlite (exa A) D db = Ok old"
    and "persist_wallet A (transaction_persister (exa A) D) w db = (Err e, w1, db1)"
    and "persist_wallet A (transaction_persister (exa A) (D\<lparr>sql_error := errors\<rparr>)) w1 db1 = (Ok changed, w2, db2)"
    and "from_sqlite (exa A) (D\<lparr>sql_error := errors\<rparr>) db2 = Ok new"
  shows "w1 = w \<and> changed \<and> w2 = w\<lparr>w_stage := cs_default (exa A)\<rparr> \<and>
    cs_descriptor new = (case cs_descriptor old of Some d \<Rightarrow> Some d | None \<Rightarrow> cs_descriptor (w_stage w)) \<and>
    cs_change_descriptor new
      = (case cs_change_descriptor old of Some d \<Rightarrow> Some d | None \<Rightarrow> cs_change_descriptor (w_stage w)) \<and>
    cs_network new = (case cs_network old of Some n \<Rightarrow> Some n | None \<Rightarrow> cs_network (w_stage w)) \<and>
    (\<forall>op. bt_get (cs_locked_outpoints new) op = Some True \<longleftrightarrow>
      (case bt_get (cs_locked_outpoints (w_stage w)) op of
         Some locked \<Rightarrow> locked | None \<Rightarrow> bt_get (cs_locked_outpoints old) op = Some True))"
proof -
  let ?c = "w_stage w" and ?D = "D\<lparr>sql_error := errors\<rparr>"
  have nonempty: "\<not> cs_is_empty (exa A) ?c" and first: "persist_to_sqlite D ?c db = (Err e, db1)" and w1: "w1 = w"
    using assms(3) by (auto simp: persist_wallet_def staged_def transaction_persister_def transaction_persist_def
        split: if_splits prod.splits res.splits)
  have second: "persist_to_sqlite ?D ?c db1 = (Ok (), db2)" and w2: "changed" "w2 = w\<lparr>w_stage := cs_default (exa A)\<rparr>"
    using assms(4) nonempty w1 by (auto simp: persist_wallet_def staged_def take_staged_def transaction_persister_def
        transaction_persist_def split: prod.splits res.splits)
  have "tables_after ?c db1 = tables_after ?c db"
    by (rule partial_write_keeps_tables_after [OF assms(1) first])
  then have new: "(cs_descriptor new, cs_change_descriptor new, cs_network new,
      \<lambda>op. bt_get (cs_locked_outpoints new) op = Some True) = tables_after ?c db"
    using written_tables [OF assms(1) second assms(5)] by simp
  show ?thesis
    using new w1 w2 unfolding tables_after_def from_sqlite_tables [OF assms(2), symmetric]
    by (simp add: fun_eq_iff write_once_cases)
qed

definition failing_ops where
  "failing_ops = example_db_ops\<lparr>sql_error := (\<lambda>stmt db. if stmt = DeleteLock (OutPoint 1 0) then Some ''io'' else None)\<rparr>"

theorem retried_write_completes_witness:
  "\<exists>old new. from_sqlite example_ops failing_ops example_db = Ok old \<and> cs_network old = None \<and>
     from_sqlite example_ops example_db_ops example_db_after = Ok new \<and>
     cs_descriptor new = Some 5 \<and> cs_network new = Some 0 \<and>
     bt_get (cs_locked_outpoints new) (OutPoint 2 0) = Some True"
proof -
  let ?w = "ledger_wallet example_changes []" and ?db1 = "example_db\<lparr>db_row := Some (Some 5, None, Some 0)\<rparr>"
  have same: "failing_ops\<lparr>sql_error := (\<lambda>stmt db. None)\<rparr> = example_db_ops"
    by (simp add: failing_ops_def example_db_ops_def)
  have wf: "bt_wf (cs_locked_outpoints (w_stage ?w))" and stage: "w_stage ?w = example_changes"
    and nonempty: "\<not> cs_is_empty example_ops example_changes"
    by (simp_all add: ledger_wallet_def example_changes_def bt_wf_def less_outpoint_def cs_is_empty_def)
  obtain old where old: "from_sqlite example_ops failing_ops example_db = Ok old" "cs_descriptor old = Some 5"
    "cs_network old = None"
    by (auto simp: from_sqlite_Ok failing_ops_def example_db_def example_db_ops_def map_store_def block_store_def bt_wf_def)
  obtain new where new: "from_sqlite example_ops example_db_ops example_db_after = Ok new"
    by (auto simp: from_sqlite_Ok example_db_after_def example_db_ops_def map_store_def block_store_def bt_wf_def)
  have first: "persist_wallet ledger_api (transaction_persister (exa ledger_api) failing_ops) ?w example_db = (Err ''io'', ?w, ?db1)"
    using nonempty partial_write by (simp add: failing_ops_def persist_wallet_def staged_def stage ledger_exa transaction_persister_def
        transaction_persist_def)
  have again: "persist_to_sqlite example_db_ops example_changes ?db1 = (Ok (), example_db_after)"
    by (simp add: persist_to_sqlite_def wallet_statements_def exec_sql_def for_some_def lock_stmt_def example_db_ops_def
        map_store_def block_store_def example_changes_def example_db_def example_db_after_def cs_default_def
        example_ops_def map_ops_def on_local_chain_def on_tx_graph_def on_indexer_def upsert_descriptor_def
        upsert_network_def insert_lock_def delete_lock_def bt_extend_def)
  have second: "persist_wallet ledger_api (transaction_persister (exa ledger_api) (failing_ops\<lparr>sql_error := (\<lambda>stmt db. None)\<rparr>)) ?w ?db1
      = (Ok True, ?w\<lparr>w_stage := cs_default example_ops\<rparr>, example_db_after)"
    unfolding same using nonempty again by (simp add: persist_wallet_def staged_def take_staged_def stage ledger_exa transaction_persister_def
        transaction_persist_def)
  have changes: "cs_network example_changes = Some 0" "bt_get (cs_locked_outpoints example_changes) (OutPoint 2 0) = Some True"
    by (simp_all add: example_changes_def bt_get_def)
  have "from_sqlite (exa ledger_api) failing_ops example_db = Ok old"
    "from_sqlite (exa ledger_api) (failing_ops\<lparr>sql_error := (\<lambda>stmt db. None)\<rparr>) example_db_after = Ok new"
    using old(1) new by (simp_all only: same ledger_exa)
  from retried_write_completes [OF wf this(1) first second this(2)]
  show ?thesis
    unfolding stage using old new changes by auto
qed

text \<open>C12: what was asked to be checked holds of a loaded wallet. When \<open>load\<close> gives a wallet, its network
  is the expected one if one was given, so is its genesis hash, its external descriptor has the
  identity of the expected one, and it has a change descriptor with the expected identity if one
  was expected, and none if none was allowed.\<close>

theorem load_checks_hold:
  assumes "load_with_params A N c P = (Ok (Some w) :: ('a load_error, _) res)"
  shows "(\<forall>n. lp_check_network P = Some n \<longrightarrow> w_network w = n) \<and>
    (\<forall>h. lp_check_genesis_hash P = Some h \<longrightarrow> ca_genesis_hash (cha A) (w_chain w) = h) \<and>
    (\<forall>mk. lp_check_descriptor P = Some mk \<longrightarrow> (\<exists>d f km d'. cs_descriptor c = Some d \<and> mk = Some f \<and>
       f (na_network_kind N (w_network w)) = Ok (d', km) \<and> na_descriptor_id N d = na_descriptor_id N d')) \<and>
    (\<forall>mk. lp_check_change_descriptor P = Some mk \<longrightarrow> (case mk of
       None \<Rightarrow> cs_change_descriptor c = None
     | Some f \<Rightarrow> \<exists>d km d'. cs_change_descriptor c = Some d \<and> f (na_network_kind N (w_network w)) = Ok (d', km) \<and>
         na_descriptor_id N d = na_descriptor_id N d'))"
proof -
  from assms obtain network chain d km cd ikm where
    "cs_network c = Some network" and id: "check_identity A P network chain = (Ok () :: ('a load_error, unit) res)"
    and d: "cs_descriptor c = Some d" and ext: "check_external N (na_network_kind N network) P d = Ok km"
    and int: "check_internal A N (na_network_kind N network) P (cs_change_descriptor c) = Ok (cd, ikm)"
    and w: "w_network w = network" "w_chain w = chain"
    by (auto simp: load_with_params_def res_simps Let_def split: if_splits)
  have "(\<forall>n. lp_check_network P = Some n \<longrightarrow> network = n) \<and>
    (\<forall>h. lp_check_genesis_hash P = Some h \<longrightarrow> ca_genesis_hash (cha A) chain = h)"
    using id by (auto simp: check_identity_def res_simps split: option.splits)
  moreover have "\<exists>f km d'. mk = Some f \<and> f (na_network_kind N network) = Ok (d', km) \<and>
      na_descriptor_id N d = na_descriptor_id N d'" if "lp_check_descriptor P = Some mk" for mk
    using ext that by (auto simp: check_external_def res_simps split: option.splits if_splits)
  moreover have "case mk of None \<Rightarrow> cs_change_descriptor c = None
     | Some f \<Rightarrow> \<exists>d km d'. cs_change_descriptor c = Some d \<and> f (na_network_kind N network) = Ok (d', km) \<and>
         na_descriptor_id N d = na_descriptor_id N d'" if "lp_check_change_descriptor P = Some mk" for mk
    using int that by (auto simp: check_internal_def res_simps split: option.splits if_splits)
  ultimately show ?thesis
    using d w by auto
qed

definition ledger_checks where
  "ledger_checks = lp_set_check_network 0 (lp_descriptor External (Some (\<lambda>n. Ok (4, ()))) (lp_new ledger_new_api))"

theorem load_checks_hold_witness:
  "lp_check_network ledger_checks = Some 0 \<and>
   w_network (ledger_wallet (cs_default example_ops) [OutPoint 7 0]) = 0"
proof -
  have "load_with_params ledger_api ledger_new_api (ledger_stage\<lparr>cs_locked_outpoints := [(OutPoint 7 0, True)]\<rparr>) ledger_checks
      = Ok (Some (ledger_wallet (cs_default example_ops) [OutPoint 7 0]))"
    by (simp add: load_with_params_def ledger_exa ledger_empty)
      (simp add: ledger_checks_def lp_set_check_network_def lp_descriptor_def lp_new_def ledger_defs ledger_stage_def
        check_identity_def fail_if_def make_descriptor_to_extract_def
        check_wallet_descriptor_def key_is_hardened_def check_external_def check_internal_def
        make_indexed_graph_def make_index_def panic_unless_def Let_def ledger_wallet_def cs_default_def
        example_chain_of_def locked_of_changeset_def bt_extend_Nil)
  from conjunct1 [OF load_checks_hold [OF this]]
  show ?thesis
    by (simp add: ledger_checks_def lp_set_check_network_def)
qed

end
