(* ===== verification/Sign_Wallet.thy ===== *)
theory Sign_Wallet
  imports Create_Tx
begin

section \<open>Signing and finalizing with a wallet\<close>

text \<open>
  \<open>Wallet::sign\<close>, \<open>sign_with_signers\<close>, \<open>finalize_psbt\<close>, \<open>try_finalize_psbt\<close> and their helper
  (src/wallet/mod.rs), and how a descriptor is derived from the key origins of a PSBT input
  (\<open>DescriptorMeta\<close>, src/descriptor/mod.rs). Derivation of public keys, the type of a derived
  descriptor and the construction of a satisfaction belong to \<open>bitcoin\<close> and \<open>miniscript\<close>: they are
  the fields of \<open>derive_api\<close>. A satisfaction is asked for with the tests of absolute and relative
  lock times, which the code builds from the heights. An error leaves no PSBT in the model; in the
  code it leaves the PSBT as far as it was changed.
\<close>

subsection \<open>The descriptor of a PSBT input\<close>

datatype desc_type =
  TyBare | TySh | TyPkh | TyWpkh | TyWsh | TyShWsh | TyShWpkh | TyShSortedMulti | TyWshSortedMulti
| TyShWshSortedMulti | TyTr

type_synonym lock_tests = "(locktime \<Rightarrow> bool) \<times> (rel_locktime \<Rightarrow> (unit, bool) res)"

text \<open>\<open>dv_matches\<close> is \<open>DescriptorXKey::matches\<close>, the prefix that matched; \<open>dv_pub\<close> the public key that
  \<open>derive_pub\<close> gives; \<open>dv_satisfy\<close> the satisfaction of an input: its script and its witness.\<close>

record ('x, 'dd) derive_api =
  dv_fingerprint :: "'x \<Rightarrow> fingerprint"
  dv_matches :: "'x desc_xkey \<Rightarrow> key_source \<Rightarrow> child_number list option"
  dv_pub :: "'x \<Rightarrow> child_number list \<Rightarrow> pubkey option"
  dv_xonly :: "pubkey \<Rightarrow> xonly_key"
  dv_type :: "'dd \<Rightarrow> desc_type"
  dv_spk :: "'dd \<Rightarrow> script"
  dv_explicit_script :: "'dd \<Rightarrow> script option"
  dv_satisfy :: "'dd \<Rightarrow> psbt \<Rightarrow> nat \<Rightarrow> lock_tests option \<Rightarrow> (nat, script \<times> u8 list list) res"

type_synonym key_origins = "(fingerprint, child_number list \<times> single_pub_key) btree"

definition verify_key where
  "verify_key V xpub path expected =
     (case dv_pub V (xk_key xpub) path of
        None \<Rightarrow> False
      | Some derived \<Rightarrow>
          (case expected of FullKey pk \<Rightarrow> derived = pk | XOnly pk \<Rightarrow> dv_xonly V derived = pk))"

text \<open>The part of the path past the prefix, when the key at the whole path is the expected one.\<close>

definition derive_path_of where
  "derive_path_of V key_origins xpub =
     (let root_fingerprint = xkey_root_fingerprint (dv_fingerprint V) xpub in
      case bt_get key_origins root_fingerprint of
        None \<Rightarrow> None
      | Some (full_path, expected) \<Rightarrow>
          (case dv_matches V xpub (root_fingerprint, full_path) of
             None \<Rightarrow> None
           | Some prefix \<Rightarrow>
               (let derive_path = drop (length prefix) full_path in
                if verify_key V xpub (xk_path xpub @ derive_path) expected then Some derive_path else None)))"

definition path_index_of where
  "path_index_of V key_origins key =
     (case key of
        XPubKey xpub \<Rightarrow>
          (case derive_path_of V key_origins xpub of
             None \<Rightarrow> None
           | Some path \<Rightarrow>
               (if xk_wildcard xpub \<noteq> NoWildcard \<and> length path = 1
                then (case hd path of Normal index \<Rightarrow> Some index | Hardened _ \<Rightarrow> None)
                else if xk_wildcard xpub = NoWildcard \<and> path = [] then Some (0 :: u32)
                else None))
      | _ \<Rightarrow> None)"

fun first_some :: "('a \<Rightarrow> 'b option) \<Rightarrow> 'a list \<Rightarrow> 'b option" where
  "first_some f [] = None"
| "first_some f (x # xs) = (case f x of Some y \<Rightarrow> Some y | None \<Rightarrow> first_some f xs)"

definition derive_from_psbt_key_origins where
  "derive_from_psbt_key_origins V A d key_origins =
     (case first_some (path_index_of V key_origins) (da_keys (dsa A) d) of
        None \<Rightarrow> Ok None
      | Some path \<Rightarrow> res_bind (expect (da_at_index (dsa A) d path)) (\<lambda>derived. Ok (Some derived)))"

definition derive_from_hd_keypaths where
  "derive_from_hd_keypaths V A d hd_keypaths =
     derive_from_psbt_key_origins V A d
       (bt_of_list (map (\<lambda>(pk, (fingerprint, path)). (fingerprint, (path, FullKey pk))) hd_keypaths))"

definition derive_from_tap_key_origins where
  "derive_from_tap_key_origins V A d tap_origins =
     derive_from_psbt_key_origins V A d
       (bt_of_list (map (\<lambda>(pk, (_, (fingerprint, path))). (fingerprint, (path, XOnly pk))) tap_origins))"

text \<open>A fixed descriptor is recognised by its script, its redeem script or its witness script.\<close>

definition fixed_descriptor_matches where
  "fixed_descriptor_matches V descriptor psbt_input utxo =
     (if dv_type V descriptor \<in> {TyPkh, TyWpkh, TyShWpkh, TyTr}
      then Ok (case utxo of Some t \<Rightarrow> dv_spk V descriptor = txo_script t | None \<Rightarrow> False)
      else if dv_type V descriptor \<in> {TyBare, TySh, TyShSortedMulti}
      then (case redeem_script psbt_input of
              None \<Rightarrow> Ok False
            | Some s \<Rightarrow> res_bind (expect (dv_explicit_script V descriptor)) (\<lambda>e. Ok (e = s)))
      else (case witness_script psbt_input of
              None \<Rightarrow> Ok False
            | Some s \<Rightarrow> res_bind (expect (dv_explicit_script V descriptor)) (\<lambda>e. Ok (e = s))))"

definition derive_from_psbt_input where
  "derive_from_psbt_input V A d psbt_input utxo =
     res_bind (derive_from_hd_keypaths V A d (bip32_derivation psbt_input)) (\<lambda>derived.
     if derived \<noteq> None then Ok derived
     else res_bind (derive_from_tap_key_origins V A d (tap_key_origins psbt_input)) (\<lambda>derived.
     if derived \<noteq> None then Ok derived
     else if da_has_wildcard (dsa A) d then Ok None
     else res_bind (expect (da_at_index (dsa A) d 0)) (\<lambda>descriptor.
          res_bind (fixed_descriptor_matches V descriptor psbt_input utxo) (\<lambda>matched.
          Ok (if matched then Some descriptor else None)))))"

subsection \<open>Finalizing\<close>

text \<open>\<open>find_map\<close> with a function that may panic.\<close>

fun res_find_map :: "('a \<Rightarrow> ('e, 'b option) res) \<Rightarrow> 'a list \<Rightarrow> ('e, 'b option) res" where
  "res_find_map f [] = Ok None"
| "res_find_map f (x # xs) =
     res_bind (f x) (\<lambda>r. case r of Some y \<Rightarrow> Ok (Some y) | None \<Rightarrow> res_find_map f xs)"

definition descriptor_for_input where
  "descriptor_for_input B V A w p n psbt_input =
     res_bind (get_utxo_for B p n) (\<lambda>utxo.
     res_bind (case utxo of None \<Rightarrow> Ok None | Some txout \<Rightarrow> get_descriptor_for_txout A w txout) (\<lambda>desc.
     if desc \<noteq> None then Ok desc
     else res_find_map (\<lambda>(_, d). derive_from_psbt_input V A d psbt_input utxo) (keychains A w)))"

text \<open>The tests of lock times: none when no height is given (the transaction's own fields decide).\<close>

definition lock_tests_for :: "btc \<Rightarrow> u32 option \<Rightarrow> u32 option \<Rightarrow> lock_tests option" where
  "lock_tests_for B current_height confirmation_height =
     (case current_height of
        None \<Rightarrow> None
      | Some h \<Rightarrow> Some (check_after (after_new (Some h) False),
                      check_older B (older_new (Some h) confirmation_height False)))"

text \<open>What finalization keeps of an input: the spent output, the final scripts, the unknown fields.\<close>

definition finalized_input :: "psbt_input \<Rightarrow> script \<Rightarrow> u8 list list \<Rightarrow> psbt_input" where
  "finalized_input original sig wit = psbt_input_default
     \<lparr>non_witness_utxo := non_witness_utxo original, witness_utxo := witness_utxo original,
      final_script_sig := (if sig \<noteq> [] then Some sig else None),
      final_script_witness := (if wit \<noteq> [] then Some wit else None),
      proprietary := proprietary original, unknown := unknown original\<rparr>"

definition finalize_one where
  "finalize_one B V A w current_height confirmation_height_for p n =
     res_bind (ok_or (get_nth (inputs p) n) (new_oob n (length (inputs p)))) (\<lambda>psbt_input.
     if is_finalized_input psbt_input then Ok (p, AlreadyFinalized)
     else
       res_bind (descriptor_for_input B V A w p n psbt_input) (\<lambda>desc.
       case desc of
         None \<Rightarrow> Ok (p, MissingDescriptor)
       | Some desc \<Rightarrow>
           (case dv_satisfy V desc p n
                   (lock_tests_for B current_height
                     (confirmation_height_for (tx_input (unsigned_tx p) ! n))) of
              Ok (sig, wit) \<Rightarrow>
                Ok (set_input p n (finalized_input psbt_input sig wit), Finalized)
            | Err err \<Rightarrow> Ok (p, CouldNotSatisfy err)
            | Panic \<Rightarrow> Panic)))"

definition clear_derivations :: "psbt_output \<Rightarrow> psbt_output" where
  "clear_derivations out = out\<lparr>po_bip32_derivation := [], po_tap_key_origins := []\<rparr>"

definition try_finalize_psbt_with where
  "try_finalize_psbt_with B V A w current_height confirmation_height_for clear_output_derivations p =
     res_bind (fail_if (length (inputs p) < length (tx_input (unsigned_tx p)))
       (new_oob (length (inputs p)) (length (inputs p)))) (\<lambda>_.
     res_bind (res_fold (\<lambda>(p, outcomes) n.
         res_bind (finalize_one B V A w current_height confirmation_height_for p n) (\<lambda>(p, outcome).
         Ok (p, bt_insert n outcome outcomes)))
       (p, []) [0..<length (tx_input (unsigned_tx p))]) (\<lambda>(p, outcomes).
     let p = (if clear_output_derivations \<and> psbt_is_finalized outcomes
              then p\<lparr>outputs := map clear_derivations (outputs p)\<rparr> else p) in
     Ok (outcomes, p)))"

definition try_finalize_psbt where
  "try_finalize_psbt B V A w p = try_finalize_psbt_with B V A w None (\<lambda>_. None) False p"

definition confirmation_heights :: "canon_tx list \<Rightarrow> txid list \<Rightarrow> txid \<Rightarrow> u32 option" where
  "confirmation_heights txs prev_txids =
     map_of (rev (map (\<lambda>c. (ct_txid c, case ct_pos c of
         Confirmed a _ \<Rightarrow> bid_height (cbt_block a) | Unconfirmed _ _ \<Rightarrow> - 1))
       (take (length (remdups prev_txids)) (filter (\<lambda>c. ct_txid c \<in> set prev_txids) txs))))"

definition finalize_psbt where
  "finalize_psbt B V A w opts p =
     (let heights = confirmation_heights (va_txs (cha A) (w_view w))
            (map (\<lambda>txin. op_txid (previous_output txin)) (tx_input (unsigned_tx p)));
          current_height = (case assume_height opts of
              Some h \<Rightarrow> h | None \<Rightarrow> bid_height (ca_tip (cha A) (w_chain w))) in
      res_bind (map_err InputIndexOutOfRange (try_finalize_psbt_with B V A w (Some current_height)
          (\<lambda>input. heights (op_txid (previous_output input))) True p)) (\<lambda>(outcomes, p).
      Ok (psbt_is_finalized outcomes, p)))"

subsection \<open>Signing\<close>

text \<open>The sighash types \<open>SIGHASH_DEFAULT\<close> (0) and \<open>SIGHASH_ALL\<close> (1).\<close>

definition standard_sighash :: "psbt_input \<Rightarrow> bool" where
  "standard_sighash i \<longleftrightarrow> sighash_type i = None \<or> sighash_type i = Some 1 \<or> sighash_type i = Some 0"

definition lacks_non_witness_utxo :: "psbt_input \<Rightarrow> bool" where
  "lacks_non_witness_utxo i \<longleftrightarrow> \<not> is_finalized_input i \<and>
     (tap_internal_key i = None \<and> tap_merkle_root i = None) \<and> non_witness_utxo i = None"

definition sign_with_signers where
  "sign_with_signers B C H V A w opts containers p =
     res_bind (map_err MiniscriptPsbt (update_psbt_with_descriptor B A w p)) (\<lambda>p.
     res_bind (fail_if (\<not> trust_witness_utxo opts \<and> list_ex lacks_non_witness_utxo (inputs p))
       MissingNonWitnessUtxo) (\<lambda>_.
     res_bind (fail_if (\<not> allow_all_sighashes opts \<and> \<not> list_all standard_sighash (inputs p))
       NonStandardSighash) (\<lambda>_.
     res_bind (res_fold (\<lambda>p signer. sign_transaction B C H signer p opts) p
       (concat (map signers_list containers))) (\<lambda>p.
     if try_finalize opts then finalize_psbt B V A w opts p else Ok (False, p)))))"

definition wallet_sign where
  "wallet_sign B C H V A w opts p =
     sign_with_signers B C H V A w opts [w_signers w, w_change_signers w] p"

end
