(* ===== verification/Sign_Facts.thy ===== *)
theory Sign_Facts
  imports Sign_Wallet
begin

section \<open>What signing and finalizing do to a PSBT\<close>

text \<open>
  Signing with software signers adds signatures and changes nothing else, through every container
  and every input, and only where it is safe; finalization touches only inputs that were not final,
  keeps what it has to keep and reports every input; a wallet that answers that a PSBT is finalized
  has finalized every input. The test of relative lock times over unconfirmed outputs panics.
\<close>

subsection \<open>Signing\<close>

definition adds_sigs :: "psbt \<Rightarrow> psbt \<Rightarrow> bool" where
  "adds_sigs p p' \<longleftrightarrow> p' = p\<lparr>inputs := inputs p'\<rparr> \<and> list_all2 only_sigs (inputs p) (inputs p')"

lemma adds_sigs_refl: "list_all sig_maps_wf (inputs p) \<Longrightarrow> adds_sigs p p"
  by (auto simp: adds_sigs_def list_all_iff list.rel_map intro!: list.rel_refl_strong only_sigs_refl)

lemma adds_sigs_trans: "adds_sigs p q \<Longrightarrow> adds_sigs q r \<Longrightarrow> adds_sigs p r"
  by (cases p; cases q; cases r) (auto simp: adds_sigs_def intro: list_all2_trans [OF only_sigs_trans])

lemma adds_sigs_wf: "adds_sigs p q \<Longrightarrow> list_all sig_maps_wf (inputs q)"
  unfolding adds_sigs_def list_all_length list_all2_conv_all_nth by (metis only_sigs_fields(10))

lemma signs_only_adds:
  assumes "signs_only i p p'" "i < length (inputs p)" "list_all sig_maps_wf (inputs p)"
  shows "adds_sigs p p'"
proof -
  from assms(1) obtain inp' where p': "p' = set_input p i inp'" and only: "only_sigs (inputs p ! i) inp'"
    by (auto simp: signs_only_def)
  have "list_all2 only_sigs (inputs p) (inputs p)"
    using adds_sigs_refl [OF assms(3)] by (simp add: adds_sigs_def)
  then have "list_all2 only_sigs ((inputs p)[i := inputs p ! i]) ((inputs p)[i := inp'])"
    using only by (rule list_all2_update_cong)
  then show ?thesis
    by (simp add: adds_sigs_def p' set_input_def)
qed

text \<open>The signers of this crate also leave the inputs alone that are final.\<close>

definition signs_open :: "psbt \<Rightarrow> psbt \<Rightarrow> bool" where
  "signs_open p p' \<longleftrightarrow> adds_sigs p p' \<and>
     (\<forall>n < length (inputs p). is_finalized_input (inputs p ! n) \<longrightarrow> inputs p' ! n = inputs p ! n)"

lemma adds_sigs_length: "adds_sigs p p' \<Longrightarrow> length (inputs p') = length (inputs p)"
  by (auto simp: adds_sigs_def dest: list_all2_lengthD)

lemma signs_open_refl: "list_all sig_maps_wf (inputs p) \<Longrightarrow> signs_open p p"
  by (simp add: signs_open_def adds_sigs_refl)

lemma signs_open_trans:
  assumes "signs_open p q" and "signs_open q r"
  shows "signs_open p r"
proof -
  have "inputs r ! n = inputs p ! n" if "n < length (inputs p)" "is_finalized_input (inputs p ! n)" for n
    using assms that adds_sigs_length [of p q] by (auto simp: signs_open_def)
  then show ?thesis
    using assms adds_sigs_trans by (auto simp: signs_open_def)
qed

lemma signs_open_wf: "signs_open p q \<Longrightarrow> list_all sig_maps_wf (inputs q)"
  unfolding signs_open_def using adds_sigs_wf by blast

lemma sign_input_key_opens:
  assumes "sign_input_key B C k ctx p i opts = Ok p'" "list_all sig_maps_wf (inputs p)"
  shows "signs_open p p'"
proof (cases "p' = p")
  case False
  have i: "i < length (inputs p)" "\<not> is_finalized_input (inputs p ! i)"
    by (rule sign_input_key_OkE [OF assms(1)]; use False in simp)+
  have only: "signs_only i p p'"
    using sign_input_key_signs_only [OF assms(1)] i(1) assms(2) by (simp add: list_all_length)
  then have "adds_sigs p p'"
    using signs_only_adds i(1) assms(2) by blast
  moreover have "inputs p' ! n = inputs p ! n" if "n \<noteq> i" for n
    using only that by (auto simp: signs_only_def set_input_def)
  ultimately show ?thesis
    using i(2) unfolding signs_open_def by metis
qed (use assms in \<open>simp add: signs_open_refl\<close>)

lemma sign_input_xkey_opens:
  assumes "sign_input_xkey B C H xk ctx p i opts = Ok p'" "list_all sig_maps_wf (inputs p)"
  shows "signs_open p p'"
  using assms
  by (auto simp: sign_input_xkey_def res_simps Let_def signs_open_refl split: if_splits option.splits
      intro: sign_input_key_opens)

text \<open>What every step of a loop does to a well-formed PSBT the loop does, when it can be done twice.\<close>

lemma res_fold_relates:
  assumes "\<And>p. list_all sig_maps_wf (inputs p) \<Longrightarrow> R p p" and "\<And>p q r. R p q \<Longrightarrow> R q r \<Longrightarrow> R p r"
    and "\<And>p q. R p q \<Longrightarrow> list_all sig_maps_wf (inputs q)"
    and "\<And>q x q'. x \<in> set xs \<Longrightarrow> f q x = Ok q' \<Longrightarrow> list_all sig_maps_wf (inputs q) \<Longrightarrow> R q q'"
    and "res_fold f p xs = Ok p'" and "list_all sig_maps_wf (inputs p)"
  shows "R p p'"
  using assms(4-6)
proof (induction xs arbitrary: p)
  case Nil
  then show ?case using assms(1) by simp
next
  case (Cons x xs)
  from Cons.prems(2) obtain q where q: "f p x = Ok q" "res_fold f q xs = Ok p'"
    by (auto simp: res_simps)
  have pq: "R p q"
    using Cons.prems(1) [OF _ q(1) Cons.prems(3)] by simp
  have "R q p'"
    by (rule Cons.IH [OF Cons.prems(1) q(2) assms(3) [OF pq]]) simp_all
  with pq show ?case by (rule assms(2))
qed

lemma res_fold_adds:
  assumes "\<And>q x q'. x \<in> set xs \<Longrightarrow> f q x = Ok q' \<Longrightarrow> list_all sig_maps_wf (inputs q) \<Longrightarrow> adds_sigs q q'"
    and "res_fold f p xs = Ok p'" and "list_all sig_maps_wf (inputs p)"
  shows "adds_sigs p p'"
  by (rule res_fold_relates [of adds_sigs xs f p p'])
    (use assms adds_sigs_refl adds_sigs_trans adds_sigs_wf in \<open>blast+\<close>)

lemma res_fold_opens:
  assumes "\<And>q x q'. x \<in> set xs \<Longrightarrow> f q x = Ok q' \<Longrightarrow> list_all sig_maps_wf (inputs q) \<Longrightarrow> signs_open q q'"
    and "res_fold f p xs = Ok p'" and "list_all sig_maps_wf (inputs p)"
  shows "signs_open p p'"
  by (rule res_fold_relates [of signs_open xs f p p'])
    (use assms signs_open_refl signs_open_trans signs_open_wf in \<open>blast+\<close>)

lemma sign_input_software_opens:
  assumes "sign_input_software B C H sec ctx p i opts = Ok p'" "list_all sig_maps_wf (inputs p)"
  shows "signs_open p p'"
  using assms
  by (auto simp: sign_input_software_def sign_input_multikey_def split: desc_secret.splits
      intro: sign_input_key_opens sign_input_xkey_opens elim!: res_fold_opens [rotated])

lemma software_opens:
  assumes "sign_transaction B C H (Software sec ctx) p opts = Ok p'" "list_all sig_maps_wf (inputs p)"
  shows "signs_open p p'"
  using assms by (auto intro: res_fold_opens sign_input_software_opens)

text \<open>An external signer is some function; software signers are the ones of this crate.\<close>

definition signer_only_adds :: "('k, 'x) signer \<Rightarrow> bool" where
  "signer_only_adds s \<longleftrightarrow> (\<forall>i f p opts p'. s = ExternalSigner i f \<longrightarrow> f p opts = Ok p' \<longrightarrow>
     list_all sig_maps_wf (inputs p) \<longrightarrow> adds_sigs p p')"

lemma software_only_adds [simp]: "signer_only_adds (Software sec ctx)"
  by (simp add: signer_only_adds_def)

lemma sign_transaction_adds:
  assumes "signer_only_adds s" "sign_transaction B C H s p opts = Ok p'" "list_all sig_maps_wf (inputs p)"
  shows "adds_sigs p p'"
proof (cases s)
  case (Software sec ctx)
  then show ?thesis
    using software_opens [of B C H sec ctx p opts p'] assms(2,3) by (simp add: signs_open_def)
next
  case (ExternalSigner i f)
  then show ?thesis
    using assms by (auto simp: signer_only_adds_def)
qed

lemma sign_with_signers_Ok:
  assumes "sign_with_signers B C H V A w opts containers p = Ok (finalized, p')"
  obtains q r where "update_psbt_with_descriptor B A w p = Ok q"
    "trust_witness_utxo opts \<or> \<not> list_ex lacks_non_witness_utxo (inputs q)"
    "allow_all_sighashes opts \<or> list_all standard_sighash (inputs q)"
    "res_fold (\<lambda>p signer. sign_transaction B C H signer p opts) q (concat (map signers_list containers)) = Ok r"
    "if try_finalize opts then finalize_psbt B V A w opts r = Ok (finalized, p') else finalized = False \<and> p' = r"
  using assms by (auto simp: sign_with_signers_def res_simps split: if_splits)

text \<open>C28: signing with a wallet's signers only adds signatures. When signing without finalization
  succeeds, the PSBT is the one with the descriptors' metadata, with signatures added: no signature
  is removed or replaced, and no other field of any input, the transaction, or the outputs differ.
  The signers of this crate satisfy the hypothesis on signers.\<close>

theorem wallet_signing_only_adds:
  assumes "sign_with_signers B C H V A w opts containers p = Ok (finalized, p')"
    and "\<not> try_finalize opts"
    and "\<forall>c \<in> set containers. \<forall>s \<in> set (signers_list c). signer_only_adds s"
    and "update_psbt_with_descriptor B A w p = Ok q" and "list_all sig_maps_wf (inputs q)"
  shows "\<not> finalized \<and> p' = q\<lparr>inputs := inputs p'\<rparr> \<and> list_all2 only_sigs (inputs q) (inputs p')"
  using assms(1)
proof (cases rule: sign_with_signers_Ok)
  case (1 q' r)
  then have "res_fold (\<lambda>p signer. sign_transaction B C H signer p opts) q (concat (map signers_list containers)) = Ok p'"
    using assms(2,4) by simp
  then have "adds_sigs q p'"
    by (rule res_fold_adds [rotated]) (use assms(3,5) in \<open>auto intro: sign_transaction_adds\<close>)
  then show ?thesis
    using 1(5) assms(2) by (simp add: adds_sigs_def)
qed


subsection \<open>Finalizing\<close>

text \<open>What is reported of an input and what becomes of it. \<open>q\<close> is the PSBT when it is the input's turn:
  the inputs before it are already finalized.\<close>

definition input_fate where
  "input_fate B V A w t q n before after out \<longleftrightarrow>
     (out = AlreadyFinalized \<longleftrightarrow> is_finalized_input before) \<and> (out \<noteq> Finalized \<longrightarrow> after = before) \<and>
     (out = MissingDescriptor \<longrightarrow> descriptor_for_input B V A w q n before = (Ok None :: (index_out_of_bounds, _) res)) \<and>
     (\<forall>e. out = CouldNotSatisfy e \<longrightarrow> (\<exists>d. dv_satisfy V d q n t = Err e \<and>
        descriptor_for_input B V A w q n before = (Ok (Some d) :: (index_out_of_bounds, _) res))) \<and>
     (out = Finalized \<longrightarrow> (\<exists>d sig wit. dv_satisfy V d q n t = Ok (sig, wit) \<and>
        descriptor_for_input B V A w q n before = (Ok (Some d) :: (index_out_of_bounds, _) res) \<and>
        after = finalized_input before sig wit))"

text \<open>The state of the loop after the first \<open>k\<close> inputs: what is reported, and what has changed.\<close>

definition turn_of :: "psbt \<Rightarrow> psbt_input list \<Rightarrow> nat \<Rightarrow> psbt" where
  "turn_of p done n = p\<lparr>inputs := take n done @ drop n (inputs p)\<rparr>"

definition finalizing where
  "finalizing B V A w h ch p k s \<longleftrightarrow> fst s = p\<lparr>inputs := inputs (fst s)\<rparr> \<and>
     length (inputs (fst s)) = length (inputs p) \<and> bt_wf (snd s) \<and>
     (\<forall>n. k \<le> n \<longrightarrow> bt_get (snd s) n = None \<and> inputs (fst s) ! n = inputs p ! n) \<and>
     (\<forall>n < k. \<exists>out. bt_get (snd s) n = Some out \<and>
        input_fate B V A w (lock_tests_for B h (ch (tx_input (unsigned_tx p) ! n))) (turn_of p (inputs (fst s)) n) n
          (inputs p ! n) (inputs (fst s) ! n) out)"

lemma finalize_one_cases:
  assumes "finalize_one B V A w h ch p n = Ok (p', out)"
  obtains (final) "n < length (inputs p)" "is_finalized_input (inputs p ! n)" "p' = p" "out = AlreadyFinalized"
  | (missing) "n < length (inputs p)" "\<not> is_finalized_input (inputs p ! n)" "p' = p" "out = MissingDescriptor"
      "descriptor_for_input B V A w p n (inputs p ! n) = (Ok None :: (index_out_of_bounds, _) res)"
  | (satisfied) d sig wit where "n < length (inputs p)" "\<not> is_finalized_input (inputs p ! n)" "out = Finalized"
      "dv_satisfy V d p n (lock_tests_for B h (ch (tx_input (unsigned_tx p) ! n))) = Ok (sig, wit)"
      "descriptor_for_input B V A w p n (inputs p ! n) = (Ok (Some d) :: (index_out_of_bounds, _) res)"
      "p' = set_input p n (finalized_input (inputs p ! n) sig wit)"
  | (failed) d e where "n < length (inputs p)" "\<not> is_finalized_input (inputs p ! n)" "p' = p" "out = CouldNotSatisfy e"
      "dv_satisfy V d p n (lock_tests_for B h (ch (tx_input (unsigned_tx p) ! n))) = Err e"
      "descriptor_for_input B V A w p n (inputs p ! n) = (Ok (Some d) :: (index_out_of_bounds, _) res)"
proof -
  have "get_nth (inputs p) n \<noteq> None"
    by (rule notI) (use assms in \<open>simp add: finalize_one_def\<close>)
  then have n: "n < length (inputs p)" "get_nth (inputs p) n = Some (inputs p ! n)"
    by (metis get_nth_None_iff not_le, metis get_nth_None_iff get_nth_Some_iff not_le)
  show thesis
  proof (cases "is_finalized_input (inputs p ! n)")
    case True
    show thesis by (rule final) (use assms n True in \<open>simp_all add: finalize_one_def\<close>)
  next
    case False
    with assms obtain desc where d: "descriptor_for_input B V A w p n (inputs p ! n) = (Ok desc :: (index_out_of_bounds, _) res)"
      by (auto simp: finalize_one_def res_simps n(2))
    show thesis
    proof (cases desc)
      case None
      show thesis by (rule missing) (use assms n False d None in \<open>simp_all add: finalize_one_def\<close>)
    next
      case (Some dd)
      note run = assms [unfolded finalize_one_def n(2)]
      show thesis
      proof (cases "dv_satisfy V dd p n (lock_tests_for B h (ch (tx_input (unsigned_tx p) ! n)))")
        case (Ok sw)
        obtain sig wit where "sw = (sig, wit)" by (cases sw)
        then show thesis
          by (intro satisfied [of dd sig wit]) (use run n False d Some Ok in simp_all)
      next
        case (Err e)
        show thesis by (rule failed [of e dd]) (use run n False d Some Err in simp_all)
      next
        case Panic
        then show thesis using run False d Some by simp
      qed
    qed
  qed
qed

lemma finalize_one_fate:
  assumes "finalize_one B V A w h ch p n = Ok (p', out)"
  shows "n < length (inputs p)" "p' = set_input p n (inputs p' ! n)"
    "input_fate B V A w (lock_tests_for B h (ch (tx_input (unsigned_tx p) ! n))) p n (inputs p ! n) (inputs p' ! n) out"
proof -
  have same: "set_input p n (inputs p ! n) = p"
    by (simp add: set_input_def)
  show n: "n < length (inputs p)"
    using assms by (cases rule: finalize_one_cases)
  show "p' = set_input p n (inputs p' ! n)"
    using assms by (cases rule: finalize_one_cases) (simp_all add: same n)
  show "input_fate B V A w (lock_tests_for B h (ch (tx_input (unsigned_tx p) ! n))) p n (inputs p ! n) (inputs p' ! n) out"
    using assms by (cases rule: finalize_one_cases) (auto simp: input_fate_def)
qed

lemma turn_of_self:
  assumes "q = p\<lparr>inputs := inputs q\<rparr>" and "length (inputs q) = length (inputs p)"
    and "\<forall>n. k \<le> n \<longrightarrow> inputs q ! n = inputs p ! n"
  shows "turn_of p (inputs q) k = q"
proof -
  have "drop k (inputs q) = drop k (inputs p)"
    using assms(2,3) by (intro nth_equalityI) simp_all
  then have "take k (inputs q) @ drop k (inputs p) = inputs q"
    by (metis append_take_drop_id)
  then show ?thesis
    using assms(1) by (simp add: turn_of_def)
qed

lemma finalizing_step:
  assumes "finalizing B V A w h ch p k (q, outs)" "finalize_one B V A w h ch q k = Ok (q', out)"
  shows "finalizing B V A w h ch p (Suc k) (q', bt_insert k out outs)"
proof -
  have q: "q = p\<lparr>inputs := inputs q\<rparr>" "length (inputs q) = length (inputs p)" "bt_wf outs"
    "\<forall>n. k \<le> n \<longrightarrow> bt_get outs n = None \<and> inputs q ! n = inputs p ! n"
    using assms(1) by (simp_all add: finalizing_def)
  note one = finalize_one_fate [OF assms(2)]
  define x where "x = inputs q' ! k"
  have q': "q' = set_input q k x"
    using one(2) by (simp add: x_def)
  have self: "turn_of p (inputs q) k = q"
    by (rule turn_of_self) (use q in simp_all)
  have tx: "unsigned_tx q = unsigned_tx p" "inputs q ! k = inputs p ! k"
    using q(1,4) by (cases p; cases q; simp)+
  have turn: "turn_of p (inputs q') n = turn_of p (inputs q) n" if "n \<le> k" for n
    using that by (simp add: q' turn_of_def set_input_def take_update_cancel)
  have "\<exists>o'. bt_get (bt_insert k out outs) n = Some o' \<and>
      input_fate B V A w (lock_tests_for B h (ch (tx_input (unsigned_tx p) ! n))) (turn_of p (inputs q') n) n
        (inputs p ! n) (inputs q' ! n) o'" if "n < Suc k" for n
  proof (cases "n = k")
    case True
    then show ?thesis
      using one(3) turn [of k] q(3) by (simp add: self tx bt_simps)
  next
    case False
    with that have "n < k" by simp
    then show ?thesis
      using assms(1) turn [of n] q(3) by (simp add: finalizing_def q' bt_simps)
  qed
  moreover have "q' = p\<lparr>inputs := inputs q'\<rparr>"
    using q(1) by (cases p; cases q) (simp add: q' set_input_def)
  ultimately show ?thesis
    using q by (simp add: finalizing_def q' bt_simps)
qed

lemma finalizing_loop:
  assumes "res_fold (\<lambda>(p, outcomes) n.
         res_bind (finalize_one B V A w h ch p n) (\<lambda>(p, outcome). Ok (p, bt_insert n outcome outcomes)))
       (p, []) [0..<k] = Ok s"
  shows "finalizing B V A w h ch p k s"
  using assms
proof (induction k arbitrary: s)
  case 0
  then have "s = (p, [])" by simp
  then show ?case by (simp add: finalizing_def bt_simps)
next
  case (Suc k)
  from Suc.prems obtain q outs q' out where
    "res_fold (\<lambda>(p, outcomes) n.
         res_bind (finalize_one B V A w h ch p n) (\<lambda>(p, outcome). Ok (p, bt_insert n outcome outcomes)))
       (p, []) [0..<k] = Ok (q, outs)"
    "finalize_one B V A w h ch q k = Ok (q', out)" "s = (q', bt_insert k out outs)"
    by (auto simp: res_fold_append res_simps)
  then show ?case
    using Suc.IH finalizing_step by blast
qed

lemma try_finalize_Ok:
  assumes "try_finalize_psbt_with B V A w h ch clr p = Ok (outs, p')"
  obtains q where "length (tx_input (unsigned_tx p)) \<le> length (inputs p)"
    "finalizing B V A w h ch p (length (tx_input (unsigned_tx p))) (q, outs)"
    "p' = (if clr \<and> psbt_is_finalized outs then q\<lparr>outputs := map clear_derivations (outputs q)\<rparr> else q)"
  using assms by (auto simp: try_finalize_psbt_with_def res_simps Let_def not_less dest: finalizing_loop)

text \<open>C27: finalization reports every input and changes only what it finalizes. There is exactly one
  outcome per input of the transaction; an input is reported as already final exactly if it had a
  final script or a final witness; one without a descriptor, and one that its descriptor could not
  satisfy, are reported as such; and an input that is not finalized by the call is unchanged. One
  that is finalized has the script and the witness with which the descriptor found for it satisfies
  this very input under its lock time tests (in the PSBT in which the inputs before it are
  finalized already); it keeps the outputs it spends and its proprietary and unknown fields, and
  loses its signatures, scripts, key origins and sighash type. The transaction is untouched, and
  the outputs lose their derivations only when asked to and when every input is final.\<close>

theorem finalize_reports_and_keeps:
  assumes "try_finalize_psbt_with B V A w h ch clr p = Ok (outs, p')"
  shows "unsigned_tx p' = unsigned_tx p \<and> length (inputs p') = length (inputs p) \<and>
    (\<forall>n. bt_get outs n \<noteq> None \<longleftrightarrow> n < length (tx_input (unsigned_tx p))) \<and>
    (\<forall>n out. bt_get outs n = Some out \<longrightarrow>
      (let old = inputs p ! n; new = inputs p' ! n; q = p\<lparr>inputs := take n (inputs p') @ drop n (inputs p)\<rparr>;
           tests = lock_tests_for B h (ch (tx_input (unsigned_tx p) ! n));
           described = (\<lambda>d. descriptor_for_input B V A w q n old = (Ok d :: (index_out_of_bounds, _) res)) in
       (out = AlreadyFinalized \<longleftrightarrow> final_script_sig old \<noteq> None \<or> final_script_witness old \<noteq> None) \<and>
       (out \<noteq> Finalized \<longrightarrow> new = old) \<and>
       (out = MissingDescriptor \<longrightarrow> described None) \<and>
       (\<forall>e. out = CouldNotSatisfy e \<longrightarrow> (\<exists>d. described (Some d) \<and> dv_satisfy V d q n tests = Err e)) \<and>
       (out = Finalized \<longrightarrow> (\<exists>d sig wit. described (Some d) \<and> dv_satisfy V d q n tests = Ok (sig, wit) \<and>
          final_script_sig new = (if sig = [] then None else Some sig) \<and>
          final_script_witness new = (if wit = [] then None else Some wit)) \<and>
          non_witness_utxo new = non_witness_utxo old \<and> witness_utxo new = witness_utxo old \<and>
          proprietary new = proprietary old \<and> unknown new = unknown old \<and>
          partial_sigs new = [] \<and> sighash_type new = None \<and> redeem_script new = None \<and>
          witness_script new = None \<and> bip32_derivation new = [] \<and> tap_key_sig new = None \<and>
          tap_script_sigs new = [] \<and> tap_key_origins new = [] \<and> tap_internal_key new = None \<and>
          tap_merkle_root new = None))) \<and>
    outputs p' = (if clr \<and> psbt_is_finalized outs then map clear_derivations (outputs p) else outputs p)"
proof -
  let ?k = "length (tx_input (unsigned_tx p))"
  from assms obtain q where q: "finalizing B V A w h ch p ?k (q, outs)"
    "p' = (if clr \<and> psbt_is_finalized outs then q\<lparr>outputs := map clear_derivations (outputs q)\<rparr> else q)"
    by (rule try_finalize_Ok)
  have "q = p\<lparr>inputs := inputs q\<rparr>" "length (inputs q) = length (inputs p)"
    using q(1) by (simp_all add: finalizing_def)
  then have same: "unsigned_tx q = unsigned_tx p" "outputs q = outputs p" "length (inputs q) = length (inputs p)"
    by (cases p; cases q; simp)+
  have p': "inputs p' = inputs q" "unsigned_tx p' = unsigned_tx p"
    "outputs p' = (if clr \<and> psbt_is_finalized outs then map clear_derivations (outputs p) else outputs p)"
    using q(2) same by simp_all
  have upto: "bt_get outs n \<noteq> None \<longleftrightarrow> n < ?k" for n
    using q(1) by (cases "n < ?k") (auto simp: finalizing_def)
  have fate: "input_fate B V A w (lock_tests_for B h (ch (tx_input (unsigned_tx p) ! n)))
      (p\<lparr>inputs := take n (inputs p') @ drop n (inputs p)\<rparr>) n (inputs p ! n) (inputs p' ! n) out"
    if "bt_get outs n = Some out" for n out
    using q(1) upto [of n] that by (auto simp: finalizing_def p'(1) turn_of_def)
  show ?thesis
    by (intro conjI allI impI; (unfold Let_def)?;
        (drule fate; fastforce simp: input_fate_def finalized_input_def psbt_input_default_def is_finalized_input_def)?)
      (use upto same(3) p' in auto)
qed

text \<open>A satisfaction has a script or a witness.\<close>

definition satisfies_visibly where
  "satisfies_visibly V \<longleftrightarrow> (\<forall>d q i t sig wit. dv_satisfy V d q i t = Ok (sig, wit) \<longrightarrow> sig \<noteq> [] \<or> wit \<noteq> [])"

lemma finalized_input_final: "sig \<noteq> [] \<or> wit \<noteq> [] \<Longrightarrow> is_finalized_input (finalized_input inp sig wit)"
  by (auto simp: is_finalized_input_def finalized_input_def)

lemma bt_values_all: "list_all P (bt_values m) \<Longrightarrow> bt_get m k = Some v \<Longrightarrow> P v"
  by (force simp: bt_get_def list_all_iff dest: map_of_SomeD)

lemma all_finalized:
  assumes "satisfies_visibly V" and "try_finalize_psbt_with B V A w h ch clr p = Ok (outs, p')"
    and "psbt_is_finalized outs"
  shows "unsigned_tx p' = unsigned_tx p"
    "\<forall>n < length (tx_input (unsigned_tx p)). is_finalized_input (inputs p' ! n)"
proof -
  let ?k = "length (tx_input (unsigned_tx p))"
  from assms(2) obtain q where q: "finalizing B V A w h ch p ?k (q, outs)"
    "p' = (if clr \<and> psbt_is_finalized outs then q\<lparr>outputs := map clear_derivations (outputs q)\<rparr> else q)"
    by (rule try_finalize_Ok)
  have "q = p\<lparr>inputs := inputs q\<rparr>"
    using q(1) by (simp add: finalizing_def)
  then have "unsigned_tx q = unsigned_tx p"
    by (cases p; cases q; simp)
  then show "unsigned_tx p' = unsigned_tx p"
    using q(2) by simp
  have p': "inputs p' = inputs q"
    using q(2) by simp
  show "\<forall>n < ?k. is_finalized_input (inputs p' ! n)"
  proof (intro allI impI)
    fix n assume "n < ?k"
    then obtain out t r where out: "bt_get outs n = Some out"
      "input_fate B V A w t r n (inputs p ! n) (inputs q ! n) out"
      using q(1) by (auto simp: finalizing_def)
    have "input_is_finalized out"
      by (rule bt_values_all [OF _ out(1)]) (use assms(3) in \<open>simp add: psbt_is_finalized_def\<close>)
    then consider "out = AlreadyFinalized" | "out = Finalized"
      by (cases out) simp_all
    then show "is_finalized_input (inputs p' ! n)"
    proof cases
      case 1
      then show ?thesis using out(2) p' by (auto simp: input_fate_def)
    next
      case 2
      then obtain d r i t sig wit where "dv_satisfy V d r i t = Ok (sig, wit)"
        "inputs q ! n = finalized_input (inputs p ! n) sig wit"
        using out(2) 2 by (auto simp: input_fate_def)
      then show ?thesis
        using assms(1) p' unfolding satisfies_visibly_def by (metis finalized_input_final)
    qed
  qed
qed

text \<open>C26: when a wallet answers that a PSBT is finalized, it is. If signing returns true, and a
  satisfaction always has a script or a witness, every input of the transaction has a final script
  or a final witness; and false is the answer whenever finalization was not asked for.\<close>

theorem signed_means_final:
  assumes "sign_with_signers B C H V A w opts containers p = Ok (finalized, p')"
    and "satisfies_visibly V"
  shows "(finalized \<longrightarrow> try_finalize opts \<and>
      (\<forall>n < length (tx_input (unsigned_tx p')). is_finalized_input (inputs p' ! n)))"
proof
  assume finalized
  from assms(1) show "try_finalize opts \<and>
      (\<forall>n < length (tx_input (unsigned_tx p')). is_finalized_input (inputs p' ! n))"
  proof (cases rule: sign_with_signers_Ok)
    case (1 q r)
    then have "try_finalize opts" "finalize_psbt B V A w opts r = Ok (finalized, p')"
      using \<open>finalized\<close> by (simp_all split: if_splits)
    then obtain h ch outs where "try_finalize_psbt_with B V A w h ch True r = Ok (outs, p')" "psbt_is_finalized outs"
      using \<open>finalized\<close> by (auto simp: finalize_psbt_def res_simps Let_def)
    then show ?thesis
      using all_finalized [OF assms(2)] \<open>try_finalize opts\<close> by metis
  qed
qed

subsection \<open>Confirmation heights\<close>

lemma find_map_of:
  "map_of (map (\<lambda>c. (k c, f c)) (filter (\<lambda>c. P (k c)) xs)) x = (if P x then map_option f (find (\<lambda>c. k c = x) xs) else None)"
  by (induction xs) auto

lemma filter_within:
  assumes "distinct (map k xs)"
  shows "length (filter (\<lambda>c. k c \<in> set ys) xs) \<le> length (remdups ys)"
proof -
  have "length (filter (\<lambda>c. k c \<in> set ys) xs) = card (k ` set (filter (\<lambda>c. k c \<in> set ys) xs))"
    using distinct_card [OF distinct_map_filter [OF assms, of "\<lambda>c. k c \<in> set ys"]] by simp
  also have "\<dots> \<le> card (set ys)"
    by (rule card_mono) auto
  finally show ?thesis
    by (simp add: length_remdups_card_conv)
qed

definition height_of_pos :: "chain_position \<Rightarrow> u32" where
  "height_of_pos pos = (case pos of Confirmed a _ \<Rightarrow> bid_height (cbt_block a) | Unconfirmed _ _ \<Rightarrow> - 1)"

lemma confirmation_heights_eq:
  assumes "distinct (map ct_txid txs)"
  shows "confirmation_heights txs prev txid = (if txid \<in> set prev
    then map_option (\<lambda>c. height_of_pos (ct_pos c)) (find (\<lambda>c. ct_txid c = txid) txs) else None)"
proof -
  let ?l = "filter (\<lambda>c. ct_txid c \<in> set prev) txs"
  let ?m = "map (\<lambda>c. (ct_txid c, height_of_pos (ct_pos c))) ?l"
  have "take (length (remdups prev)) ?l = ?l"
    using filter_within [OF assms, of prev] by simp
  moreover have "map_of (rev ?m) = map_of ?m"
    by (rule map_of_rev_distinct) (use assms in \<open>simp add: distinct_map_filter comp_def\<close>)
  ultimately have "confirmation_heights txs prev txid = map_of ?m txid"
    by (simp add: confirmation_heights_def height_of_pos_def)
  then show ?thesis
    by (simp add: find_map_of [of ct_txid "\<lambda>c. height_of_pos (ct_pos c)" "\<lambda>x. x \<in> set prev"])
qed

text \<open>The early end of the search for confirmation heights loses nothing. When no two
  transactions of the canonical view have the same id, the heights that \<open>finalize_psbt\<close> uses are,
  for every transaction an input spends from, the height of its block in the view, the largest
  height when it is unconfirmed, and no height when it is not in the view.\<close>

lemma confirmation_heights_exact:
  assumes "distinct (map ct_txid txs)" and "txid \<in> set prev"
  shows "confirmation_heights txs prev txid = (case find (\<lambda>c. ct_txid c = txid) txs of
      None \<Rightarrow> None
    | Some c \<Rightarrow> (case ct_pos c of Confirmed a _ \<Rightarrow> Some (bid_height (cbt_block a)) | Unconfirmed _ _ \<Rightarrow> Some (2 ^ 32 - 1)))"
  using assms
  by (simp add: confirmation_heights_eq height_of_pos_def split: option.split chain_position.split)

text \<open>A relative lock time over an unconfirmed output makes the test of relative lock times panic, when
  a satisfaction gets as far as asking it. The height that stands for "unconfirmed" is the largest
  one, and the test of a relative lock time other than zero adds the lock time to it, which has no
  room for the sum.\<close>

lemma unconfirmed_relative_lock_panics:
  assumes "find (\<lambda>c. ct_txid c = txid) txs = Some c" and "ct_pos c = Unconfirmed fs ls"
    and "distinct (map ct_txid txs)" and "txid \<in> set prev" and "rel_consensus B lock \<noteq> 0"
  shows "\<exists>tests. lock_tests_for B (Some h) (confirmation_heights txs prev txid) = Some tests \<and>
    snd tests lock = Panic"
proof -
  have "0 < unat (rel_consensus B lock)"
    using assms(5) by (simp add: unat_gt_0)
  then have "u32_checked_add (- 1) (rel_consensus B lock) = None"
    by (simp add: res_simps unsigned_minus_1_eq_mask mask_eq_exp_minus_1)
  then have "check_older B (older_new (Some h) (Some (- 1)) False) lock = (Panic :: (unit, bool) res)"
    by (simp add: check_older_def older_new_def)
  then show ?thesis
    using assms(1-4) by (simp add: confirmation_heights_eq height_of_pos_def lock_tests_for_def)
qed

end
