(* ===== verification/Example_Sign.thy ===== *)
theory Example_Sign
  imports Sign_Facts Example_Wallet
begin

section \<open>Signing and finalizing with the concrete wallet\<close>

text \<open>
  The theorems of \<open>Sign_Facts\<close> applied to the wallet of \<open>Example_Wallet\<close>: a PSBT that spends one of
  its outputs, a key that signs it, and a descriptor that is satisfied by one witness element.
\<close>

definition example_derive :: "(nat, nat \<times> u32) derive_api" where
  "example_derive = \<lparr>dv_fingerprint = (\<lambda>x. 0), dv_matches = (\<lambda>x s. None), dv_pub = (\<lambda>x path. None),
     dv_xonly = (\<lambda>k. k), dv_type = (\<lambda>d. TyWpkh), dv_spk = (\<lambda>d. [1, 1]), dv_explicit_script = (\<lambda>d. None),
     dv_satisfy = (\<lambda>d p n t. Ok ([], [[7]]))\<rparr>"

definition example_input :: psbt_input where
  "example_input = psbt_input_default\<lparr>witness_utxo := Some \<lparr>txo_value = 9000, txo_script = [1, 1]\<rparr>\<rparr>"

definition spending_psbt :: psbt where
  "spending_psbt = (psbt_from_unsigned_tx (example_tx 5 [OutPoint 7 0] [8000]))\<lparr>inputs := [example_input]\<rparr>"

definition spent_psbt :: psbt where
  "spent_psbt = spending_psbt\<lparr>inputs := [finalized_input example_input [] [[7]]],
     outputs := map clear_derivations (outputs spending_psbt)\<rparr>"

definition example_options :: sign_options where
  "example_options = sign_options_default\<lparr>trust_witness_utxo := True\<rparr>"

definition example_hd :: "(nat, nat) hd_keys" where
  "example_hd = \<lparr>xkey_fingerprint = (\<lambda>x. 0), xkey_matches = (\<lambda>x s. False), derive_priv = (\<lambda>x p. None)\<rparr>"

definition example_signers :: "(nat, nat) signer signers_container" where
  "example_signers = [(ContainerKey (PkHash 3) 0, Software (SecSingle 3) Segwitv0)]"

lemma example_satisfies: "satisfies_visibly example_derive"
  by (simp add: satisfies_visibly_def example_derive_def)

lemma spending_updated:
  "update_psbt_with_descriptor btc_example example_api example_wallet spending_psbt = Ok spending_psbt"
  by (simp add: update_psbt_with_descriptor_def spending_psbt_def psbt_from_unsigned_tx_def example_tx_def
      example_input_def psbt_input_default_def get_utxo_for_def get_nth_def update_one_def public_descriptor_def
      map_keychain_def example_keychains example_defs enumerate_eq_zip List.map_filter_simps split: if_splits)

lemmas sign_run = sign_with_signers_def spending_updated fail_if_def signers_list_def

lemma example_finalize:
  "try_finalize_psbt_with btc_example example_derive example_api example_wallet (Some 200) ch True spending_psbt
     = Ok ([(0, Finalized)], spent_psbt)"
  by (simp add: try_finalize_psbt_with_def spending_psbt_def spent_psbt_def psbt_from_unsigned_tx_def
      example_tx_def finalize_one_def descriptor_for_input_def example_input_def psbt_input_default_def
      get_utxo_for_def get_nth_def is_finalized_input_def get_descriptor_for_txout_def public_descriptor_def
      map_keychain_def example_keychains example_defs example_derive_def set_input_def psbt_is_finalized_def
      fail_if_def Let_def)

lemma example_tip: "bid_height (ca_tip (cha example_api) (w_chain example_wallet)) = 200"
  by (simp add: example_defs)

lemma example_finalize_psbt:
  "finalize_psbt btc_example example_derive example_api example_wallet example_options spending_psbt
     = Ok (True, spent_psbt)"
  by (simp add: finalize_psbt_def example_options_def sign_options_default_def example_tip example_finalize
      psbt_is_finalized_def)

lemma example_standard: "list_all standard_sighash (inputs spending_psbt)"
  by (simp add: standard_sighash_def spending_psbt_def example_input_def psbt_input_default_def)

lemma example_sign_final:
  "sign_with_signers btc_example example_crypto example_hd example_derive example_api example_wallet example_options
     [signers_new :: (nat, nat) signer signers_container] spending_psbt = Ok (True, spent_psbt)"
  by (simp add: sign_run signers_new_def example_finalize_psbt example_standard)
    (simp add: example_options_def sign_options_default_def)

theorem finalize_reports_and_keeps_witness:
  "unsigned_tx spent_psbt = unsigned_tx spending_psbt \<and>
   outputs spent_psbt = map clear_derivations (outputs spending_psbt) \<and>
   witness_utxo (inputs spent_psbt ! 0) = witness_utxo (inputs spending_psbt ! 0) \<and>
   (\<exists>d sig wit. dv_satisfy example_derive d spending_psbt 0
       (lock_tests_for btc_example (Some 200) None) = Ok (sig, wit) \<and>
     final_script_witness (inputs spent_psbt ! 0) = (if wit = [] then None else Some wit))"
proof -
  note run = finalize_reports_and_keeps [OF example_finalize [of "\<lambda>_. None"]]
  have first: "bt_get [(0 :: nat, Finalized :: nat finalize_input_outcome)] 0 = Some Finalized"
    by (simp add: bt_get_def)
  have turn: "spending_psbt\<lparr>inputs := take 0 (inputs spent_psbt) @ drop 0 (inputs spending_psbt)\<rparr> = spending_psbt"
    by simp
  note fate = run [THEN conjunct2, THEN conjunct2, THEN conjunct2, THEN conjunct1, rule_format, OF first,
      unfolded Let_def turn]
  have "outputs spent_psbt = map clear_derivations (outputs spending_psbt)"
    using run [THEN conjunct2, THEN conjunct2, THEN conjunct2, THEN conjunct2] by (simp add: psbt_is_finalized_def)
  then show ?thesis
    using conjunct1 [OF run] fate by blast
qed

theorem signed_means_final_witness:
  "list_all (\<lambda>n. is_finalized_input (inputs spent_psbt ! n)) [0..<length (tx_input (unsigned_tx spent_psbt))]"
  using signed_means_final [OF example_sign_final example_satisfies] by (auto simp: list_all_iff)

lemma example_software:
  "\<forall>c \<in> set [example_signers]. \<forall>s \<in> set (signers_list c). \<exists>sec ctx. s = Software sec ctx"
  "list_all sig_maps_wf (inputs spending_psbt)"
  by (simp_all add: example_signers_def signers_list_def spending_psbt_def example_input_def
      psbt_input_default_def sig_maps_wf_def bt_wf_Nil)


lemma example_only_signs:
  "\<exists>p'. sign_with_signers btc_example example_crypto example_hd example_derive example_api example_wallet
     (example_options\<lparr>try_finalize := False\<rparr>) [example_signers] spending_psbt = Ok (False, p')"
  by (simp add: sign_run example_signers_def example_options_def example_standard)
    (simp add: spending_psbt_def sign_input_software_def sign_eval example_input_def)

theorem wallet_signing_only_adds_witness:
  "\<exists>p'. sign_with_signers btc_example example_crypto example_hd example_derive example_api example_wallet
     (example_options\<lparr>try_finalize := False\<rparr>) [example_signers] spending_psbt = Ok (False, p') \<and>
     list_all2 only_sigs (inputs spending_psbt) (inputs p')"
proof -
  obtain p' where p': "sign_with_signers btc_example example_crypto example_hd example_derive example_api example_wallet
     (example_options\<lparr>try_finalize := False\<rparr>) [example_signers] spending_psbt = Ok (False, p')"
    using example_only_signs by blast
  have "\<not> try_finalize (example_options\<lparr>try_finalize := False\<rparr>)"
    "\<forall>c \<in> set [example_signers]. \<forall>s \<in> set (signers_list c). signer_only_adds s"
    "list_all sig_maps_wf (inputs spending_psbt)"
    by (simp_all add: example_signers_def signers_list_def spending_psbt_def example_input_def
        psbt_input_default_def sig_maps_wf_def bt_wf_Nil)
  from wallet_signing_only_adds [OF p' this(1,2) spending_updated this(3)] p' show ?thesis
    by blast
qed

definition example_canon :: "canon_tx list" where
  "example_canon = [\<lparr>ct_txid = 7, ct_tx = example_tx 7 [] [50], ct_pos = Unconfirmed None (Some 3)\<rparr>]"

lemma confirmation_heights_exact_witness:
  "confirmation_heights example_canon [7, 7] 7 = Some (2 ^ 32 - 1)"
  using confirmation_heights_exact [of example_canon 7 "[7, 7]"] by (simp add: example_canon_def)

lemma unconfirmed_relative_lock_panics_witness:
  "\<exists>tests. lock_tests_for btc_example (Some 200) (confirmation_heights example_canon [7] 7) = Some tests \<and>
     snd tests (RelBlocks 6) = Panic"
  by (rule unconfirmed_relative_lock_panics [of 7 example_canon "hd example_canon" None "Some 3"])
    (simp_all add: example_canon_def btc_example_def)

end
