(* ===== verification/Events.thy ===== *)
theory Events
  imports Wallet_State
begin

section \<open>Wallet events (src/wallet/event.rs)\<close>

text \<open>
  \<open>WalletEvent\<close>, \<open>wallet_events\<close>, which compares the chain tip and the wallet's transactions before
  and after an operation, and the operations of src/wallet/mod.rs that return events. The conflicts
  of a transaction are those of the transaction graph (\<open>direct_conflicts\<close>), an argument. The debug
  assertion that a transaction has the id it is listed under is not modelled. The events are shown
  to be a complete difference: applied to the old confirmation states they give the new ones.
\<close>

datatype wallet_event =
  ChainTipChanged (old_tip: block_id) (new_tip: block_id)
| TxConfirmed txid transaction conf_block_time "conf_block_time option"
| TxUnconfirmed txid transaction "conf_block_time option"
| TxReplaced txid transaction "(nat \<times> txid) list"
| TxDropped txid transaction

type_synonym tx_map = "(txid, transaction \<times> chain_position) btree"

text \<open>The events of one transaction that is in the wallet after the operation.\<close>

definition status_events :: "tx_map \<Rightarrow> txid \<times> transaction \<times> chain_position \<Rightarrow> wallet_event list" where
  "status_events wallet_txs1 e =
     (case e of (txid2, (tx2, pos2)) \<Rightarrow>
      (case bt_get wallet_txs1 txid2 of
         Some (tx1, pos1) \<Rightarrow>
           (case (pos1, pos2) of
              (Unconfirmed _ _, Confirmed a _) \<Rightarrow> [TxConfirmed txid2 tx2 a None]
            | (Confirmed a _, Unconfirmed _ _) \<Rightarrow> [TxUnconfirmed txid2 tx2 (Some a)]
            | (Confirmed a1 _, Confirmed a2 _) \<Rightarrow>
                (if a1 \<noteq> a2 then [TxConfirmed txid2 tx2 a2 (Some a1)] else [])
            | (Unconfirmed _ _, Unconfirmed _ _) \<Rightarrow> [])
       | None \<Rightarrow>
           (case pos2 of
              Confirmed a _ \<Rightarrow> [TxConfirmed txid2 tx2 a None]
            | Unconfirmed _ _ \<Rightarrow> [TxUnconfirmed txid2 tx2 None])))"

text \<open>The events of one transaction that was in the wallet before it.\<close>

definition gone_events :: "(transaction \<Rightarrow> (nat \<times> txid) list) \<Rightarrow> tx_map
    \<Rightarrow> txid \<times> transaction \<times> chain_position \<Rightarrow> wallet_event list" where
  "gone_events direct_conflicts wallet_txs2 e =
     (case e of (txid1, (tx1, _)) \<Rightarrow>
      (if bt_get wallet_txs2 txid1 = None then
         (let conflicts = direct_conflicts tx1 in
          if conflicts \<noteq> [] then [TxReplaced txid1 tx1 conflicts] else [TxDropped txid1 tx1])
       else []))"

definition wallet_events :: "(transaction \<Rightarrow> (nat \<times> txid) list) \<Rightarrow> block_id \<Rightarrow> block_id \<Rightarrow> tx_map \<Rightarrow> tx_map
    \<Rightarrow> wallet_event list" where
  "wallet_events direct_conflicts chain_tip1 chain_tip2 wallet_txs1 wallet_txs2 =
     (if chain_tip1 \<noteq> chain_tip2 then [ChainTipChanged chain_tip1 chain_tip2] else []) @
     concat (map (status_events wallet_txs1) wallet_txs2) @
     concat (map (gone_events direct_conflicts wallet_txs2) wallet_txs1)"

text \<open>\<open>f\<close> is the operation; the graph whose conflicts are asked for is the one after it.\<close>

definition events_helper where
  "events_helper conflicts_of A w f =
     (let chain_tip1 = ca_tip (cha A) (w_chain w);
          wallet_txs1 = map_transactions A w in
      res_bind (f w) (\<lambda>w'.
      let chain_tip2 = ca_tip (cha A) (w_chain w');
          wallet_txs2 = map_transactions A w' in
      Ok (wallet_events (conflicts_of (w_graph w')) chain_tip1 chain_tip2 wallet_txs1 wallet_txs2, w')))"

definition apply_update_events where
  "apply_update_events conflicts_of A w update = events_helper conflicts_of A w (\<lambda>w. apply_update A w update)"

definition apply_block_events where
  "apply_block_events conflicts_of A w block height =
     events_helper conflicts_of A w (\<lambda>w. apply_block A w block height)"

definition apply_block_connected_to_events where
  "apply_block_connected_to_events conflicts_of A w block height connected_to =
     events_helper conflicts_of A w (\<lambda>w. apply_block_connected_to A w block height connected_to)"

definition apply_unconfirmed_txs_events where
  "apply_unconfirmed_txs_events conflicts_of A w unconfirmed_txs =
     events_helper conflicts_of A w (\<lambda>w. Ok (apply_unconfirmed_txs A w unconfirmed_txs))"

definition apply_evicted_txs_events where
  "apply_evicted_txs_events conflicts_of A w evicted_txs =
     events_helper conflicts_of A w (\<lambda>w. apply_evicted_txs A w evicted_txs)"

subsection \<open>Events as a difference of confirmation states\<close>

text \<open>The state of a transaction: absent, unconfirmed, or confirmed at an anchor.\<close>

type_synonym tx_states = "txid \<Rightarrow> conf_block_time option option"

fun anchor_of :: "chain_position \<Rightarrow> conf_block_time option" where
  "anchor_of (Confirmed a _) = Some a"
| "anchor_of (Unconfirmed _ _) = None"

definition states_of :: "tx_map \<Rightarrow> tx_states" where
  "states_of m txid = map_option (\<lambda>(tx, pos). anchor_of pos) (bt_get m txid)"

fun replay :: "wallet_event \<Rightarrow> tx_states \<Rightarrow> tx_states" where
  "replay (ChainTipChanged _ _) s = s"
| "replay (TxConfirmed txid _ a _) s = s(txid := Some (Some a))"
| "replay (TxUnconfirmed txid _ _) s = s(txid := Some None)"
| "replay (TxReplaced txid _ _) s = s(txid := None)"
| "replay (TxDropped txid _) s = s(txid := None)"

lemma replay_status_one:
  assumes "s txid = states_of m1 txid"
  shows "fold replay (status_events m1 (txid, (tx, pos))) s = s(txid := Some (anchor_of pos))"
  using assms
  by (auto simp: status_events_def states_of_def split: option.splits chain_position.splits)

lemma replay_status:
  assumes "distinct (map fst m2)" and "\<forall>e \<in> set m2. s (fst e) = states_of m1 (fst e)"
  shows "fold replay (concat (map (status_events m1) m2)) s
    = (\<lambda>txid. case map_of m2 txid of Some (tx, pos) \<Rightarrow> Some (anchor_of pos) | None \<Rightarrow> s txid)"
  using assms
proof (induction m2 arbitrary: s)
  case (Cons e m2)
  obtain txid tx pos where e: "e = (txid, (tx, pos))" by (cases e) auto
  have "fold replay (concat (map (status_events m1) m2)) (s(txid := Some (anchor_of pos)))
      = (\<lambda>x. case map_of m2 x of Some (tx, pos) \<Rightarrow> Some (anchor_of pos) | None \<Rightarrow> (s(txid := Some (anchor_of pos))) x)"
    by (rule Cons.IH) (use Cons.prems e in \<open>auto simp: image_iff\<close>)
  moreover have "map_of m2 txid = None"
    using Cons.prems(1) by (simp add: e map_of_eq_None_iff)
  ultimately show ?case
    using Cons.prems(2) by (auto simp: e replay_status_one fun_eq_iff split: option.split)
qed simp

lemma replay_gone:
  "fold replay (concat (map (gone_events conf m2) m1)) s
    = (\<lambda>txid. if txid \<in> fst ` set m1 \<and> bt_get m2 txid = None then None else s txid)"
proof (induction m1 arbitrary: s)
  case (Cons e m1)
  obtain txid tx pos where e: "e = (txid, (tx, pos))" by (cases e) auto
  have "fold replay (gone_events conf m2 e) s = (if bt_get m2 txid = None then s(txid := None) else s)"
    by (simp add: e gone_events_def Let_def)
  then show ?case
    by (auto simp: Cons.IH e fun_eq_iff)
qed simp

lemma replay_events:
  assumes "bt_wf m1" "bt_wf m2"
  shows "fold replay (wallet_events conf t1 t2 m1 m2) (states_of m1) = states_of m2"
proof -
  have tip: "fold replay (if t1 \<noteq> t2 then [ChainTipChanged t1 t2] else []) s = s" for s
    by simp
  have "fold replay (wallet_events conf t1 t2 m1 m2) (states_of m1)
      = (\<lambda>txid. if txid \<in> fst ` set m1 \<and> bt_get m2 txid = None then None
          else case map_of m2 txid of Some (tx, pos) \<Rightarrow> Some (anchor_of pos) | None \<Rightarrow> states_of m1 txid)"
    unfolding wallet_events_def fold_append comp_apply tip replay_gone
      replay_status [OF bt_distinct_keys [OF assms(2)], of "states_of m1" m1, simplified] ..
  also have "\<dots> = states_of m2"
  proof
    fix txid
    show "(if txid \<in> fst ` set m1 \<and> bt_get m2 txid = None then None
          else case map_of m2 txid of Some (tx, pos) \<Rightarrow> Some (anchor_of pos) | None \<Rightarrow> states_of m1 txid) = states_of m2 txid"
      using bt_get_None_iff [of m1 txid] unfolding bt_get_def [of m2, symmetric]
      by (cases "bt_get m2 txid") (auto simp: states_of_def)
  qed
  finally show ?thesis .
qed

lemma bt_wf_map_transactions: "bt_wf (map_transactions A w)"
proof -
  have wf: "bt_wf m \<Longrightarrow> bt_wf (fold (\<lambda>c m. bt_insert (ct_txid c) (ct_tx c, ct_pos c) m) cs m)" for cs m
    by (induction cs arbitrary: m) (simp_all add: bt_wf_insert)
  show ?thesis
    unfolding map_transactions_def by (rule wf [OF bt_wf_Nil])
qed

lemma events_helper_Ok:
  assumes "events_helper conflicts_of A w f = Ok (events, w')"
  shows "f w = Ok w'"
    "events = wallet_events (conflicts_of (w_graph w')) (ca_tip (cha A) (w_chain w)) (ca_tip (cha A) (w_chain w'))
       (map_transactions A w) (map_transactions A w')"
  using assms by (auto simp: events_helper_def Let_def res_simps)

text \<open>C25: the events of an operation are a complete difference. Whatever operation is wrapped, when
  it succeeds its events, applied in order to the confirmation states the wallet's transactions had
  before it (absent, unconfirmed, confirmed at an anchor), give exactly the states they have after
  it; and there are no events exactly when neither the chain tip nor any state changed.\<close>

theorem events_complete:
  assumes "events_helper conflicts_of A w f = Ok (events, w')"
  shows "fold replay events (states_of (map_transactions A w)) = states_of (map_transactions A w') \<and>
    (events = [] \<longleftrightarrow> ca_tip (cha A) (w_chain w) = ca_tip (cha A) (w_chain w') \<and>
       states_of (map_transactions A w) = states_of (map_transactions A w'))"
proof
  note ev = events_helper_Ok [OF assms]
  show replayed: "fold replay events (states_of (map_transactions A w)) = states_of (map_transactions A w')"
    unfolding ev(2) by (rule replay_events) (rule bt_wf_map_transactions)+
  have "status_events m1 e = []" if "e \<in> set m2" "bt_wf m2" "states_of m1 = states_of m2" for e and m1 m2 :: tx_map
  proof -
    obtain txid tx pos where e: "e = (txid, (tx, pos))" by (cases e) auto
    have "bt_get m2 txid = Some (tx, pos)"
      using that(1,2) by (simp add: e bt_get_Some_iff)
    then have "states_of m1 txid = Some (anchor_of pos)"
      using that(3) by (simp add: states_of_def)
    then show ?thesis
      by (cases pos) (auto simp: e status_events_def states_of_def split: option.splits chain_position.splits)
  qed
  moreover have "gone_events conf m2 e = []" if "e \<in> set m1" "bt_wf m1" "states_of m1 = states_of m2"
    for conf e and m1 m2 :: tx_map
  proof -
    obtain txid tx pos where e: "e = (txid, (tx, pos))" by (cases e) auto
    have "bt_get m1 txid = Some (tx, pos)"
      using that(1,2) by (simp add: e bt_get_Some_iff)
    then have "states_of m2 txid \<noteq> None"
      using that(3) by (simp add: states_of_def flip: that(3))
    then show ?thesis
      by (auto simp: e gone_events_def states_of_def)
  qed
  ultimately have quiet: "events = []" if "ca_tip (cha A) (w_chain w) = ca_tip (cha A) (w_chain w')"
    "states_of (map_transactions A w) = states_of (map_transactions A w')"
    using that bt_wf_map_transactions [of A w] bt_wf_map_transactions [of A w']
    by (auto simp: ev(2) wallet_events_def)
  have "ca_tip (cha A) (w_chain w) = ca_tip (cha A) (w_chain w')" if "events = []"
    using that by (auto simp: ev(2) wallet_events_def split: if_splits)
  moreover have "states_of (map_transactions A w) = states_of (map_transactions A w')" if "events = []"
    using replayed that by simp
  ultimately show "events = [] \<longleftrightarrow> ca_tip (cha A) (w_chain w) = ca_tip (cha A) (w_chain w') \<and>
       states_of (map_transactions A w) = states_of (map_transactions A w')"
    using quiet by blast
qed

text \<open>An event says what happened. A reported tip change has the old and the new tip, and they
  differ; a transaction is reported confirmed at the anchor it now has, with the anchor it had if
  it was confirmed elsewhere; reported unconfirmed if it now is, with the anchor it lost; reported
  replaced or dropped when it was in the wallet and no longer is, as replaced exactly when it has
  conflicts. No event is about a transaction whose state is the same.\<close>

theorem events_truthful:
  assumes "events_helper conflicts_of A w f = Ok (events, w')" and "event \<in> set events"
  shows "let before = states_of (map_transactions A w); after = states_of (map_transactions A w') in
    (case event of
       ChainTipChanged t1 t2 \<Rightarrow> t1 = ca_tip (cha A) (w_chain w) \<and> t2 = ca_tip (cha A) (w_chain w') \<and> t1 \<noteq> t2
     | TxConfirmed txid tx a old \<Rightarrow> after txid = Some (Some a) \<and> before txid \<noteq> after txid \<and>
         (\<forall>a'. before txid = Some (Some a') \<longleftrightarrow> old = Some a')
     | TxUnconfirmed txid tx old \<Rightarrow> after txid = Some None \<and> before txid \<noteq> after txid \<and>
         (\<forall>a'. before txid = Some (Some a') \<longleftrightarrow> old = Some a')
     | TxReplaced txid tx conflicts \<Rightarrow> before txid \<noteq> None \<and> after txid = None \<and>
         conflicts = conflicts_of (w_graph w') tx \<and> conflicts \<noteq> []
     | TxDropped txid tx \<Rightarrow> before txid \<noteq> None \<and> after txid = None \<and> conflicts_of (w_graph w') tx = [])"
proof -
  note ev = events_helper_Ok [OF assms(1)]
  let ?m1 = "map_transactions A w" and ?m2 = "map_transactions A w'"
  have mem: "bt_get m k = Some v" if "(k, v) \<in> set m" "bt_wf m" for m k and v :: "transaction \<times> chain_position"
    using that by (simp add: bt_get_Some_iff)
  have m2: "bt_get ?m2 k = Some v" if "(k, v) \<in> set ?m2" for k v
    by (rule mem [OF that bt_wf_map_transactions])
  have m1: "bt_get ?m1 k = Some v" if "(k, v) \<in> set ?m1" for k v
    by (rule mem [OF that bt_wf_map_transactions])
  from assms(2) [unfolded ev(2) wallet_events_def]
  consider (tip) "ca_tip (cha A) (w_chain w) \<noteq> ca_tip (cha A) (w_chain w')"
      "event = ChainTipChanged (ca_tip (cha A) (w_chain w)) (ca_tip (cha A) (w_chain w'))"
    | (status) txid tx pos where "(txid, (tx, pos)) \<in> set ?m2" "event \<in> set (status_events ?m1 (txid, (tx, pos)))"
    | (gone) txid tx pos where "(txid, (tx, pos)) \<in> set ?m1"
        "event \<in> set (gone_events (conflicts_of (w_graph w')) ?m2 (txid, (tx, pos)))"
    by (fastforce split: if_splits)
  then show ?thesis
  proof cases
    case tip
    then show ?thesis by simp
  next
    case status
    note now = m2 [OF status(1)]
    show ?thesis
    proof (cases "bt_get ?m1 txid")
      case None
      then show ?thesis
        using status(2) now by (cases pos) (auto simp: status_events_def states_of_def Let_def)
    next
      case (Some old)
      obtain tx1 pos1 where old: "old = (tx1, pos1)" by (cases old)
      show ?thesis
        using status(2) now Some
        by (cases pos; cases pos1) (auto simp: old status_events_def states_of_def Let_def split: if_splits)
    qed
  next
    case gone
    then show ?thesis
      using m1 [OF gone(1)]
      by (auto simp: gone_events_def states_of_def Let_def split: if_splits)
  qed
qed

end
