(* ===== verification/Example_Events.thy ===== *)
theory Example_Events
  imports Events Example_Wallet
begin

section \<open>Events of a concrete update\<close>

text \<open>
  The concrete wallet with a canonical view that lists transaction 7 as unconfirmed before an update
  and as confirmed after it: the theorems of \<open>Events\<close> applied to that update.
\<close>

definition example_anchor :: conf_block_time where
  "example_anchor = \<lparr>cbt_block = \<lparr>bid_height = 201, bid_hash = 5\<rparr>, cbt_time = 9\<rparr>"

definition confirming_api where
  "confirming_api = example_api\<lparr>cha := example_chain_api\<lparr>va_txs := (\<lambda>cv.
     [\<lparr>ct_txid = 7, ct_tx = example_tx 7 [] [50],
       ct_pos = (if cv = [201] then Confirmed example_anchor None else Unconfirmed None (Some 3))\<rparr>])\<rparr>\<rparr>"

definition confirmed_wallet where
  "confirmed_wallet = example_wallet\<lparr>w_chain := 201, w_view := [201]\<rparr>"

definition confirming_events :: "wallet_event list" where
  "confirming_events = [ChainTipChanged \<lparr>bid_height = 200, bid_hash = 200\<rparr> \<lparr>bid_height = 201, bid_hash = 201\<rparr>,
     TxConfirmed 7 (example_tx 7 [] [50]) example_anchor None]"

lemma confirming_run:
  "events_helper (\<lambda>g tx. []) confirming_api example_wallet (\<lambda>w. Ok confirmed_wallet)
     = (Ok (confirming_events, confirmed_wallet) :: (unit, _) res)"
  by (simp add: events_helper_def map_transactions_def transactions_def confirming_api_def confirmed_wallet_def
      confirming_events_def example_defs wallet_events_def status_events_def gone_events_def bt_get_def)

theorem events_complete_witness:
  "fold replay confirming_events (states_of (map_transactions confirming_api example_wallet))
     = states_of (map_transactions confirming_api confirmed_wallet)"
  using events_complete [OF confirming_run] by blast

theorem events_truthful_witness:
  "states_of (map_transactions confirming_api confirmed_wallet) 7 = Some (Some example_anchor)"
  using events_truthful [OF confirming_run, of "TxConfirmed 7 (example_tx 7 [] [50]) example_anchor None"]
  by (simp add: confirming_events_def Let_def)

end
