(* ===== verification/Builder_Runs.thy ===== *)
theory Builder_Runs
  imports Create_Tx_Facts
begin

section \<open>Runs of the transaction builder\<close>

text \<open>
  The methods of \<open>TxBuilder\<close> as a step relation on its parameters, and what every sequence of calls
  keeps: the outputs chosen by hand are distinct, those of the wallet are unspent outputs of it with
  the satisfaction weight of their descriptor, and the foreign ones were checked. Outpoints that a
  call adds to the unspendable ones stay so until \<open>unspendable\<close> replaces them.
\<close>

subsection \<open>Steps\<close>

inductive builder_step for B A w where
  fee_rate: "builder_step B A w P (tb_fee_rate rate P)"
| fee_absolute: "builder_step B A w P (tb_fee_absolute fee P)"
| policy_path: "builder_step B A w P (tb_policy_path path keychain P)"
| add_utxos: "add_utxos A w ops P = Ok P' \<Longrightarrow> builder_step B A w P P'"
| add_foreign: "add_foreign_utxo_with_sequence B op pin sw sq P = Ok P' \<Longrightarrow> builder_step B A w P P'"
| manually_selected_only: "builder_step B A w P (tb_manually_selected_only P)"
| unspendable: "builder_step B A w P (tb_unspendable ops P)"
| add_unspendable: "builder_step B A w P (tb_add_unspendable op P)"
| exclude_below: "builder_step B A w P (exclude_below_confirmations A w n P)"
| sighash: "builder_step B A w P (tb_sighash s P)"
| ordering: "builder_step B A w P (tb_ordering ord P)"
| nlocktime: "builder_step B A w P (tb_nlocktime l P)"
| version: "builder_step B A w P (tb_version v P)"
| change_policy: "builder_step B A w P (tb_change_policy c P)"
| only_witness_utxo: "builder_step B A w P (tb_only_witness_utxo P)"
| add_global_xpubs: "builder_step B A w P (tb_add_global_xpubs P)"
| drain_wallet: "builder_step B A w P (tb_drain_wallet P)"
| set_exact_sequence: "builder_step B A w P (tb_set_exact_sequence sq P)"
| current_height: "tb_current_height h P = (Ok P' :: (unit, _) res) \<Longrightarrow> builder_step B A w P P'"
| allow_dust: "builder_step B A w P (tb_allow_dust b P)"
| set_recipients: "builder_step B A w P (tb_set_recipients rs P)"
| add_recipient: "builder_step B A w P (tb_add_recipient s a P)"
| mweb_tx: "builder_step B A w P (tb_mweb_tx body P)"
| drain_to: "builder_step B A w P (tb_drain_to s P)"

text \<open>The other methods are one of these: \<open>do_not_spend_change\<close> and \<open>only_spend_change\<close> set the change
  policy, \<open>add_utxo\<close>, \<open>add_foreign_utxo\<close>, \<open>exclude_unconfirmed\<close> and \<open>add_data\<close> call the general method.\<close>

inductive builder_run for B A w P where
  start: "builder_run B A w P P"
| call: "builder_run B A w P Q \<Longrightarrow> builder_step B A w Q R \<Longrightarrow> builder_run B A w P R"

lemma other_methods_are_steps:
  "builder_step B A w P (tb_do_not_spend_change P)" "builder_step B A w P (tb_only_spend_change P)"
  "builder_step B A w P (exclude_unconfirmed A w P)" "builder_step B A w P (tb_add_data f d P)"
  "builder_step B A w P (tb_add_mweb_pegin g k a P)"
  "add_utxo A w op P = Ok P' \<Longrightarrow> builder_step B A w P P'"
  "add_foreign_utxo B op pin sw P = Ok P' \<Longrightarrow> builder_step B A w P P'"
  using builder_step.change_policy [of B A w P ChangeForbidden] builder_step.change_policy [of B A w P OnlyChange]
  by (auto simp: tb_do_not_spend_change_def tb_only_spend_change_def tb_change_policy_def exclude_unconfirmed_def
      tb_add_data_def tb_add_mweb_pegin_def add_utxo_def add_foreign_utxo_def intro: builder_step.intros)

subsection \<open>What the calls keep\<close>

definition manual_outpoints :: "tx_params \<Rightarrow> outpoint list" where
  "manual_outpoints P = map (\<lambda>wu. utxo_outpoint (wu_utxo wu)) (p_utxos P)"

definition manual_ok where
  "manual_ok B A w wu =
     (case wu_utxo wu of
        Local l \<Rightarrow> l \<in> set (list_unspent A w) \<and> weighted_local A w l = (Ok wu :: (unit, _) res)
      | Foreign op sq pin \<Rightarrow> check_foreign B op pin = Ok ())"

definition builder_inv where
  "builder_inv B A w P \<longleftrightarrow> distinct (manual_outpoints P) \<and> (\<forall>wu \<in> set (p_utxos P). manual_ok B A w wu)"

lemma first_visits_set: "set (first_visits visited xs) = set xs - set visited"
  by (induction xs arbitrary: visited) auto

lemma first_visits_distinct: "distinct (first_visits visited xs)"
  by (induction xs arbitrary: visited) (auto simp: first_visits_set)

lemma unspent_map_snoc: "unspent_map (ls @ [l]) = (unspent_map ls)(lo_outpoint l \<mapsto> l)"
  by (simp add: unspent_map_def)

lemma unspent_map_SomeD: "unspent_map ls op = Some l \<Longrightarrow> l \<in> set ls \<and> lo_outpoint l = op"
proof (induction ls rule: rev_induct)
  case Nil
  then show ?case by (simp add: unspent_map_def)
next
  case (snoc x xs)
  then show ?case by (auto simp: unspent_map_snoc split: if_splits)
qed

lemma weighted_local_utxo:
  "weighted_local A w l = Ok wu \<Longrightarrow> wu_utxo wu = Local l \<and> weighted_local A w l = (Ok wu :: (unit, _) res)"
  by (auto simp: weighted_local_def res_simps public_descriptor_def)

lemma looked_up_one:
  assumes "res_bind (ok_or (unspent_map (list_unspent A w) op) (UnknownUtxo op)) (weighted_local A w)
     = (Ok wu :: (add_utxo_error, _) res)"
  shows "utxo_outpoint (wu_utxo wu) = op \<and> manual_ok B A w wu \<and> wu_utxo wu \<in> Local ` set (list_unspent A w)"
proof -
  from assms obtain l where "unspent_map (list_unspent A w) op = Some l"
    "weighted_local A w l = (Ok wu :: (add_utxo_error, _) res)"
    by (auto simp: res_simps)
  then have "l \<in> set (list_unspent A w)" "lo_outpoint l = op" "wu_utxo wu = Local l"
    "weighted_local A w l = (Ok wu :: (unit, _) res)"
    using unspent_map_SomeD weighted_local_utxo by blast+
  then show ?thesis
    by (simp add: manual_ok_def)
qed

lemma looked_up_ok:
  assumes "res_map (\<lambda>op. res_bind (ok_or (unspent_map (list_unspent A w) op) (UnknownUtxo op)) (weighted_local A w)) ops
     = (Ok wus :: (add_utxo_error, _) res)"
  shows "map (\<lambda>wu. utxo_outpoint (wu_utxo wu)) wus = ops \<and>
    (\<forall>wu \<in> set wus. manual_ok B A w wu \<and> wu_utxo wu \<in> Local ` set (list_unspent A w))"
  using assms
proof -
  from assms have "list_all2 (\<lambda>op wu. utxo_outpoint (wu_utxo wu) = op \<and> manual_ok B A w wu \<and>
      wu_utxo wu \<in> Local ` set (list_unspent A w)) ops wus"
    unfolding res_map_Ok_iff by (rule list_all2_mono) (rule looked_up_one)
  then show ?thesis
    by (induction rule: list_all2_induct) simp_all
qed

lemma add_utxos_OkE:
  assumes "add_utxos A w ops P = (Ok P' :: (add_utxo_error, _) res)"
  obtains wus where "P' = P\<lparr>p_utxos := filter (\<lambda>wu. utxo_outpoint (wu_utxo wu) \<notin> set ops) (p_utxos P) @ wus\<rparr>"
    "map (\<lambda>wu. utxo_outpoint (wu_utxo wu)) wus = first_visits [] ops" "\<forall>wu \<in> set wus. manual_ok B A w wu"
    "\<forall>wu \<in> set wus. wu_utxo wu \<in> Local ` set (list_unspent A w)"
proof -
  from assms obtain wus where
    r: "res_map (\<lambda>op. res_bind (ok_or (unspent_map (list_unspent A w) op) (UnknownUtxo op)) (weighted_local A w))
        (first_visits [] ops) = (Ok wus :: (add_utxo_error, _) res)"
    and P: "P' = P\<lparr>p_utxos := filter (\<lambda>wu. utxo_outpoint (wu_utxo wu) \<notin> set ops) (p_utxos P) @ wus\<rparr>"
    by (auto simp: add_utxos_def Let_def res_simps)
  with looked_up_ok [OF r, of B] show thesis
    by (intro that [OF P]) auto
qed

lemma add_utxos_inv:
  assumes "builder_inv B A w P" "add_utxos A w ops P = (Ok P' :: (add_utxo_error, _) res)"
  shows "builder_inv B A w P'"
  using assms(2)
proof (rule add_utxos_OkE [of _ _ _ _ _ B])
  fix wus
  assume P: "P' = P\<lparr>p_utxos := filter (\<lambda>wu. utxo_outpoint (wu_utxo wu) \<notin> set ops) (p_utxos P) @ wus\<rparr>"
    and wus: "map (\<lambda>wu. utxo_outpoint (wu_utxo wu)) wus = first_visits [] ops" "\<forall>wu \<in> set wus. manual_ok B A w wu"
  have "manual_outpoints P' = filter (\<lambda>op. op \<notin> set ops) (manual_outpoints P) @ first_visits [] ops"
    by (simp add: manual_outpoints_def P wus(1) filter_map comp_def)
  then show ?thesis
    using assms(1) wus(2) by (auto simp: builder_inv_def P first_visits_distinct first_visits_set)
qed

lemma add_foreign_cases:
  assumes "add_foreign_utxo_with_sequence B op pin sw sq P = Ok P'"
  obtains (fresh) "check_foreign B op pin = Ok ()" "op \<notin> set (manual_outpoints P)"
      "p_utxos P' = p_utxos P @ [\<lparr>satisfaction_weight = sw, wu_utxo = Foreign op sq pin\<rparr>]"
  | (own) "P' = P"
  | (replaced) pre wu post where "check_foreign B op pin = Ok ()" "p_utxos P = pre @ wu # post"
      "utxo_outpoint (wu_utxo wu) = op" "\<nexists>l. wu_utxo wu = Local l"
      "p_utxos P' = pre @ post @ [\<lparr>satisfaction_weight = sw, wu_utxo = Foreign op sq pin\<rparr>]"
proof -
  let ?f = "List.find (\<lambda>(idx, wutxo). utxo_outpoint (wu_utxo wutxo) = op) (List.enumerate 0 (p_utxos P))"
  from assms have c: "check_foreign B op pin = Ok ()"
    by (auto simp: add_foreign_utxo_with_sequence_def res_simps)
  show thesis
  proof (cases ?f)
    case None
    then have "op \<notin> set (manual_outpoints P)"
      by (fastforce simp: manual_outpoints_def find_None_iff in_set_conv_nth enumerate_eq_zip)
    with c None assms show thesis
      by (intro fresh) (auto simp: add_foreign_utxo_with_sequence_def Let_def)
  next
    case (Some e)
    then obtain idx wu where e: "e = (idx, wu)" "idx < length (p_utxos P)" "wu = p_utxos P ! idx"
      "utxo_outpoint (wu_utxo wu) = op"
      by (auto simp: find_Some_iff nth_enumerate_eq)
    show thesis
    proof (cases "wu_utxo wu")
      case (Local l)
      with c Some e assms show thesis
        by (intro own) (auto simp: add_foreign_utxo_with_sequence_def Let_def)
    next
      case (Foreign op' sq' pin')
      with c Some e assms show thesis
        by (intro replaced [OF c id_take_nth_drop [OF e(2)]])
          (auto simp: add_foreign_utxo_with_sequence_def Let_def)
    qed
  qed
qed

lemma add_foreign_inv:
  assumes "builder_inv B A w P" "add_foreign_utxo_with_sequence B op pin sw sq P = Ok P'"
  shows "builder_inv B A w P'"
  using assms(2)
proof (cases rule: add_foreign_cases)
  case fresh
  then show ?thesis
    using assms(1) by (auto simp: builder_inv_def manual_outpoints_def manual_ok_def)
next
  case own
  then show ?thesis using assms(1) by simp
next
  case (replaced pre wu post)
  then show ?thesis
    using assms(1) by (auto simp: builder_inv_def manual_outpoints_def manual_ok_def)
qed

lemma builder_inv_cong: "p_utxos P' = p_utxos P \<Longrightarrow> builder_inv B A w P' = builder_inv B A w P"
  by (simp add: builder_inv_def manual_outpoints_def)

lemmas setter_defs = tb_fee_rate_def tb_fee_absolute_def tb_policy_path_def tb_manually_selected_only_def
  tb_unspendable_def tb_add_unspendable_def exclude_below_confirmations_def tb_sighash_def tb_ordering_def
  tb_nlocktime_def tb_version_def tb_change_policy_def tb_only_witness_utxo_def tb_add_global_xpubs_def
  tb_drain_wallet_def tb_set_exact_sequence_def tb_current_height_def tb_allow_dust_def
  tb_set_recipients_def tb_add_recipient_def tb_mweb_tx_def tb_drain_to_def

lemma builder_step_inv:
  assumes "builder_step B A w P P'" "builder_inv B A w P"
  shows "builder_inv B A w P'"
  using assms
proof cases
  case add_utxos
  then show ?thesis using assms(2) add_utxos_inv by blast
next
  case add_foreign
  then show ?thesis using assms(2) add_foreign_inv by blast
qed (rule builder_inv_cong [THEN iffD2, OF _ assms(2)];
    auto simp: setter_defs Let_def res_simps split: keychain_kind.splits)+

lemma builder_run_inv: "builder_run B A w P Q \<Longrightarrow> builder_inv B A w P \<Longrightarrow> builder_inv B A w Q"
  by (induction rule: builder_run.induct) (auto intro: builder_step_inv)

lemma builder_inv_default: "builder_inv B A w tx_params_default"
  by (simp add: builder_inv_def manual_outpoints_def tx_params_default_def)

subsection \<open>What is chosen by hand stays chosen\<close>

definition own_manual :: "tx_params \<Rightarrow> outpoint set" where
  "own_manual P = {lo_outpoint l |l. Local l \<in> wu_utxo ` set (p_utxos P)}"

definition keeps_manual :: "tx_params \<Rightarrow> tx_params \<Rightarrow> bool" where
  "keeps_manual P Q \<longleftrightarrow> set (manual_outpoints P) \<subseteq> set (manual_outpoints Q) \<and> own_manual P \<subseteq> own_manual Q"

lemma keeps_manual_refl [simp]: "p_utxos P' = p_utxos P \<Longrightarrow> keeps_manual P P'"
  by (simp add: keeps_manual_def manual_outpoints_def own_manual_def)

lemma keeps_manual_trans: "keeps_manual P Q \<Longrightarrow> keeps_manual Q R \<Longrightarrow> keeps_manual P R"
  by (auto simp: keeps_manual_def)

lemma own_manual_iff:
  "op \<in> own_manual P \<longleftrightarrow> (\<exists>wu l. wu \<in> set (p_utxos P) \<and> wu_utxo wu = Local l \<and> lo_outpoint l = op)"
  by (force simp: own_manual_def)

lemma add_utxos_own:
  assumes "add_utxos A w ops P = (Ok P' :: (add_utxo_error, _) res)" "op \<in> set ops"
  shows "op \<in> own_manual P'"
proof -
  from assms(1) obtain wus where
    r: "list_all2 (\<lambda>op wu. res_bind (ok_or (unspent_map (list_unspent A w) op) (UnknownUtxo op)) (weighted_local A w)
        = (Ok wu :: (add_utxo_error, _) res)) (first_visits [] ops) wus"
    and P: "set wus \<subseteq> set (p_utxos P')"
    by (auto simp: add_utxos_def Let_def res_simps res_map_Ok_iff)
  from assms(2) obtain i where "i < length (first_visits [] ops)" "first_visits [] ops ! i = op"
    by (metis DiffI all_not_in_conv first_visits_set in_set_conv_nth set_empty)
  with r have "res_bind (ok_or (unspent_map (list_unspent A w) op) (UnknownUtxo op)) (weighted_local A w)
      = (Ok (wus ! i) :: (add_utxo_error, _) res)" and i: "wus ! i \<in> set wus"
    by (auto simp: list_all2_conv_all_nth)
  then obtain l where "unspent_map (list_unspent A w) op = Some l"
    "weighted_local A w l = (Ok (wus ! i) :: (add_utxo_error, _) res)"
    by (auto simp: res_simps)
  then have "lo_outpoint l = op" "wu_utxo (wus ! i) = Local l"
    using unspent_map_SomeD weighted_local_utxo by blast+
  then show ?thesis
    using i P by (auto simp: own_manual_iff)
qed

lemma add_utxos_keeps:
  assumes "add_utxos A w ops P = (Ok P' :: (add_utxo_error, _) res)"
  shows "keeps_manual P P'"
proof -
  have own: "op \<in> own_manual P'" if "op \<in> set ops" for op
    using add_utxos_own [OF assms that] .
  have rest: "wu \<in> set (p_utxos P')" if "wu \<in> set (p_utxos P)" "utxo_outpoint (wu_utxo wu) \<notin> set ops" for wu
    using assms that by (auto simp: add_utxos_def Let_def res_simps)
  have own_in: "own_manual P' \<subseteq> set (manual_outpoints P')"
    by (force simp: own_manual_iff manual_outpoints_def)
  have "utxo_outpoint (wu_utxo wu) \<in> set (manual_outpoints P')" if "wu \<in> set (p_utxos P)" for wu
    using own rest [OF that] own_in by (cases "utxo_outpoint (wu_utxo wu) \<in> set ops") (auto simp: manual_outpoints_def)
  moreover have "op \<in> own_manual P'" if "op \<in> own_manual P" for op
    using own rest that by (cases "op \<in> set ops") (simp, metis own_manual_iff utxo_outpoint.simps(1))
  ultimately show ?thesis
    by (auto simp: keeps_manual_def manual_outpoints_def)
qed

lemma add_foreign_keeps:
  assumes "add_foreign_utxo_with_sequence B op pin sw sq P = Ok P'"
  shows "keeps_manual P P'"
  using assms
proof (cases rule: add_foreign_cases)
  case fresh
  then show ?thesis
    by (auto simp: keeps_manual_def manual_outpoints_def own_manual_iff) blast
next
  case own
  then show ?thesis by simp
next
  case (replaced pre wu post)
  then show ?thesis
    by (auto simp: keeps_manual_def manual_outpoints_def own_manual_iff) blast+
qed

lemma builder_step_keeps:
  assumes "builder_step B A w P P'"
  shows "keeps_manual P P'"
  using assms
proof cases
  case add_utxos
  then show ?thesis using add_utxos_keeps by blast
next
  case add_foreign
  then show ?thesis using add_foreign_keeps by blast
qed (rule keeps_manual_refl; auto simp: setter_defs Let_def res_simps split: keychain_kind.splits)+

lemma builder_run_keeps: "builder_run B A w P Q \<Longrightarrow> keeps_manual P Q"
  by (induction rule: builder_run.induct) (auto intro: keeps_manual_trans builder_step_keeps)

text \<open>C9: what is chosen by hand is valid and stays chosen. After any calls of the builder the
  outputs chosen by hand are distinct; those of the wallet are unspent outputs of it, with the
  satisfaction weight of their descriptor; the foreign ones passed the checks. Further calls drop
  none of them, and an output of the wallet is never replaced by a foreign one.\<close>

theorem builder_keeps_chosen:
  assumes "builder_run B A w tx_params_default P" and "builder_run B A w P Q"
  shows "distinct (manual_outpoints Q) \<and> (\<forall>wu \<in> set (p_utxos Q). manual_ok B A w wu) \<and>
    set (manual_outpoints P) \<subseteq> set (manual_outpoints Q) \<and> own_manual P \<subseteq> own_manual Q"
proof -
  have "builder_inv B A w P"
    by (rule builder_run_inv [OF assms(1) builder_inv_default])
  then have "builder_inv B A w Q"
    by (rule builder_run_inv [OF assms(2)])
  then show ?thesis
    using builder_run_keeps [OF assms(2)] by (simp add: builder_inv_def keeps_manual_def)
qed

text \<open>C5: no output is spent twice. A transaction made with a builder, after any calls, over a wallet
  that lists each of its unspent outputs once has distinct inputs.\<close>

theorem built_tx_no_double_spend:
  assumes "coin_selector B select" and "sorters_lawful S" and "psbt_updates_lawful (dsa A)"
    and "builder_run B A w tx_params_default P"
    and "distinct (map lo_outpoint (list_unspent A w))"
    and "create_tx B X E A S next_u32 select w P rng = Ok (p, w', rng')"
  shows "distinct (map previous_output (tx_input (unsigned_tx p)))"
proof (rule tx_inputs_distinct [OF assms(1-3) _ assms(5,6)])
  show "distinct (map (\<lambda>wu. utxo_outpoint (wu_utxo wu)) (p_utxos P))"
    using builder_run_inv [OF assms(4) builder_inv_default] by (simp add: builder_inv_def manual_outpoints_def)
qed

subsection \<open>Outputs without enough confirmations\<close>

lemma excluded_unspendable:
  "l \<in> set (list_unspent A w) \<Longrightarrow> confirmations (bid_height (ca_tip (cha A) (w_chain w))) l < n \<Longrightarrow>
    lo_outpoint l \<in> set (p_unspendable (exclude_below_confirmations A w n P))"
proof -
  have "set (fold List.insert xs ys) = set xs \<union> set ys" for xs ys :: "outpoint list"
    by (induction xs arbitrary: ys) auto
  then show "l \<in> set (list_unspent A w) \<Longrightarrow> confirmations (bid_height (ca_tip (cha A) (w_chain w))) l < n \<Longrightarrow>
    lo_outpoint l \<in> set (p_unspendable (exclude_below_confirmations A w n P))"
    by (simp add: exclude_below_confirmations_def Let_def)
qed

lemma confirmations_bound:
  assumes "0 < n" "n \<le> confirmations tip l"
  obtains h where "pos_height_upper_bound (lo_chain_position l) = Some h" "unat h + unat n \<le> unat tip + 1"
proof -
  have top: "unat (u32_saturating_add tip 1) \<le> unat tip + 1"
    by (auto simp: u32_saturating_add_def unat_word_ariths intro: mod_less_eq_dividend)
  from assms obtain h where h: "pos_height_upper_bound (lo_chain_position l) = Some h"
    "n \<le> u32_saturating_sub (u32_saturating_add tip 1) h"
    by (auto simp: confirmations_def split: option.splits)
  then have le: "h \<le> u32_saturating_add tip 1" "n \<le> u32_saturating_add tip 1 - h"
    using assms(1) by (auto simp: u32_saturating_sub_def split: if_splits)
  then have "unat n \<le> unat (u32_saturating_add tip 1) - unat h"
    by (metis unat_sub word_le_nat_alt)
  then show thesis
    using that [OF h(1)] top le(1) by (simp add: word_le_nat_alt)
qed

text \<open>Unconfirmed money can be kept out. A transaction made right after
  \<open>exclude_below_confirmations n\<close> spends, besides the outputs chosen by hand, only outputs of the
  wallet that are confirmed in a block which, with the blocks after it up to the tip, makes at least
  \<open>n\<close>.\<close>

theorem excluded_not_spent:
  assumes "coin_selector B select" and "sorters_lawful S" and "psbt_updates_lawful (dsa A)"
    and "0 < n"
    and "create_tx B X E A S next_u32 select w (exclude_below_confirmations A w n P) rng = Ok (p, w', rng')"
  shows "\<forall>op \<in> set (map previous_output (tx_input (unsigned_tx p))).
     op \<in> set (manual_outpoints P) \<or>
     (\<exists>l h. l \<in> set (list_unspent A w) \<and> lo_outpoint l = op \<and>
        pos_height_upper_bound (lo_chain_position l) = Some h \<and>
        unat h + unat n \<le> unat (bid_height (ca_tip (cha A) (w_chain w))) + 1)"
proof
  fix op
  assume "op \<in> set (map previous_output (tx_input (unsigned_tx p)))"
  with tx_inputs [OF assms(1-3,5)]
  consider "op \<in> set (manual_outpoints P)"
    | l where "lo_outpoint l = op" "eligible A w (exclude_below_confirmations A w n P) (tx_version (unsigned_tx p)) l"
    by (auto simp: manual_outpoints_def exclude_below_confirmations_def Let_def)
  then show "op \<in> set (manual_outpoints P) \<or>
     (\<exists>l h. l \<in> set (list_unspent A w) \<and> lo_outpoint l = op \<and>
        pos_height_upper_bound (lo_chain_position l) = Some h \<and>
        unat h + unat n \<le> unat (bid_height (ca_tip (cha A) (w_chain w))) + 1)"
  proof cases
    case (2 l)
    then have "l \<in> set (list_unspent A w)" "n \<le> confirmations (bid_height (ca_tip (cha A) (w_chain w))) l"
      using excluded_unspendable [of l A w n P] unfolding eligible_def not_less [symmetric] by blast+
    with assms(4) 2(1) show ?thesis
      by (metis confirmations_bound)
  qed simp
qed


end
