(* ===== verification/Example_Builder.thy ===== *)
theory Example_Builder
  imports Builder_Runs Example_Wallet
begin

section \<open>Runs of the builder on the concrete wallet\<close>

definition chosen_by_hand :: tx_params where
  "chosen_by_hand = tx_params_default\<lparr>p_utxos :=
     [\<lparr>satisfaction_weight = 100, wu_utxo = Local (new_local_utxo External 0 (example_full_txout (OutPoint 7 0)))\<rparr>]\<rparr>"

lemma chosen_by_hand_step:
  "add_utxos example_api example_wallet [OutPoint 7 0] tx_params_default = (Ok chosen_by_hand :: (add_utxo_error, _) res)"
  by (simp add: add_utxos_def list_unspent_def unspent_map_def example_defs new_local_utxo_def
      example_full_txout_def weighted_local_def public_descriptor_def map_keychain_def keychains_def chosen_by_hand_def)

text \<open>Adding the same output as a foreign one changes nothing.\<close>

lemma foreign_ignored:
  "add_foreign_utxo_with_sequence btc_example (OutPoint 7 0)
     (psbt_input_default\<lparr>witness_utxo := Some \<lparr>txo_value = 1, txo_script = []\<rparr>\<rparr>) 50 7 chosen_by_hand = Ok chosen_by_hand"
  by (simp add: add_foreign_utxo_with_sequence_def check_foreign_def psbt_input_default_def chosen_by_hand_def
      new_local_utxo_def example_full_txout_def tx_params_default_def)

theorem builder_keeps_chosen_witness:
  "distinct (manual_outpoints (tb_drain_wallet chosen_by_hand)) \<and>
   OutPoint 7 0 \<in> own_manual (tb_drain_wallet chosen_by_hand)"
proof -
  have first: "builder_run btc_example example_api example_wallet tx_params_default chosen_by_hand"
    by (rule builder_run.call [OF builder_run.start builder_step.add_utxos [OF chosen_by_hand_step]])
  have "builder_run btc_example example_api example_wallet chosen_by_hand (tb_drain_wallet chosen_by_hand)"
    by (rule builder_run.call [OF builder_run.call [OF builder_run.start
          builder_step.add_foreign [OF foreign_ignored]] builder_step.drain_wallet])
  note builder_keeps_chosen [OF first this]
  moreover have "OutPoint 7 0 \<in> own_manual chosen_by_hand"
    by (simp add: own_manual_iff chosen_by_hand_def new_local_utxo_def example_full_txout_def)
  ultimately show ?thesis by blast
qed

lemma example_params_run: "builder_run btc_example example_api example_wallet tx_params_default example_params"
  unfolding example_params_def
  by (rule builder_run.call [OF builder_run.call [OF builder_run.call [OF builder_run.start
          builder_step.add_recipient] builder_step.ordering] builder_step.fee_rate])

theorem built_tx_no_double_spend_witness: "distinct [OutPoint 8 0, OutPoint 7 0]"
proof -
  have "distinct (map lo_outpoint (list_unspent example_api example_wallet))"
    by (simp add: list_unspent_def example_defs new_local_utxo_def example_full_txout_def)
  from built_tx_no_double_spend [OF example_lawful(1,3,4) example_params_run this example_created]
  show ?thesis
    unfolding example_unsigned_psbt .
qed

lemma nothing_excluded: "exclude_below_confirmations example_api example_wallet 101 example_params = example_params"
  by (simp add: exclude_below_confirmations_def list_unspent_def example_defs new_local_utxo_def
      example_full_txout_def confirmations_def u32_saturating_sub_def u32_saturating_add_def)

theorem excluded_not_spent_witness:
  "\<exists>(l :: local_output) h. lo_outpoint l = OutPoint 7 0 \<and> pos_height_upper_bound (lo_chain_position l) = Some h \<and>
     unat h + 101 \<le> 201"
proof -
  have "create_tx btc_example example_xpubs example_env example_api example_sorters (\<lambda>r. (r, r + 1))
     (largest_first_select btc_example sort_by) example_wallet
     (exclude_below_confirmations example_api example_wallet 101 example_params) (0 :: u32)
   = Ok (psbt_from_unsigned_tx example_unsigned,
       record_change example_api example_wallet (Change 7813 11) (Some (Internal, 3)), 0)"
    unfolding nothing_excluded by (rule example_created)
  note spent = excluded_not_spent [OF example_lawful(1,3,4) _ this]
  have "bid_height (ca_tip (cha example_api) (w_chain example_wallet)) = 200"
    "manual_outpoints example_params = []"
    by (simp_all add: manual_outpoints_def example_params_fields example_api_def example_chain_api_def
        example_wallet_def)
  with spent obtain l :: local_output and h where "lo_outpoint l = OutPoint 7 0" "pos_height_upper_bound (lo_chain_position l) = Some h"
    "unat h + unat (101 :: u32) \<le> unat (200 :: u32) + 1"
    unfolding example_unsigned_psbt by auto
  then show ?thesis by auto
qed

end
