(* ===== verification/Fee_Bump.thy ===== *)
theory Fee_Bump
  imports Fee_Rates
begin

section \<open>Bumping the fee of a transaction\<close>

text \<open>
  \<open>Wallet::build_fee_bump\<close> (src/wallet/mod.rs): the parameters of a builder for a transaction that
  replaces an unconfirmed one. \<open>wit_len\<close> is the serialized length of a witness and \<open>fee_div\<close> the
  division of an amount by a weight. The builder it returns is \<open>create_tx\<close> with these parameters and
  whatever the caller sets on top; the theorems say that such a transaction spends all inputs of the
  replaced one, pays what it paid, and that its inputs, with the values the wallet knows for them,
  pay the higher fee, or the higher rate.
\<close>

datatype build_fee_bump_error =
  UnknownUtxo outpoint | TransactionNotFound txid | TransactionConfirmed txid
| IrreplaceableTransaction txid | FeeRateUnavailable | InvalidOutputIndex outpoint

definition chain_positions where
  "chain_positions A w = map_of (rev (map (\<lambda>c. (ct_txid c, ct_pos c)) (va_txs (cha A) (w_view w))))"

text \<open>The previous output of an input, as an output to select by hand: one of the wallet, or a foreign
  one that comes with its previous transaction.\<close>

definition bumped_input where
  "bumped_input B wit_len A w txin =
     (let op = previous_output txin in
      case ga_get_txout (tga A) (w_graph w) op of
        None \<Rightarrow> Err (UnknownUtxo op)
      | Some prev_txout \<Rightarrow>
          (case ia_index_of_spk (ixa A) (w_index w) (txo_script prev_txout) of
             Some (keychain, di) \<Rightarrow>
               res_bind (ok_or (chain_positions A w (op_txid op)) (TransactionNotFound (op_txid op))) (\<lambda>pos.
               res_bind (public_descriptor A w keychain) (\<lambda>d.
               res_bind (expect (da_max_weight (dsa A) d)) (\<lambda>sw.
               Ok \<lparr>satisfaction_weight = sw, wu_utxo = Local \<lparr>lo_outpoint = op, lo_txout = prev_txout,
                  lo_keychain = keychain, lo_is_spent = True, lo_derivation_index = di,
                  lo_chain_position = pos\<rparr>\<rparr>)))
           | None \<Rightarrow>
               Ok \<lparr>satisfaction_weight = script_ser_len B (script_sig txin) * 4 + wit_len (witness txin),
                 wu_utxo = Foreign op (sequence txin) (psbt_input_default
                   \<lparr>witness_utxo := (if is_witness_program B (txo_script prev_txout) then Some prev_txout else None),
                    non_witness_utxo := ga_get_tx (tga A) (w_graph w) (op_txid op)\<rparr>)\<rparr>))"

text \<open>The last output to the change keychain, which is taken out when there is more than one output.\<close>

definition change_position where
  "change_position A w outs =
     foldl (\<lambda>found (index, txout).
         case ia_index_of_spk (ixa A) (w_index w) (txo_script txout) of
           Some (keychain, _) \<Rightarrow> (if keychain = map_keychain A w Internal then Some index else found)
         | None \<Rightarrow> found) None (List.enumerate 0 outs)"

definition remove_at :: "nat \<Rightarrow> 'a list \<Rightarrow> 'a list" where
  "remove_at i xs = take i xs @ drop (Suc i) xs"

definition outputs_to_keep where
  "outputs_to_keep A w outs =
     (if length outs > 1
      then (case change_position A w outs of Some i \<Rightarrow> remove_at i outs | None \<Rightarrow> outs)
      else outs)"

definition build_fee_bump where
  "build_fee_bump B wit_len fee_div A w txid =
     res_bind (ok_or (ga_get_tx (tga A) (w_graph w) txid) (TransactionNotFound txid)) (\<lambda>tx.
     res_bind (ok_or (chain_positions A w txid) (TransactionNotFound txid)) (\<lambda>pos.
     res_bind (fail_if (pos_is_confirmed pos) (TransactionConfirmed txid)) (\<lambda>_.
     res_bind (fail_if (\<not> list_ex (\<lambda>txin. sequence txin \<le> 0xFFFFFFFD) (tx_input tx))
       (IrreplaceableTransaction (compute_txid B tx))) (\<lambda>_.
     res_bind (ok_or (ga_calculate_fee (tga A) (w_graph w) tx) FeeRateUnavailable) (\<lambda>fee.
     let fee_rate = fee_div fee (tx_weight B tx) in
     res_bind (res_map (bumped_input B wit_len A w) (tx_input tx)) (\<lambda>utxos.
     Ok (tx_params_default\<lparr>p_version := Some (tx_version tx),
        p_recipients := map (\<lambda>txout. (txo_script txout, txo_value txout)) (outputs_to_keep A w (tx_output tx)),
        p_utxos := utxos,
        p_bumping_fee := Some \<lparr>pf_absolute = fee, pf_rate = fee_rate\<rparr>\<rparr>)))))))"

lemma bumped_input_outpoint:
  "bumped_input B wit_len A w txin = (Ok wu :: (build_fee_bump_error, _) res)
     \<Longrightarrow> utxo_outpoint (wu_utxo wu) = previous_output txin"
  by (auto simp: bumped_input_def Let_def res_simps split: option.splits prod.splits)

lemma bumped_inputs_outpoints:
  "res_map (bumped_input B wit_len A w) txins = (Ok wus :: (build_fee_bump_error, _) res)
     \<Longrightarrow> map (\<lambda>wu. utxo_outpoint (wu_utxo wu)) wus = map previous_output txins"
  by (induction txins arbitrary: wus) (auto simp: res_simps dest: bumped_input_outpoint)

text \<open>An output as the wallet's graph has it.\<close>

definition graph_output where
  "graph_output A w u \<longleftrightarrow> (\<exists>t. utxo_txout u = Some t \<and>
     (ga_get_txout (tga A) (w_graph w) (utxo_outpoint u) = Some t \<or>
      (\<exists>prev_tx. ga_get_tx (tga A) (w_graph w) (op_txid (utxo_outpoint u)) = Some prev_tx \<and>
         get_nth (tx_output prev_tx) (unat (op_vout (utxo_outpoint u))) = Some t)))"

lemma bumped_input_graph:
  assumes "bumped_input B wit_len A w txin = (Ok wu :: (build_fee_bump_error, _) res)"
    and "utxo_ok (wu_utxo wu)"
  shows "graph_output A w (wu_utxo wu)"
  using assms
  by (auto simp: bumped_input_def graph_output_def utxo_ok_def Let_def res_simps psbt_input_default_def
      bind_eq_Some_conv split: option.splits prod.splits if_splits)

lemma bumped_inputs_graph:
  assumes "res_map (bumped_input B wit_len A w) txins = (Ok wus :: (build_fee_bump_error, _) res)"
    and "wu \<in> set wus" and "utxo_ok (wu_utxo wu)"
  shows "graph_output A w (wu_utxo wu)"
  using assms by (auto simp: res_map_Ok_iff list_all2_conv_all_nth in_set_conv_nth intro: bumped_input_graph)

lemma build_fee_bump_OkE:
  assumes "build_fee_bump B wit_len fee_div A w txid = (Ok P :: (build_fee_bump_error, _) res)"
  obtains tx fee pos where "ga_get_tx (tga A) (w_graph w) txid = Some tx"
    "chain_positions A w txid = Some pos" "\<not> pos_is_confirmed pos"
    "\<exists>txin \<in> set (tx_input tx). sequence txin \<le> 0xFFFFFFFD"
    "ga_calculate_fee (tga A) (w_graph w) tx = Some fee"
    "p_recipients P = map (\<lambda>txout. (txo_script txout, txo_value txout)) (outputs_to_keep A w (tx_output tx))"
    "map (\<lambda>wu. utxo_outpoint (wu_utxo wu)) (p_utxos P) = map previous_output (tx_input tx)"
    "p_bumping_fee P = Some \<lparr>pf_absolute = fee, pf_rate = fee_div fee (tx_weight B tx)\<rparr>"
    "p_fee_policy P = None" "p_version P = Some (tx_version tx)"
    "\<forall>wu \<in> set (p_utxos P). utxo_ok (wu_utxo wu) \<longrightarrow> graph_output A w (wu_utxo wu)"
proof -
  from assms obtain tx pos fee utxos where t: "ga_get_tx (tga A) (w_graph w) txid = Some tx"
    "chain_positions A w txid = Some pos" "\<not> pos_is_confirmed pos"
    and l: "list_ex (\<lambda>txin. sequence txin \<le> 0xFFFFFFFD) (tx_input tx)"
    and f: "ga_calculate_fee (tga A) (w_graph w) tx = Some fee"
    and u: "res_map (bumped_input B wit_len A w) (tx_input tx) = (Ok utxos :: (build_fee_bump_error, _) res)"
    and P: "P = tx_params_default\<lparr>p_version := Some (tx_version tx),
        p_recipients := map (\<lambda>txout. (txo_script txout, txo_value txout)) (outputs_to_keep A w (tx_output tx)),
        p_utxos := utxos,
        p_bumping_fee := Some \<lparr>pf_absolute = fee, pf_rate = fee_div fee (tx_weight B tx)\<rparr>\<rparr>"
    by (auto simp: build_fee_bump_def res_simps Let_def)
  show thesis
    by (rule that [of tx pos fee], rule t, rule t, rule t)
      (use l f bumped_inputs_outpoints [OF u] bumped_inputs_graph [OF u]
       in \<open>simp_all add: P tx_params_default_def list_ex_iff\<close>)
qed

lemma change_position_SomeD:
  assumes "change_position A w outs = Some i"
  shows "i < length outs \<and> (\<exists>di. ia_index_of_spk (ixa A) (w_index w) (txo_script (outs ! i))
     = Some (map_keychain A w Internal, di))"
  using assms
proof (induction outs arbitrary: i rule: rev_induct)
  case Nil
  then show ?case by (simp add: change_position_def)
next
  case (snoc x xs)
  have "change_position A w (xs @ [x])
      = (case ia_index_of_spk (ixa A) (w_index w) (txo_script x) of
           Some (k, _) \<Rightarrow> (if k = map_keychain A w Internal then Some (length xs) else change_position A w xs)
         | None \<Rightarrow> change_position A w xs)"
    unfolding change_position_def by (simp add: enumerate_append_eq)
  then show ?case
    using snoc.prems snoc.IH [of i]
    by (auto split: option.splits if_splits simp: nth_append)
qed

lemma outputs_to_keep_cases:
  obtains "outputs_to_keep A w outs = outs"
  | pre x post di where "outs = pre @ x # post" "outputs_to_keep A w outs = pre @ post"
      "ia_index_of_spk (ixa A) (w_index w) (txo_script x) = Some (map_keychain A w Internal, di)"
proof (cases "length outs > 1 \<and> change_position A w outs \<noteq> None")
  case True
  then obtain i where i: "change_position A w outs = Some i" by blast
  then obtain di where d: "i < length outs"
    "ia_index_of_spk (ixa A) (w_index w) (txo_script (outs ! i)) = Some (map_keychain A w Internal, di)"
    using change_position_SomeD by blast
  show thesis
    by (rule that(2) [OF id_take_nth_drop [OF d(1)] _ d(2)])
      (use True i in \<open>simp add: outputs_to_keep_def remove_at_def\<close>)
next
  case False
  then show thesis
    by (intro that(1)) (auto simp: outputs_to_keep_def)
qed

text \<open>What a builder for a fee bump keeps of the outputs: all, or all but one that pays to the
  keychain change goes to.\<close>

definition keeps_outputs where
  "keeps_outputs A w outs kept \<longleftrightarrow> kept = outs \<or>
     (\<exists>pre x post di. outs = pre @ x # post \<and> kept = pre @ post \<and>
        ia_index_of_spk (ixa A) (w_index w) (txo_script x) = Some (map_keychain A w Internal, di))"

lemma outputs_to_keep_keeps: "keeps_outputs A w outs (outputs_to_keep A w outs)"
  by (rule outputs_to_keep_cases [of A w outs]) (auto simp: keeps_outputs_def)

lemma recipient_out_back: "map recipient_out (map (\<lambda>txout. (txo_script txout, txo_value txout)) outs) = outs"
  by (induction outs) (simp_all add: recipient_out_def)

lemma bump_fee_chosen:
  assumes "create_tx B X E A S next_u32 select w P rng = Ok (p, w', rng')"
  obtains rate fee where "choose_fee P = Ok (rate, fee)"
  using assms by (auto simp: create_tx_def res_simps dest: plan_tx_fee)

text \<open>C6: a fee bump replaces the transaction and pays more for it. When the builder for a fee bump is
  finished with an absolute fee, the replaced transaction was unconfirmed and signalled that it can
  be replaced; the new transaction spends every input of it, has every output of it but at most one
  to the wallet's change keychain. What it spends is worth its outputs and the new fee, which is at
  least the fee of the replaced transaction, when every output spent counts with the value the wallet
  has for it: as an unspent output of its own, or as an output of its transaction graph.\<close>

theorem fee_bump_replaces:
  assumes "coin_selector B select" and "sorters_lawful S" and "psbt_updates_lawful (dsa A)"
    and "build_fee_bump B wit_len fee_div A w txid = (Ok P :: (build_fee_bump_error, _) res)"
    and "create_tx B X E A S next_u32 select w (tb_fee_absolute new_fee P) rng = Ok (p, w', rng')"
  shows "\<exists>tx fee us. ga_get_tx (tga A) (w_graph w) txid = Some tx \<and>
     ga_calculate_fee (tga A) (w_graph w) tx = Some fee \<and> fee \<le> new_fee \<and>
     (\<exists>pos. chain_positions A w txid = Some pos \<and> \<not> pos_is_confirmed pos) \<and>
     (\<exists>txin \<in> set (tx_input tx). sequence txin \<le> 0xFFFFFFFD) \<and>
     mset (map previous_output (tx_input tx)) \<subseteq># mset (map previous_output (tx_input (unsigned_tx p))) \<and>
     (\<exists>kept. keeps_outputs A w (tx_output tx) kept \<and> mset kept \<subseteq># mset (tx_output (unsigned_tx p))) \<and>
     mset (map previous_output (tx_input (unsigned_tx p))) = mset (map utxo_outpoint us) \<and>
     (\<forall>u \<in> set us. utxo_ok u \<and> (u \<in> Local ` set (list_unspent A w) \<or> graph_output A w u)) \<and>
     outputs_total (tx_output (unsigned_tx p)) + new_fee \<le> total_in us"
proof -
  from assms(4) obtain tx fee pos where b: "ga_get_tx (tga A) (w_graph w) txid = Some tx"
    "chain_positions A w txid = Some pos" "\<not> pos_is_confirmed pos"
    "\<exists>txin \<in> set (tx_input tx). sequence txin \<le> 0xFFFFFFFD"
    "ga_calculate_fee (tga A) (w_graph w) tx = Some fee"
    "p_recipients P = map (\<lambda>txout. (txo_script txout, txo_value txout)) (outputs_to_keep A w (tx_output tx))"
    "map (\<lambda>wu. utxo_outpoint (wu_utxo wu)) (p_utxos P) = map previous_output (tx_input tx)"
    "p_bumping_fee P = Some \<lparr>pf_absolute = fee, pf_rate = fee_div fee (tx_weight B tx)\<rparr>"
    "\<forall>wu \<in> set (p_utxos P). utxo_ok (wu_utxo wu) \<longrightarrow> graph_output A w (wu_utxo wu)"
    by (rule build_fee_bump_OkE)
  let ?P = "tb_fee_absolute new_fee P"
  have P: "p_recipients ?P = p_recipients P" "p_utxos ?P = p_utxos P" "p_bumping_fee ?P = p_bumping_fee P"
    "flat_fee ?P = new_fee"
    by (simp_all add: tb_fee_absolute_def flat_fee_def)
  obtain us change where t:
    "mset (map previous_output (tx_input (unsigned_tx p))) = mset (map utxo_outpoint us)"
    "mset (tx_output (unsigned_tx p)) = mset (map recipient_out (p_recipients ?P) @ change)"
    "outputs_total (tx_output (unsigned_tx p)) + flat_fee ?P \<le> total_in us"
    and spent: "\<forall>u \<in> set us. utxo_ok u \<and> (u \<in> wu_utxo ` set (p_utxos ?P) \<or> u \<in> Local ` set (list_unspent A w))"
    using tx_balances [OF assms(1-3,5)] by blast
  have from_graph: "\<forall>u \<in> set us. utxo_ok u \<and> (u \<in> Local ` set (list_unspent A w) \<or> graph_output A w u)"
    using spent b(9) unfolding P(2) by force
  have outs: "mset (outputs_to_keep A w (tx_output tx)) \<subseteq># mset (tx_output (unsigned_tx p))"
    unfolding t(2) P(1) b(6) mset_append recipient_out_back by simp
  have ins: "mset (map previous_output (tx_input tx)) \<subseteq># mset (map previous_output (tx_input (unsigned_tx p)))"
    using tx_inputs [OF assms(1-3,5)] unfolding P(2) b(7) by blast
  have "fee \<le> new_fee"
    using assms(5)
    by (rule bump_fee_chosen)
      (auto simp: choose_fee_def tb_fee_absolute_def b(8) split: if_splits)
  then show ?thesis
    using b(1-5) outs outputs_to_keep_keeps [of A w "tx_output tx"] ins t(1,3) from_graph P(4)
    by (intro exI [of _ tx] exI [of _ fee] exI [of _ us]) auto
qed

text \<open>C7: a fee bump by rate pays a higher rate. When the builder for a fee bump is finished with a
  fee rate, the rate is at least one satoshi per virtual byte (250 satoshi per 1000 weight units)
  more than the rate of the replaced transaction, every input of it is spent, and the new
  transaction pays that rate for its estimated weight, when every output it spends counts with the
  value the wallet has for it.\<close>

theorem fee_bump_raises_rate:
  assumes "fee_paying_selector B select" and "sorters_lawful S" and "psbt_updates_lawful (dsa A)"
    and "fee_lawful B"
    and "build_fee_bump B wit_len fee_div A w txid = (Ok P :: (build_fee_bump_error, _) res)"
    and "create_tx B X E A S next_u32 select w (tb_fee_rate rate P) rng = Ok (p, w', rng')"
  shows "\<exists>tx fee ws change. ga_get_tx (tga A) (w_graph w) txid = Some tx \<and>
     ga_calculate_fee (tga A) (w_graph w) tx = Some fee \<and> fee_div fee (tx_weight B tx) + BROADCAST_MIN \<le> rate \<and>
     mset (map previous_output (tx_input tx)) \<subseteq># mset (map previous_output (tx_input (unsigned_tx p))) \<and>
     mset (map previous_output (tx_input (unsigned_tx p))) = mset (map (\<lambda>wu. utxo_outpoint (wu_utxo wu)) ws) \<and>
     (\<forall>wu \<in> set ws. utxo_ok (wu_utxo wu) \<and>
        (wu \<in> set (p_utxos P) \<and> graph_output A w (wu_utxo wu) \<or>
         (\<exists>l \<in> set (list_unspent A w). \<exists>d. wu_utxo wu = Local l \<and>
            public_descriptor A w (lo_keychain l) = (Ok d :: (create_tx_error, _) res) \<and>
            da_max_weight (dsa A) d = Some (satisfaction_weight wu)))) \<and>
     mset (tx_output (unsigned_tx p)) = mset (map recipient_out (p_recipients P) @ change) \<and>
     length change \<le> 1 \<and>
     (\<forall>f. fee_mul B rate (tx_weight B (unfunded_tx (tx_version (unsigned_tx p)) (tx_lock_time (unsigned_tx p))
           (p_recipients P)) + inputs_weight B ws + change_weight B change) = Some f \<longrightarrow>
        outputs_total (tx_output (unsigned_tx p)) + f \<le> sum_list (map wu_value ws))"
proof -
  from assms(5) obtain tx fee where b: "ga_get_tx (tga A) (w_graph w) txid = Some tx"
    "ga_calculate_fee (tga A) (w_graph w) tx = Some fee"
    "map (\<lambda>wu. utxo_outpoint (wu_utxo wu)) (p_utxos P) = map previous_output (tx_input tx)"
    "p_bumping_fee P = Some \<lparr>pf_absolute = fee, pf_rate = fee_div fee (tx_weight B tx)\<rparr>"
    and graph: "\<forall>wu \<in> set (p_utxos P). utxo_ok (wu_utxo wu) \<longrightarrow> graph_output A w (wu_utxo wu)"
    by (rule build_fee_bump_OkE)
  have P: "p_recipients (tb_fee_rate rate P) = p_recipients P" "p_utxos (tb_fee_rate rate P) = p_utxos P"
    "p_fee_policy (tb_fee_rate rate P) = Some (FeeRate rate)"
    by (simp_all add: tb_fee_rate_def)
  have ins: "mset (map previous_output (tx_input tx)) \<subseteq># mset (map previous_output (tx_input (unsigned_tx p)))"
    using tx_inputs [OF fee_paying_selector.axioms(1) [OF assms(1)] assms(2,3,6)] by (simp add: P(2) b(3))
  have raised: "fee_div fee (tx_weight B tx) + BROADCAST_MIN \<le> rate"
    using assms(6)
    by (rule bump_fee_chosen)
      (auto simp: choose_fee_def tb_fee_rate_def b(4) res_simps split: if_splits)
  show ?thesis
    using tx_pays_rate [OF assms(1-4) P(3) assms(6)] b(1,2) ins raised graph
    unfolding P(1,2) by (elim exE) (intro exI conjI, assumption+, blast+)
qed

end
