(* ===== verification/Example_Fee_Bump.thy ===== *)
theory Example_Fee_Bump
  imports Fee_Bump Example_Wallet
begin

section \<open>A fee bump on the concrete wallet\<close>

text \<open>
  The concrete wallet has sent 5000 satoshi from its output \<open>8:0\<close> with a fee of 300, in a transaction
  that is not confirmed yet. The fee is bumped with an absolute fee and with a fee rate, and the
  theorems about fee bumps are applied to the two runs.
\<close>

definition funding_tx :: transaction where
  "funding_tx = \<lparr>tx_version = 2, tx_lock_time = Blocks 8, tx_input = [],
     tx_output = [\<lparr>txo_value = 9000, txo_script = [1, 1]\<rparr>], tx_mw_tx = None, tx_is_hog_ex = False\<rparr>"

definition sent_tx :: transaction where
  "sent_tx = \<lparr>tx_version = 2, tx_lock_time = Blocks 400,
     tx_input = [\<lparr>previous_output = OutPoint 8 0, script_sig = [], sequence = 0xFFFFFFFD, witness = []\<rparr>],
     tx_output = [\<lparr>txo_value = 5000, txo_script = [2, 2, 2]\<rparr>], tx_mw_tx = None, tx_is_hog_ex = False\<rparr>"

definition funding_position :: chain_position where
  "funding_position = Confirmed \<lparr>cbt_block = \<lparr>bid_height = 100, bid_hash = 4\<rparr>, cbt_time = 3\<rparr> None"

definition bump_api where
  "bump_api = example_api\<lparr>cha := example_chain_api\<lparr>va_txs := (\<lambda>cv.
     [\<lparr>ct_txid = 8, ct_tx = funding_tx, ct_pos = funding_position\<rparr>,
      \<lparr>ct_txid = 400, ct_tx = sent_tx, ct_pos = Unconfirmed (Some 7) (Some 7)\<rparr>])\<rparr>\<rparr>"

definition bump_wallet where
  "bump_wallet = example_wallet\<lparr>w_graph := [funding_tx, sent_tx]\<rparr>"

definition feerate_of :: "amount \<Rightarrow> weight \<Rightarrow> feerate" where
  "feerate_of fee weight = fee * 1000 div weight"

definition bump_coin :: utxo where
  "bump_coin = Local \<lparr>lo_outpoint = OutPoint 8 0, lo_txout = \<lparr>txo_value = 9000, txo_script = [1, 1]\<rparr>,
     lo_keychain = External, lo_is_spent = True, lo_derivation_index = 0, lo_chain_position = funding_position\<rparr>"

definition bump_params :: tx_params where
  "bump_params = tx_params_default\<lparr>p_version := Some 2, p_recipients := [([2, 2, 2], 5000)],
     p_utxos := [\<lparr>satisfaction_weight = 100, wu_utxo = bump_coin\<rparr>],
     p_bumping_fee := Some \<lparr>pf_absolute = 300, pf_rate = 882\<rparr>\<rparr>"

lemmas bump_defs = bump_api_def bump_wallet_def example_api_def example_index_api_def example_graph_api_def
  example_chain_api_def example_desc_api_def example_wallet_def funding_tx_def sent_tx_def

lemma bump_graph:
  "ga_get_tx (tga bump_api) (w_graph bump_wallet) 400 = Some sent_tx"
  "ga_get_txout (tga bump_api) (w_graph bump_wallet) (OutPoint 8 0)
     = Some \<lparr>txo_value = 9000, txo_script = [1, 1]\<rparr>"
  "ga_calculate_fee (tga bump_api) (w_graph bump_wallet) tx = Some 300"
  "chain_positions bump_api bump_wallet 400 = Some (Unconfirmed (Some 7) (Some 7))"
  "chain_positions bump_api bump_wallet 8 = Some funding_position"
  by (simp_all add: bump_defs btc_example_def chain_positions_def get_nth_def)

lemma bump_index:
  "ia_index_of_spk (ixa bump_api) (w_index bump_wallet) [1, 1] = Some (External, 0)"
  "ia_index_of_spk (ixa bump_api) (w_index bump_wallet) [2, 2, 2] = None"
  "public_descriptor bump_api bump_wallet External = Ok 0"
  "da_max_weight (dsa bump_api) 0 = Some 100"
  by (simp_all add: bump_defs public_descriptor_def map_keychain_def keychains_def)

lemma bump_input:
  "bumped_input btc_example length bump_api bump_wallet
     \<lparr>previous_output = OutPoint 8 0, script_sig = [], sequence = 0xFFFFFFFD, witness = []\<rparr>
   = (Ok \<lparr>satisfaction_weight = 100, wu_utxo = bump_coin\<rparr> :: (build_fee_bump_error, _) res)"
  by (simp add: bumped_input_def bump_graph bump_index bump_coin_def)

lemma sent_tx_fields:
  "tx_version sent_tx = 2" "tx_output sent_tx = [\<lparr>txo_value = 5000, txo_script = [2, 2, 2]\<rparr>]"
  "tx_input sent_tx = [\<lparr>previous_output = OutPoint 8 0, script_sig = [], sequence = 0xFFFFFFFD, witness = []\<rparr>]"
  "tx_weight btc_example sent_tx = 340"
  by (simp_all add: sent_tx_def btc_example_def)

lemma bump_built:
  "build_fee_bump btc_example length feerate_of bump_api bump_wallet 400
     = (Ok bump_params :: (build_fee_bump_error, _) res)"
  by (simp add: build_fee_bump_def bump_graph sent_tx_fields fail_if_def bump_input outputs_to_keep_def)
    (simp add: feerate_of_def bump_params_def tx_params_default_def)

definition bump_run where
  "bump_run policy = bump_params\<lparr>p_fee_policy := Some policy\<rparr>"

lemma bump_run_fields:
  "p_manually_selected_only (bump_run f) = False" "p_allow_dust (bump_run f) = False"
  "p_ordering (bump_run f) = Shuffle" "p_add_global_xpubs (bump_run f) = False"
  "p_utxos (bump_run f) = [\<lparr>satisfaction_weight = 100, wu_utxo = bump_coin\<rparr>]"
  "p_fee_policy (bump_run f) = Some f" "p_recipients (bump_run f) = [([2, 2, 2], 5000)]"
  "p_version (bump_run f) = Some 2" "p_current_height (bump_run f) = None"
  "p_drain_wallet (bump_run f) = False" "p_drain_to (bump_run f) = None"
  "p_bumping_fee (bump_run f) = Some \<lparr>pf_absolute = 300, pf_rate = 882\<rparr>"
  "p_locktime (bump_run f) = None" "p_sequence (bump_run f) = None" "p_unspendable (bump_run f) = []"
  "p_change_policy (bump_run f) = ChangeAllowed" "p_sighash (bump_run f) = None"
  "p_only_witness_utxo (bump_run f) = False"
  "p_external_policy_path (bump_run f) = None" "p_internal_policy_path (bump_run f) = None"
  by (simp_all add: bump_run_def bump_params_def tx_params_default_def)

lemma bump_keychains:
  "keychains bump_api bump_wallet = [(External, 0), (Internal, 1)]"
  "wallet_keychains bump_api bump_wallet = [(External, 0), (Internal, 1)]"
  by (simp_all add: keychains_def wallet_keychains_def bump_defs bt_extend_def less_keychain_kind_def)

lemma bump_policies:
  "wallet_policies btc_example example_env bump_api bump_wallet
     = Ok (example_wallet_policy, Some example_wallet_policy)"
proof -
  have "policy_of_descriptor btc_example example_env bump_api ([] :: nat signers_container) d
      = Ok example_wallet_policy" for d
    by (simp add: policy_of_descriptor_def bump_defs example_wallet_policy_def)
  moreover have "w_signers bump_wallet = []" "w_change_signers bump_wallet = []"
    by (simp_all add: bump_defs)
  ultimately show ?thesis
    by (simp add: wallet_policies_def bump_keychains bt_get_def)
qed

definition bump_plan :: "feerate \<Rightarrow> amount \<Rightarrow> tx_plan" where
  "bump_plan rate fee = \<lparr>pl_version = 2, pl_lock_time = Blocks 200, pl_height = Blocks 200,
     pl_sequence = 0xFFFFFFFD, pl_rate = rate, pl_fee = fee\<rparr>"

lemma bump_choices:
  "choose_version (bump_run f) \<lparr>csv = None, timelock = None\<rparr> = Ok 2"
  "choose_current_height bump_api bump_wallet (bump_run f) = Ok (Blocks 200)"
  "choose_lock_time None None (Blocks 200) = Ok (Blocks 200)"
  "choose_sequence btc_example None None = Ok 0xFFFFFFFD"
  "check_policy_paths btc_example (bump_run f) example_wallet_policy (Some example_wallet_policy) = Ok ()"
  "policy_requirements btc_example (bump_run f) example_wallet_policy (Some example_wallet_policy)
     = Ok \<lparr>csv = None, timelock = None\<rparr>"
  by (simp_all add: choose_version_def condition_default_def choose_current_height_def bump_run_fields
      bump_defs locktime_from_height_def choose_lock_time_def choose_sequence_def ENABLE_RBF_NO_LOCKTIME_def
      check_policy_paths_def example_requires_path policy_requirements_def example_condition
      condition_merge_def fail_if_def)

lemma bump_planned:
  assumes "choose_fee (bump_run f) = Ok (rate, fee)"
  shows "plan_tx btc_example example_env bump_api bump_wallet (bump_run f) = Ok (bump_plan rate fee)"
  by (simp add: plan_tx_def bump_policies assms bump_run_fields bump_choices bump_plan_def)

lemma bump_candidates:
  "candidates bump_api bump_wallet (bump_run f) 200 2
     = Ok ([\<lparr>satisfaction_weight = 100, wu_utxo = bump_coin\<rparr>],
         [\<lparr>satisfaction_weight = 100, wu_utxo = example_coin (OutPoint 7 0)\<rparr>])"
  by (simp add: candidates_def filter_utxos_def bump_run_fields mature_unspent_def List.map_filter_def
      is_outpoint_locked_def may_spend_def truc_ok_def weighted_local_def bump_coin_def
      bump_defs new_local_utxo_def example_full_txout_def public_descriptor_def map_keychain_def
      keychains_def example_coin_def)

lemma bump_drain_script:
  "choose_drain_script bump_api bump_wallet (bump_run f) = Ok ([9, 9], Some (Internal, 3))"
  by (simp add: choose_drain_script_def unused_or_next_def peek_spk_def address_info_of_def bump_run_fields
      map_keychain_def keychains_def bump_defs)

lemma bump_recipients:
  "add_recipients btc_example False 0 [([2, 2, 2], 5000)] ([], 0)
     = Ok ([\<lparr>txo_value = 5000, txo_script = [2, 2, 2]\<rparr>], 5000)"
  by (simp add: is_dust_def btc_example_def u64_add_def U64_MAX_def)

text \<open>The selection takes the output \<open>8:0\<close>, which is enough, and makes a change output.\<close>

lemma bump_selection:
  "largest_first_select btc_example sort_by [\<lparr>satisfaction_weight = 100, wu_utxo = bump_coin\<rparr>]
      [\<lparr>satisfaction_weight = 100, wu_utxo = example_coin (OutPoint 7 0)\<rparr>] 0 6000 [9, 9] rng
   = Ok (\<lparr>selected = [bump_coin], fee_amount = 0, cs_excess = Change 3000 0\<rparr>, rng)"
  "largest_first_select btc_example sort_by [\<lparr>satisfaction_weight = 100, wu_utxo = bump_coin\<rparr>]
      [\<lparr>satisfaction_weight = 100, wu_utxo = example_coin (OutPoint 7 0)\<rparr>] 2000 5352 [9, 9] rng
   = Ok (\<lparr>selected = [bump_coin], fee_amount = 528, cs_excess = Change 3032 88\<rparr>, rng)"
  by (simp_all add: largest_first_select_def select_eval value_le_def example_full_txout_def new_local_utxo_def
      Let_def panic_unless_def example_coin_def bump_coin_def)

text \<open>The shuffle draws one number and swaps the two outputs.\<close>

definition bump_unsigned :: "amount \<Rightarrow> transaction" where
  "bump_unsigned change = \<lparr>tx_version = 2, tx_lock_time = Blocks 200,
     tx_input = [make_input 0xFFFFFFFD bump_coin],
     tx_output = [\<lparr>txo_value = change, txo_script = [9, 9]\<rparr>, \<lparr>txo_value = 5000, txo_script = [2, 2, 2]\<rparr>],
     tx_mw_tx = None, tx_is_hog_ex = False\<rparr>"

lemma bump_shuffled:
  "sort_tx_with_aux_rand example_sorters (\<lambda>r. (r, r + 1)) Shuffle
     \<lparr>tx_version = 2, tx_lock_time = Blocks 200, tx_input = [make_input 0xFFFFFFFD bump_coin],
      tx_output = [\<lparr>txo_value = 5000, txo_script = [2, 2, 2]\<rparr>, \<lparr>txo_value = change, txo_script = [9, 9]\<rparr>],
      tx_mw_tx = None, tx_is_hog_ex = False\<rparr> 0 = (bump_unsigned change, 1 :: u32)"
  by (simp add: sort_tx_with_aux_rand_def shuffle_slice_def swap_def bump_unsigned_def)

lemma bump_base_fee:
  "fee_mul btc_example rate (tx_weight btc_example \<lparr>tx_version = 2, tx_lock_time = Blocks 200, tx_input = [],
     tx_output = [\<lparr>txo_value = 5000, txo_script = [2, 2, 2]\<rparr>], tx_mw_tx = None, tx_is_hog_ex = False\<rparr>)
   = (if (rate * 176 + 999) div 1000 \<le> U64_MAX then Some ((rate * 176 + 999) div 1000) else None)"
  by (simp add: btc_example_def)

lemma bump_build:
  "build_unsigned btc_example bump_api example_sorters (\<lambda>r. (r, r + 1)) (largest_first_select btc_example sort_by)
     bump_wallet (bump_run f) (bump_plan 0 1000) (0 :: u32)
   = Ok (bump_unsigned 3000, \<lparr>selected = [bump_coin], fee_amount = 0, cs_excess = Change 3000 0\<rparr>, Some (Internal, 3), 1)"
  "build_unsigned btc_example bump_api example_sorters (\<lambda>r. (r, r + 1)) (largest_first_select btc_example sort_by)
     bump_wallet (bump_run f) (bump_plan 2000 0) (0 :: u32)
   = Ok (bump_unsigned 3032, \<lparr>selected = [bump_coin], fee_amount = 528, cs_excess = Change 3032 88\<rparr>, Some (Internal, 3), 1)"
  by (simp_all add: build_unsigned_def bump_run_fields bump_plan_def bump_recipients fail_if_def
      bump_candidates bump_drain_script bump_base_fee bump_selection u64_add_def U64_MAX_def)
    (simp_all add: check_outputs_def add_change_def bump_shuffled is_dust_def btc_example_def)

text \<open>The input of the PSBT carries the previous transaction and the output.\<close>

definition bump_pin :: psbt_input where
  "bump_pin = psbt_input_default\<lparr>witness_utxo := Some \<lparr>txo_value = 9000, txo_script = [1, 1]\<rparr>,
     non_witness_utxo := Some funding_tx\<rparr>"

lemma bump_input_for:
  "psbt_input_for btc_example bump_api bump_wallet (bump_run f) bump_coin = Ok bump_pin"
  by (simp add: psbt_input_for_def bump_coin_def local_psbt_input_def get_psbt_input_def bump_run_fields
      bump_defs public_descriptor_def map_keychain_def keychains_def psbt_input_default_def
      btc_example_def fill_prevout_def get_nth_def bump_pin_def)

definition bump_psbt :: "amount \<Rightarrow> psbt" where
  "bump_psbt change = (psbt_from_unsigned_tx (bump_unsigned change))\<lparr>inputs := [bump_pin]\<rparr>"

lemma bump_update_one: "update_one bump_api bump_wallet p e = Ok p"
proof -
  have "da_at_index (dsa bump_api) 0 i = Some (0, i)" "da_update_input (dsa bump_api) n d p = Ok p"
    "da_update_output (dsa bump_api) n d p = Ok p"
    "ia_index_of_spk (ixa bump_api) (w_index bump_wallet) s = (if s = [1, 1] then Some (External, 0) else None)"
    for i n d s
    by (simp_all add: bump_defs)
  then show ?thesis
    by (simp add: update_one_def bump_index split: prod.split)
qed

lemma bump_updates: "res_fold (update_one bump_api bump_wallet) p es = Ok p"
  by (induction es) (simp_all add: bump_update_one)

lemma bump_updated:
  "update_psbt_with_descriptor btc_example bump_api bump_wallet (bump_psbt change) = Ok (bump_psbt change)"
proof -
  have "inputs (bump_psbt change) = [bump_pin]" "witness_utxo bump_pin = Some \<lparr>txo_value = 9000, txo_script = [1, 1]\<rparr>"
    by (simp_all add: bump_psbt_def bump_pin_def)
  then show ?thesis
    by (simp add: update_psbt_with_descriptor_def bump_updates get_utxo_for_def get_nth_def)
qed

lemma bump_completed:
  "complete_transaction btc_example example_xpubs example_env bump_api bump_wallet (bump_unsigned change)
     [bump_coin] (bump_run f) = Ok (bump_psbt change)"
proof -
  have "utxo_outpoint bump_coin = OutPoint 8 0"
    by (simp add: bump_coin_def)
  then have "fill_inputs (psbt_input_for btc_example bump_api bump_wallet (bump_run f)) (selected_map [bump_coin])
     (zip (inputs (psbt_from_unsigned_tx (bump_unsigned change))) (tx_input (bump_unsigned change))) = Ok [bump_pin]"
    by (simp add: psbt_from_unsigned_tx_def bump_unsigned_def selected_map_def make_input_def bump_input_for)
  moreover have "unsigned_tx (psbt_from_unsigned_tx (bump_unsigned change)) = bump_unsigned change"
    by (simp add: psbt_from_unsigned_tx_def)
  ultimately show ?thesis
    by (simp add: complete_transaction_def add_xpubs_def bump_run_fields bump_updated [unfolded bump_psbt_def] bump_psbt_def)
qed

lemma bump_created:
  "create_tx btc_example example_xpubs example_env bump_api example_sorters (\<lambda>r. (r, r + 1))
     (largest_first_select btc_example sort_by) bump_wallet (tb_fee_absolute 1000 bump_params) (0 :: u32)
   = Ok (bump_psbt 3000, record_change bump_api bump_wallet (Change 3000 0) (Some (Internal, 3)), 1)"
  "create_tx btc_example example_xpubs example_env bump_api example_sorters (\<lambda>r. (r, r + 1))
     (largest_first_select btc_example sort_by) bump_wallet (tb_fee_rate 2000 bump_params) (0 :: u32)
   = Ok (bump_psbt 3032, record_change bump_api bump_wallet (Change 3032 88) (Some (Internal, 3)), 1)"
proof -
  have c: "choose_fee (bump_run (FeeAmount 1000)) = Ok (0, 1000)" "choose_fee (bump_run (FeeRate 2000)) = Ok (2000, 0)"
    by (simp_all add: choose_fee_def bump_run_fields u64_add_def U64_MAX_def BROADCAST_MIN_def)
  have f: "tb_fee_absolute 1000 bump_params = bump_run (FeeAmount 1000)"
    "tb_fee_rate 2000 bump_params = bump_run (FeeRate 2000)"
    by (simp_all add: tb_fee_absolute_def tb_fee_rate_def bump_run_def)
  show "create_tx btc_example example_xpubs example_env bump_api example_sorters (\<lambda>r. (r, r + 1))
     (largest_first_select btc_example sort_by) bump_wallet (tb_fee_absolute 1000 bump_params) (0 :: u32)
   = Ok (bump_psbt 3000, record_change bump_api bump_wallet (Change 3000 0) (Some (Internal, 3)), 1)"
    by (simp add: create_tx_def f bump_planned [OF c(1)] bump_build bump_completed)
  show "create_tx btc_example example_xpubs example_env bump_api example_sorters (\<lambda>r. (r, r + 1))
     (largest_first_select btc_example sort_by) bump_wallet (tb_fee_rate 2000 bump_params) (0 :: u32)
   = Ok (bump_psbt 3032, record_change bump_api bump_wallet (Change 3032 88) (Some (Internal, 3)), 1)"
    by (simp add: create_tx_def f bump_planned [OF c(2)] bump_build bump_completed)
qed

subsection \<open>The theorems at these runs\<close>

lemma bump_lawful: "psbt_updates_lawful (dsa bump_api)"
  using example_lawful(4) by (simp add: bump_api_def)

theorem fee_bump_replaces_witness:
  "\<exists>tx us. ga_get_tx (tga bump_api) (w_graph bump_wallet) 400 = Some tx \<and>
     mset (map previous_output (tx_input tx)) \<subseteq># mset (map previous_output (tx_input (unsigned_tx (bump_psbt 3000)))) \<and>
     outputs_total (tx_output (unsigned_tx (bump_psbt 3000))) + 1000 \<le> total_in us"
  using fee_bump_replaces [OF example_lawful(1,3) bump_lawful bump_built bump_created(1)] by blast

theorem fee_bump_raises_rate_witness:
  "\<exists>tx fee (ws :: weighted_utxo list). ga_calculate_fee (tga bump_api) (w_graph bump_wallet) tx = Some fee \<and>
     feerate_of fee (tx_weight btc_example tx) + BROADCAST_MIN \<le> 2000 \<and>
     mset (map previous_output (tx_input (unsigned_tx (bump_psbt 3032)))) = mset (map (\<lambda>wu. utxo_outpoint (wu_utxo wu)) ws)"
  using fee_bump_raises_rate [OF example_lawful(2,3) bump_lawful fee_lawful_example bump_built bump_created(2)]
  by (elim exE conjE) (intro exI conjI, assumption+)

end
