(* ===== verification/Mweb.thy ===== *)
theory Mweb
  imports Create_Tx
begin

section \<open>The MWEB facade (src/wallet/mweb.rs)\<close>

text \<open>
  The combined balance, the coin store beside the wallet, the selection of MWEB coins and the ways to
  move money into, inside and out of the extension block. The coin database, the cryptography and the
  authoring of MWEB transactions are those of \<open>bdk_mweb\<close>, collected in \<open>mweb_api\<close>. Of a coin only the
  identity and the amount are read here. Amounts that arrive as \<open>u64\<close> are added with overflow
  checks unless the code says \<open>saturating_add\<close>. The MWEB maps of a PSBT are a component of its own
  beside the transparent \<open>psbt\<close>.
\<close>

subsection \<open>Balances and the parameters of a spend\<close>

record combined_balance =
  cb_transparent :: balance
  cb_mweb_confirmed :: amount
  cb_mweb_untrusted_pending :: amount

definition mweb_total :: "combined_balance \<Rightarrow> ('e, amount) res" where
  "mweb_total b = u64_add (cb_mweb_confirmed b) (cb_mweb_untrusted_pending b)"

text \<open>\<open>total\<close> and \<open>trusted_spendable\<close> of the transparent balance are \<open>bdk_chain\<close>'s.\<close>

definition combined_total :: "(balance \<Rightarrow> amount) \<Rightarrow> combined_balance \<Rightarrow> ('e, amount) res" where
  "combined_total balance_total b =
     res_bind (mweb_total b) (\<lambda>m. u64_add (balance_total (cb_transparent b)) m)"

definition combined_trusted_spendable :: "(balance \<Rightarrow> amount) \<Rightarrow> combined_balance \<Rightarrow> ('e, amount) res" where
  "combined_trusted_spendable trusted b = u64_add (trusted (cb_transparent b)) (cb_mweb_confirmed b)"

definition u64_saturating_add :: "nat \<Rightarrow> nat \<Rightarrow> nat" where
  "u64_saturating_add a b = min (a + b) U64_MAX"

record mweb_spend_params =
  ms_amount :: amount
  ms_fee :: amount
  ms_change_index :: u32

definition mweb_spend_params_new :: "amount \<Rightarrow> amount \<Rightarrow> u32 \<Rightarrow> mweb_spend_params" where
  "mweb_spend_params_new a fee i = \<lparr>ms_amount = a, ms_fee = fee, ms_change_index = i\<rparr>"

definition mweb_needed :: "mweb_spend_params \<Rightarrow> nat" where
  "mweb_needed params = u64_saturating_add (ms_amount params) (ms_fee params)"

subsection \<open>Coins\<close>

record mweb_coin =
  mc_output_id :: "u8 list"
  mc_amount :: nat

datatype 'me mweb_facade_error =
  FNoMwebCoins
| FInsufficientMwebFunds amount amount
| FCreateTx create_tx_error
| FMweb 'me

text \<open>The loop over the sorted coins; \<open>sort_by_key\<close> is stable.\<close>

fun take_coins :: "nat \<Rightarrow> nat \<Rightarrow> mweb_coin list \<Rightarrow> mweb_coin list" where
  "take_coins want acc [] = []"
| "take_coins want acc (coin # rest) =
     (let acc = u64_saturating_add acc (mc_amount coin) in
      if want \<le> acc then [coin] else coin # take_coins want acc rest)"

definition select_mweb_coins :: "mweb_coin list \<Rightarrow> nat \<Rightarrow> ('me mweb_facade_error, mweb_coin list) res" where
  "select_mweb_coins unspent want =
     (if unspent = [] then Err FNoMwebCoins
      else
        res_bind (u64_sum (map mc_amount unspent)) (\<lambda>available.
        if available < want then Err (FInsufficientMwebFunds want available)
        else
          let singles = filter (\<lambda>c. want \<le> mc_amount c) unspent in
          if singles \<noteq> [] then Ok [hd (sort_key mc_amount singles)]
          else Ok (take_coins want 0 (sort_key (\<lambda>c. - int (mc_amount c)) unspent))))"

subsection \<open>The coin database and the authoring of transactions\<close>

definition network_kind_of :: "bool \<Rightarrow> network_kind" where
  "network_kind_of is_mainnet = (if is_mainnet then Main else Test)"

record ('db, 'mcs, 'keys, 'addr, 'funded, 'ptx, 'maps, 'me) mweb_api =
  mw_new :: 'db
  mw_from_changeset :: "'mcs \<Rightarrow> 'db"
  mw_take_staged :: "'db \<Rightarrow> 'mcs \<times> 'db"
  mw_disconnect_from :: "u32 \<Rightarrow> 'db \<Rightarrow> 'db"
  mw_unspent :: "'db \<Rightarrow> mweb_coin list"
  mw_spendable :: "'db \<Rightarrow> u32 \<Rightarrow> mweb_coin list"
  mw_get_spent :: "'db \<Rightarrow> u8 list \<Rightarrow> mweb_coin option"
  mw_balance_at :: "'db \<Rightarrow> u32 \<Rightarrow> amount \<times> amount"
  mw_fund_spend :: "mweb_coin list \<Rightarrow> ('addr \<times> nat) list \<Rightarrow> (script \<times> nat) list \<Rightarrow> nat \<Rightarrow> 'keys \<Rightarrow> u32
      \<Rightarrow> network_kind \<Rightarrow> ('me, 'funded) res"
  mw_sign_funded :: "'keys \<Rightarrow> 'funded \<Rightarrow> ('me, 'funded) res"
  mw_change :: "'keys \<Rightarrow> 'funded \<Rightarrow> ('me, mweb_coin option) res"
  mw_extract :: "'funded \<Rightarrow> ('me, transaction) res"
  mw_finish :: "mweb_coin list \<Rightarrow> ('addr \<times> nat) list \<Rightarrow> (script \<times> nat) list \<Rightarrow> nat \<Rightarrow> 'keys \<Rightarrow> u32
      \<Rightarrow> network_kind \<Rightarrow> ('me, 'ptx) res"
  mw_fund_pegin :: "'keys \<Rightarrow> u32 \<Rightarrow> nat \<Rightarrow> nat \<Rightarrow> network_kind \<Rightarrow> ('me, 'funded) res"
  mw_sign_pegin :: "'keys \<Rightarrow> 'funded \<Rightarrow> ('me, u8 list \<times> 'funded) res"
  mw_maps :: "'funded \<Rightarrow> 'maps"
  mw_outputs :: "'funded \<Rightarrow> mweb_coin list"
  mw_sign_components :: "mweb_coin list \<Rightarrow> 'maps \<Rightarrow> ('me, 'maps) res"
  mw_input_ids :: "'maps \<Rightarrow> u8 list option list"

text \<open>\<open>CHANGE_ADDRESS_INDEX\<close>, "Core change index (0)".\<close>

definition CHANGE_ADDRESS_INDEX :: u32 where
  "CHANGE_ADDRESS_INDEX = 0"

subsection \<open>The coin store\<close>

record 'db mweb_store =
  ms_db :: 'db

definition mweb_store_new where
  "mweb_store_new W = \<lparr>ms_db = mw_new W\<rparr>"

definition mweb_from_changeset where
  "mweb_from_changeset W changeset = \<lparr>ms_db = mw_from_changeset W changeset\<rparr>"

definition mweb_take_staged where
  "mweb_take_staged W st = (case mw_take_staged W (ms_db st) of (changes, db) \<Rightarrow> (changes, st\<lparr>ms_db := db\<rparr>))"

definition mweb_disconnect_from where
  "mweb_disconnect_from W height st = st\<lparr>ms_db := mw_disconnect_from W height (ms_db st)\<rparr>"

text \<open>\<open>persist_file_store\<close> and \<open>persist_sqlite\<close>: the stage is taken before it is written. \<open>write\<close> is
  \<open>Store::append\<close>, or \<open>ChangeSet::persist_to_sqlite\<close> of \<open>bdk_mweb\<close>.\<close>

definition mweb_persist where
  "mweb_persist W write st f =
     (case mweb_take_staged W st of
        (changes, st) \<Rightarrow> (case write changes f of (r, f) \<Rightarrow> (r, st, f)))"

definition mweb_load_file_store where
  "mweb_load_file_store W load_or_create f =
     res_bind (load_or_create f) (\<lambda>(f, aggregated).
     Ok (case aggregated of Some cs \<Rightarrow> mweb_from_changeset W cs | None \<Rightarrow> mweb_store_new W, f))"

definition mweb_load_sqlite where
  "mweb_load_sqlite W init_tables read db =
     res_bind (init_tables db) (\<lambda>db. res_bind (read db) (\<lambda>cs. Ok (mweb_from_changeset W cs, db)))"

subsection \<open>The wallet's operations\<close>

definition tip_height where
  "tip_height A w = bid_height (ca_tip (cha A) (w_chain w))"

definition balance_combined_at where
  "balance_combined_at W A w db height =
     (case mw_balance_at W db height of
        (confirmed, pending) \<Rightarrow>
          \<lparr>cb_transparent = wallet_balance A w, cb_mweb_confirmed = confirmed, cb_mweb_untrusted_pending = pending\<rparr>)"

definition balance_combined where
  "balance_combined W A w db = balance_combined_at W A w db (tip_height A w)"

definition balance_combined_store where
  "balance_combined_store W A w st = balance_combined W A w (ms_db st)"

text \<open>The coins to sign with: the unspent ones and, once each, the spent ones that are inputs.\<close>

fun add_spent where
  "add_spent W db [] coins = coins"
| "add_spent W db (output_id # rest) coins =
     add_spent W db rest
       (case output_id of
          None \<Rightarrow> coins
        | Some oid \<Rightarrow>
            (case mw_get_spent W db oid of
               None \<Rightarrow> coins
             | Some c \<Rightarrow> if list_ex (\<lambda>x. mc_output_id x = oid) coins then coins else coins @ [c]))"

definition sign_mweb_components where
  "sign_mweb_components W maps db =
     map_err FMweb (mw_sign_components W (add_spent W db (mw_input_ids W maps) (mw_unspent W db)) maps)"

definition fund_mweb_send where
  "fund_mweb_send W A is_mainnet w db keys recipient params =
     res_bind (select_mweb_coins (mw_spendable W db (tip_height A w)) (mweb_needed params)) (\<lambda>coins.
     map_err FMweb (mw_fund_spend W coins [(recipient, ms_amount params)] [] (ms_fee params) keys
       (ms_change_index params) (network_kind_of (is_mainnet (w_network w)))))"

definition fund_mweb_pegout where
  "fund_mweb_pegout W A is_mainnet w db keys script_pubkey params =
     res_bind (select_mweb_coins (mw_spendable W db (tip_height A w)) (mweb_needed params)) (\<lambda>coins.
     map_err FMweb (mw_fund_spend W coins [] [(script_pubkey, ms_amount params)] (ms_fee params) keys
       (ms_change_index params) (network_kind_of (is_mainnet (w_network w)))))"

definition sign_and_extract_funded_mweb where
  "sign_and_extract_funded_mweb W funded keys =
     res_bind (map_err FMweb (mw_sign_funded W keys funded)) (\<lambda>funded.
     res_bind (map_err FMweb (mw_change W keys funded)) (\<lambda>change.
     res_bind (map_err FMweb (mw_extract W funded)) (\<lambda>tx. Ok ((tx, change), funded))))"

definition mweb_pool where
  "mweb_pool W A w db include_unconfirmed =
     (if include_unconfirmed then mw_unspent W db else mw_spendable W db (tip_height A w))"

definition build_mweb_send_with where
  "build_mweb_send_with W A is_mainnet w db keys recipient params include_unconfirmed =
     res_bind (select_mweb_coins (mweb_pool W A w db include_unconfirmed) (mweb_needed params)) (\<lambda>coins.
     map_err FMweb (mw_finish W coins [(recipient, ms_amount params)] [] (ms_fee params) keys
       (ms_change_index params) (network_kind_of (is_mainnet (w_network w)))))"

definition build_mweb_send where
  "build_mweb_send W A is_mainnet w db keys recipient params =
     build_mweb_send_with W A is_mainnet w db keys recipient params False"

definition build_mweb_pegout_with where
  "build_mweb_pegout_with W A is_mainnet w db keys script_pubkey params include_unconfirmed =
     res_bind (select_mweb_coins (mweb_pool W A w db include_unconfirmed) (mweb_needed params)) (\<lambda>coins.
     map_err FMweb (mw_finish W coins [] [(script_pubkey, ms_amount params)] (ms_fee params) keys
       (ms_change_index params) (network_kind_of (is_mainnet (w_network w)))))"

definition build_mweb_pegout where
  "build_mweb_pegout W A is_mainnet w db keys script_pubkey params =
     build_mweb_pegout_with W A is_mainnet w db keys script_pubkey params False"

definition build_mweb_pegout_default_change where
  "build_mweb_pegout_default_change W A is_mainnet w db keys script_pubkey a fee =
     build_mweb_pegout W A is_mainnet w db keys script_pubkey (mweb_spend_params_new a fee CHANGE_ADDRESS_INDEX)"

subsection \<open>Moving money into the extension block\<close>

record ('maps) prepared_mweb_pegin =
  pp_psbt :: psbt
  pp_maps :: 'maps
  pp_kernel_id :: "u8 list"
  pp_pegin_amount :: amount
  pp_outputs :: "mweb_coin list"

text \<open>The calls of the builder before \<open>finish\<close>.\<close>

definition pegin_params where
  "pegin_params A w pegin_script kernel_id pegin_amount transparent_fee selected_outpoints =
     res_bind (if selected_outpoints = [] then Ok tx_params_default
               else res_bind (map_err (\<lambda>_ :: add_utxo_error. FCreateTx CUnknownUtxo)
                        (add_utxos A w selected_outpoints tx_params_default)) (\<lambda>P.
                    Ok (tb_manually_selected_only P))) (\<lambda>P.
     Ok (tb_fee_absolute transparent_fee (tb_add_mweb_pegin pegin_script kernel_id pegin_amount P)))"

definition prepare_mweb_pegin_with_utxos where
  "prepare_mweb_pegin_with_utxos W B X E A S next_u32 select is_mainnet pegin_script w keys receive_index
      pegin_amount mweb_fee transparent_fee selected_outpoints rng =
     res_bind (map_err FMweb (mw_fund_pegin W keys receive_index pegin_amount mweb_fee
       (network_kind_of (is_mainnet (w_network w))))) (\<lambda>funded.
     res_bind (map_err FMweb (mw_sign_pegin W keys funded)) (\<lambda>(kernel_id, funded).
     res_bind (pegin_params A w pegin_script kernel_id pegin_amount transparent_fee selected_outpoints) (\<lambda>P.
     res_bind (map_err FCreateTx (create_tx B X E A S next_u32 select w P rng)) (\<lambda>(p, w', rng').
     Ok (\<lparr>pp_psbt = p, pp_maps = mw_maps W funded, pp_kernel_id = kernel_id, pp_pegin_amount = pegin_amount,
          pp_outputs = mw_outputs W funded\<rparr>, w', rng')))))"

definition prepare_mweb_pegin where
  "prepare_mweb_pegin W B X E A S next_u32 select is_mainnet pegin_script w keys receive_index
      pegin_amount mweb_fee transparent_fee rng =
     prepare_mweb_pegin_with_utxos W B X E A S next_u32 select is_mainnet pegin_script w keys receive_index
      pegin_amount mweb_fee transparent_fee [] rng"

end
