(* ===== verification/Mweb_Facts.thy ===== *)
theory Mweb_Facts
  imports Mweb Builder_Runs
begin

section \<open>The MWEB facade: selection, peg-in and persistence\<close>

text \<open>
  The selection of MWEB coins uses the fewest coins, and the smallest sufficient one when one is
  enough; a prepared peg-in pays the kernel it was made for; a write that fails loses the stage.
\<close>

subsection \<open>Selection\<close>

abbreviation coins_total :: "mweb_coin list \<Rightarrow> nat" where
  "coins_total cs \<equiv> sum_list (map mc_amount cs)"

lemma take_coins_prefix:
  assumes "acc + coins_total cs \<le> U64_MAX" "want \<le> acc + coins_total cs" "cs \<noteq> []"
  shows "\<exists>k. 0 < k \<and> k \<le> length cs \<and> take_coins want acc cs = take k cs \<and>
    want \<le> acc + coins_total (take k cs) \<and> (\<forall>j. 0 < j \<and> j < k \<longrightarrow> acc + coins_total (take j cs) < want)"
  using assms
proof (induction cs arbitrary: acc)
  case (Cons c cs)
  have acc: "u64_saturating_add acc (mc_amount c) = acc + mc_amount c"
    using Cons.prems(1) by (simp add: u64_saturating_add_def)
  show ?case
  proof (cases "want \<le> acc + mc_amount c")
    case True
    then show ?thesis
      by (intro exI [of _ 1]) (simp add: acc)
  next
    case False
    then have "cs \<noteq> []"
      using Cons.prems(2) by auto
    with Cons.IH [of "acc + mc_amount c"] Cons.prems obtain k where k: "0 < k" "k \<le> length cs"
      "take_coins want (acc + mc_amount c) cs = take k cs" "want \<le> acc + mc_amount c + coins_total (take k cs)"
      "\<forall>j. 0 < j \<and> j < k \<longrightarrow> acc + mc_amount c + coins_total (take j cs) < want"
      by auto
    have "acc + coins_total (take j (c # cs)) < want" if "0 < j" "j < Suc k" for j
      using that k(5) False by (cases j; cases "j = 1") auto
    with k False show ?thesis
      by (intro exI [of _ "Suc k"]) (simp add: acc add.assoc)
  qed
qed simp

text \<open>In a list from large to small no choice of \<open>n\<close> elements is worth more than the first \<open>n\<close>.\<close>

lemma first_are_largest:
  assumes "sorted_wrt (\<lambda>a b. mc_amount b \<le> mc_amount a) cs" "M \<subseteq># mset cs"
  shows "sum_mset (image_mset mc_amount M) \<le> coins_total (take (size M) cs)"
  using assms
proof (induction cs arbitrary: M)
  case (Cons c cs)
  show ?case
  proof (cases "c \<in># M")
    case True
    then obtain N where N: "M = add_mset c N"
      by (metis mset_add)
    with Cons.prems(2) have "N \<subseteq># mset cs" by simp
    with Cons N show ?thesis by simp
  next
    case False
    then have sub: "M \<subseteq># mset cs"
      using Cons.prems(2) by (simp add: subseteq_mset_def) (metis count_eq_zero_iff le0)
    with Cons have le: "sum_mset (image_mset mc_amount M) \<le> coins_total (take (size M) cs)" by simp
    have "coins_total (take n cs) \<le> coins_total (take n (c # cs))" for n
    proof (cases n)
      case (Suc m)
      show ?thesis
      proof (cases "m < length cs")
        case True
        then show ?thesis
          using Cons.prems(1) Suc by (simp add: take_Suc_conv_app_nth)
      next
        case False
        then show ?thesis using Suc by simp
      qed
    qed simp
    with le show ?thesis
      using order_trans by blast
  qed
qed simp

lemma smallest_first:
  assumes "ys \<noteq> []"
  shows "hd (sort_key mc_amount ys) \<in> set ys \<and>
    (\<forall>d \<in> set ys. mc_amount (hd (sort_key mc_amount ys)) \<le> mc_amount d)"
proof -
  obtain c cs where s: "sort_key mc_amount ys = c # cs"
    using assms by (metis length_0_conv length_sort list.exhaust)
  then have "set ys = insert c (set cs)" "sorted (map mc_amount (c # cs))"
    by (metis set_sort list.set(2), metis sorted_sort_key)
  then show ?thesis
    using s by auto
qed

lemma largest_first_sorted:
  "sorted_wrt (\<lambda>a b. mc_amount b \<le> mc_amount a) (sort_key (\<lambda>c. - int (mc_amount c)) cs)"
  using sorted_sort_key [of "\<lambda>c. - int (mc_amount c)" cs] by (simp add: sorted_map)

text \<open>C14: MWEB coins are selected whenever there is enough, and as few as possible. With coins whose
  total fits 64 bits and covers what is needed the selection returns coins from the list, each at
  most as often as it is there, that cover it; no smaller choice of coins does, and when one coin
  is enough it is the smallest such coin.\<close>

theorem mweb_selection_fewest:
  assumes "unspent \<noteq> []" and "want \<le> coins_total unspent" and "coins_total unspent \<le> U64_MAX"
  shows "\<exists>coins. select_mweb_coins unspent want = (Ok coins :: ('me mweb_facade_error, _) res) \<and>
    mset coins \<subseteq># mset unspent \<and> want \<le> coins_total coins \<and>
    (\<forall>C. C \<subseteq># mset unspent \<and> C \<noteq> {#} \<and> want \<le> sum_mset (image_mset mc_amount C) \<longrightarrow> length coins \<le> size C) \<and>
    (\<forall>c \<in> set unspent. want \<le> mc_amount c \<longrightarrow> length coins = 1 \<and> mc_amount (hd coins) \<le> mc_amount c)"
proof (cases "filter (\<lambda>c. want \<le> mc_amount c) unspent = []")
  case False
  let ?c = "hd (sort_key mc_amount (filter (\<lambda>c. want \<le> mc_amount c) unspent))"
  have "select_mweb_coins unspent want = (Ok [?c] :: ('me mweb_facade_error, _) res)"
    using assms False by (simp add: select_mweb_coins_def Let_def res_simps)
  moreover have "?c \<in> set unspent" "want \<le> mc_amount ?c"
    "\<forall>d \<in> set unspent. want \<le> mc_amount d \<longrightarrow> mc_amount ?c \<le> mc_amount d"
    using smallest_first [OF False] by auto
  moreover have "C \<noteq> {#} \<Longrightarrow> 1 \<le> size C" for C :: "mweb_coin multiset"
    by (metis Suc_leI nonempty_has_size One_nat_def)
  ultimately show ?thesis
    by (intro exI [of _ "[?c]"]) simp
next
  case True
  let ?s = "sort_key (\<lambda>c. - int (mc_amount c)) unspent"
  have total: "coins_total ?s = coins_total unspent"
    unfolding sum_mset_sum_list [symmetric] mset_map mset_sort ..
  have "?s \<noteq> []"
    using assms(1) by (metis length_0_conv length_sort)
  with take_coins_prefix [of 0 ?s want] assms(2,3) total obtain k where k: "0 < k" "k \<le> length ?s"
    "take_coins want 0 ?s = take k ?s" "want \<le> coins_total (take k ?s)"
    "\<forall>j. 0 < j \<and> j < k \<longrightarrow> coins_total (take j ?s) < want"
    by auto
  have "select_mweb_coins unspent want = (Ok (take k ?s) :: ('me mweb_facade_error, _) res)"
    using assms True k(3) by (simp add: select_mweb_coins_def Let_def res_simps)
  moreover have "mset (take k ?s) \<subseteq># mset unspent"
    using mset_subset_eq_add_left [of "mset (take k ?s)" "mset (drop k ?s)"]
    by (simp flip: mset_append)
  moreover have "k \<le> size C" if C: "C \<subseteq># mset unspent" "C \<noteq> {#}" "want \<le> sum_mset (image_mset mc_amount C)" for C
  proof (rule ccontr)
    assume "\<not> k \<le> size C"
    moreover have "0 < size C"
      using C(2) by (simp add: nonempty_has_size)
    ultimately have "coins_total (take (size C) ?s) < want"
      using k(5) by simp
    moreover have "sum_mset (image_mset mc_amount C) \<le> coins_total (take (size C) ?s)"
      by (rule first_are_largest [OF largest_first_sorted]) (simp add: C(1))
    ultimately show False
      using C(3) by linarith
  qed
  moreover have "\<forall>c \<in> set unspent. \<not> want \<le> mc_amount c"
    using True by (simp add: filter_empty_conv)
  ultimately show ?thesis
    using k(2,4) by (intro exI [of _ "take k ?s"]) auto
qed

subsection \<open>Peg-in\<close>

lemma pegin_params_OkE:
  assumes "pegin_params A w pegin_script kernel_id amt fee ops = (Ok P :: ('me mweb_facade_error, _) res)"
  obtains "p_recipients P = [(pegin_script kernel_id, amt)]" "flat_fee P = fee"
    "p_manually_selected_only P \<longleftrightarrow> ops \<noteq> []" "set (manual_outpoints P) = set ops"
    "wu_utxo ` set (p_utxos P) \<subseteq> Local ` set (list_unspent A w)"
proof (cases "ops = []")
  case True
  with assms have "P = tb_fee_absolute fee (tb_add_mweb_pegin pegin_script kernel_id amt tx_params_default)"
    by (auto simp: pegin_params_def res_simps)
  then show thesis
    using True
    by (intro that) (simp_all add: tb_fee_absolute_def tb_add_mweb_pegin_def tb_add_recipient_def
        tx_params_default_def manual_outpoints_def flat_fee_def)
next
  case False
  with assms obtain Q where Q: "add_utxos A w ops tx_params_default = (Ok Q :: (add_utxo_error, _) res)"
    and P: "P = tb_fee_absolute fee (tb_add_mweb_pegin pegin_script kernel_id amt (tb_manually_selected_only Q))"
    by (auto simp: pegin_params_def res_simps map_err_Ok_iff)
  from Q obtain wus where w: "Q = tx_params_default\<lparr>p_utxos := wus\<rparr>"
    "map (\<lambda>wu. utxo_outpoint (wu_utxo wu)) wus = first_visits [] ops"
    "\<forall>wu \<in> set wus. wu_utxo wu \<in> Local ` set (list_unspent A w)"
    by (rule add_utxos_OkE) (simp add: tx_params_default_def)
  then have "set (manual_outpoints P) = set ops"
    unfolding manual_outpoints_def
    by (simp add: P tb_fee_absolute_def tb_add_mweb_pegin_def tb_add_recipient_def tb_manually_selected_only_def
        first_visits_set del: set_map)
  with False w(1,3) show thesis
    by (intro that) (simp_all add: P tb_fee_absolute_def tb_add_mweb_pegin_def tb_add_recipient_def
        tb_manually_selected_only_def tx_params_default_def flat_fee_def image_subset_iff)
qed

text \<open>C13: a prepared peg-in pays its kernel. The transparent transaction pays exactly the peg-in
  amount to the script of the kernel that was signed and has at most one further output, change;
  its inputs are unspent outputs of the wallet, whose values cover the outputs and the transparent
  fee; and when the caller names outpoints it spends these and no others.\<close>

theorem prepared_pegin_pays:
  assumes "coin_selector B select" and "sorters_lawful S" and "psbt_updates_lawful (dsa A)"
    and "prepare_mweb_pegin_with_utxos W B X E A S next_u32 select is_mainnet pegin_script w keys i
      amt mweb_fee transparent_fee ops rng = (Ok (r, w', rng') :: ('me mweb_facade_error, _) res)"
  shows "\<exists>change us. mset (tx_output (unsigned_tx (pp_psbt r)))
       = mset (\<lparr>txo_value = amt, txo_script = pegin_script (pp_kernel_id r)\<rparr> # change) \<and> length change \<le> 1 \<and>
     pp_pegin_amount r = amt \<and>
     mset (map previous_output (tx_input (unsigned_tx (pp_psbt r)))) = mset (map utxo_outpoint us) \<and>
     set us \<subseteq> Local ` set (list_unspent A w) \<and>
     outputs_total (tx_output (unsigned_tx (pp_psbt r))) + transparent_fee \<le> total_in us \<and>
     (ops \<noteq> [] \<longrightarrow> set (map previous_output (tx_input (unsigned_tx (pp_psbt r)))) = set ops)"
proof -
  from assms(4) obtain kernel_id P p where P: "pegin_params A w pegin_script kernel_id amt transparent_fee ops
      = (Ok P :: ('me mweb_facade_error, _) res)"
    and c: "create_tx B X E A S next_u32 select w P rng = Ok (p, w', rng')"
    and r: "pp_psbt r = p" "pp_kernel_id r = kernel_id" "pp_pegin_amount r = amt"
    by (auto simp: prepare_mweb_pegin_with_utxos_def res_simps map_err_Ok_iff)
  from P obtain f: "p_recipients P = [(pegin_script kernel_id, amt)]" "flat_fee P = transparent_fee"
    "p_manually_selected_only P \<longleftrightarrow> ops \<noteq> []" "set (manual_outpoints P) = set ops"
    and hand: "wu_utxo ` set (p_utxos P) \<subseteq> Local ` set (list_unspent A w)"
    by (rule pegin_params_OkE)
  obtain us change where t:
    "mset (map previous_output (tx_input (unsigned_tx p))) = mset (map utxo_outpoint us)"
    "mset (tx_output (unsigned_tx p)) = mset (map recipient_out (p_recipients P) @ change)" "length change \<le> 1"
    "outputs_total (tx_output (unsigned_tx p)) + flat_fee P \<le> total_in us"
    "\<forall>u \<in> set us. utxo_ok u \<and> (u \<in> wu_utxo ` set (p_utxos P) \<or> u \<in> Local ` set (list_unspent A w))"
    using tx_balances [OF assms(1-3) c] by blast
  have own: "set us \<subseteq> Local ` set (list_unspent A w)"
    using t(5) hand by blast
  have out: "recipient_out (pegin_script kernel_id, amt) = \<lparr>txo_value = amt, txo_script = pegin_script kernel_id\<rparr>"
    by (simp add: recipient_out_def)
  have "set (map previous_output (tx_input (unsigned_tx p))) = set ops" if "ops \<noteq> []"
  proof
    show "set (map previous_output (tx_input (unsigned_tx p))) \<subseteq> set ops"
      using tx_inputs [OF assms(1-3) c] that f(3,4)
      by (auto simp: manual_outpoints_def eligible_def)
    show "set ops \<subseteq> set (map previous_output (tx_input (unsigned_tx p)))"
      using tx_inputs [OF assms(1-3) c] unfolding f(4) [symmetric] manual_outpoints_def
      by (metis set_mset_mono set_mset_mset)
  qed
  then show ?thesis
    using t(1-4) own f(1,2) out r by (intro exI [of _ change] exI [of _ us]) simp
qed

subsection \<open>Persistence\<close>

text \<open>A failed write loses the changes of the MWEB store. Taking the stage leaves nothing staged;
  when the write fails, the next attempt writes nothing but the change set \<open>nothing\<close> of an empty stage, whatever was
  staged before.\<close>

theorem mweb_failed_write_loses:
  assumes "\<forall>db. fst (mw_take_staged W (snd (mw_take_staged W db))) = nothing"
    and "mweb_persist W write st f = (Err e, st', f')"
  shows "mweb_persist W write st' f'
    = (fst (write nothing f'), snd (mweb_take_staged W st'), snd (write nothing f'))"
  using assms
  by (auto simp: mweb_persist_def mweb_take_staged_def split: prod.splits) (metis fst_conv snd_conv)+

end
