(* ===== verification/Example_Mweb.thy ===== *)
theory Example_Mweb
  imports Mweb_Facts Example_Wallet
begin

section \<open>The MWEB facade on the concrete wallet\<close>

text \<open>
  A selection of three coins, a peg-in of 5000 satoshi from the output \<open>7:0\<close> of the concrete wallet
  and a write that fails.
\<close>

definition coin_of :: "nat \<Rightarrow> mweb_coin" where
  "coin_of n = \<lparr>mc_output_id = [of_nat n], mc_amount = n\<rparr>"

lemma selection_run:
  "select_mweb_coins [coin_of 40, coin_of 30, coin_of 25] 60
     = (Ok [coin_of 40, coin_of 30] :: (nat mweb_facade_error, _) res)"
  by (simp add: select_mweb_coins_def coin_of_def u64_sum_def u64_add_def U64_MAX_def sort_key_def
      u64_saturating_add_def)

theorem mweb_selection_fewest_witness:
  "\<not> (\<exists>C. C \<subseteq># mset [coin_of 40, coin_of 30, coin_of 25] \<and> C \<noteq> {#} \<and>
     60 \<le> sum_mset (image_mset mc_amount C) \<and> size C < 2)"
proof -
  have "[coin_of 40, coin_of 30, coin_of 25] \<noteq> []" "60 \<le> coins_total [coin_of 40, coin_of 30, coin_of 25]"
    "coins_total [coin_of 40, coin_of 30, coin_of 25] \<le> U64_MAX"
    by (simp_all add: coin_of_def U64_MAX_def)
  from mweb_selection_fewest [OF this, where 'me = nat] obtain coins where
    "[coin_of 40, coin_of 30] = coins" "\<forall>C. C \<subseteq># mset [coin_of 40, coin_of 30, coin_of 25] \<and> C \<noteq> {#} \<and>
       60 \<le> sum_mset (image_mset mc_amount C) \<longrightarrow> length coins \<le> size C"
    unfolding selection_run by blast
  then show ?thesis by fastforce
qed

subsection \<open>The peg-in\<close>

definition example_mweb where
  "example_mweb = \<lparr>mw_new = ([] :: nat list), mw_from_changeset = (\<lambda>cs :: nat list. cs),
     mw_take_staged = (\<lambda>db. (db, [])), mw_disconnect_from = (\<lambda>h db. db), mw_unspent = (\<lambda>db. []),
     mw_spendable = (\<lambda>db h. []), mw_get_spent = (\<lambda>db i. None), mw_balance_at = (\<lambda>db h. (0, 0)),
     mw_fund_spend = (\<lambda>cs rs ps fee k i n. (Err 7 :: (nat, nat) res)), mw_sign_funded = (\<lambda>(k :: nat) f. Ok f),
     mw_change = (\<lambda>k f. Ok None), mw_extract = (\<lambda>f. Err 7),
     mw_finish = (\<lambda>cs (rs :: (nat \<times> nat) list) ps fee k i n. (Err 7 :: (nat, nat) res)),
     mw_fund_pegin = (\<lambda>k i a fee n. Ok a), mw_sign_pegin = (\<lambda>k f. Ok ([3, 3], f)), mw_maps = (\<lambda>f. f),
     mw_outputs = (\<lambda>f. [coin_of f]), mw_sign_components = (\<lambda>cs m. Ok m), mw_input_ids = (\<lambda>m. [])\<rparr>"

definition pegin_coin :: weighted_utxo where
  "pegin_coin = \<lparr>satisfaction_weight = 100, wu_utxo = example_coin (OutPoint 7 0)\<rparr>"

definition pegin_example :: tx_params where
  "pegin_example = tx_params_default\<lparr>p_utxos := [pegin_coin], p_manually_selected_only := True,
     p_recipients := [([9, 3, 3], 5000)], p_fee_policy := Some (FeeAmount 1000)\<rparr>"

lemma pegin_params_run:
  "pegin_params example_api example_wallet (\<lambda>k. 9 # k) [3, 3] 5000 1000 [OutPoint 7 0]
     = (Ok pegin_example :: (nat mweb_facade_error, _) res)"
  by (simp add: pegin_params_def add_utxos_def list_unspent_def unspent_map_def example_defs new_local_utxo_def
      example_full_txout_def weighted_local_def public_descriptor_def map_keychain_def keychains_def
      tb_manually_selected_only_def tb_add_mweb_pegin_def tb_fee_absolute_def pegin_example_def pegin_coin_def
      example_coin_def)

lemma pegin_fields:
  "p_manually_selected_only pegin_example = True" "p_allow_dust pegin_example = False"
  "p_ordering pegin_example = Shuffle" "p_add_global_xpubs pegin_example = False"
  "p_utxos pegin_example = [pegin_coin]" "p_fee_policy pegin_example = Some (FeeAmount 1000)"
  "p_recipients pegin_example = [([9, 3, 3], 5000)]" "p_version pegin_example = None"
  "p_current_height pegin_example = None" "p_drain_wallet pegin_example = False"
  "p_drain_to pegin_example = None" "p_bumping_fee pegin_example = None" "p_locktime pegin_example = None"
  "p_sequence pegin_example = None" "p_external_policy_path pegin_example = None"
  "p_internal_policy_path pegin_example = None"
  by (simp_all add: pegin_example_def tx_params_default_def)

lemma pegin_choices:
  "choose_version pegin_example \<lparr>csv = None, timelock = None\<rparr> = Ok 2"
  "choose_current_height example_api example_wallet pegin_example = Ok (Blocks 200)"
  "choose_lock_time None None (Blocks 200) = Ok (Blocks 200)"
  "choose_sequence btc_example None None = Ok 0xFFFFFFFD"
  "choose_fee pegin_example = Ok (0, 1000)"
  "check_policy_paths btc_example pegin_example example_wallet_policy (Some example_wallet_policy) = Ok ()"
  "policy_requirements btc_example pegin_example example_wallet_policy (Some example_wallet_policy)
     = Ok \<lparr>csv = None, timelock = None\<rparr>"
  by (simp_all add: choose_version_def condition_default_def choose_current_height_def pegin_fields
      example_defs locktime_from_height_def choose_lock_time_def choose_sequence_def ENABLE_RBF_NO_LOCKTIME_def
      choose_fee_def check_policy_paths_def example_requires_path policy_requirements_def example_condition
      condition_merge_def fail_if_def)

definition pegin_plan :: tx_plan where
  "pegin_plan = \<lparr>pl_version = 2, pl_lock_time = Blocks 200, pl_height = Blocks 200,
     pl_sequence = 0xFFFFFFFD, pl_rate = 0, pl_fee = 1000\<rparr>"

lemma pegin_planned:
  "plan_tx btc_example example_env example_api example_wallet pegin_example = Ok pegin_plan"
  by (simp add: plan_tx_def example_wallet_policies pegin_fields pegin_choices pegin_plan_def)

lemma pegin_drain_script:
  "choose_drain_script example_api example_wallet pegin_example = Ok ([9, 9], Some (Internal, 3))"
  by (simp add: choose_drain_script_def unused_or_next_def peek_spk_def address_info_of_def pegin_fields
      map_keychain_def keychains_def example_defs)

definition pegin_selected :: cs_result where
  "pegin_selected = \<lparr>selected = [example_coin (OutPoint 7 0)], fee_amount = 0, cs_excess = Change 3000 0\<rparr>"

lemma pegin_selection:
  "largest_first_select btc_example sort_by [pegin_coin] [] 0 6000 [9, 9] rng = Ok (pegin_selected, rng)"
  by (simp add: largest_first_select_def select_eval value_le_def example_full_txout_def new_local_utxo_def
      Let_def panic_unless_def example_coin_def pegin_coin_def pegin_selected_def)

definition pegin_unsigned :: transaction where
  "pegin_unsigned = \<lparr>tx_version = 2, tx_lock_time = Blocks 200,
     tx_input = [make_input 0xFFFFFFFD (example_coin (OutPoint 7 0))],
     tx_output = [\<lparr>txo_value = 3000, txo_script = [9, 9]\<rparr>, \<lparr>txo_value = 5000, txo_script = [9, 3, 3]\<rparr>],
     tx_mw_tx = None, tx_is_hog_ex = False\<rparr>"

lemma pegin_shuffled:
  "sort_tx_with_aux_rand example_sorters (\<lambda>r. (r, r + 1)) Shuffle
     \<lparr>tx_version = 2, tx_lock_time = Blocks 200, tx_input = [make_input 0xFFFFFFFD (example_coin (OutPoint 7 0))],
      tx_output = [\<lparr>txo_value = 5000, txo_script = [9, 3, 3]\<rparr>, \<lparr>txo_value = 3000, txo_script = [9, 9]\<rparr>],
      tx_mw_tx = None, tx_is_hog_ex = False\<rparr> 0 = (pegin_unsigned, 1 :: u32)"
  by (simp add: sort_tx_with_aux_rand_def shuffle_slice_def swap_def pegin_unsigned_def)

lemma pegin_candidates:
  "candidates example_api example_wallet pegin_example h v = Ok ([pegin_coin], [])"
  by (simp add: candidates_def filter_utxos_def pegin_fields)

lemma pegin_built:
  "build_unsigned btc_example example_api example_sorters (\<lambda>r. (r, r + 1)) (largest_first_select btc_example sort_by)
     example_wallet pegin_example pegin_plan (0 :: u32)
   = Ok (pegin_unsigned, pegin_selected, Some (Internal, 3), 1)"
proof -
  have "add_recipients btc_example False 0 [([9, 3, 3], 5000)] ([], 0)
     = Ok ([\<lparr>txo_value = 5000, txo_script = [9, 3, 3]\<rparr>], 5000)"
    by (simp add: is_dust_def btc_example_def u64_add_def U64_MAX_def)
  moreover have "fee_mul btc_example 0 weight = Some 0" for weight
    by (simp add: btc_example_def)
  moreover have "\<not> is_dust btc_example 5000 [9, 3, 3]"
    by (simp add: is_dust_def btc_example_def)
  moreover have "selected pegin_selected = [example_coin (OutPoint 7 0)]" "cs_excess pegin_selected = Change 3000 0"
    by (simp_all add: pegin_selected_def)
  ultimately show ?thesis
    by (simp add: build_unsigned_def pegin_fields pegin_plan_def fail_if_def pegin_drain_script pegin_selection pegin_candidates
        u64_add_def U64_MAX_def check_outputs_def add_change_def pegin_shuffled)
qed

lemma pegin_completed:
  "complete_transaction btc_example example_xpubs example_env example_api example_wallet pegin_unsigned
     [example_coin (OutPoint 7 0)] pegin_example = Ok (psbt_from_unsigned_tx pegin_unsigned)"
proof -
  have op: "utxo_outpoint (example_coin (OutPoint 7 0)) = OutPoint 7 0"
    by (simp add: example_coin_def new_local_utxo_def example_full_txout_def)
  have input: "psbt_input_for btc_example example_api example_wallet pegin_example (example_coin (OutPoint 7 0))
      = Ok psbt_input_default"
    by (simp add: psbt_input_for_def example_coin_def local_psbt_input_def get_psbt_input_def new_local_utxo_def
        example_full_txout_def example_defs public_descriptor_def map_keychain_def keychains_def
        psbt_input_default_def pegin_example_def)
  have filled: "fill_inputs (psbt_input_for btc_example example_api example_wallet pegin_example)
      (selected_map [example_coin (OutPoint 7 0)])
      (zip (inputs (psbt_from_unsigned_tx pegin_unsigned)) (tx_input pegin_unsigned)) = Ok [psbt_input_default]"
    by (simp add: psbt_from_unsigned_tx_def pegin_unsigned_def selected_map_def make_input_def op input)
  have "update_psbt_with_descriptor btc_example example_api example_wallet (psbt_from_unsigned_tx pegin_unsigned)
      = Ok (psbt_from_unsigned_tx pegin_unsigned)"
    by (simp add: update_psbt_with_descriptor_def psbt_from_unsigned_tx_def pegin_unsigned_def
        get_utxo_for_def get_nth_def psbt_input_default_def List.map_filter_def update_one_def example_defs upt_rec)
  moreover have "psbt_from_unsigned_tx pegin_unsigned\<lparr>inputs := [psbt_input_default]\<rparr>
      = psbt_from_unsigned_tx pegin_unsigned" "unsigned_tx (psbt_from_unsigned_tx pegin_unsigned) = pegin_unsigned"
    by (simp_all add: psbt_from_unsigned_tx_def pegin_unsigned_def)
  ultimately show ?thesis
    by (simp add: complete_transaction_def add_xpubs_def pegin_fields filled)
qed

lemma pegin_prepared:
  "prepare_mweb_pegin_with_utxos example_mweb btc_example example_xpubs example_env example_api example_sorters
     (\<lambda>r. (r, r + 1)) (largest_first_select btc_example sort_by) (\<lambda>n. n = 0) (\<lambda>k. 9 # k) example_wallet
     (0 :: nat) 4 5000 100 1000 [OutPoint 7 0] (0 :: u32)
   = Ok (\<lparr>pp_psbt = psbt_from_unsigned_tx pegin_unsigned, pp_maps = 5000, pp_kernel_id = [3, 3],
       pp_pegin_amount = 5000, pp_outputs = [coin_of 5000]\<rparr>,
     record_change example_api example_wallet (Change 3000 0) (Some (Internal, 3)), 1)"
proof -
  have "selected pegin_selected = [example_coin (OutPoint 7 0)]" "cs_excess pegin_selected = Change 3000 0"
    by (simp_all add: pegin_selected_def)
  then have "create_tx btc_example example_xpubs example_env example_api example_sorters (\<lambda>r. (r, r + 1))
     (largest_first_select btc_example sort_by) example_wallet pegin_example (0 :: u32)
   = Ok (psbt_from_unsigned_tx pegin_unsigned,
       record_change example_api example_wallet (Change 3000 0) (Some (Internal, 3)), 1)"
    by (simp add: create_tx_def pegin_planned pegin_built pegin_completed)
  then show ?thesis
    by (simp add: prepare_mweb_pegin_with_utxos_def example_mweb_def pegin_params_run)
qed

theorem prepared_pegin_pays_witness:
  "set (map previous_output (tx_input (unsigned_tx (psbt_from_unsigned_tx pegin_unsigned)))) = set [OutPoint 7 0] \<and>
   (\<exists>us. set us \<subseteq> Local ` set (list_unspent example_api example_wallet) \<and>
     outputs_total (tx_output (unsigned_tx (psbt_from_unsigned_tx pegin_unsigned))) + 1000 \<le> total_in us)"
  using prepared_pegin_pays [OF example_lawful(1,3,4) pegin_prepared] by auto

text \<open>A store that refuses the first write and takes every other.\<close>

definition flaky_write :: "nat list \<Rightarrow> nat list \<Rightarrow> (nat, unit) res \<times> nat list" where
  "flaky_write changes file = (if changes = [5] then (Err 4, file) else (Ok (), file @ changes))"

theorem mweb_failed_write_loses_witness:
  "mweb_persist example_mweb flaky_write \<lparr>ms_db = []\<rparr> [1] = (Ok (), \<lparr>ms_db = []\<rparr>, [1])"
proof -
  have "\<forall>db. fst (mw_take_staged example_mweb (snd (mw_take_staged example_mweb db))) = []"
    "mweb_persist example_mweb flaky_write \<lparr>ms_db = [5]\<rparr> [1] = (Err 4, \<lparr>ms_db = []\<rparr>, [1])"
    by (simp_all add: mweb_persist_def mweb_take_staged_def example_mweb_def flaky_write_def)
  from mweb_failed_write_loses [OF this] show ?thesis
    by (simp add: flaky_write_def mweb_take_staged_def example_mweb_def)
qed

end
