(* ===== verification/Dsl.thy ===== *)
theory Dsl
  imports Keys
begin

section \<open>The descriptor macros (src/descriptor/dsl.rs)\<close>

text \<open>
  \<open>fragment!\<close> and \<open>descriptor!\<close> are programs over the syntax written between their brackets: the
  datatypes \<open>frag\<close>, \<open>tap_expr\<close>, \<open>sh_inner\<close> and \<open>descriptor_expr\<close> are that syntax, with a key
  expression given by the outcome of its \<open>into_descriptor_key\<close>, and the functions below are the
  arms of the macros in the order of the source. A result is the script, the key map of the secret
  keys, and the network kinds every key is valid on.
\<close>

subsection \<open>The syntax\<close>

datatype modifier = ModA | ModS | ModC | ModD | ModV | ModJ | ModN | ModT | ModL | ModU

datatype ('s, 'v, 'p) frag =
  FTrue | FFalse
| FPkK "('s, 'v, 'p) into_key" | FPk "('s, 'v, 'p) into_key" | FPkH "('s, 'v, 'p) into_key"
| FAfter u32 | FOlder u32
| FSha256 nat | FHash256 nat | FRipemd160 nat | FHash160 nat
| FAndV "('s, 'v, 'p) frag" "('s, 'v, 'p) frag" | FAndB "('s, 'v, 'p) frag" "('s, 'v, 'p) frag"
| FAndOr "('s, 'v, 'p) frag" "('s, 'v, 'p) frag" "('s, 'v, 'p) frag"
| FOrB "('s, 'v, 'p) frag" "('s, 'v, 'p) frag" | FOrD "('s, 'v, 'p) frag" "('s, 'v, 'p) frag"
| FOrC "('s, 'v, 'p) frag" "('s, 'v, 'p) frag" | FOrI "('s, 'v, 'p) frag" "('s, 'v, 'p) frag"
| FThreshVec nat "('s, 'v, 'p) fragment_out list" | FThresh nat "('s, 'v, 'p) frag list"
| FMultiVec nat "('s, 'v, 'p) into_key list" | FMulti nat "('s, 'v, 'p) into_key list"
| FMultiAVec nat "('s, 'v, 'p) into_key list" | FMultiA nat "('s, 'v, 'p) into_key list"
| FMod modifier "('s, 'v, 'p) frag"

datatype ('s, 'v, 'p) tap_expr =
  TapScript "('s, 'v, 'p) frag" | TapBranch "('s, 'v, 'p) tap_expr" "('s, 'v, 'p) tap_expr"

datatype ('s, 'v, 'p) sh_inner =
  InnerScript "('s, 'v, 'p) frag"
| InnerSortedMulti nat "('s, 'v, 'p) into_key list" | InnerSortedMultiVec nat "('s, 'v, 'p) into_key list"

text \<open>\<open>sh(wsh(..))\<close> and \<open>sh(wpkh(..))\<close> are \<open>DxShWsh\<close> and \<open>DxShWpkh\<close>; \<open>bare\<close> takes no sortedmulti,
  which the macro refuses at compile time.\<close>

datatype ('s, 'v, 'p) descriptor_expr =
  DxBare "('s, 'v, 'p) frag" | DxShWsh "('s, 'v, 'p) sh_inner" | DxPk "('s, 'v, 'p) into_key"
| DxPkh "('s, 'v, 'p) into_key" | DxWpkh "('s, 'v, 'p) into_key" | DxShWpkh "('s, 'v, 'p) into_key"
| DxSh "('s, 'v, 'p) sh_inner" | DxWsh "('s, 'v, 'p) sh_inner"
| DxTr "('s, 'v, 'p) into_key" "('s, 'v, 'p) tap_expr option"

subsection \<open>Fragments\<close>

text \<open>\<open>impl_leaf_opcode\<close> and its variants with one and two values.\<close>

definition leaf_opcode :: "'p xkey ms_api \<Rightarrow> script_context \<Rightarrow> 'p xkey terminal
    \<Rightarrow> (descriptor_error, ('s, 'v, 'p) fragment_out) res" where
  "leaf_opcode M ctx t = res_bind (checked_ast M ctx t) (\<lambda>ms. Ok (ms, [], any_network_kind))"

definition node_opcode_two :: "'p xkey ms_api \<Rightarrow> script_context
    \<Rightarrow> ('p xkey terminal \<Rightarrow> 'p xkey terminal \<Rightarrow> 'p xkey terminal)
    \<Rightarrow> (descriptor_error, ('s, 'v, 'p) fragment_out) res \<Rightarrow> (descriptor_error, ('s, 'v, 'p) fragment_out) res
    \<Rightarrow> (descriptor_error, ('s, 'v, 'p) fragment_out) res" where
  "node_opcode_two M ctx variant a b =
     res_bind a (\<lambda>(a_minisc, a_keymap, a_kinds). res_bind b (\<lambda>(b_minisc, b_keymap, b_kinds).
     let keymap = km_extend a_keymap b_keymap in
     res_bind (checked_ast M ctx (variant a_minisc b_minisc)) (\<lambda>minisc.
     Ok (minisc, keymap, intersect_network_kinds a_kinds b_kinds))))"

definition node_opcode_three :: "'p xkey ms_api \<Rightarrow> script_context
    \<Rightarrow> ('p xkey terminal \<Rightarrow> 'p xkey terminal \<Rightarrow> 'p xkey terminal \<Rightarrow> 'p xkey terminal)
    \<Rightarrow> (descriptor_error, ('s, 'v, 'p) fragment_out) res \<Rightarrow> (descriptor_error, ('s, 'v, 'p) fragment_out) res
    \<Rightarrow> (descriptor_error, ('s, 'v, 'p) fragment_out) res
    \<Rightarrow> (descriptor_error, ('s, 'v, 'p) fragment_out) res" where
  "node_opcode_three M ctx variant a b c =
     res_bind a (\<lambda>(a_minisc, a_keymap, a_kinds). res_bind b (\<lambda>(b_minisc, b_keymap, b_kinds).
     res_bind c (\<lambda>(c_minisc, c_keymap, c_kinds).
     let keymap = km_extend (km_extend a_keymap b_keymap) c_keymap;
         kinds = intersect_network_kinds (intersect_network_kinds a_kinds b_kinds) c_kinds in
     res_bind (checked_ast M ctx (variant a_minisc b_minisc c_minisc)) (\<lambda>minisc.
     Ok (minisc, keymap, kinds)))))"

definition wrap_modifier :: "'p xkey ms_api \<Rightarrow> script_context \<Rightarrow> ('p xkey terminal \<Rightarrow> 'p xkey terminal)
    \<Rightarrow> (descriptor_error, ('s, 'v, 'p) fragment_out) res \<Rightarrow> (descriptor_error, ('s, 'v, 'p) fragment_out) res" where
  "wrap_modifier M ctx variant inner = res_bind inner (\<lambda>(minisc, keymap, kinds).
     res_bind (checked_ast M ctx (variant minisc)) (\<lambda>minisc'. Ok (minisc', keymap, kinds)))"

text \<open>The modifiers \<open>t:\<close>, \<open>l:\<close> and \<open>u:\<close> are other operators over a constant, whose fragment the macro
  unwraps.\<close>

definition wrap_constant :: "'p xkey ms_api \<Rightarrow> script_context
    \<Rightarrow> ('p xkey terminal \<Rightarrow> 'p xkey terminal \<Rightarrow> 'p xkey terminal) \<Rightarrow> 'p xkey terminal
    \<Rightarrow> (descriptor_error, ('s, 'v, 'p) fragment_out) res \<Rightarrow> (descriptor_error, ('s, 'v, 'p) fragment_out) res" where
  "wrap_constant M ctx variant const inner = res_bind inner (\<lambda>(a_minisc, a_keymap, a_kinds).
     case (leaf_opcode M ctx const :: (descriptor_error, ('s, 'v, 'p) fragment_out) res) of
       Ok (const_minisc, _, _) \<Rightarrow>
         res_bind (leaf_opcode M ctx (variant a_minisc const_minisc)
             :: (descriptor_error, ('s, 'v, 'p) fragment_out) res) (\<lambda>(minisc, _, _).
         Ok (minisc, a_keymap, a_kinds))
     | _ \<Rightarrow> Panic)"

fun apply_modifier :: "'p xkey ms_api \<Rightarrow> script_context \<Rightarrow> modifier
    \<Rightarrow> (descriptor_error, ('s, 'v, 'p) fragment_out) res \<Rightarrow> (descriptor_error, ('s, 'v, 'p) fragment_out) res" where
  "apply_modifier M ctx ModA inner = wrap_modifier M ctx TAlt inner"
| "apply_modifier M ctx ModS inner = wrap_modifier M ctx TSwap inner"
| "apply_modifier M ctx ModC inner = wrap_modifier M ctx TCheck inner"
| "apply_modifier M ctx ModD inner = wrap_modifier M ctx TDupIf inner"
| "apply_modifier M ctx ModV inner = wrap_modifier M ctx TVerify inner"
| "apply_modifier M ctx ModJ inner = wrap_modifier M ctx TNonZero inner"
| "apply_modifier M ctx ModN inner = wrap_modifier M ctx TZeroNotEqual inner"
| "apply_modifier M ctx ModT inner = wrap_constant M ctx TAndV TTrue inner"
| "apply_modifier M ctx ModL inner = wrap_constant M ctx (\<lambda>a const. TOrI const a) TFalse inner"
| "apply_modifier M ctx ModU inner = wrap_constant M ctx TOrI TFalse inner"

text \<open>\<open>thresh_vec\<close>: the items' keys joined; a threshold that is not valid panics.\<close>

definition thresh_vec :: "'p xkey ms_api \<Rightarrow> script_context \<Rightarrow> nat \<Rightarrow> ('s, 'v, 'p) fragment_out list
    \<Rightarrow> (descriptor_error, ('s, 'v, 'p) fragment_out) res" where
  "thresh_vec M ctx k items =
     (let terms = map fst items; (key_maps, kinds) = join_sources (map snd items) in
      res_bind (panic_unless (ms_threshold_ok M k (length terms))) (\<lambda>_.
      res_bind (leaf_opcode M ctx (TThresh k terms)
          :: (descriptor_error, ('s, 'v, 'p) fragment_out) res) (\<lambda>(minisc, _, _).
      Ok (minisc, key_maps, kinds))))"

text \<open>The closures \<open>multi_vec\<close> and \<open>multi_a_vec\<close> give to \<open>make_multi\<close>.\<close>

definition multi_variant :: "'x ms_api \<Rightarrow> nat \<Rightarrow> 'x desc_pubkey list \<Rightarrow> (descriptor_error, 'x terminal) res" where
  "multi_variant M k pks = res_bind (panic_unless (ms_multi_ok M k (length pks))) (\<lambda>_. Ok (TMulti k pks))"

definition multi_a_variant :: "'x ms_api \<Rightarrow> nat \<Rightarrow> 'x desc_pubkey list \<Rightarrow> (descriptor_error, 'x terminal) res" where
  "multi_a_variant M k pks = res_bind (panic_unless (ms_multi_a_ok M k (length pks))) (\<lambda>_. Ok (TMultiA k pks))"

text \<open>\<open>group_multi_keys\<close>: here an error of a key is always \<open>DescriptorError::Key\<close>.\<close>

definition group_multi_keys :: "('s, 'v, 'p) into_key list
    \<Rightarrow> (descriptor_error, ('s, 'v, 'p) descriptor_key list) res" where
  "group_multi_keys keys = map_err KeyError (res_map (\<lambda>key. key) keys)"

fun fragment :: "('s, 'v, 'p) key_api \<Rightarrow> 'p xkey ms_api \<Rightarrow> script_context \<Rightarrow> ('s, 'v, 'p) frag
    \<Rightarrow> (descriptor_error, ('s, 'v, 'p) fragment_out) res" where
  "fragment K M ctx (FMod modif op) = apply_modifier M ctx modif (fragment K M ctx op)"
| "fragment K M ctx FTrue = leaf_opcode M ctx TTrue"
| "fragment K M ctx FFalse = leaf_opcode M ctx TFalse"
| "fragment K M ctx (FPkK key) = make_pk K M ctx key"
| "fragment K M ctx (FPk key) = apply_modifier M ctx ModC (make_pk K M ctx key)"
| "fragment K M ctx (FPkH key) = make_pkh K M ctx key"
| "fragment K M ctx (FAfter value) =
     res_bind (map_err MiniscriptError (ms_abs_locktime M value)) (\<lambda>l. leaf_opcode M ctx (TAfter l))"
| "fragment K M ctx (FOlder value) =
     res_bind (map_err MiniscriptError (ms_rel_locktime M value)) (\<lambda>l. leaf_opcode M ctx (TOlder l))"
| "fragment K M ctx (FSha256 h) = leaf_opcode M ctx (TSha256 h)"
| "fragment K M ctx (FHash256 h) = leaf_opcode M ctx (THash256 h)"
| "fragment K M ctx (FRipemd160 h) = leaf_opcode M ctx (TRipemd160 h)"
| "fragment K M ctx (FHash160 h) = leaf_opcode M ctx (THash160 h)"
| "fragment K M ctx (FAndV a b) = node_opcode_two M ctx TAndV (fragment K M ctx a) (fragment K M ctx b)"
| "fragment K M ctx (FAndB a b) = node_opcode_two M ctx TAndB (fragment K M ctx a) (fragment K M ctx b)"
| "fragment K M ctx (FAndOr a b c) =
     node_opcode_three M ctx TAndOr (fragment K M ctx a) (fragment K M ctx b) (fragment K M ctx c)"
| "fragment K M ctx (FOrB a b) = node_opcode_two M ctx TOrB (fragment K M ctx a) (fragment K M ctx b)"
| "fragment K M ctx (FOrD a b) = node_opcode_two M ctx TOrD (fragment K M ctx a) (fragment K M ctx b)"
| "fragment K M ctx (FOrC a b) = node_opcode_two M ctx TOrC (fragment K M ctx a) (fragment K M ctx b)"
| "fragment K M ctx (FOrI a b) = node_opcode_two M ctx TOrI (fragment K M ctx a) (fragment K M ctx b)"
| "fragment K M ctx (FThreshVec k items) = thresh_vec M ctx k items"
| "fragment K M ctx (FThresh k inner) =
     res_bind (res_map (\<lambda>r. r) (map (fragment K M ctx) inner)) (thresh_vec M ctx k)"
| "fragment K M ctx (FMultiVec k keys) = keys_make_multi K M ctx k (multi_variant M) keys"
| "fragment K M ctx (FMulti k keys) =
     res_bind (group_multi_keys keys) (\<lambda>ks. keys_make_multi K M ctx k (multi_variant M) (map Ok ks))"
| "fragment K M ctx (FMultiAVec k keys) = keys_make_multi K M ctx k (multi_a_variant M) keys"
| "fragment K M ctx (FMultiA k keys) =
     res_bind (group_multi_keys keys) (\<lambda>ks. keys_make_multi K M ctx k (multi_a_variant M) (map Ok ks))"

subsection \<open>Taproot trees and descriptors\<close>

type_synonym ('s, 'v, 'p) tap_out = "'p xkey tap_tree \<times> ('s, 'v, 'p) keymap \<times> valid_network_kinds"

definition tap_merge :: "(descriptor_error, ('s, 'v, 'p) tap_out) res \<Rightarrow> (descriptor_error, ('s, 'v, 'p) tap_out) res
    \<Rightarrow> (descriptor_error, ('s, 'v, 'p) tap_out) res" where
  "tap_merge a b = res_bind a (\<lambda>(a_tree, a_keymap, a_kinds). res_bind b (\<lambda>(b_tree, b_keymap, b_kinds).
     Ok (TapNode a_tree b_tree, km_extend a_keymap b_keymap, intersect_network_kinds a_kinds b_kinds)))"

primrec parse_tap_tree :: "('s, 'v, 'p) key_api \<Rightarrow> 'p xkey ms_api \<Rightarrow> ('s, 'v, 'p) tap_expr
    \<Rightarrow> (descriptor_error, ('s, 'v, 'p) tap_out) res" where
  "parse_tap_tree K M (TapScript minisc) = res_bind (fragment K M CtxTap minisc) (\<lambda>(ms, km, kinds).
     Ok (TapLeaf ms, km, kinds))"
| "parse_tap_tree K M (TapBranch a b) = tap_merge (parse_tap_tree K M a) (parse_tap_tree K M b)"

definition new_descriptor :: "'x ms_api \<Rightarrow> 'x descriptor_form \<Rightarrow> (descriptor_error, 'x descriptor_form) res" where
  "new_descriptor M d = res_bind (map_err MiniscriptError (ms_new_descriptor M d)) (\<lambda>_. Ok d)"

definition top_level_script :: "('s, 'v, 'p) key_api \<Rightarrow> 'p xkey ms_api \<Rightarrow> ('p xkey terminal \<Rightarrow> 'p xkey descriptor_form)
    \<Rightarrow> script_context \<Rightarrow> ('s, 'v, 'p) frag \<Rightarrow> (descriptor_error, ('s, 'v, 'p) template_out) res" where
  "top_level_script K M constr ctx minisc = res_bind (fragment K M ctx minisc) (\<lambda>(ms, keymap, kinds).
     res_bind (new_descriptor M (constr ms)) (\<lambda>d. Ok (d, keymap, kinds)))"

text \<open>\<open>impl_top_level_sh\<close> with \<open>impl_sortedmulti\<close>.\<close>

fun top_level_sh :: "('s, 'v, 'p) key_api \<Rightarrow> 'p xkey ms_api \<Rightarrow> ('p xkey terminal \<Rightarrow> 'p xkey descriptor_form)
    \<Rightarrow> (nat \<Rightarrow> 'p descriptor_public_key list \<Rightarrow> 'p xkey descriptor_form) \<Rightarrow> script_context
    \<Rightarrow> ('s, 'v, 'p) sh_inner \<Rightarrow> (descriptor_error, ('s, 'v, 'p) template_out) res" where
  "top_level_sh K M constr sorted_constr ctx (InnerSortedMulti k keys) =
     res_bind (map_err KeyError (res_map (\<lambda>key. key) keys)) (\<lambda>ks.
     make_sortedmulti K k (map Ok ks) (\<lambda>k pks. new_descriptor M (sorted_constr k pks)))"
| "top_level_sh K M constr sorted_constr ctx (InnerSortedMultiVec k keys) =
     make_sortedmulti K k keys (\<lambda>k pks. new_descriptor M (sorted_constr k pks))"
| "top_level_sh K M constr sorted_constr ctx (InnerScript minisc) = top_level_script K M constr ctx minisc"

text \<open>\<open>impl_top_level_pk\<close> with the check of the constructor: \<open>Pkh\<close> and \<open>Wpkh\<close> are their key.\<close>

definition top_level_pk :: "('s, 'v, 'p) key_api \<Rightarrow> 'p xkey ms_api
    \<Rightarrow> ('p descriptor_public_key \<Rightarrow> 'p xkey descriptor_form) \<Rightarrow> ('s, 'v, 'p) into_key
    \<Rightarrow> (descriptor_error, ('s, 'v, 'p) extracted) res" where
  "top_level_pk K M constr key = res_bind (map_err KeyError (into_extracted K key)) (\<lambda>(pk, key_map, kinds).
     res_bind (new_descriptor M (constr pk)) (\<lambda>_. Ok (pk, key_map, kinds)))"

definition top_level_tr :: "('s, 'v, 'p) key_api \<Rightarrow> 'p xkey ms_api \<Rightarrow> ('s, 'v, 'p) into_key
    \<Rightarrow> ('s, 'v, 'p) tap_out option \<Rightarrow> (descriptor_error, ('s, 'v, 'p) template_out) res" where
  "top_level_tr K M internal_key tap_tree =
     res_bind (map_err KeyError (into_extracted K internal_key)) (\<lambda>(pk, key_map, kinds).
     let (tree, key_map', kinds') = (case tap_tree of
           None \<Rightarrow> (None, key_map, kinds)
         | Some (tree, tree_keymap, tree_kinds) \<Rightarrow>
             (Some tree, km_extend key_map tree_keymap, intersect_network_kinds kinds tree_kinds)) in
     res_bind (new_descriptor M (DTr pk tree)) (\<lambda>d. Ok (d, key_map', kinds')))"

fun descriptor_macro :: "('s, 'v, 'p) key_api \<Rightarrow> 'p xkey ms_api \<Rightarrow> ('s, 'v, 'p) descriptor_expr
    \<Rightarrow> (descriptor_error, ('s, 'v, 'p) template_out) res" where
  "descriptor_macro K M (DxBare minisc) = top_level_script K M DBare CtxLegacy minisc"
| "descriptor_macro K M (DxShWsh inner) = top_level_sh K M DShWshMs DShWshSortedMulti CtxSegwitv0 inner"
| "descriptor_macro K M (DxPk key) = top_level_script K M DBare CtxLegacy (FPk key)"
| "descriptor_macro K M (DxPkh key) =
     res_bind (top_level_pk K M DPkh key) (\<lambda>(pk, key_map, kinds). Ok (DPkh pk, key_map, kinds))"
| "descriptor_macro K M (DxWpkh key) =
     res_bind (top_level_pk K M DWpkh key) (\<lambda>(pk, key_map, kinds). Ok (DWpkh pk, key_map, kinds))"
| "descriptor_macro K M (DxShWpkh key) = res_bind (top_level_pk K M DWpkh key) (\<lambda>(pk, key_map, kinds).
     res_bind (new_descriptor M (DShWpkh pk)) (\<lambda>d. Ok (d, key_map, kinds)))"
| "descriptor_macro K M (DxSh inner) = top_level_sh K M DShMs DShSortedMulti CtxLegacy inner"
| "descriptor_macro K M (DxWsh inner) = top_level_sh K M DWshMs DWshSortedMulti CtxSegwitv0 inner"
| "descriptor_macro K M (DxTr internal_key None) = top_level_tr K M internal_key None"
| "descriptor_macro K M (DxTr internal_key (Some taptree)) =
     res_bind (parse_tap_tree K M taptree) (\<lambda>tap_tree. top_level_tr K M internal_key (Some tap_tree))"

end
