(* ===== verification/Templates.thy ===== *)
theory Templates
  imports Dsl
begin

section \<open>Wallet descriptors and templates (src/descriptor/mod.rs, src/descriptor/template.rs)\<close>

text \<open>
  How a string, a parsed descriptor with its key map, or a template becomes the descriptor and the
  key map of a wallet of a given network kind (\<open>IntoWalletDescriptor\<close>), the checksum of a
  descriptor (src/descriptor/checksum.rs), the wallet name (src/wallet/mod.rs), and the templates
  of BIP44, BIP49, BIP84 and BIP86. A descriptor is its \<open>descriptor_form\<close>. The parser, the
  printer, the checksum function of miniscript, the checks with which it rebuilds a translated
  descriptor, and the order in which a key map is iterated are the fields of \<open>desc_text_api\<close>.
\<close>

subsection \<open>The keys of a descriptor\<close>

fun terminal_keys :: "'x terminal \<Rightarrow> 'x desc_pubkey list" where
  "terminal_keys (PkK k) = [k]"
| "terminal_keys (PkH k) = [k]"
| "terminal_keys (TMulti n ks) = ks"
| "terminal_keys (TMultiA n ks) = ks"
| "terminal_keys (TAlt t) = terminal_keys t"
| "terminal_keys (TSwap t) = terminal_keys t"
| "terminal_keys (TCheck t) = terminal_keys t"
| "terminal_keys (TDupIf t) = terminal_keys t"
| "terminal_keys (TVerify t) = terminal_keys t"
| "terminal_keys (TNonZero t) = terminal_keys t"
| "terminal_keys (TZeroNotEqual t) = terminal_keys t"
| "terminal_keys (TAndV a b) = terminal_keys a @ terminal_keys b"
| "terminal_keys (TAndB a b) = terminal_keys a @ terminal_keys b"
| "terminal_keys (TAndOr a b c) = terminal_keys a @ terminal_keys b @ terminal_keys c"
| "terminal_keys (TOrB a b) = terminal_keys a @ terminal_keys b"
| "terminal_keys (TOrD a b) = terminal_keys a @ terminal_keys b"
| "terminal_keys (TOrC a b) = terminal_keys a @ terminal_keys b"
| "terminal_keys (TOrI a b) = terminal_keys a @ terminal_keys b"
| "terminal_keys (TThresh n ts) = concat (map terminal_keys ts)"
| "terminal_keys _ = []"

fun descriptor_keys :: "'x descriptor_form \<Rightarrow> 'x desc_pubkey list" where
  "descriptor_keys (DPkh k) = [k]"
| "descriptor_keys (DWpkh k) = [k]"
| "descriptor_keys (DShWpkh k) = [k]"
| "descriptor_keys (DShMs t) = terminal_keys t"
| "descriptor_keys (DShSortedMulti n ks) = ks"
| "descriptor_keys (DShWshMs t) = terminal_keys t"
| "descriptor_keys (DShWshSortedMulti n ks) = ks"
| "descriptor_keys (DWshMs t) = terminal_keys t"
| "descriptor_keys (DWshSortedMulti n ks) = ks"
| "descriptor_keys (DBare t) = terminal_keys t"
| "descriptor_keys (DTr k tree) =
     k # (case tree of None \<Rightarrow> [] | Some tr \<Rightarrow> concat (map terminal_keys (tap_leaves tr)))"

text \<open>\<open>translate_pk\<close> with a total function on keys.\<close>

fun terminal_translate :: "('x desc_pubkey \<Rightarrow> 'y desc_pubkey) \<Rightarrow> 'x terminal \<Rightarrow> 'y terminal" where
  "terminal_translate f TTrue = TTrue"
| "terminal_translate f TFalse = TFalse"
| "terminal_translate f (PkK k) = PkK (f k)"
| "terminal_translate f (PkH k) = PkH (f k)"
| "terminal_translate f (RawPkH h) = RawPkH h"
| "terminal_translate f (TAfter l) = TAfter l"
| "terminal_translate f (TOlder l) = TOlder l"
| "terminal_translate f (TSha256 h) = TSha256 h"
| "terminal_translate f (THash256 h) = THash256 h"
| "terminal_translate f (TRipemd160 h) = TRipemd160 h"
| "terminal_translate f (THash160 h) = THash160 h"
| "terminal_translate f (TMulti n ks) = TMulti n (map f ks)"
| "terminal_translate f (TMultiA n ks) = TMultiA n (map f ks)"
| "terminal_translate f (TAlt t) = TAlt (terminal_translate f t)"
| "terminal_translate f (TSwap t) = TSwap (terminal_translate f t)"
| "terminal_translate f (TCheck t) = TCheck (terminal_translate f t)"
| "terminal_translate f (TDupIf t) = TDupIf (terminal_translate f t)"
| "terminal_translate f (TVerify t) = TVerify (terminal_translate f t)"
| "terminal_translate f (TNonZero t) = TNonZero (terminal_translate f t)"
| "terminal_translate f (TZeroNotEqual t) = TZeroNotEqual (terminal_translate f t)"
| "terminal_translate f (TAndV a b) = TAndV (terminal_translate f a) (terminal_translate f b)"
| "terminal_translate f (TAndB a b) = TAndB (terminal_translate f a) (terminal_translate f b)"
| "terminal_translate f (TAndOr a b c) =
     TAndOr (terminal_translate f a) (terminal_translate f b) (terminal_translate f c)"
| "terminal_translate f (TOrB a b) = TOrB (terminal_translate f a) (terminal_translate f b)"
| "terminal_translate f (TOrD a b) = TOrD (terminal_translate f a) (terminal_translate f b)"
| "terminal_translate f (TOrC a b) = TOrC (terminal_translate f a) (terminal_translate f b)"
| "terminal_translate f (TOrI a b) = TOrI (terminal_translate f a) (terminal_translate f b)"
| "terminal_translate f (TThresh n ts) = TThresh n (map (terminal_translate f) ts)"

primrec tap_translate :: "('x desc_pubkey \<Rightarrow> 'y desc_pubkey) \<Rightarrow> 'x tap_tree \<Rightarrow> 'y tap_tree" where
  "tap_translate f (TapLeaf t) = TapLeaf (terminal_translate f t)"
| "tap_translate f (TapNode a b) = TapNode (tap_translate f a) (tap_translate f b)"

fun descriptor_translate :: "('x desc_pubkey \<Rightarrow> 'y desc_pubkey) \<Rightarrow> 'x descriptor_form \<Rightarrow> 'y descriptor_form" where
  "descriptor_translate f (DPkh k) = DPkh (f k)"
| "descriptor_translate f (DWpkh k) = DWpkh (f k)"
| "descriptor_translate f (DShWpkh k) = DShWpkh (f k)"
| "descriptor_translate f (DShMs t) = DShMs (terminal_translate f t)"
| "descriptor_translate f (DShSortedMulti n ks) = DShSortedMulti n (map f ks)"
| "descriptor_translate f (DShWshMs t) = DShWshMs (terminal_translate f t)"
| "descriptor_translate f (DShWshSortedMulti n ks) = DShWshSortedMulti n (map f ks)"
| "descriptor_translate f (DWshMs t) = DWshMs (terminal_translate f t)"
| "descriptor_translate f (DWshSortedMulti n ks) = DWshSortedMulti n (map f ks)"
| "descriptor_translate f (DBare t) = DBare (terminal_translate f t)"
| "descriptor_translate f (DTr k tree) = DTr (f k) (map_option (tap_translate f) tree)"

lemma terminal_keys_translate [simp]: "terminal_keys (terminal_translate f t) = map f (terminal_keys t)"
  by (induction f t rule: terminal_translate.induct)
     (auto simp: map_concat comp_def intro!: arg_cong [of _ _ concat])

lemma tap_leaves_translate [simp]: "tap_leaves (tap_translate f tr) = map (terminal_translate f) (tap_leaves tr)"
  by (induction tr) auto

lemma descriptor_keys_translate [simp]:
  "descriptor_keys (descriptor_translate f d) = map f (descriptor_keys d)"
  by (cases d) (auto simp: map_concat comp_def split: option.splits)

subsection \<open>Checksums\<close>

text \<open>\<open>split_once\<close>: what is before and after the first occurrence.\<close>

definition split_once :: "char \<Rightarrow> string \<Rightarrow> (string \<times> string) option" where
  "split_once c s = (case dropWhile (\<lambda>x. x \<noteq> c) s of
     [] \<Rightarrow> None | _ # rest \<Rightarrow> Some (takeWhile (\<lambda>x. x \<noteq> c) s, rest))"

lemma split_once_append: "c \<notin> set s \<Longrightarrow> split_once c (s @ c # rest) = Some (s, rest)"
proof -
  assume "c \<notin> set s"
  then have "dropWhile (\<lambda>x. x \<noteq> c) (s @ c # rest) = c # rest" "takeWhile (\<lambda>x. x \<noteq> c) (s @ c # rest) = s"
    by (induction s) auto
  then show ?thesis by (simp add: split_once_def)
qed

lemma split_once_None: "split_once c s = None \<longleftrightarrow> c \<notin> set s"
proof (cases "dropWhile (\<lambda>x. x \<noteq> c) s")
  case Nil
  then have "c \<notin> set s"
    by (auto simp: dropWhile_eq_Nil_conv)
  then show ?thesis unfolding split_once_def Nil by simp
next
  case (Cons x rest)
  have "dropWhile (\<lambda>x. x \<noteq> c) s \<noteq> []"
    unfolding Cons by simp
  then have "c \<in> set s"
    by (auto simp: dropWhile_eq_Nil_conv)
  then show ?thesis unfolding split_once_def Cons by simp
qed

lemma split_once_Some:
  assumes "split_once c s = Some (a, b)"
  shows "s = a @ c # b \<and> c \<notin> set a"
proof -
  obtain x where x: "dropWhile (\<lambda>x. x \<noteq> c) s = x # b" and a: "a = takeWhile (\<lambda>x. x \<noteq> c) s"
    using assms by (auto simp: split_once_def split: list.splits)
  have "x = c"
    using hd_dropWhile [of "\<lambda>x. x \<noteq> c" s] x by simp
  then have "s = a @ c # b"
    using takeWhile_dropWhile_id [of "\<lambda>x. x \<noteq> c" s] x a by simp
  then show ?thesis using a by (auto dest: set_takeWhileD)
qed

record ('s, 'v, 'p) desc_text_api =
  dt_checksum :: "string \<Rightarrow> (nat, string) res"
  dt_parse :: "string \<Rightarrow> (nat, 'p xkey descriptor_form \<times> ('s, 'v, 'p) keymap) res"
  dt_print :: "'p xkey descriptor_form \<Rightarrow> string"
  dt_rebuild_names :: "'p xkey descriptor_form \<Rightarrow> (nat, unit) res"
  dt_rebuild :: "'p xkey descriptor_form \<Rightarrow> (nat, unit) res"
  dt_entries :: "('s, 'v, 'p) keymap \<Rightarrow> ('s, 'v, 'p) keymap"

definition calc_checksum :: "('s, 'v, 'p) desc_text_api \<Rightarrow> string \<Rightarrow> (descriptor_error, string) res" where
  "calc_checksum D desc = (case split_once CHR ''#'' desc of
     Some (body, og_checksum) \<Rightarrow>
       res_bind (map_err MiniscriptError (dt_checksum D body)) (\<lambda>checksum.
       if og_checksum \<noteq> checksum then Err InvalidDescriptorChecksum else Ok checksum)
   | None \<Rightarrow> map_err MiniscriptError (dt_checksum D desc))"

subsection \<open>Into a wallet descriptor\<close>

type_synonym ('s, 'v, 'p) wallet_descriptor = "'p xkey descriptor_form \<times> ('s, 'v, 'p) keymap"

text \<open>\<open>Translator::pk\<close> of the first translation: the key's network kinds must have the wallet's. The
  three script contexts give the same kinds.\<close>

definition check_key_network :: "('s, 'v, 'p) key_api \<Rightarrow> network_kind \<Rightarrow> 'p descriptor_public_key
    \<Rightarrow> (descriptor_error, unit) res" where
  "check_key_network K n pk =
     res_bind (map_err key_error_into (into_extracted K (public_into_key pk))) (\<lambda>(_, _, kinds).
     if n \<in> kinds then Ok () else Err (KeyError InvalidNetworkKind))"

text \<open>A parsed descriptor with its key map: every key is checked, nothing is changed. An
  \<open>ExtendedDescriptor\<close> alone has the empty key map.\<close>

definition pair_into_wallet_descriptor :: "('s, 'v, 'p) key_api \<Rightarrow> ('s, 'v, 'p) desc_text_api \<Rightarrow> network_kind
    \<Rightarrow> ('s, 'v, 'p) wallet_descriptor \<Rightarrow> (descriptor_error, ('s, 'v, 'p) wallet_descriptor) res" where
  "pair_into_wallet_descriptor K D n dk =
     res_bind (res_map (check_key_network K n) (descriptor_keys (fst dk))) (\<lambda>_.
     res_bind (map_err MiniscriptError (dt_rebuild_names D (fst dk))) (\<lambda>_. Ok dk))"

definition form_into_wallet_descriptor :: "('s, 'v, 'p) key_api \<Rightarrow> ('s, 'v, 'p) desc_text_api \<Rightarrow> network_kind
    \<Rightarrow> 'p xkey descriptor_form \<Rightarrow> (descriptor_error, ('s, 'v, 'p) wallet_descriptor) res" where
  "form_into_wallet_descriptor K D n d = pair_into_wallet_descriptor K D n (d, [])"

definition str_into_wallet_descriptor :: "('s, 'v, 'p) key_api \<Rightarrow> ('s, 'v, 'p) desc_text_api \<Rightarrow> network_kind
    \<Rightarrow> string \<Rightarrow> (descriptor_error, ('s, 'v, 'p) wallet_descriptor) res" where
  "str_into_wallet_descriptor K D n str =
     res_bind (case split_once CHR ''#'' str of
         Some (desc, original_checksum) \<Rightarrow>
           res_bind (calc_checksum D desc) (\<lambda>checksum.
           if original_checksum \<noteq> checksum then Err InvalidDescriptorChecksum else Ok desc)
       | None \<Rightarrow> Ok str) (\<lambda>descriptor.
     res_bind (map_err MiniscriptError (dt_parse D descriptor)) (pair_into_wallet_descriptor K D n))"

text \<open>The output of a template: the network kinds of all its keys must have the wallet's; then the
  network of every extended key is set, in the descriptor and in the key map.\<close>

definition fix_public :: "network_kind \<Rightarrow> 'p descriptor_public_key \<Rightarrow> 'p descriptor_public_key" where
  "fix_public n pk = (case pk of
     XPubKey xk \<Rightarrow> XPubKey (xk\<lparr>xk_key := (xk_key xk)\<lparr>xkey_network := n\<rparr>\<rparr>)
   | MultiXPubKey mk \<Rightarrow> MultiXPubKey (mk\<lparr>mk_key := (mk_key mk)\<lparr>xkey_network := n\<rparr>\<rparr>)
   | other \<Rightarrow> other)"

fun fix_entry :: "network_kind \<Rightarrow> 'p descriptor_public_key \<times> ('s, 'v) descriptor_secret_key
    \<Rightarrow> 'p descriptor_public_key \<times> ('s, 'v) descriptor_secret_key" where
  "fix_entry n (XPubKey xpub, SecXPrv xprv) =
     (XPubKey (xpub\<lparr>xk_key := (xk_key xpub)\<lparr>xkey_network := n\<rparr>\<rparr>),
      SecXPrv (xprv\<lparr>xk_key := (xk_key xprv)\<lparr>xkey_network := n\<rparr>\<rparr>))"
| "fix_entry n (MultiXPubKey mpub, SecMultiXPrv mprv) =
     (MultiXPubKey (mpub\<lparr>mk_key := (mk_key mpub)\<lparr>xkey_network := n\<rparr>\<rparr>),
      SecMultiXPrv (mprv\<lparr>mk_key := (mk_key mprv)\<lparr>xkey_network := n\<rparr>\<rparr>))"
| "fix_entry n (k, SecSingle sk) = (k, SecSingle (sk\<lparr>sp_key := (sp_key sk)\<lparr>pv_network := n\<rparr>\<rparr>))"
| "fix_entry n (k, v) = (k, v)"

definition template_into_wallet_descriptor :: "('s, 'v, 'p) desc_text_api \<Rightarrow> network_kind
    \<Rightarrow> ('s, 'v, 'p) template_out \<Rightarrow> (descriptor_error, ('s, 'v, 'p) wallet_descriptor) res" where
  "template_into_wallet_descriptor D n tout = (case tout of (desc, keymap, kinds) \<Rightarrow>
     if n \<notin> kinds then Err (KeyError InvalidNetworkKind)
     else
       (let translated = descriptor_translate (fix_public n) desc in
        res_bind (map_err MiniscriptError (dt_rebuild D translated)) (\<lambda>_.
        let fixed_keymap = km_extend [] (map (fix_entry n) (dt_entries D keymap)) in
        Ok (translated, fixed_keymap))))"

subsection \<open>The wallet name\<close>

definition wallet_name_from_descriptor :: "('s, 'v, 'p) desc_text_api
    \<Rightarrow> (descriptor_error, ('s, 'v, 'p) wallet_descriptor) res
    \<Rightarrow> (descriptor_error, ('s, 'v, 'p) wallet_descriptor) res option \<Rightarrow> (descriptor_error, string) res" where
  "wallet_name_from_descriptor D descriptor change_descriptor =
     res_bind descriptor (\<lambda>(desc, _).
     res_bind (calc_checksum D (dt_print D desc)) (\<lambda>wallet_name.
     case change_descriptor of
       None \<Rightarrow> Ok wallet_name
     | Some change \<Rightarrow> res_bind change (\<lambda>(change_desc, _).
         res_bind (calc_checksum D (dt_print D change_desc)) (\<lambda>c. Ok (wallet_name @ c)))))"

subsection \<open>Templates\<close>

text \<open>\<open>P2Pkh\<close>, \<open>P2Wpkh_P2Sh\<close>, \<open>P2Wpkh\<close> and \<open>P2TR\<close>: one line of the macro each.\<close>

definition p2pkh_build :: "('s, 'v, 'p) key_api \<Rightarrow> 'p xkey ms_api \<Rightarrow> ('s, 'v, 'p) into_key
    \<Rightarrow> (descriptor_error, ('s, 'v, 'p) template_out) res" where
  "p2pkh_build K M key = descriptor_macro K M (DxPkh key)"

definition p2wpkh_p2sh_build :: "('s, 'v, 'p) key_api \<Rightarrow> 'p xkey ms_api \<Rightarrow> ('s, 'v, 'p) into_key
    \<Rightarrow> (descriptor_error, ('s, 'v, 'p) template_out) res" where
  "p2wpkh_p2sh_build K M key = descriptor_macro K M (DxShWpkh key)"

definition p2wpkh_build :: "('s, 'v, 'p) key_api \<Rightarrow> 'p xkey ms_api \<Rightarrow> ('s, 'v, 'p) into_key
    \<Rightarrow> (descriptor_error, ('s, 'v, 'p) template_out) res" where
  "p2wpkh_build K M key = descriptor_macro K M (DxWpkh key)"

definition p2tr_build :: "('s, 'v, 'p) key_api \<Rightarrow> 'p xkey ms_api \<Rightarrow> ('s, 'v, 'p) into_key
    \<Rightarrow> (descriptor_error, ('s, 'v, 'p) template_out) res" where
  "p2tr_build K M key = descriptor_macro K M (DxTr key None)"

text \<open>A child index is below \<open>2^31\<close>; the indexes the templates use are constants.\<close>

definition from_hardened_idx :: "('s, 'v, 'p) key_api \<Rightarrow> u32 \<Rightarrow> (descriptor_error, child_number) res" where
  "from_hardened_idx K i = (if unat i < 2 ^ 31 then Ok (Hardened i) else Err (Bip32Error (ka_invalid_child K i)))"

definition from_normal_idx :: "('s, 'v, 'p) key_api \<Rightarrow> u32 \<Rightarrow> (descriptor_error, child_number) res" where
  "from_normal_idx K i = (if unat i < 2 ^ 31 then Ok (Normal i) else Err (Bip32Error (ka_invalid_child K i)))"

definition make_bipxx_private :: "('s, 'v, 'p) key_api \<Rightarrow> u32 \<Rightarrow> ('s, 'v, 'p) derivable \<Rightarrow> keychain_kind \<Rightarrow> network_kind
    \<Rightarrow> (descriptor_error, ('s, 'v, 'p) into_key) res" where
  "make_bipxx_private K bip key keychain n =
     res_bind (from_hardened_idx K bip) (\<lambda>purpose.
     res_bind (case n of Main \<Rightarrow> from_hardened_idx K 2 | _ \<Rightarrow> from_hardened_idx K 1) (\<lambda>coin.
     res_bind (from_hardened_idx K 0) (\<lambda>account.
     res_bind (case keychain of External \<Rightarrow> from_normal_idx K 0 | Internal \<Rightarrow> from_normal_idx K 1) (\<lambda>chain.
     Ok (derivable_with_path key [purpose, coin, account, chain])))))"

definition make_bipxx_public :: "('s, 'v, 'p) key_api \<Rightarrow> u32 \<Rightarrow> ('s, 'v, 'p) derivable \<Rightarrow> fingerprint \<Rightarrow> keychain_kind \<Rightarrow> network_kind
    \<Rightarrow> (descriptor_error, ('s, 'v, 'p) into_key) res" where
  "make_bipxx_public K bip key parent_fingerprint keychain n =
     res_bind (case keychain of External \<Rightarrow> from_normal_idx K 0 | Internal \<Rightarrow> from_normal_idx K 1) (\<lambda>chain.
     res_bind (from_hardened_idx K bip) (\<lambda>purpose.
     res_bind (case n of Main \<Rightarrow> from_hardened_idx K 2 | _ \<Rightarrow> from_hardened_idx K 1) (\<lambda>coin.
     res_bind (from_hardened_idx K 0) (\<lambda>account.
     Ok (derivable_with_source key (parent_fingerprint, [purpose, coin, account]) [chain])))))"

definition bip44_build :: "('s, 'v, 'p) key_api \<Rightarrow> 'p xkey ms_api \<Rightarrow> ('s, 'v, 'p) derivable
    \<Rightarrow> keychain_kind \<Rightarrow> network_kind \<Rightarrow> (descriptor_error, ('s, 'v, 'p) template_out) res" where
  "bip44_build K M key keychain n = res_bind (make_bipxx_private K 44 key keychain n) (p2pkh_build K M)"

definition bip44_public_build :: "('s, 'v, 'p) key_api \<Rightarrow> 'p xkey ms_api \<Rightarrow> ('s, 'v, 'p) derivable
    \<Rightarrow> fingerprint \<Rightarrow> keychain_kind \<Rightarrow> network_kind \<Rightarrow> (descriptor_error, ('s, 'v, 'p) template_out) res" where
  "bip44_public_build K M key parent_fingerprint keychain n =
     res_bind (make_bipxx_public K 44 key parent_fingerprint keychain n) (p2pkh_build K M)"

definition bip49_build :: "('s, 'v, 'p) key_api \<Rightarrow> 'p xkey ms_api \<Rightarrow> ('s, 'v, 'p) derivable
    \<Rightarrow> keychain_kind \<Rightarrow> network_kind \<Rightarrow> (descriptor_error, ('s, 'v, 'p) template_out) res" where
  "bip49_build K M key keychain n = res_bind (make_bipxx_private K 49 key keychain n) (p2wpkh_p2sh_build K M)"

definition bip49_public_build :: "('s, 'v, 'p) key_api \<Rightarrow> 'p xkey ms_api \<Rightarrow> ('s, 'v, 'p) derivable
    \<Rightarrow> fingerprint \<Rightarrow> keychain_kind \<Rightarrow> network_kind \<Rightarrow> (descriptor_error, ('s, 'v, 'p) template_out) res" where
  "bip49_public_build K M key parent_fingerprint keychain n =
     res_bind (make_bipxx_public K 49 key parent_fingerprint keychain n) (p2wpkh_p2sh_build K M)"

definition bip84_build :: "('s, 'v, 'p) key_api \<Rightarrow> 'p xkey ms_api \<Rightarrow> ('s, 'v, 'p) derivable
    \<Rightarrow> keychain_kind \<Rightarrow> network_kind \<Rightarrow> (descriptor_error, ('s, 'v, 'p) template_out) res" where
  "bip84_build K M key keychain n = res_bind (make_bipxx_private K 84 key keychain n) (p2wpkh_build K M)"

definition bip84_public_build :: "('s, 'v, 'p) key_api \<Rightarrow> 'p xkey ms_api \<Rightarrow> ('s, 'v, 'p) derivable
    \<Rightarrow> fingerprint \<Rightarrow> keychain_kind \<Rightarrow> network_kind \<Rightarrow> (descriptor_error, ('s, 'v, 'p) template_out) res" where
  "bip84_public_build K M key parent_fingerprint keychain n =
     res_bind (make_bipxx_public K 84 key parent_fingerprint keychain n) (p2wpkh_build K M)"

definition bip86_build :: "('s, 'v, 'p) key_api \<Rightarrow> 'p xkey ms_api \<Rightarrow> ('s, 'v, 'p) derivable
    \<Rightarrow> keychain_kind \<Rightarrow> network_kind \<Rightarrow> (descriptor_error, ('s, 'v, 'p) template_out) res" where
  "bip86_build K M key keychain n = res_bind (make_bipxx_private K 86 key keychain n) (p2tr_build K M)"

definition bip86_public_build :: "('s, 'v, 'p) key_api \<Rightarrow> 'p xkey ms_api \<Rightarrow> ('s, 'v, 'p) derivable
    \<Rightarrow> fingerprint \<Rightarrow> keychain_kind \<Rightarrow> network_kind \<Rightarrow> (descriptor_error, ('s, 'v, 'p) template_out) res" where
  "bip86_public_build K M key parent_fingerprint keychain n =
     res_bind (make_bipxx_public K 86 key parent_fingerprint keychain n) (p2tr_build K M)"

text \<open>The four templates under one name, with the purpose each derives by.\<close>

datatype bip_template = Bip44 | Bip49 | Bip84 | Bip86

fun bip_purpose :: "bip_template \<Rightarrow> u32" where
  "bip_purpose Bip44 = 44"
| "bip_purpose Bip49 = 49"
| "bip_purpose Bip84 = 84"
| "bip_purpose Bip86 = 86"

fun bip_build :: "('s, 'v, 'p) key_api \<Rightarrow> 'p xkey ms_api \<Rightarrow> bip_template \<Rightarrow> ('s, 'v, 'p) derivable
    \<Rightarrow> keychain_kind \<Rightarrow> network_kind \<Rightarrow> (descriptor_error, ('s, 'v, 'p) template_out) res" where
  "bip_build K M Bip44 key keychain n = bip44_build K M key keychain n"
| "bip_build K M Bip49 key keychain n = bip49_build K M key keychain n"
| "bip_build K M Bip84 key keychain n = bip84_build K M key keychain n"
| "bip_build K M Bip86 key keychain n = bip86_build K M key keychain n"

fun bip_public_build :: "('s, 'v, 'p) key_api \<Rightarrow> 'p xkey ms_api \<Rightarrow> bip_template \<Rightarrow> ('s, 'v, 'p) derivable
    \<Rightarrow> fingerprint \<Rightarrow> keychain_kind \<Rightarrow> network_kind \<Rightarrow> (descriptor_error, ('s, 'v, 'p) template_out) res" where
  "bip_public_build K M Bip44 key fp keychain n = bip44_public_build K M key fp keychain n"
| "bip_public_build K M Bip49 key fp keychain n = bip49_public_build K M key fp keychain n"
| "bip_public_build K M Bip84 key fp keychain n = bip84_public_build K M key fp keychain n"
| "bip_public_build K M Bip86 key fp keychain n = bip86_public_build K M key fp keychain n"

lemmas template_build_defs = bip44_build_def bip49_build_def bip84_build_def bip86_build_def
  bip44_public_build_def bip49_public_build_def bip84_public_build_def bip86_public_build_def
  p2pkh_build_def p2wpkh_p2sh_build_def p2wpkh_build_def p2tr_build_def

text \<open>\<open>IntoWalletDescriptor for T: DescriptorTemplate\<close>: build for the network, then convert.\<close>

definition build_into_wallet_descriptor :: "('s, 'v, 'p) desc_text_api \<Rightarrow> network_kind
    \<Rightarrow> (network_kind \<Rightarrow> (descriptor_error, ('s, 'v, 'p) template_out) res)
    \<Rightarrow> (descriptor_error, ('s, 'v, 'p) wallet_descriptor) res" where
  "build_into_wallet_descriptor D n build = res_bind (build n) (template_into_wallet_descriptor D n)"

end
