(* ===== verification/Descriptor_Facts.thy ===== *)
theory Descriptor_Facts
  imports Templates
begin

section \<open>What the descriptor macros, the templates and the conversions promise\<close>

text \<open>
  A descriptor written with the macros carries exactly the keys that were written, the secrets among
  them, and the networks all of them allow; a wallet descriptor has every key on its network,
  whether it comes from a string or from a template; a string with a checksum is the string without
  it; and the public templates give the descriptor of the private ones.
\<close>

subsection \<open>Sources\<close>

text \<open>A source is what one key, or one prepared item of \<open>thresh_vec\<close>, brings: its public keys, its
  key map and its network kinds.\<close>

type_synonym ('s, 'v, 'p) source =
  "'p descriptor_public_key list \<times> ('s, 'v, 'p) keymap \<times> valid_network_kinds"

definition source_of :: "('s, 'v, 'p) key_api \<Rightarrow> ('s, 'v, 'p) into_key \<Rightarrow> ('s, 'v, 'p) source" where
  "source_of K key = (case into_extracted K key of Ok (pub, km, kinds) \<Rightarrow> ([pub], km, kinds) | _ \<Rightarrow> ([], [], {}))"

fun frag_sources :: "('s, 'v, 'p) key_api \<Rightarrow> ('s, 'v, 'p) frag \<Rightarrow> ('s, 'v, 'p) source list" where
  "frag_sources K (FPkK key) = [source_of K key]"
| "frag_sources K (FPk key) = [source_of K key]"
| "frag_sources K (FPkH key) = [source_of K key]"
| "frag_sources K (FAndV a b) = frag_sources K a @ frag_sources K b"
| "frag_sources K (FAndB a b) = frag_sources K a @ frag_sources K b"
| "frag_sources K (FAndOr a b c) = frag_sources K a @ frag_sources K b @ frag_sources K c"
| "frag_sources K (FOrB a b) = frag_sources K a @ frag_sources K b"
| "frag_sources K (FOrD a b) = frag_sources K a @ frag_sources K b"
| "frag_sources K (FOrC a b) = frag_sources K a @ frag_sources K b"
| "frag_sources K (FOrI a b) = frag_sources K a @ frag_sources K b"
| "frag_sources K (FThreshVec k items) = map (\<lambda>item. (terminal_keys (fst item), snd item)) items"
| "frag_sources K (FThresh k inner) = concat (map (frag_sources K) inner)"
| "frag_sources K (FMultiVec k keys) = map (source_of K) keys"
| "frag_sources K (FMulti k keys) = map (source_of K) keys"
| "frag_sources K (FMultiAVec k keys) = map (source_of K) keys"
| "frag_sources K (FMultiA k keys) = map (source_of K) keys"
| "frag_sources K (FMod m op) = frag_sources K op"
| "frag_sources K _ = []"

primrec tap_sources :: "('s, 'v, 'p) key_api \<Rightarrow> ('s, 'v, 'p) tap_expr \<Rightarrow> ('s, 'v, 'p) source list" where
  "tap_sources K (TapScript minisc) = frag_sources K minisc"
| "tap_sources K (TapBranch a b) = tap_sources K a @ tap_sources K b"

fun inner_sources :: "('s, 'v, 'p) key_api \<Rightarrow> ('s, 'v, 'p) sh_inner \<Rightarrow> ('s, 'v, 'p) source list" where
  "inner_sources K (InnerScript minisc) = frag_sources K minisc"
| "inner_sources K (InnerSortedMulti k keys) = map (source_of K) keys"
| "inner_sources K (InnerSortedMultiVec k keys) = map (source_of K) keys"

fun expr_sources :: "('s, 'v, 'p) key_api \<Rightarrow> ('s, 'v, 'p) descriptor_expr \<Rightarrow> ('s, 'v, 'p) source list" where
  "expr_sources K (DxBare minisc) = frag_sources K minisc"
| "expr_sources K (DxPk key) = [source_of K key]"
| "expr_sources K (DxPkh key) = [source_of K key]"
| "expr_sources K (DxWpkh key) = [source_of K key]"
| "expr_sources K (DxShWpkh key) = [source_of K key]"
| "expr_sources K (DxSh inner) = inner_sources K inner"
| "expr_sources K (DxWsh inner) = inner_sources K inner"
| "expr_sources K (DxShWsh inner) = inner_sources K inner"
| "expr_sources K (DxTr key tree) = source_of K key # (case tree of None \<Rightarrow> [] | Some t \<Rightarrow> tap_sources K t)"

definition source_keys :: "('s, 'v, 'p) source list \<Rightarrow> 'p descriptor_public_key list" where
  "source_keys ss = concat (map fst ss)"

definition source_kinds :: "('s, 'v, 'p) source list \<Rightarrow> valid_network_kinds" where
  "source_kinds ss = {n. list_all (\<lambda>(_, _, kinds). n \<in> kinds) ss}"

primrec source_secrets :: "('s, 'v, 'p) source list \<Rightarrow> 'p descriptor_public_key \<Rightarrow> ('s, 'v) descriptor_secret_key option" where
  "source_secrets [] = Map.empty"
| "source_secrets (s # ss) = map_of (fst (snd s)) ++ source_secrets ss"

text \<open>A key map has distinct keys, each a key of its source.\<close>

definition source_wf :: "('s, 'v, 'p) source \<Rightarrow> bool" where
  "source_wf s \<longleftrightarrow> distinct (map fst (fst (snd s))) \<and> fst ` set (fst (snd s)) \<subseteq> set (fst s)"

text \<open>\<open>collected\<close>: a script or a tree with the keys \<open>ks\<close>, its key map and its network kinds are what the
  sources bring together.\<close>

definition collected :: "'p descriptor_public_key list \<Rightarrow> ('s, 'v, 'p) keymap \<Rightarrow> valid_network_kinds
    \<Rightarrow> ('s, 'v, 'p) source list \<Rightarrow> bool" where
  "collected ks km kinds ss \<longleftrightarrow> ks = source_keys ss \<and> kinds = source_kinds ss \<and>
     map_of km = source_secrets ss \<and> distinct (map fst km)"

lemma source_secrets_append: "source_secrets (ss @ ts) = source_secrets ss ++ source_secrets ts"
  by (induction ss) auto

lemma collected_Nil [simp]: "collected [] [] any_network_kind []"
  by (simp add: collected_def source_keys_def source_kinds_def any_network_kind_UNIV)

lemma collected_append:
  assumes "collected ks km kinds ss" "collected ks' km' kinds' ss'"
  shows "collected (ks @ ks') (km_extend km km') (intersect_network_kinds kinds kinds') (ss @ ss')"
  using assms
  by (auto simp: collected_def source_keys_def source_kinds_def source_secrets_append intersect_network_kinds_def
      map_of_km_extend_distinct distinct_km_extend)

lemma source_wf_source_of [simp]: "source_wf (source_of K key)"
proof (cases "into_extracted K key")
  case (Ok e)
  then obtain dk where "dk_extract K dk = Ok e"
    by (auto simp: into_extracted_def res_simps)
  then show ?thesis using Ok
    by (cases dk) (auto simp: source_of_def source_wf_def res_simps km_insert_def)
qed (simp_all add: source_of_def source_wf_def)

lemma collected_source_of:
  assumes "into_extracted K key = Ok (pub, km, kinds)"
  shows "collected [pub] km kinds [source_of K key]"
  using assms source_wf_source_of [of K key]
  by (auto simp: collected_def source_keys_def source_kinds_def source_of_def source_wf_def)

text \<open>The fold that joins the items of a list.\<close>

lemma collected_join_step:
  assumes "list_all2 (\<lambda>e ss. collected (ks e) (fst (snd e)) (snd (snd e)) ss) es sss"
    and "collected acc_ks (fst acc) (snd acc) acc_ss"
  shows "let j = fold (\<lambda>(km, kinds) (km_acc, kinds_acc).
      (km_extend km_acc km, intersect_network_kinds kinds_acc kinds)) (map snd es) acc in
    collected (acc_ks @ concat (map ks es)) (fst j) (snd j) (acc_ss @ concat sss)"
  using assms
proof (induction es sss arbitrary: acc acc_ks acc_ss rule: list_all2_induct)
  case Nil
  then show ?case by simp
next
  case (Cons e es ss sss)
  have "collected (acc_ks @ ks e) (km_extend (fst acc) (fst (snd e)))
      (intersect_network_kinds (snd acc) (snd (snd e))) (acc_ss @ ss)"
    by (rule collected_append) (use Cons in auto)
  then show ?case
    using Cons.IH [where acc = "(km_extend (fst acc) (fst (snd e)), intersect_network_kinds (snd acc) (snd (snd e)))"
        and acc_ks = "acc_ks @ ks e" and acc_ss = "acc_ss @ ss"]
    by (simp add: split_beta Let_def)
qed

lemma collected_join:
  assumes "list_all2 (\<lambda>e ss. collected (ks e) (fst (snd e)) (snd (snd e)) ss) es sss"
  shows "collected (concat (map ks es)) (fst (join_sources (map snd es))) (snd (join_sources (map snd es)))
    (concat sss)"
  using collected_join_step [OF assms, of "[]" "([], any_network_kind)" "[]"]
  by (simp add: join_sources_def Let_def)

lemma collected_expand:
  assumes "expand_multi_keys K keys = Ok (pubs, km, kinds)"
  shows "collected pubs km kinds (map (source_of K) keys)"
proof -
  obtain es where es: "res_map (into_extracted K) keys = Ok es" and out: "pubs = map fst es"
    "(km, kinds) = join_sources (map snd es)"
    using assms by (auto simp: expand_multi_keys_def res_simps)
  have "list_all2 (\<lambda>e ss. collected [fst e] (fst (snd e)) (snd (snd e)) ss) es (map (\<lambda>k. [source_of K k]) keys)"
    using es by (auto simp: res_map_Ok_iff list_all2_conv_all_nth collected_source_of)
  from collected_join [OF this] show ?thesis
    using out by (metis concat_map_singleton fst_conv snd_conv comp_apply)
qed


subsection \<open>Fragments\<close>

text \<open>\<open>frag_collected r ss\<close>: if the fragment \<open>r\<close> succeeds, it is what \<open>ss\<close> bring.\<close>

definition frag_collected :: "(descriptor_error, ('s, 'v, 'p) fragment_out) res \<Rightarrow> ('s, 'v, 'p) source list \<Rightarrow> bool" where
  "frag_collected r ss \<longleftrightarrow> (\<forall>t km kinds. r = Ok (t, km, kinds) \<longrightarrow> collected (terminal_keys t) km kinds ss)"

named_theorems collects \<open>what the constructions of the macros collect\<close>

lemma leaf_collected [collects]: "terminal_keys t = [] \<Longrightarrow> frag_collected (leaf_opcode M ctx t) []"
  by (auto simp: frag_collected_def leaf_opcode_def res_simps)

lemma node_two_collected [collects]:
  assumes "frag_collected a ss" "frag_collected b ss'"
    and "\<And>x y. terminal_keys (variant x y) = terminal_keys x @ terminal_keys y"
  shows "frag_collected (node_opcode_two M ctx variant a b) (ss @ ss')"
  using assms
  by (auto simp: frag_collected_def node_opcode_two_def res_simps Let_def intro!: collected_append)

lemma node_three_collected [collects]:
  assumes "frag_collected a ss" "frag_collected b ss'" "frag_collected c ss''"
    and "\<And>x y z. terminal_keys (variant x y z) = terminal_keys x @ terminal_keys y @ terminal_keys z"
  shows "frag_collected (node_opcode_three M ctx variant a b c) (ss @ ss' @ ss'')"
proof -
  have "collected (terminal_keys x @ terminal_keys y @ terminal_keys z) (km_extend (km_extend ka kb) kc)
      (intersect_network_kinds (intersect_network_kinds na nb) nc) (ss @ ss' @ ss'')"
    if "a = Ok (x, ka, na)" "b = Ok (y, kb, nb)" "c = Ok (z, kc, nc)" for x ka na y kb nb z kc nc
    using collected_append [OF collected_append, of "terminal_keys x" ka na ss "terminal_keys y" kb nb ss'
        "terminal_keys z" kc nc ss''] assms that
    by (simp add: frag_collected_def)
  then show ?thesis
    using assms(4) by (auto simp: frag_collected_def node_opcode_three_def res_simps Let_def)
qed

lemma wrap_modifier_collected [collects]:
  assumes "frag_collected inner ss" "\<And>x. terminal_keys (variant x) = terminal_keys x"
  shows "frag_collected (wrap_modifier M ctx variant inner) ss"
  using assms by (auto simp: frag_collected_def wrap_modifier_def res_simps)

lemma wrap_constant_collected [collects]:
  assumes "frag_collected inner ss" "\<And>x. terminal_keys (variant x const) = terminal_keys x"
  shows "frag_collected (wrap_constant M ctx variant const inner :: (descriptor_error, ('s, 'v, 'p) fragment_out) res) ss"
proof (cases "leaf_opcode M ctx const :: (descriptor_error, ('s, 'v, 'p) fragment_out) res")
  case (Ok c)
  then have c: "c = (const, [], any_network_kind)"
    by (auto simp: leaf_opcode_def res_simps)
  have "terminal_keys t = terminal_keys x"
    if "leaf_opcode M ctx (variant x const) = (Ok (t, km, kinds) :: (descriptor_error, ('s, 'v, 'p) fragment_out) res)"
    for t x km kinds
    using that assms(2) by (auto simp: leaf_opcode_def res_simps)
  then show ?thesis
    using assms(1) unfolding frag_collected_def wrap_constant_def Ok c by (fastforce simp: res_simps)
qed (auto simp: frag_collected_def wrap_constant_def res_simps)

lemma modifier_collected [collects]:
  assumes "frag_collected inner ss"
  shows "frag_collected (apply_modifier M ctx m inner) ss"
  using assms by (cases m) (auto intro!: collects)

lemma make_pk_collected [collects]:
  "frag_collected (make_pk K M ctx key) [source_of K key]"
  "frag_collected (make_pkh K M ctx key) [source_of K key]"
  by (auto simp: frag_collected_def make_pk_def make_pkh_def res_simps intro: collected_source_of)

lemma make_multi_collected [collects]:
  assumes "\<And>k pks t. variant k pks = Ok t \<Longrightarrow> terminal_keys t = pks"
  shows "frag_collected (keys_make_multi K M ctx k variant keys) (map (source_of K) keys)"
  using assms by (auto simp: frag_collected_def keys_make_multi_def res_simps dest!: collected_expand)

lemma multi_variant_keys:
  "multi_variant M k pks = Ok t \<Longrightarrow> terminal_keys t = pks"
  "multi_a_variant M k pks = Ok t \<Longrightarrow> terminal_keys t = pks"
  by (auto simp: multi_variant_def multi_a_variant_def res_simps)

lemma res_map_id_Ok: "res_map (\<lambda>r. r) rs = Ok xs \<longleftrightarrow> rs = map Ok xs"
  by (auto simp: res_map_Ok_iff list_all2_conv_all_nth list_eq_iff_nth_eq)

lemma group_multi_collected:
  assumes "\<And>keys. frag_collected (f keys) (map (source_of K) keys)"
  shows "frag_collected (res_bind (group_multi_keys keys) (\<lambda>ks. f (map Ok ks))) (map (source_of K) keys)"
  using assms by (auto simp: frag_collected_def group_multi_keys_def res_simps res_map_id_Ok)

lemma thresh_vec_collected:
  assumes "list_all2 (\<lambda>item ss. collected (terminal_keys (fst item)) (fst (snd item)) (snd (snd item)) ss) items sss"
  shows "frag_collected (thresh_vec M ctx k items) (concat sss)"
  using collected_join [of "\<lambda>e. terminal_keys (fst e)", OF assms]
  by (auto simp: frag_collected_def thresh_vec_def leaf_opcode_def res_simps Let_def split_beta comp_def)

lemma item_collected:
  assumes "source_wf (ks, out)"
  shows "collected ks (fst out) (snd out) [(ks, out)]"
  using assms by (cases out) (auto simp: collected_def source_keys_def source_kinds_def source_wf_def)

lemma thresh_items_collected:
  assumes "\<forall>item \<in> set items. source_wf (terminal_keys (fst item), snd item)"
  shows "frag_collected (thresh_vec M ctx k items) (map (\<lambda>item. (terminal_keys (fst item), snd item)) items)"
proof -
  have "list_all2 (\<lambda>item ss. collected (terminal_keys (fst item)) (fst (snd item)) (snd (snd item)) ss) items
      (map (\<lambda>item. [(terminal_keys (fst item), snd item)]) items)"
    using assms by (auto simp: list_all2_conv_all_nth split_beta intro!: item_collected)
  from thresh_vec_collected [OF this] show ?thesis
    by (simp add: split_beta concat_map_singleton)
qed

lemma thresh_inner_collected:
  assumes "\<And>f. f \<in> set inner \<Longrightarrow> frag_collected (g f) (h f)"
  shows "frag_collected (res_bind (res_map (\<lambda>r. r) (map g inner)) (thresh_vec M ctx k)) (concat (map h inner))"
proof -
  have "frag_collected (thresh_vec M ctx k items) (concat (map h inner))" if "map g inner = map Ok items" for items
  proof (rule thresh_vec_collected)
    have "length items = length inner" "\<And>i. i < length inner \<Longrightarrow> g (inner ! i) = Ok (items ! i)"
      using that by (auto dest: map_eq_imp_length_eq) (metis length_map nth_map)
    then show "list_all2 (\<lambda>item ss. collected (terminal_keys (fst item)) (fst (snd item)) (snd (snd item)) ss) items
        (map h inner)"
      using assms by (fastforce simp: list_all2_conv_all_nth frag_collected_def)
  qed
  then show ?thesis
    by (auto simp: frag_collected_def res_simps res_map_id_Ok)
qed

lemma fragment_collected:
  assumes "\<forall>s \<in> set (frag_sources K f). source_wf s"
  shows "frag_collected (fragment K M ctx f) (frag_sources K f)"
  using assms
proof (induction K M ctx f rule: fragment.induct)
  case (7 K M ctx v)
  show ?case by (auto simp: frag_collected_def leaf_opcode_def res_simps)
next
  case (8 K M ctx v)
  show ?case by (auto simp: frag_collected_def leaf_opcode_def res_simps)
next
  case (20 K M ctx k items)
  then show ?case by (auto intro!: thresh_items_collected)
next
  case (21 K M ctx k inner)
  then show ?case by (auto intro!: thresh_inner_collected)
next
  case (23 K M ctx k keys)
  then show ?case by (simp add: group_multi_collected make_multi_collected multi_variant_keys)
next
  case (25 K M ctx k keys)
  then show ?case by (simp add: group_multi_collected make_multi_collected multi_variant_keys)
qed (auto intro!: collects simp: multi_variant_keys)


subsection \<open>Descriptors\<close>

lemma tap_collected:
  assumes "parse_tap_tree K M te = Ok (tree, km, kinds)" and "\<forall>s \<in> set (tap_sources K te). source_wf s"
  shows "collected (concat (map terminal_keys (tap_leaves tree))) km kinds (tap_sources K te)"
  using assms
proof (induction te arbitrary: tree km kinds)
  case (TapScript f)
  then show ?case
    using fragment_collected [of K f M CtxTap] by (auto simp: frag_collected_def res_simps)
next
  case (TapBranch a b)
  then show ?case by (auto simp: tap_merge_def res_simps intro!: collected_append)
qed

definition desc_collected :: "(descriptor_error, ('s, 'v, 'p) template_out) res \<Rightarrow> ('s, 'v, 'p) source list \<Rightarrow> bool" where
  "desc_collected r ss \<longleftrightarrow> (\<forall>d km kinds. r = Ok (d, km, kinds) \<longrightarrow> collected (descriptor_keys d) km kinds ss)"

lemma script_collected [collects]:
  assumes "\<forall>s \<in> set (frag_sources K f). source_wf s" "\<And>t. descriptor_keys (constr t) = terminal_keys t"
  shows "desc_collected (top_level_script K M constr ctx f) (frag_sources K f)"
  using fragment_collected [OF assms(1), of M ctx] assms(2)
  by (auto simp: desc_collected_def frag_collected_def top_level_script_def new_descriptor_def res_simps)

lemma sortedmulti_collected:
  assumes "\<And>k pks d. build k pks = Ok d \<Longrightarrow> descriptor_keys d = pks"
  shows "desc_collected (make_sortedmulti K k keys build) (map (source_of K) keys)"
  using assms by (auto simp: desc_collected_def make_sortedmulti_def res_simps dest!: collected_expand)

lemma sh_collected [collects]:
  assumes wf: "\<forall>s \<in> set (inner_sources K inner). source_wf s"
    and keys: "\<And>t. descriptor_keys (constr t) = terminal_keys t" "\<And>k pks. descriptor_keys (sorted_constr k pks) = pks"
  shows "desc_collected (top_level_sh K M constr sorted_constr ctx inner) (inner_sources K inner)"
proof -
  have sorted: "desc_collected (make_sortedmulti K k ks (\<lambda>k pks. new_descriptor M (sorted_constr k pks)))
      (map (source_of K) ks)" for k ks
    by (rule sortedmulti_collected) (auto simp: new_descriptor_def res_simps keys)
  show ?thesis
  proof (cases inner)
    case (InnerScript f)
    then show ?thesis using wf keys by (auto intro!: collects)
  next
    case (InnerSortedMulti k ks)
    then show ?thesis
      using sorted [of k ks] by (auto simp: desc_collected_def res_simps res_map_id_Ok)
  next
    case (InnerSortedMultiVec k ks)
    then show ?thesis using sorted by simp
  qed
qed

lemma tr_collected:
  assumes "top_level_tr K M key tree = Ok (d, km, kinds)"
    and "case tree of None \<Rightarrow> ss = []
      | Some (tr, tkm, tkinds) \<Rightarrow> collected (concat (map terminal_keys (tap_leaves tr))) tkm tkinds ss"
  shows "collected (descriptor_keys d) km kinds (source_of K key # ss)"
proof -
  obtain pk key_map kinds0 where e: "into_extracted K key = Ok (pk, key_map, kinds0)"
    using assms(1) by (auto simp: top_level_tr_def res_simps)
  note head = collected_source_of [OF e]
  show ?thesis
  proof (cases tree)
    case None
    then show ?thesis
      using assms e head by (auto simp: top_level_tr_def new_descriptor_def res_simps Let_def)
  next
    case (Some t)
    then show ?thesis
      using assms e collected_append [OF head]
      by (cases t) (fastforce simp: top_level_tr_def new_descriptor_def res_simps Let_def)
  qed
qed

lemma descriptor_macro_collected:
  assumes "\<forall>s \<in> set (expr_sources K e). source_wf s"
  shows "desc_collected (descriptor_macro K M e) (expr_sources K e)"
  using assms
proof (induction K M e rule: descriptor_macro.induct)
  case (1 K M f)
  then show ?case by (auto intro!: collects)
next
  case (2 K M inner)
  then show ?case by (simp add: sh_collected)
next
  case (7 K M inner)
  then show ?case by (simp add: sh_collected)
next
  case (8 K M inner)
  then show ?case by (simp add: sh_collected)
next
  case (3 K M key)
  have "desc_collected (top_level_script K M DBare CtxLegacy (FPk key)) (frag_sources K (FPk key))"
    by (rule script_collected) auto
  then show ?case by simp
next
  case (9 K M key)
  then show ?case using tr_collected [where tree = None and ss = "[]"] by (fastforce simp: desc_collected_def)
next
  case (10 K M key te)
  then show ?case
    using tap_collected tr_collected by (fastforce simp: desc_collected_def res_simps)
qed (auto intro!: collected_source_of simp: desc_collected_def top_level_pk_def new_descriptor_def res_simps)

text \<open>C19: a descriptor written with the \<open>descriptor!\<close> macro (any nesting of fragments, modifiers,
  thresholds, multisigs and taproot trees) has exactly the public keys that were written, in their
  order; its key map holds exactly the secret keys among them (for a public key given twice, the
  last secret); and its valid network kinds are those that every one of them allows. The items
  handed to \<open>thresh_vec\<close> are well-formed fragment outputs.\<close>

theorem macro_collects_keys:
  assumes "descriptor_macro K M e = Ok (d, km, kinds)"
    and "\<forall>s \<in> set (expr_sources K e). source_wf s"
  shows "descriptor_keys d = source_keys (expr_sources K e) \<and> map_of km = source_secrets (expr_sources K e) \<and>
    kinds = source_kinds (expr_sources K e)"
  using descriptor_macro_collected [OF assms(2), of M] assms(1) by (auto simp: desc_collected_def collected_def)


subsection \<open>Network kinds\<close>

fun key_network :: "'p descriptor_public_key \<Rightarrow> network_kind option" where
  "key_network (XPubKey xk) = Some (xkey_network (xk_key xk))"
| "key_network (MultiXPubKey mk) = Some (xkey_network (mk_key mk))"
| "key_network _ = None"

lemma network_not_Main: "n \<noteq> Main \<longleftrightarrow> n = Test" "n \<noteq> Test \<longleftrightarrow> n = Main"
  by (cases n; simp)+

lemma check_key_network_eq:
  "check_key_network K n pk = (if key_network pk \<in> {None, Some n} then Ok () else Err (KeyError InvalidNetworkKind))"
  by (cases pk) (auto simp: check_key_network_def into_extracted_def public_into_key_def any_network_kind_UNIV
      mainnet_network_kind_def test_network_kind_def network_not_Main split: if_splits)

lemma res_map_check: "res_map (\<lambda>x. if P x then Ok () else Err e) xs =
    (if list_all P xs then Ok (replicate (length xs) ()) else Err e)"
  by (induction xs) auto

lemma pair_into_wallet_descriptor_eq:
  "pair_into_wallet_descriptor K D n dk =
     (if list_all (\<lambda>pk. key_network pk \<in> {None, Some n}) (descriptor_keys (fst dk))
      then res_bind (map_err MiniscriptError (dt_rebuild_names D (fst dk))) (\<lambda>_. Ok dk)
      else Err (KeyError InvalidNetworkKind))"
  unfolding pair_into_wallet_descriptor_def check_key_network_eq res_map_check by simp

text \<open>What a string is parsed to, before its keys are looked at.\<close>

definition parse_with_checksum :: "('s, 'v, 'p) desc_text_api \<Rightarrow> string
    \<Rightarrow> (descriptor_error, ('s, 'v, 'p) wallet_descriptor) res" where
  "parse_with_checksum D str =
     res_bind (case split_once CHR ''#'' str of
         Some (desc, original_checksum) \<Rightarrow>
           res_bind (calc_checksum D desc) (\<lambda>checksum.
           if original_checksum \<noteq> checksum then Err InvalidDescriptorChecksum else Ok desc)
       | None \<Rightarrow> Ok str) (\<lambda>descriptor. map_err MiniscriptError (dt_parse D descriptor))"

lemma str_into_wallet_descriptor_eq:
  "str_into_wallet_descriptor K D n str =
     res_bind (parse_with_checksum D str) (pair_into_wallet_descriptor K D n)"
  by (simp add: str_into_wallet_descriptor_def parse_with_checksum_def bind_assoc)

text \<open>C22: a descriptor string with an extended public key that a wallet of one network kind accepts
  has all its extended keys on that network kind, and a wallet of the other kind refuses it, with
  \<open>InvalidNetworkKind\<close>.\<close>

theorem string_one_network:
  assumes "str_into_wallet_descriptor K D n s = Ok (d, km)"
    and "pk \<in> set (descriptor_keys d)" and "key_network pk = Some m" and "n' \<noteq> n"
  shows "m = n \<and> str_into_wallet_descriptor K D n' s = Err (KeyError InvalidNetworkKind)"
proof -
  obtain dk where parsed: "parse_with_checksum D s = Ok dk" and pair: "pair_into_wallet_descriptor K D n dk = Ok (d, km)"
    using assms(1) by (auto simp: str_into_wallet_descriptor_eq res_simps)
  have dk: "dk = (d, km)" and all: "list_all (\<lambda>pk. key_network pk \<in> {None, Some n}) (descriptor_keys d)"
    using pair by (auto simp: pair_into_wallet_descriptor_eq res_simps split: if_splits)
  have "m = n"
    using all assms(2,3) by (auto simp: list_all_iff)
  then have "\<not> list_all (\<lambda>pk. key_network pk \<in> {None, Some n'}) (descriptor_keys d)"
    using assms(2,3,4) by (auto simp: list_all_iff)
  then show ?thesis
    using \<open>m = n\<close> by (simp add: str_into_wallet_descriptor_eq parsed dk pair_into_wallet_descriptor_eq)
qed

text \<open>Appending \<open>#\<close> and a checksum to a descriptor string changes nothing when the checksum is the
  one of the string, and is refused as \<open>InvalidDescriptorChecksum\<close> when it is another.\<close>

theorem checksum_is_optional:
  assumes "CHR ''#'' \<notin> set desc" and "dt_checksum D desc = Ok c"
  shows "str_into_wallet_descriptor K D n (desc @ ''#'' @ checksum) =
    (if checksum = c then str_into_wallet_descriptor K D n desc else Err InvalidDescriptorChecksum)"
proof -
  have "split_once CHR ''#'' (desc @ ''#'' @ checksum) = Some (desc, checksum)"
    using split_once_append [OF assms(1), of checksum] by simp
  moreover have "split_once CHR ''#'' desc = None"
    using assms(1) by (simp add: split_once_None)
  ultimately show ?thesis
    using assms(2) by (simp add: str_into_wallet_descriptor_eq parse_with_checksum_def calc_checksum_def)
qed

subsection \<open>Templates\<close>

text \<open>\<open>to_public\<close> turns a single key, an extended key, a multi-path extended key into one of its kind.\<close>

fun same_kind :: "'p descriptor_public_key \<Rightarrow> ('s, 'v) descriptor_secret_key \<Rightarrow> bool" where
  "same_kind (SingleFull _ _) (SecSingle _) = True"
| "same_kind (SingleXOnly _ _) (SecSingle _) = True"
| "same_kind (XPubKey _) (SecXPrv _) = True"
| "same_kind (MultiXPubKey _) (SecMultiXPrv _) = True"
| "same_kind _ _ = False"

definition source_same_kind :: "('s, 'v, 'p) source \<Rightarrow> bool" where
  "source_same_kind s \<longleftrightarrow> (\<forall>(pk, sec) \<in> set (fst (snd s)). same_kind pk sec)"

lemma source_same_kind_of:
  assumes "\<And>sec pub. ka_to_public K sec = Ok pub \<Longrightarrow> same_kind pub sec"
  shows "source_same_kind (source_of K key)"
proof (cases "into_extracted K key")
  case (Ok e)
  then obtain dk where "dk_extract K dk = Ok e"
    by (auto simp: into_extracted_def res_simps)
  then show ?thesis using Ok assms
    by (cases dk) (auto simp: source_of_def source_same_kind_def res_simps km_insert_def)
qed (simp_all add: source_of_def source_same_kind_def)

lemma fix_entry_same_kind:
  assumes "same_kind pk sec"
  shows "fst (fix_entry n (pk, sec)) = fix_public n pk" "secret_network (snd (fix_entry n (pk, sec))) = n"
  using assms by (cases pk; cases sec; simp add: fix_public_def secret_network_def)+

text \<open>A public or secret key that differs from another in its network at most.\<close>

fun same_public :: "'p descriptor_public_key \<Rightarrow> 'p descriptor_public_key \<Rightarrow> bool" where
  "same_public (SingleFull origin key) k \<longleftrightarrow> k = SingleFull origin key"
| "same_public (SingleXOnly origin key) k \<longleftrightarrow> k = SingleXOnly origin key"
| "same_public (XPubKey a) k \<longleftrightarrow> (\<exists>b. k = XPubKey b \<and> xk_origin b = xk_origin a \<and>
     xkey_data (xk_key b) = xkey_data (xk_key a) \<and> xk_path b = xk_path a \<and> xk_wildcard b = xk_wildcard a)"
| "same_public (MultiXPubKey a) k \<longleftrightarrow> (\<exists>b. k = MultiXPubKey b \<and> mk_origin b = mk_origin a \<and>
     xkey_data (mk_key b) = xkey_data (mk_key a) \<and> mk_paths b = mk_paths a \<and> mk_wildcard b = mk_wildcard a)"

fun same_secret :: "('s, 'v) descriptor_secret_key \<Rightarrow> ('s, 'v) descriptor_secret_key \<Rightarrow> bool" where
  "same_secret (SecSingle a) k \<longleftrightarrow> (\<exists>b. k = SecSingle b \<and> sp_origin b = sp_origin a \<and>
     pv_compressed (sp_key b) = pv_compressed (sp_key a) \<and> pv_inner (sp_key b) = pv_inner (sp_key a))"
| "same_secret (SecXPrv a) k \<longleftrightarrow> (\<exists>b. k = SecXPrv b \<and> xk_origin b = xk_origin a \<and>
     xkey_data (xk_key b) = xkey_data (xk_key a) \<and> xk_path b = xk_path a \<and> xk_wildcard b = xk_wildcard a)"
| "same_secret (SecMultiXPrv a) k \<longleftrightarrow> (\<exists>b. k = SecMultiXPrv b \<and> mk_origin b = mk_origin a \<and>
     xkey_data (mk_key b) = xkey_data (mk_key a) \<and> mk_paths b = mk_paths a \<and> mk_wildcard b = mk_wildcard a)"

lemma same_public_fix: "same_public pk (fix_public n pk)"
  by (cases pk) (simp_all add: fix_public_def)

lemma same_public_join: "same_public a c \<Longrightarrow> same_public b c \<Longrightarrow> same_public a b"
  by (cases a; cases b) auto

lemma same_secret_fix: "same_kind pk sec \<Longrightarrow> same_secret sec (snd (fix_entry n (pk, sec)))"
  by (cases pk; cases sec) simp_all

lemma key_network_fix: "key_network (fix_public n pk) \<in> {None, Some n}"
  by (cases pk) (auto simp: fix_public_def)

lemma set_km_insert: "set (km_insert k v m) \<subseteq> insert (k, v) (set m)"
  by (induction m) (auto simp: km_insert_def)

lemma set_km_extend: "set (km_extend m m') \<subseteq> set m \<union> set m'"
  by (induction m' arbitrary: m) (use set_km_insert in fastforce)+

lemma source_secrets_entry:
  "source_secrets ss pk = Some sec \<Longrightarrow> \<exists>s \<in> set ss. (pk, sec) \<in> set (fst (snd s))"
  by (induction ss) (auto simp: map_add_Some_iff dest: map_of_SomeD)

lemma dom_source_secrets: "dom (source_secrets ss) = (\<Union>s \<in> set ss. fst ` set (fst (snd s)))"
  by (induction ss) (auto simp: dom_map_of_conv_image_fst)


text \<open>C20: when a template, written with the macros, becomes the descriptor of a wallet of some network
  kind, every key that was written allows that network kind; the wallet's descriptor has the keys of
  the template, each extended key now on that network kind; every entry of its key map is a secret of
  the template, on that network kind and otherwise unchanged, under the public key it had, which is a
  key of the descriptor; and no secret of the template is lost: there is an entry under its public
  key, and it is that secret unless the template has another key that differs in its network only.\<close>

theorem template_wallet_on_network:
  assumes build: "descriptor_macro K M e = Ok (desc, keymap, kinds)"
    and conv: "template_into_wallet_descriptor D n (desc, keymap, kinds) = Ok (d, km)"
    and wf: "\<forall>s \<in> set (expr_sources K e). source_wf s \<and> source_same_kind s"
    and entries: "set (dt_entries D keymap) = set keymap"
  shows "(\<forall>s \<in> set (expr_sources K e). n \<in> snd (snd s)) \<and>
    list_all2 (\<lambda>pk pk'. same_public pk pk' \<and> key_network pk' \<in> {None, Some n})
      (descriptor_keys desc) (descriptor_keys d) \<and>
    (\<forall>(pk, sec) \<in> set km. pk \<in> set (descriptor_keys d) \<and> secret_network sec = n \<and>
       (\<exists>pk0 sec0. source_secrets (expr_sources K e) pk0 = Some sec0 \<and> same_public pk0 pk \<and> same_secret sec0 sec)) \<and>
    (\<forall>pk0 sec0. source_secrets (expr_sources K e) pk0 = Some sec0 \<longrightarrow>
       (\<exists>pk sec. (pk, sec) \<in> set km \<and> same_public pk0 pk \<and>
          ((\<forall>pk1 \<in> dom (source_secrets (expr_sources K e)). same_public pk0 pk1 \<longrightarrow> pk1 = pk0) \<longrightarrow>
             same_secret sec0 sec)))"
proof -
  let ?ss = "expr_sources K e"
  have col: "collected (descriptor_keys desc) keymap kinds ?ss"
    using descriptor_macro_collected [of K e M] wf build by (auto simp: desc_collected_def)
  have n: "n \<in> kinds" and d: "d = descriptor_translate (fix_public n) desc"
    and km: "km = km_extend [] (map (fix_entry n) (dt_entries D keymap))"
    using conv by (auto simp: template_into_wallet_descriptor_def res_simps Let_def split: if_splits)
  have entry: "source_secrets ?ss pk = Some sec \<and> same_kind pk sec \<and> pk \<in> set (descriptor_keys desc)"
    if mem: "(pk, sec) \<in> set keymap" for pk sec
  proof -
    have sec: "source_secrets ?ss pk = Some sec"
      using col mem by (simp add: collected_def map_of_eq_Some_iff flip: map_of_eq_Some_iff)
    then obtain s where s: "s \<in> set ?ss" "(pk, sec) \<in> set (fst (snd s))"
      using source_secrets_entry by blast
    then have "same_kind pk sec" "pk \<in> set (fst s)"
      using wf by (force simp: source_wf_def source_same_kind_def)+
    then show ?thesis
      using sec col s(1) by (auto simp: collected_def source_keys_def)
  qed
  have fixed: "pk \<in> set (descriptor_keys d) \<and> secret_network sec = n \<and>
      (\<exists>pk0 sec0. source_secrets ?ss pk0 = Some sec0 \<and> same_public pk0 pk \<and> same_secret sec0 sec)"
    if mem: "(pk, sec) \<in> set km" for pk sec
  proof -
    obtain pk0 sec0 where e0: "(pk0, sec0) \<in> set keymap" "(pk, sec) = fix_entry n (pk0, sec0)"
      using mem set_km_extend [of "[]" "map (fix_entry n) (dt_entries D keymap)"] entries km by auto
    then have "pk = fix_public n pk0" "secret_network sec = n" "same_secret sec0 sec"
      using entry [OF e0(1)] fix_entry_same_kind [of pk0 sec0 n] same_secret_fix [of pk0 sec0 n]
      by (metis fst_conv snd_conv)+
    then show ?thesis
      using entry [OF e0(1)] same_public_fix [of pk0 n] by (auto simp: d descriptor_keys_translate)
  qed
  have kept: "\<exists>sec. (fix_public n pk, sec) \<in> set km" if "source_secrets ?ss pk = Some sec0" for pk sec0
  proof -
    have "(pk, sec0) \<in> set keymap"
      using col that by (metis collected_def map_of_SomeD)
    moreover from entry [OF this] have "fst (fix_entry n (pk, sec0)) = fix_public n pk"
      by (simp add: fix_entry_same_kind(1))
    ultimately have "fix_public n pk \<in> fst ` fix_entry n ` set keymap"
      by (metis image_eqI)
    also have "\<dots> = fst ` set km"
      using keys_km_extend [of "[]" "map (fix_entry n) (dt_entries D keymap)"] entries km by simp
    finally show ?thesis by auto
  qed
  have "\<forall>s \<in> set ?ss. n \<in> snd (snd s)"
    using col n by (auto simp: collected_def source_kinds_def list_all_iff)
  moreover have "list_all2 (\<lambda>pk pk'. same_public pk pk' \<and> key_network pk' \<in> {None, Some n})
      (descriptor_keys desc) (descriptor_keys d)"
    unfolding d descriptor_keys_translate
    by (simp add: list_all2_conv_all_nth same_public_fix key_network_fix [simplified])
  moreover have "\<exists>pk sec. (pk, sec) \<in> set km \<and> same_public pk0 pk \<and>
      ((\<forall>pk1 \<in> dom (source_secrets ?ss). same_public pk0 pk1 \<longrightarrow> pk1 = pk0) \<longrightarrow> same_secret sec0 sec)"
    if sec0: "source_secrets ?ss pk0 = Some sec0" for pk0 sec0
  proof -
    obtain sec where sec: "(fix_public n pk0, sec) \<in> set km"
      using kept [OF sec0] by blast
    obtain pk1 sec1 where "source_secrets ?ss pk1 = Some sec1" "same_public pk1 (fix_public n pk0)"
      "same_secret sec1 sec"
      using fixed [OF sec] by blast
    moreover have "same_public pk0 pk1"
      using same_public_join [OF same_public_fix calculation(2)] .
    ultimately show ?thesis
      using sec sec0 same_public_fix [of pk0 n] by (intro exI [of _ "fix_public n pk0"] exI [of _ sec]) force
  qed
  ultimately show ?thesis
    using fixed by blast
qed

text \<open>C21: the public template of an account gives the descriptor of the private one: for the account key
  derived at purpose, coin type 2 on the main network and 1 on the test networks, account 0, and the
  fingerprint of the master key, every BIP44, BIP49, BIP84 and BIP86 public template gives the same
  outcome as the private template of the master key, on both keychains and with the same network
  kinds; the private one has in addition the secret key, at the full path. What is needed of
  \<open>to_public\<close> is that it derives the hardened steps and records them as the origin, and of
  derivation that it keeps the network.\<close>

theorem public_template_same_descriptor:
  assumes to_public: "\<And>hs ns. hs \<noteq> [] \<Longrightarrow> list_all is_hardened hs \<Longrightarrow> \<not> list_ex is_hardened ns \<Longrightarrow>
      ka_to_public K (SecXPrv \<lparr>xk_origin = None, xk_key = xprv, xk_path = hs @ ns, xk_wildcard = UnhardenedWildcard\<rparr>)
      = Ok (XPubKey \<lparr>xk_origin = Some (fp, hs), xk_key = ka_from_priv K (derive hs), xk_path = ns,
          xk_wildcard = UnhardenedWildcard\<rparr>)"
    and network: "\<And>hs. xkey_network (ka_from_priv K (derive hs)) = xkey_network xprv"
    and account: "account = [Hardened (bip_purpose bip), Hardened (case n of Main \<Rightarrow> 2 | Test \<Rightarrow> 1), Hardened 0]"
    and chain: "chain = (case keychain of External \<Rightarrow> Normal 0 | Internal \<Rightarrow> Normal 1)"
  shows "bip_build K M bip (xpriv_derivable xprv) keychain n =
    res_bind (bip_public_build K M bip (xpub_derivable (ka_from_priv K (derive account))) fp keychain n)
      (\<lambda>(d, _, kinds). Ok (d, [(hd (descriptor_keys d), SecXPrv \<lparr>xk_origin = None, xk_key = xprv,
          xk_path = account @ [chain], xk_wildcard = UnhardenedWildcard\<rparr>)], kinds))"
proof -
  have idx: "from_hardened_idx K (bip_purpose bip) = Ok (Hardened (bip_purpose bip))"
    "(case n of Main \<Rightarrow> from_hardened_idx K 2 | Test \<Rightarrow> from_hardened_idx K 1)
       = Ok (Hardened (case n of Main \<Rightarrow> 2 | Test \<Rightarrow> 1))"
    "from_hardened_idx K 0 = Ok (Hardened 0)"
    "(case keychain of External \<Rightarrow> from_normal_idx K 0 | Internal \<Rightarrow> from_normal_idx K 1) = Ok chain"
    by (cases bip; cases n; cases keychain; simp add: from_hardened_idx_def from_normal_idx_def chain)+
  let ?pub = "XPubKey \<lparr>xk_origin = Some (fp, account), xk_key = ka_from_priv K (derive account), xk_path = [chain],
      xk_wildcard = UnhardenedWildcard\<rparr>"
  let ?sec = "SecXPrv \<lparr>xk_origin = None, xk_key = xprv, xk_path = account @ [chain], xk_wildcard = UnhardenedWildcard\<rparr>"
  have pub: "ka_to_public K ?sec = Ok ?pub"
    by (rule to_public) (simp_all add: account chain split: keychain_kind.splits)
  have priv_key: "into_extracted K (derivable_with_path (xpriv_derivable xprv) (account @ [chain]))
      = Ok (?pub, [(?pub, ?sec)], kinds_of (xkey_network xprv))"
    unfolding into_extracted_def derivable_with_path_def xpriv_derivable_def extended_derivable_def
    by (simp add: extended_into_key_def secret_into_key_def secret_network_def pub km_insert_def
        mainnet_network_kind_def test_network_kind_def network_not_Main)
  have pub_key: "into_extracted K (derivable_with_source (xpub_derivable (ka_from_priv K (derive account))) (fp, account) [chain])
      = Ok (?pub, [], kinds_of (xkey_network xprv))"
    unfolding into_extracted_def derivable_with_source_def xpub_derivable_def extended_derivable_def
    by (simp add: extended_into_key_def public_into_key_def network
        mainnet_network_kind_def test_network_kind_def network_not_Main)
  have priv_path: "make_bipxx_private K (bip_purpose bip) (xpriv_derivable xprv) keychain n =
      Ok (derivable_with_path (xpriv_derivable xprv) (account @ [chain]))"
    unfolding make_bipxx_private_def idx by (simp add: account)
  have pub_path: "make_bipxx_public K (bip_purpose bip) key fp keychain n = Ok (derivable_with_source key (fp, account) [chain])" for key
    unfolding make_bipxx_public_def idx by (simp add: account)
  show ?thesis
    using priv_path pub_path
    by (cases bip) (simp_all add: template_build_defs top_level_pk_def top_level_tr_def new_descriptor_def
        priv_key pub_key bind_assoc)
qed

end
