(* ===== verification/Example_Descriptor.thy ===== *)
theory Example_Descriptor
  imports Descriptor_Facts
begin

section \<open>Runs of the macros, the templates and the conversions\<close>

text \<open>
  A concrete key library (a key is a number, deriving adds to it), in which the properties of
  \<open>Descriptor_Facts\<close> are applied.
\<close>

definition example_master :: "network_kind \<Rightarrow> nat xkey" where
  "example_master n = \<lparr>xkey_network = n, xkey_data = 5\<rparr>"

definition example_derive :: "nat xkey \<Rightarrow> child_number list \<Rightarrow> nat xkey" where
  "example_derive xprv hs = xprv\<lparr>xkey_data := xkey_data xprv + 100 * length hs\<rparr>"

fun example_to_public :: "(nat, nat) descriptor_secret_key \<Rightarrow> (string, nat descriptor_public_key) res" where
  "example_to_public (SecSingle sk) = Ok (SingleFull (sp_origin sk) (pv_inner (sp_key sk)))"
| "example_to_public (SecXPrv xk) =
     (let hs = takeWhile is_hardened (xk_path xk); ns = dropWhile is_hardened (xk_path xk) in
      Ok (XPubKey \<lparr>xk_origin = (if hs = [] then xk_origin xk else Some (7, hs)),
        xk_key = example_derive (xk_key xk) hs, xk_path = ns, xk_wildcard = xk_wildcard xk\<rparr>))"
| "example_to_public (SecMultiXPrv mk) = Ok (MultiXPubKey mk)"

definition example_key_api :: "(nat, nat, nat) key_api" where
  "example_key_api = \<lparr>ka_from_priv = (\<lambda>xprv. xprv), ka_to_public = example_to_public,
     ka_unexpected = length, ka_secret_from_str = (\<lambda>s. Err ''bad key''),
     ka_new_master = (\<lambda>n seed. Ok \<lparr>xkey_network = n, xkey_data = length seed\<rparr>),
     ka_secret_from_slice = (\<lambda>bs. Ok (length bs)), ka_invalid_child = unat\<rparr>"

definition example_ms :: "'x ms_api" where
  "example_ms = \<lparr>ms_type_check = (\<lambda>ctx t. Ok ()), ms_global_validity = (\<lambda>ctx t. Ok ()),
     ms_threshold_ok = (\<lambda>k n. 0 < k \<and> k \<le> n), ms_multi_ok = (\<lambda>k n. 0 < k \<and> k \<le> n \<and> n \<le> 20),
     ms_multi_a_ok = (\<lambda>k n. 0 < k \<and> k \<le> n \<and> n \<le> 999),
     ms_abs_locktime = (\<lambda>v. Ok (Blocks v)), ms_rel_locktime = (\<lambda>v. Err 3),
     ms_new_descriptor = (\<lambda>d. Ok ())\<rparr>"

definition example_text :: "(nat, nat, nat) desc_text_api" where
  "example_text = \<lparr>dt_checksum = (\<lambda>s. Ok (take 2 s)),
     dt_parse = (\<lambda>s. if s = ''wpkh(x)'' then Ok (DWpkh (XPubKey \<lparr>xk_origin = None, xk_key = example_master Main,
        xk_path = [], xk_wildcard = UnhardenedWildcard\<rparr>), []) else Err 1),
     dt_print = (\<lambda>d. ''wpkh(x)#wp''), dt_rebuild_names = (\<lambda>d. Ok ()), dt_rebuild = (\<lambda>d. Ok ()),
     dt_entries = (\<lambda>km. km)\<rparr>"

lemmas example_key_defs = example_master_def example_derive_def example_key_api_def example_ms_def example_text_def

subsection \<open>The macros\<close>

text \<open>\<open>tr(master/0/*, {thresh(2, pk(3), s:pk(4)), multi_a(1, 6)})\<close> with a secret key in the tree.\<close>

definition example_expr :: "(nat, nat, nat) descriptor_expr" where
  "example_expr = DxTr (derivable_with_path (xpriv_derivable (example_master Main)) [Normal 0])
     (Some (TapBranch (TapScript (FThresh 2 [FPk (full_into_key 3), FMod ModS (FPk (private_into_key
         \<lparr>pv_compressed = True, pv_network = Main, pv_inner = 4\<rparr>))]))
       (TapScript (FMultiA 1 [xonly_into_key 6]))))"

lemmas example_expr_defs = example_expr_def derivable_with_path_def xpriv_derivable_def extended_derivable_def
  extended_into_key_def full_into_key_def xonly_into_key_def private_into_key_def public_into_key_def
  secret_into_key_def secret_network_def into_extracted_def example_key_defs mainnet_network_kind_def
  test_network_kind_def any_network_kind_def

lemma example_expr_sources:
  "expr_sources example_key_api example_expr =
    [([XPubKey \<lparr>xk_origin = None, xk_key = example_master Main, xk_path = [Normal 0], xk_wildcard = UnhardenedWildcard\<rparr>],
      [(XPubKey \<lparr>xk_origin = None, xk_key = example_master Main, xk_path = [Normal 0], xk_wildcard = UnhardenedWildcard\<rparr>,
        SecXPrv \<lparr>xk_origin = None, xk_key = example_master Main, xk_path = [Normal 0], xk_wildcard = UnhardenedWildcard\<rparr>)],
      {Main}),
     ([SingleFull None 3], [], {Main, Test}),
     ([SingleFull None 4], [(SingleFull None 4, SecSingle \<lparr>sp_origin = None, sp_key =
         \<lparr>pv_compressed = True, pv_network = Main, pv_inner = 4\<rparr>\<rparr>)], {Main}),
     ([SingleXOnly None 6], [], {Main, Test})]"
  by (simp add: example_expr_defs source_of_def km_insert_def)

lemma example_expr_ok: "is_ok (descriptor_macro example_key_api example_ms example_expr)"
  by (simp add: example_expr_defs make_pk_def checked_ast_def from_ast_def check_miniscript_def wrap_modifier_def
      thresh_vec_def join_sources_def leaf_opcode_def panic_unless_def group_multi_keys_def keys_make_multi_def
      expand_multi_keys_def multi_a_variant_def tap_merge_def top_level_tr_def new_descriptor_def Let_def)

theorem macro_collects_keys_witness:
  "\<exists>d km. descriptor_macro example_key_api example_ms example_expr = Ok (d, km, {Main}) \<and>
     map fst (filter (\<lambda>e. snd e \<noteq> None) (map (\<lambda>k. (k, map_of km k)) (descriptor_keys d))) =
       [XPubKey \<lparr>xk_origin = None, xk_key = example_master Main, xk_path = [Normal 0], xk_wildcard = UnhardenedWildcard\<rparr>,
        SingleFull None 4] \<and> length (descriptor_keys d) = 4"
proof -
  obtain d km kinds where run: "descriptor_macro example_key_api example_ms example_expr = Ok (d, km, kinds)"
    using example_expr_ok by (auto simp: is_ok_iff)
  have "\<forall>s \<in> set (expr_sources example_key_api example_expr). source_wf s"
    by (simp add: example_expr_sources source_wf_def)
  from macro_collects_keys [OF run this]
  have "descriptor_keys d = source_keys (expr_sources example_key_api example_expr)"
    "map_of km = source_secrets (expr_sources example_key_api example_expr)" "kinds = {Main}"
    by (auto simp: example_expr_sources source_kinds_def)
  with run show ?thesis
    by (auto simp: example_expr_sources source_keys_def)
qed

subsection \<open>Strings\<close>

lemma example_string:
  "str_into_wallet_descriptor example_key_api example_text Main ''wpkh(x)'' =
     Ok (DWpkh (XPubKey \<lparr>xk_origin = None, xk_key = example_master Main, xk_path = [],
        xk_wildcard = UnhardenedWildcard\<rparr>), [])"
  by (simp add: str_into_wallet_descriptor_eq parse_with_checksum_def pair_into_wallet_descriptor_eq
      split_once_def example_text_def example_master_def)

theorem string_one_network_witness:
  "str_into_wallet_descriptor example_key_api example_text Test ''wpkh(x)'' = Err (KeyError InvalidNetworkKind)"
  using string_one_network [OF example_string, of _ Main Test] by (simp add: example_master_def)

theorem checksum_is_optional_witness:
  "str_into_wallet_descriptor example_key_api example_text Main ''wpkh(x)#wp'' =
     str_into_wallet_descriptor example_key_api example_text Main ''wpkh(x)'' \<and>
   str_into_wallet_descriptor example_key_api example_text Main ''wpkh(x)#pw'' = Err InvalidDescriptorChecksum"
  using checksum_is_optional [of "''wpkh(x)''" example_text "''wp''" example_key_api Main "''wp''"]
    checksum_is_optional [of "''wpkh(x)''" example_text "''wp''" example_key_api Main "''pw''"]
  by (simp add: example_text_def)

subsection \<open>Templates\<close>

text \<open>A seed is valid on every network: its key, made for the main network, ends up on the test one.\<close>

definition example_seed_expr :: "(nat, nat, nat) descriptor_expr" where
  "example_seed_expr = DxWpkh (derivable_with_path (seed_derivable example_key_api [1, 2, 3]) [Hardened 84, Normal 0])"

definition example_seed_sec :: "network_kind \<Rightarrow> (nat, nat) descriptor_secret_key" where
  "example_seed_sec n = SecXPrv \<lparr>xk_origin = None, xk_key = \<lparr>xkey_network = n, xkey_data = 3\<rparr>,
     xk_path = [Hardened 84, Normal 0], xk_wildcard = UnhardenedWildcard\<rparr>"

definition example_seed_pub :: "network_kind \<Rightarrow> nat descriptor_public_key" where
  "example_seed_pub n = XPubKey \<lparr>xk_origin = Some (7, [Hardened 84]), xk_key = \<lparr>xkey_network = n, xkey_data = 103\<rparr>,
     xk_path = [Normal 0], xk_wildcard = UnhardenedWildcard\<rparr>"

lemma example_seed_extracted:
  "into_extracted example_key_api (derivable_with_path (seed_derivable example_key_api [1, 2, 3]) [Hardened 84, Normal 0])
     = Ok (example_seed_pub Main, [(example_seed_pub Main, example_seed_sec Main)], {Main, Test})"
  by (simp add: example_expr_defs seed_derivable_def any_network_derivable_def seed_extended_def
      set_valid_on_any_network_kind_def example_seed_pub_def example_seed_sec_def km_insert_def Let_def)

lemma example_seed_build:
  "descriptor_macro example_key_api example_ms example_seed_expr =
     Ok (DWpkh (example_seed_pub Main), [(example_seed_pub Main, example_seed_sec Main)], {Main, Test})"
  by (simp add: example_seed_expr_def top_level_pk_def example_seed_extracted new_descriptor_def example_ms_def)

lemma example_seed_sources:
  "expr_sources example_key_api example_seed_expr =
     [([example_seed_pub Main], [(example_seed_pub Main, example_seed_sec Main)], {Main, Test})]"
  by (simp add: example_seed_expr_def source_of_def example_seed_extracted)

lemma example_seed_wallet:
  "template_into_wallet_descriptor example_text Test
     (DWpkh (example_seed_pub Main), [(example_seed_pub Main, example_seed_sec Main)], {Main, Test}) =
     Ok (DWpkh (example_seed_pub Test), [(example_seed_pub Test, example_seed_sec Test)])"
  by (simp add: template_into_wallet_descriptor_def example_text_def fix_public_def example_seed_pub_def
      example_seed_sec_def km_insert_def)

theorem template_wallet_on_network_witness:
  "key_network (example_seed_pub Test) = Some Test \<and> secret_network (example_seed_sec Test) = Test \<and>
   (\<exists>pk sec. (pk, sec) \<in> set [(example_seed_pub Test, example_seed_sec Test)] \<and>
      same_public (example_seed_pub Main) pk \<and> same_secret (example_seed_sec Main) sec)"
proof -
  have wf: "\<forall>s \<in> set (expr_sources example_key_api example_seed_expr). source_wf s \<and> source_same_kind s"
    by (simp add: example_seed_sources source_wf_def source_same_kind_def example_seed_pub_def example_seed_sec_def)
  have "set (dt_entries example_text [(example_seed_pub Main, example_seed_sec Main)])
      = set [(example_seed_pub Main, example_seed_sec Main)]"
    by (simp add: example_text_def)
  from template_wallet_on_network [OF example_seed_build example_seed_wallet wf this]
  show ?thesis
    by (simp add: example_seed_sources example_seed_pub_def)
qed

lemma example_to_public_law:
  assumes "hs \<noteq> []" "list_all is_hardened hs" "\<not> list_ex is_hardened ns"
  shows "ka_to_public example_key_api (SecXPrv \<lparr>xk_origin = None, xk_key = xprv, xk_path = hs @ ns,
        xk_wildcard = UnhardenedWildcard\<rparr>)
      = Ok (XPubKey \<lparr>xk_origin = Some (7, hs), xk_key = ka_from_priv example_key_api (example_derive xprv hs),
          xk_path = ns, xk_wildcard = UnhardenedWildcard\<rparr>)"
proof -
  have "takeWhile is_hardened (hs @ ns) = hs @ takeWhile is_hardened ns"
    "dropWhile is_hardened (hs @ ns) = dropWhile is_hardened ns"
    using assms(2) by (induction hs) auto
  moreover have "takeWhile is_hardened ns = []" "dropWhile is_hardened ns = ns"
    using assms(3) by (cases ns; simp)+
  ultimately show ?thesis
    using assms(1) by (simp add: example_key_api_def)
qed

theorem public_template_same_descriptor_witness:
  "\<exists>pub. bip_build example_key_api example_ms Bip84 (xpriv_derivable (example_master Main)) Internal Main =
     Ok (DWpkh pub, [(pub, SecXPrv \<lparr>xk_origin = None, xk_key = example_master Main,
        xk_path = [Hardened 84, Hardened 2, Hardened 0, Normal 1], xk_wildcard = UnhardenedWildcard\<rparr>)], {Main}) \<and>
   bip_public_build example_key_api example_ms Bip84
     (xpub_derivable (example_derive (example_master Main) [Hardened 84, Hardened 2, Hardened 0])) 7 Internal Main =
     Ok (DWpkh pub, [], {Main})"
proof -
  let ?account = "[Hardened 84, Hardened 2, Hardened 0]"
  let ?pub = "XPubKey \<lparr>xk_origin = Some (7, ?account), xk_key = example_derive (example_master Main) ?account,
      xk_path = [Normal 1], xk_wildcard = UnhardenedWildcard\<rparr>"
  have "bip_public_build example_key_api example_ms Bip84 (xpub_derivable (example_derive (example_master Main) ?account))
      7 Internal Main = Ok (DWpkh ?pub, [], {Main})"
    by (simp add: template_build_defs make_bipxx_public_def from_hardened_idx_def from_normal_idx_def
        derivable_with_source_def xpub_derivable_def extended_derivable_def extended_into_key_def public_into_key_def
        top_level_pk_def into_extracted_def new_descriptor_def example_key_defs mainnet_network_kind_def)
  moreover have "xkey_network (ka_from_priv example_key_api (example_derive (example_master Main) hs))
      = xkey_network (example_master Main)" for hs
    by (simp add: example_key_defs)
  ultimately show ?thesis
    using public_template_same_descriptor [of example_key_api "example_master Main" 7 "example_derive (example_master Main)"
        ?account Bip84 Main "Normal 1" Internal example_ms, OF example_to_public_law]
    by (simp add: example_key_api_def)
qed

end
