(* ===== verification/Export.thy ===== *)
theory Export
  imports Templates Wallet_State
begin

section \<open>Wallet exports (src/wallet/export.rs) and old databases (src/wallet/migration.rs)\<close>

text \<open>
  The FullyNoded export (the external descriptor with its secrets, from which the change descriptor
  is recovered by replacing \<open>/0/*\<close> by \<open>/1/*\<close>), the Caravan export of a sorted multisig with its
  import, and the reading of the keychains of a database from before version 1. Printing and parsing
  descriptors and keys belong to miniscript: they are the fields of \<open>export_api\<close>. An error is its text.
  The JSON encoding is serde's and is not modelled.
\<close>

subsection \<open>Replacing a substring\<close>

text \<open>\<open>str::replace\<close> for a non-empty pattern: from left to right, without overlaps.\<close>

function (sequential) str_replace :: "string \<Rightarrow> string \<Rightarrow> string \<Rightarrow> string" where
  "str_replace pat to [] = []"
| "str_replace pat to (c # cs) =
     (if pat \<noteq> [] \<and> take (length pat) (c # cs) = pat
      then to @ str_replace pat to (drop (length pat) (c # cs))
      else c # str_replace pat to cs)"
  by pat_completeness auto
termination
  by (relation "measure (\<lambda>(pat, to, s). length s)") auto

subsection \<open>FullyNoded\<close>

record fully_noded =
  fn_descriptor :: string
  fn_blockheight :: u32
  fn_label :: string

record ('d, 'k, 'x, 'pk) export_api =
  ea_to_public :: "('k, 'x) desc_secret \<Rightarrow> 'pk option"
  ea_to_string_with_secret :: "'d \<Rightarrow> ('pk, ('k, 'x) desc_secret) btree \<Rightarrow> string"
  ea_parse_names :: "string \<Rightarrow> string descriptor_form option"

definition remove_checksum :: "string \<Rightarrow> (string, string) res" where
  "remove_checksum s = expect (map_option fst (split_once CHR ''#'' s))"

definition fn_change_descriptor :: "fully_noded \<Rightarrow> string option" where
  "fn_change_descriptor e =
     (let replaced = str_replace ''/0/*'' ''/1/*'' (fn_descriptor e) in
      if replaced \<noteq> fn_descriptor e then Some replaced else None)"

fun core_check_ms :: "'x terminal \<Rightarrow> (string, unit) res" where
  "core_check_ms (TMulti _ _) = Ok ()"
| "core_check_ms _ = Err ''The descriptor contains operators not supported by Bitcoin Core''"

fun core_compatible_form :: "'x descriptor_form \<Rightarrow> (string, unit) res" where
  "core_compatible_form (DPkh _) = Ok ()"
| "core_compatible_form (DWpkh _) = Ok ()"
| "core_compatible_form (DShWpkh _) = Ok ()"
| "core_compatible_form (DShSortedMulti _ _) = Ok ()"
| "core_compatible_form (DShWshSortedMulti _ _) = Ok ()"
| "core_compatible_form (DShWshMs ms) = core_check_ms ms"
| "core_compatible_form (DShMs ms) = core_check_ms ms"
| "core_compatible_form (DWshSortedMulti _ _) = Ok ()"
| "core_compatible_form (DWshMs ms) = core_check_ms ms"
| "core_compatible_form (DTr _ _) = Ok ()"
| "core_compatible_form _ = Err ''The descriptor is not compatible with Bitcoin Core''"

definition is_compatible_with_core where
  "is_compatible_with_core E descriptor =
     res_bind (ok_or (ea_parse_names E descriptor) ''Invalid descriptor'') core_compatible_form"

text \<open>\<open>Wallet::descriptor_checksum\<close>: what follows the \<open>#\<close> of the printed public descriptor.\<close>

definition descriptor_checksum where
  "descriptor_checksum A print_descriptor w keychain =
     res_bind (public_descriptor A w keychain) (\<lambda>d.
     expect (map_option snd (split_once CHR ''#'' (print_descriptor d))))"

text \<open>The descriptor of a keychain with the secrets of its signers, without its checksum.\<close>

definition secret_descriptor where
  "secret_descriptor A E w keychain =
     res_bind (public_descriptor A w keychain) (\<lambda>d.
     remove_checksum (ea_to_string_with_secret E d (as_key_map (ea_to_public E) (get_signers w keychain))))"

definition export_blockheight where
  "export_blockheight A w include_blockheight =
     (if include_blockheight
      then (case transactions A w of
              [] \<Rightarrow> 0
            | canonical_tx # _ \<Rightarrow> (case pos_height_upper_bound (ct_pos canonical_tx) of Some h \<Rightarrow> h | None \<Rightarrow> 0))
      else 0 :: u32)"

definition fn_export_wallet where
  "fn_export_wallet A E w lbl include_blockheight =
     res_bind (secret_descriptor A E w External) (\<lambda>descriptor.
     res_bind (is_compatible_with_core E descriptor) (\<lambda>_.
     let export = \<lparr>fn_descriptor = descriptor, fn_blockheight = export_blockheight A w include_blockheight,
           fn_label = lbl\<rparr> in
     res_bind (secret_descriptor A E w Internal) (\<lambda>change_descriptor.
     if fn_change_descriptor export \<noteq> Some change_descriptor then Err ''Incompatible change descriptor''
     else Ok export)))"

subsection \<open>Caravan\<close>

record 'x caravan_key =
  cv_name :: string
  cv_path :: "child_number list"
  cv_xpub :: 'x
  cv_xfp :: fingerprint

datatype caravan_address_type = P2SH | P2WSH | P2SHWrappedP2WSH

datatype caravan_network = Mainnet | Testnet

record caravan_quorum =
  cv_required_signers :: u32
  cv_total_signers :: u32

record 'x caravan_export =
  cv_wallet_name :: string
  cv_address_type :: caravan_address_type
  cv_network :: caravan_network
  cv_quorum :: caravan_quorum
  cv_keys :: "'x caravan_key list"
  cv_starting_index :: u32

definition caravan_network_of :: "network_kind \<Rightarrow> caravan_network" where
  "caravan_network_of n = (case n of Main \<Rightarrow> Mainnet | Test \<Rightarrow> Testnet)"

text \<open>The decimal digits of a number, as \<open>format!\<close> prints it.\<close>

fun decimal :: "nat \<Rightarrow> string" where
  "decimal n = (if n < 10 then [char_of (48 + n)] else decimal (n div 10) @ [char_of (48 + n mod 10)])"

declare decimal.simps [simp del]

text \<open>The path of an exported key: the origin's, then the key's without its last step.\<close>

definition caravan_key_of :: "nat \<Rightarrow> 'x desc_pubkey \<Rightarrow> (string, 'x caravan_key) res" where
  "caravan_key_of i desc_key = (case desc_key of
     XPubKey xpub_key \<Rightarrow>
       (case xk_origin xpub_key of
          None \<Rightarrow> Err ''Missing origin information for key''
        | Some (fp, origin_path) \<Rightarrow>
            (let base_path = (if xk_path xpub_key \<noteq> []
                 then origin_path @ take (length (xk_path xpub_key) - 1) (xk_path xpub_key)
                 else origin_path) in
             Ok \<lparr>cv_name = ''key'' @ decimal (i + 1), cv_path = base_path, cv_xpub = xk_key xpub_key, cv_xfp = fp\<rparr>))
   | _ \<Rightarrow> Err ''Only extended public keys are supported'')"

definition extract_xpubs_from_multi :: "'x desc_pubkey list \<Rightarrow> (string, 'x caravan_key list) res" where
  "extract_xpubs_from_multi pks = res_map (\<lambda>(i, k). caravan_key_of i k) (enumerate 0 pks)"

definition caravan_multi_info :: "caravan_address_type \<Rightarrow> nat \<Rightarrow> 'x desc_pubkey list
    \<Rightarrow> (string, caravan_address_type \<times> caravan_quorum \<times> 'x caravan_key list) res" where
  "caravan_multi_info ty k pks = res_bind (extract_xpubs_from_multi pks) (\<lambda>keys.
     Ok (ty, \<lparr>cv_required_signers = of_nat k, cv_total_signers = of_nat (length pks)\<rparr>, keys))"

fun extract_descriptor_info :: "'x descriptor_form
    \<Rightarrow> (string, caravan_address_type \<times> caravan_quorum \<times> 'x caravan_key list) res" where
  "extract_descriptor_info (DShWshSortedMulti k pks) = caravan_multi_info P2SHWrappedP2WSH k pks"
| "extract_descriptor_info (DShWshMs _) = Err ''Only sortedmulti is supported for P2SH-P2WSH in Caravan''"
| "extract_descriptor_info (DShSortedMulti k pks) = caravan_multi_info P2SH k pks"
| "extract_descriptor_info (DShWpkh _) = Err ''Only sortedmulti is supported for P2SH in Caravan''"
| "extract_descriptor_info (DShMs _) = Err ''Only sortedmulti is supported for P2SH in Caravan''"
| "extract_descriptor_info (DWshSortedMulti k pks) = caravan_multi_info P2WSH k pks"
| "extract_descriptor_info (DWshMs _) = Err ''Only sortedmulti is supported for P2WSH in Caravan''"
| "extract_descriptor_info _ =
     Err ''Only P2SH, P2WSH, or P2SH-P2WSH multisig descriptors are supported by Caravan''"

definition caravan_export_wallet where
  "caravan_export_wallet A kind_of w nam =
     res_bind (public_descriptor A w External) (\<lambda>descriptor.
     res_bind (extract_descriptor_info (da_form (dsa A) descriptor)) (\<lambda>(address_type, quorum, keys).
     Ok \<lparr>cv_wallet_name = nam, cv_address_type = address_type, cv_network = caravan_network_of (kind_of (w_network w)),
         cv_quorum = quorum, cv_keys = keys, cv_starting_index = 0\<rparr>))"

text \<open>\<open>ci_key_from_str\<close> parses a key, \<open>ci_new\<close> is the check of the constructor of a descriptor.\<close>

record 'x caravan_api =
  ci_show_fp :: "fingerprint \<Rightarrow> string"
  ci_show_path :: "child_number list \<Rightarrow> string"
  ci_show_xpub :: "'x \<Rightarrow> string"
  ci_key_from_str :: "string \<Rightarrow> 'x desc_pubkey option"
  ci_new :: "'x descriptor_form \<Rightarrow> bool"
  ci_print :: "'x descriptor_form \<Rightarrow> string"

definition caravan_key_str :: "'x caravan_api \<Rightarrow> string \<Rightarrow> 'x caravan_key \<Rightarrow> string" where
  "caravan_key_str C suffix key =
     ''['' @ ci_show_fp C (cv_xfp key) @ ''/'' @ ci_show_path C (cv_path key) @ '']'' @
     ci_show_xpub C (cv_xpub key) @ suffix"

definition caravan_parse_keys :: "'x caravan_api \<Rightarrow> string \<Rightarrow> 'x caravan_key list
    \<Rightarrow> (string, 'x desc_pubkey list) res" where
  "caravan_parse_keys C suffix keys = res_map (\<lambda>key.
     ok_or (ci_key_from_str C (caravan_key_str C suffix key)) ''Failed to create DescriptorPublicKey'') keys"

fun caravan_form :: "caravan_address_type \<Rightarrow> nat \<Rightarrow> 'x desc_pubkey list \<Rightarrow> 'x descriptor_form" where
  "caravan_form P2SH k keys = DShSortedMulti k keys"
| "caravan_form P2WSH k keys = DWshSortedMulti k keys"
| "caravan_form P2SHWrappedP2WSH k keys = DShWshSortedMulti k keys"

fun caravan_form_error :: "caravan_address_type \<Rightarrow> string" where
  "caravan_form_error P2SH = ''Failed to create P2SH sortedmulti descriptor''"
| "caravan_form_error P2WSH = ''Failed to create P2WSH sortedmulti descriptor''"
| "caravan_form_error P2SHWrappedP2WSH = ''Failed to create P2SH-P2WSH sortedmulti descriptor''"

definition caravan_new :: "'x caravan_api \<Rightarrow> caravan_address_type \<Rightarrow> nat \<Rightarrow> 'x desc_pubkey list
    \<Rightarrow> (string, 'x descriptor_form) res" where
  "caravan_new C ty k keys =
     (if ci_new C (caravan_form ty k keys) then Ok (caravan_form ty k keys) else Err (caravan_form_error ty))"

definition caravan_to_descriptors :: "'x caravan_api \<Rightarrow> 'x caravan_export \<Rightarrow> (string, string \<times> string) res" where
  "caravan_to_descriptors C e =
     (if cv_keys e = [] then Err ''No extended public keys found''
      else
        res_bind (caravan_parse_keys C ''/0/*'' (cv_keys e)) (\<lambda>external_keys.
        res_bind (caravan_parse_keys C ''/1/*'' (cv_keys e)) (\<lambda>internal_keys.
        let k = unat (cv_required_signers (cv_quorum e)) in
        res_bind (caravan_new C (cv_address_type e) k external_keys) (\<lambda>external_desc.
        res_bind (caravan_new C (cv_address_type e) k internal_keys) (\<lambda>internal_desc.
        Ok (ci_print C external_desc, ci_print C internal_desc))))))"

subsection \<open>Keychains of an old database\<close>

text \<open>The rows of the two tables; the keychain column holds a quoted name.\<close>

record pre_v1_tables =
  pv_indices :: "(string \<times> u32) list"
  pv_checksums :: "(string \<times> u8 list) list"

record pre_v1_keychain =
  pk_keychain :: keychain_kind
  pk_last_index :: u32
  pk_checksum :: string

datatype pre_v1_error = RusqliteError nat | InvalidKeychain string | InvalidChecksumUtf8

text \<open>\<open>trim(x, '"')\<close>, and the join of the two tables on the column as it is stored. The order in which
  SQLite returns the rows is \<open>row_order\<close>.\<close>

definition trim_quotes :: "string \<Rightarrow> string" where
  "trim_quotes s = rev (dropWhile (\<lambda>c. c = char_of (34 :: nat)) (rev (dropWhile (\<lambda>c. c = char_of (34 :: nat)) s)))"

definition pre_v1_rows :: "pre_v1_tables \<Rightarrow> (string \<times> u32 \<times> u8 list) list" where
  "pre_v1_rows T = concat (map (\<lambda>(keychain, val).
     map (\<lambda>(_, checksum). (trim_quotes keychain, val, checksum))
       (filter (\<lambda>(keychain', _). keychain' = keychain) (pv_checksums T))) (pv_indices T))"

fun pre_v1_keychain_of :: "(u8 list \<Rightarrow> string option) \<Rightarrow> string \<times> u32 \<times> u8 list \<Rightarrow> (pre_v1_error, pre_v1_keychain) res" where
  "pre_v1_keychain_of from_utf8 (nam, val, checksum) =
     res_bind (if nam = ''External'' then Ok External else if nam = ''Internal'' then Ok Internal
        else Err (InvalidKeychain nam)) (\<lambda>keychain.
     res_bind (ok_or (from_utf8 checksum) InvalidChecksumUtf8) (\<lambda>chk.
     Ok \<lparr>pk_keychain = keychain, pk_last_index = val, pk_checksum = chk\<rparr>))"

definition get_pre_v1_wallet_keychains :: "(u8 list \<Rightarrow> string option)
    \<Rightarrow> ((string \<times> u32 \<times> u8 list) list \<Rightarrow> (string \<times> u32 \<times> u8 list) list)
    \<Rightarrow> pre_v1_tables \<Rightarrow> (pre_v1_error, pre_v1_keychain list) res" where
  "get_pre_v1_wallet_keychains from_utf8 row_order T =
     res_map (pre_v1_keychain_of from_utf8) (row_order (pre_v1_rows T))"

end
