(* ===== verification/Export_Facts.thy ===== *)
theory Export_Facts
  imports Export "HOL-Library.Sublist"
begin

section \<open>What the exports promise\<close>

subsection \<open>Replacing the chain of a descriptor\<close>

text \<open>A descriptor text is made of parts, joined by the chain steps \<open>/0/*\<close> or \<open>/1/*\<close>.\<close>

fun join_with :: "string \<Rightarrow> string list \<Rightarrow> string" where
  "join_with sep [] = []"
| "join_with sep [p] = p"
| "join_with sep (p # q # ps) = p @ sep @ join_with sep (q # ps)"

lemma replace_no_match: "\<not> sublist pat s \<Longrightarrow> str_replace pat to s = s"
proof (induction pat to s rule: str_replace.induct)
  case (2 pat to c cs)
  have "take (length pat) (c # cs) \<noteq> pat"
  proof
    assume "take (length pat) (c # cs) = pat"
    then have "sublist pat (c # cs)"
      by (metis append_take_drop_id prefixI prefix_imp_sublist)
    then show False using 2 by simp
  qed
  moreover have "\<not> sublist pat cs"
    using 2(3) by (meson sublist_Cons_right)
  ultimately show ?case using 2 by simp
qed simp

lemma replace_step: "take (length pat) (c # cs) \<noteq> pat \<Longrightarrow> str_replace pat to (c # cs) = c # str_replace pat to cs"
  by simp

text \<open>No occurrence of \<open>/0/*\<close> begins before one and ends inside it.\<close>

lemma replace_match:
  assumes "\<not> sublist ''/0/*'' p"
  shows "str_replace ''/0/*'' to (p @ ''/0/*'' @ s) = p @ to @ str_replace ''/0/*'' to s"
  using assms
proof (induction p)
  case Nil
  then show ?case by simp
next
  case (Cons c p)
  have no: "\<not> sublist ''/0/*'' p"
    using Cons(2) by (meson sublist_Cons_right)
  have miss: "\<not> take (length ''/0/*'') (c # p @ ''/0/*'' @ s) = ''/0/*''"
  proof
    assume "take (length ''/0/*'') (c # p @ ''/0/*'' @ s) = ''/0/*''"
    then have hit: "take 4 (c # p @ ''/0/*'' @ s) = ''/0/*''" by (simp add: numeral_eq_Suc)
    consider "p = []" | a where "p = [a]" | a b where "p = [a, b]" | a b d q where "p = a # b # d # q"
      by (metis list.exhaust)
    then show False
    proof cases
      case (4 a b d q)
      with hit have "c # p = ''/0/*'' @ q" by (simp add: numeral_eq_Suc)
      then show False using Cons(2) by (metis append_Nil sublist_appendI)
    qed (use hit in \<open>simp_all add: numeral_eq_Suc\<close>)
  qed
  have "str_replace ''/0/*'' to ((c # p) @ ''/0/*'' @ s) = c # str_replace ''/0/*'' to (p @ ''/0/*'' @ s)"
    by (subst append_Cons) (rule replace_step [OF miss])
  then show ?case
    unfolding Cons.IH [OF no] by simp
qed

lemma replace_join:
  assumes "\<forall>p \<in> set parts. \<not> sublist ''/0/*'' p"
  shows "str_replace ''/0/*'' to (join_with ''/0/*'' parts) = join_with to parts"
  using assms
proof (induction "''/0/*''" parts rule: join_with.induct)
  case (3 p q ps)
  then show ?case using replace_match [of p to "join_with ''/0/*'' (q # ps)"] by simp
qed (simp_all add: replace_no_match)

lemma join_with_length: "length (join_with sep ps) = length (concat ps) + (length ps - 1) * length sep"
  by (induction sep ps rule: join_with.induct) auto

lemma join_neq: "2 \<le> length parts \<Longrightarrow> join_with ''/0/*'' parts \<noteq> join_with ''/1/*'' parts"
  by (cases parts; cases "tl parts") auto

subsection \<open>FullyNoded\<close>

text \<open>C24: a wallet whose two descriptors, printed with their secrets, differ only in the chain step (every
  \<open>/0/*\<close> of the external one is \<open>/1/*\<close> in the internal one) and whose external descriptor is of a form
  Bitcoin Core knows is exported, and both descriptors are recovered from the export.\<close>

theorem standard_wallet_exported:
  assumes "secret_descriptor A E w External = Ok (join_with ''/0/*'' parts)"
    and "secret_descriptor A E w Internal = Ok (join_with ''/1/*'' parts)"
    and "\<forall>p \<in> set parts. \<not> sublist ''/0/*'' p" and "2 \<le> length parts"
    and "is_compatible_with_core E (join_with ''/0/*'' parts) = Ok ()"
  shows "\<exists>e. fn_export_wallet A E w lbl b = Ok e \<and> fn_descriptor e = join_with ''/0/*'' parts \<and>
    fn_change_descriptor e = Some (join_with ''/1/*'' parts)"
  using assms join_neq [OF assms(4)]
  by (simp add: fn_export_wallet_def fn_change_descriptor_def replace_join Let_def)

text \<open>A wallet with one descriptor and no secret keys, or with the same key map for both keychains, is
  never exported, although nothing is wrong with its descriptor: the export compares the descriptor of
  the change keychain, which is the external one, with the external one changed.\<close>

theorem single_descriptor_never_exported:
  assumes "length (keychains A w) = 1"
    and "as_key_map (ea_to_public E) (w_signers w) = as_key_map (ea_to_public E) (w_change_signers w)"
  shows "fn_export_wallet A E w lbl b \<noteq> Ok e"
proof
  assume "fn_export_wallet A E w lbl b = Ok e"
  moreover have "secret_descriptor A E w Internal = secret_descriptor A E w External"
    using assms by (simp add: secret_descriptor_def public_descriptor_def map_keychain_def get_signers_def)
  ultimately have "fn_change_descriptor e = Some (fn_descriptor e)"
    by (auto simp: fn_export_wallet_def res_simps Let_def split: if_splits)
  then show False
    by (simp add: fn_change_descriptor_def Let_def split: if_splits)
qed

subsection \<open>Caravan\<close>

text \<open>What an import makes of an exported key: the steps before the last one move to the origin, and the
  last step becomes the chain.\<close>

definition caravan_rebase :: "u32 \<Rightarrow> 'x desc_pubkey \<Rightarrow> 'x desc_pubkey" where
  "caravan_rebase chain k = (case k of
     XPubKey xk \<Rightarrow> XPubKey \<lparr>xk_origin = map_option (\<lambda>(fp, path). (fp, path @ butlast (xk_path xk))) (xk_origin xk),
       xk_key = xk_key xk, xk_path = [Normal chain], xk_wildcard = UnhardenedWildcard\<rparr>
   | _ \<Rightarrow> k)"

fun has_origin :: "'x desc_pubkey \<Rightarrow> bool" where
  "has_origin (XPubKey xk) = (xk_origin xk \<noteq> None)"
| "has_origin _ = False"

lemma map_self_iff: "map f xs = xs \<longleftrightarrow> list_all (\<lambda>x. f x = x) xs"
  by (induction xs) auto

lemma caravan_rebase_self:
  "caravan_rebase 0 p = p \<longleftrightarrow> (case p of
     XPubKey xk \<Rightarrow> xk_path xk = [Normal 0] \<and> xk_wildcard xk = UnhardenedWildcard | _ \<Rightarrow> True)"
proof (cases p)
  case (XPubKey xk)
  then show ?thesis
    by (cases xk) (auto simp: caravan_rebase_def option.map_id split_beta intro: option.map_ident)
qed (simp_all add: caravan_rebase_def)

lemma caravan_key_of_Ok:
  assumes "has_origin k"
  obtains c where "caravan_key_of i k = Ok c"
    "\<And>chain. caravan_rebase chain k = XPubKey \<lparr>xk_origin = Some (cv_xfp c, cv_path c), xk_key = cv_xpub c,
        xk_path = [Normal chain], xk_wildcard = UnhardenedWildcard\<rparr>"
proof -
  obtain xk fp path where k: "k = XPubKey xk" "xk_origin xk = Some (fp, path)"
    using assms by (cases k) auto
  show thesis
    by (rule that [of "\<lparr>cv_name = ''key'' @ decimal (i + 1), cv_path = path @ butlast (xk_path xk),
        cv_xpub = xk_key xk, cv_xfp = fp\<rparr>"])
      (auto simp: caravan_key_of_def caravan_rebase_def k butlast_conv_take)
qed

text \<open>The parser reads the text of the exported key \<open>k\<close> with the chain appended as that origin, key and chain.\<close>

definition caravan_reads :: "'x caravan_api \<Rightarrow> string \<Rightarrow> u32 \<Rightarrow> 'x desc_pubkey \<Rightarrow> bool" where
  "caravan_reads C ext chain k \<longleftrightarrow> (\<forall>i c. caravan_key_of i k = Ok c \<longrightarrow>
     ci_key_from_str C (caravan_key_str C ext c) = Some (XPubKey \<lparr>xk_origin = Some (cv_xfp c, cv_path c),
       xk_key = cv_xpub c, xk_path = [Normal chain], xk_wildcard = UnhardenedWildcard\<rparr>))"

lemma extract_parse:
  assumes "list_all has_origin pks"
  obtains keys where "res_map (\<lambda>(i, k). caravan_key_of i k) (enumerate n pks) = Ok keys" "length keys = length pks"
    "\<And>C ext chain. list_all (caravan_reads C ext chain) pks \<Longrightarrow>
       caravan_parse_keys C ext keys = Ok (map (caravan_rebase chain) pks)"
  using assms
proof (induction pks arbitrary: n thesis)
  case Nil
  then show ?case by (simp add: caravan_parse_keys_def)
next
  case (Cons k pks)
  have ho: "has_origin k" "list_all has_origin pks"
    using Cons.prems(2) by simp_all
  obtain c where c: "caravan_key_of n k = Ok c"
    "\<And>chain. caravan_rebase chain k = XPubKey \<lparr>xk_origin = Some (cv_xfp c, cv_path c), xk_key = cv_xpub c,
        xk_path = [Normal chain], xk_wildcard = UnhardenedWildcard\<rparr>"
    using caravan_key_of_Ok [OF ho(1)] by blast
  obtain keys where keys: "res_map (\<lambda>(i, k). caravan_key_of i k) (enumerate (Suc n) pks) = Ok keys"
    "length keys = length pks"
    "\<And>C ext chain. list_all (caravan_reads C ext chain) pks \<Longrightarrow>
       caravan_parse_keys C ext keys = Ok (map (caravan_rebase chain) pks)"
    using Cons.IH [OF _ ho(2)] by blast
  show ?case
  proof (rule Cons.prems(1) [of "c # keys"])
    fix C :: "'a caravan_api" and ext chain
    assume law: "list_all (caravan_reads C ext chain) (k # pks)"
    have "ci_key_from_str C (caravan_key_str C ext c) = Some (caravan_rebase chain k)"
      using law c by (simp add: caravan_reads_def)
    then show "caravan_parse_keys C ext (c # keys) = Ok (map (caravan_rebase chain) (k # pks))"
      using keys(3) [of C ext chain] law by (simp add: caravan_parse_keys_def)
  qed (use c keys in simp_all)
qed

text \<open>C23: a sorted multisig of extended keys with known origins is exported to Caravan, and importing the
  export gives the same kind of descriptor, with the same threshold and the same keys in the same order,
  for the external and the change chain; each key has as its origin the whole path up to its last step,
  and the last step is the chain. So the external descriptor that comes back is the wallet's own exactly
  if every key has the path \<open>0\<close> and an unhardened wildcard. The parser is assumed to read the keys that
  the import writes.\<close>

theorem caravan_round_trip:
  assumes d: "ia_descriptor (ixa A) (w_index w) External = Some d" and form: "da_form (dsa A) d = caravan_form ty k pks"
    and keys: "list_all has_origin pks" "pks \<noteq> []" and k: "k < 2 ^ 32"
    and law: "list_all (caravan_reads C ''/0/*'' 0) pks" "list_all (caravan_reads C ''/1/*'' 1) pks"
    and valid: "ci_new C (caravan_form ty k (map (caravan_rebase 0) pks))"
      "ci_new C (caravan_form ty k (map (caravan_rebase 1) pks))"
  shows "(\<exists>e. caravan_export_wallet A kind_of w nam = Ok e \<and>
      caravan_to_descriptors C e = Ok (ci_print C (caravan_form ty k (map (caravan_rebase 0) pks)),
        ci_print C (caravan_form ty k (map (caravan_rebase 1) pks)))) \<and>
    (map (caravan_rebase 0) pks = pks \<longleftrightarrow> list_all (\<lambda>p. case p of
       XPubKey xk \<Rightarrow> xk_path xk = [Normal 0] \<and> xk_wildcard xk = UnhardenedWildcard | _ \<Rightarrow> True) pks)"
proof -
  obtain cks where extracted: "res_map (\<lambda>(i, k). caravan_key_of i k) (enumerate 0 pks) = Ok cks"
    and len: "length cks = length pks"
    and parsed: "\<And>C ext chain. list_all (caravan_reads C ext chain) pks \<Longrightarrow>
       caravan_parse_keys C ext cks = Ok (map (caravan_rebase chain) pks)"
    by (rule extract_parse [OF keys(1), where n = 0]) blast
  have cks: "extract_xpubs_from_multi pks = Ok cks" "length cks = length pks"
    using extracted len by (simp_all add: extract_xpubs_from_multi_def)
  note parse = parsed [OF law(1)] parsed [OF law(2)]
  have info: "extract_descriptor_info (caravan_form ty k pks) = Ok (ty, \<lparr>cv_required_signers = of_nat k,
      cv_total_signers = of_nat (length pks)\<rparr>, cks)"
    by (cases ty) (simp_all add: caravan_multi_info_def cks)
  have "unat (of_nat k :: u32) = k"
    using k by (simp add: unat_of_nat)
  moreover have "cks \<noteq> []"
    using cks(2) keys(2) by auto
  ultimately have imported: "caravan_to_descriptors C \<lparr>cv_wallet_name = nam, cv_address_type = ty,
      cv_network = caravan_network_of (kind_of (w_network w)), cv_quorum = \<lparr>cv_required_signers = of_nat k,
      cv_total_signers = of_nat (length pks)\<rparr>, cv_keys = cks, cv_starting_index = 0\<rparr> =
      Ok (ci_print C (caravan_form ty k (map (caravan_rebase 0) pks)),
        ci_print C (caravan_form ty k (map (caravan_rebase 1) pks)))"
    using valid by (simp add: caravan_to_descriptors_def parse caravan_new_def)
  have out: "caravan_export_wallet A kind_of w nam = Ok \<lparr>cv_wallet_name = nam, cv_address_type = ty,
      cv_network = caravan_network_of (kind_of (w_network w)), cv_quorum = \<lparr>cv_required_signers = of_nat k,
      cv_total_signers = of_nat (length pks)\<rparr>, cv_keys = cks, cv_starting_index = 0\<rparr>"
    by (simp add: caravan_export_wallet_def public_descriptor_def map_keychain_def d form info)
  show ?thesis
  proof (rule conjI)
    show "\<exists>e. caravan_export_wallet A kind_of w nam = Ok e \<and>
        caravan_to_descriptors C e = Ok (ci_print C (caravan_form ty k (map (caravan_rebase 0) pks)),
          ci_print C (caravan_form ty k (map (caravan_rebase 1) pks)))"
      by (rule exI, rule conjI, rule out, rule imported)
  qed (simp only: map_self_iff caravan_rebase_self)
qed

end
