(* ===== verification/Example_Export.thy ===== *)
theory Example_Export
  imports Export_Facts Example_Wallet
begin

section \<open>Exports of a concrete wallet\<close>

subsection \<open>FullyNoded\<close>

text \<open>The descriptors print as \<open>wpkh(k/0/*)\<close> and \<open>wpkh(k/1/*)\<close>.\<close>

definition example_export_api :: "(nat, nat, nat, nat) export_api" where
  "example_export_api = \<lparr>ea_to_public = (\<lambda>sec. None),
     ea_to_string_with_secret = (\<lambda>d km. if d = 0 then ''wpkh(k/0/*)#ab'' else ''wpkh(k/1/*)#cd''),
     ea_parse_names = (\<lambda>s. Some (DWpkh (SingleFull None 1)))\<rparr>"

definition example_export_wallet where
  "example_export_wallet = \<lparr>w_signers = ([] :: (nat, nat) signer signers_container), w_change_signers = [],
     w_chain = (200 :: nat), w_graph = ([] :: transaction list), w_index = (3 :: nat),
     w_stage = (cs_default example_ops :: (nat, nat, (nat, nat) btree, (nat, nat) btree, (nat, nat) btree) change_set),
     w_network = 0, w_locked = [], w_view = [200 :: nat]\<rparr>"

lemma example_parts:
  "join_with ''/0/*'' [''wpkh(k'', '')''] = ''wpkh(k/0/*)''"
  "join_with ''/1/*'' [''wpkh(k'', '')''] = ''wpkh(k/1/*)''"
  by simp_all

lemma example_secret_descriptors:
  "secret_descriptor example_api example_export_api example_export_wallet External = Ok ''wpkh(k/0/*)''"
  "secret_descriptor example_api example_export_api example_export_wallet Internal = Ok ''wpkh(k/1/*)''"
  by (simp_all add: secret_descriptor_def public_descriptor_def map_keychain_def keychains_def example_defs
      example_export_api_def remove_checksum_def split_once_def)

theorem standard_wallet_exported_witness:
  "\<exists>e. fn_export_wallet example_api example_export_api example_export_wallet ''mine'' True = Ok e \<and>
     fn_descriptor e = ''wpkh(k/0/*)'' \<and> fn_change_descriptor e = Some ''wpkh(k/1/*)''"
proof -
  have "\<forall>p \<in> set [''wpkh(k'', '')'']. \<not> sublist ''/0/*'' p"
    by (simp add: sublist_code)
  moreover have "is_compatible_with_core example_export_api ''wpkh(k/0/*)'' = Ok ()"
    by (simp add: is_compatible_with_core_def example_export_api_def)
  ultimately show ?thesis
    using standard_wallet_exported [of example_api example_export_api example_export_wallet "[''wpkh(k'', '')'']"]
    unfolding example_parts by (simp add: example_secret_descriptors)
qed

definition single_index_api where
  "single_index_api = example_index_api\<lparr>ia_keychains := (\<lambda>ix. [(External, 0)])\<rparr>"

theorem single_descriptor_never_exported_witness:
  "\<not> is_ok (fn_export_wallet (example_api\<lparr>ixa := single_index_api\<rparr>) example_export_api example_export_wallet ''mine'' True)"
proof -
  have "length (keychains (example_api\<lparr>ixa := single_index_api\<rparr>) example_export_wallet) = 1"
    by (simp add: keychains_def example_api_def single_index_api_def)
  moreover have "as_key_map (ea_to_public example_export_api) (w_signers example_export_wallet)
      = as_key_map (ea_to_public example_export_api) (w_change_signers example_export_wallet)"
    by (simp add: example_export_wallet_def)
  ultimately show ?thesis
    using single_descriptor_never_exported by (fastforce simp: is_ok_iff)
qed

subsection \<open>Caravan\<close>

text \<open>Two keys: one at the standard path, one a step deeper. The import makes of the second one a key whose
  origin claims the step the extended key has not been derived by.\<close>

definition example_caravan_keys :: "nat desc_pubkey list" where
  "example_caravan_keys =
     [XPubKey \<lparr>xk_origin = Some (7, [Hardened 48]), xk_key = 21, xk_path = [Normal 0], xk_wildcard = UnhardenedWildcard\<rparr>,
      XPubKey \<lparr>xk_origin = Some (8, [Hardened 48]), xk_key = 22, xk_path = [Normal 5, Normal 0],
        xk_wildcard = UnhardenedWildcard\<rparr>]"

definition example_caravan_read :: "u32 \<Rightarrow> string \<Rightarrow> nat desc_pubkey option" where
  "example_caravan_read chain s =
     (if s = ''[7/48h]a'' then Some (XPubKey \<lparr>xk_origin = Some (7, [Hardened 48]), xk_key = 21,
        xk_path = [Normal chain], xk_wildcard = UnhardenedWildcard\<rparr>)
      else if s = ''[8/48h/5]b'' then Some (XPubKey \<lparr>xk_origin = Some (8, [Hardened 48, Normal 5]), xk_key = 22,
        xk_path = [Normal chain], xk_wildcard = UnhardenedWildcard\<rparr>)
      else None)"

definition example_caravan_api :: "nat caravan_api" where
  "example_caravan_api = \<lparr>ci_show_fp = (\<lambda>fp. if fp = 7 then ''7'' else ''8''),
     ci_show_path = (\<lambda>p. if p = [Hardened 48] then ''48h'' else ''48h/5''),
     ci_show_xpub = (\<lambda>x. if x = 21 then ''a'' else ''b''),
     ci_key_from_str = (\<lambda>s. if drop (length s - 4) s = ''/0/*'' then example_caravan_read 0 (take (length s - 4) s)
        else example_caravan_read 1 (take (length s - 4) s)),
     ci_new = (\<lambda>d. True), ci_print = (\<lambda>d. if tl (descriptor_keys d) = [] then ''one'' else ''two'')\<rparr>"

definition example_multi_api where
  "example_multi_api = example_api\<lparr>dsa := example_desc_api\<lparr>da_form := (\<lambda>d. DWshSortedMulti 2 example_caravan_keys)\<rparr>\<rparr>"

lemma example_reads:
  "list_all (caravan_reads example_caravan_api ''/0/*'' 0) example_caravan_keys"
  "list_all (caravan_reads example_caravan_api ''/1/*'' 1) example_caravan_keys"
  by (simp_all add: example_caravan_keys_def caravan_reads_def caravan_key_of_def caravan_key_str_def
      example_caravan_api_def example_caravan_read_def)

theorem caravan_round_trip_witness:
  "(\<exists>e. caravan_export_wallet example_multi_api (\<lambda>n. Main) example_wallet ''mine'' = Ok e \<and>
     caravan_to_descriptors example_caravan_api e = Ok (''two'', ''two'')) \<and>
   map (caravan_rebase 0) example_caravan_keys \<noteq> example_caravan_keys"
proof -
  have "ia_descriptor (ixa example_multi_api) (w_index example_wallet) External = Some 0"
    by (simp add: example_multi_api_def example_defs)
  moreover have "da_form (dsa example_multi_api) 0 = caravan_form P2WSH 2 example_caravan_keys"
    by (simp add: example_multi_api_def)
  moreover have "list_all has_origin example_caravan_keys" "example_caravan_keys \<noteq> []"
    by (simp_all add: example_caravan_keys_def)
  moreover have "ci_new example_caravan_api d" for d
    by (simp add: example_caravan_api_def)
  ultimately show ?thesis
    using caravan_round_trip [of example_multi_api example_wallet 0 P2WSH 2 example_caravan_keys example_caravan_api
        "\<lambda>n. Main" "''mine''", OF _ _ _ _ _ example_reads]
    by (simp add: example_caravan_api_def) (simp add: example_caravan_keys_def)
qed

end
