(* ===== verification/Psbt_Params.thy ===== *)
theory Psbt_Params
  imports Tx_Builder
begin

section \<open>Parameters of a planned transaction (src/psbt/params.rs)\<close>

text \<open>
  \<open>PsbtParams\<close> is the builder of the planned transactions of \<open>bdk_tx\<close>: the spends chosen by hand,
  in order and without repetition, the recipients and the options. One definition per method
  (prefix \<open>pp_\<close> of the fields and \<open>ps_\<close> of the methods). The two states of the builder differ in a
  marker type only and share the record. Inputs, change scripts, canonicalization parameters and
  selection algorithms are values of \<open>bdk_tx\<close> and \<open>bdk_chain\<close>, type variables here; a hash set is a
  set. \<open>prev\<close> is \<open>Input::prev_outpoint\<close>. The transaction graph of \<open>replace\<close> and \<open>Transaction::is_coinbase\<close>
  are the record \<open>tx_set\<close>: it takes the list of the transactions inserted into an empty graph.
\<close>

subsection \<open>Assets\<close>

record 'k assets =
  as_keys :: "'k set"
  as_sha256 :: "nat set"
  as_hash256 :: "nat set"
  as_ripemd160 :: "nat set"
  as_hash160 :: "nat set"
  as_absolute :: "locktime option"
  as_relative :: "rel_locktime option"

definition assets_new :: "'k assets" where
  "assets_new = \<lparr>as_keys = {}, as_sha256 = {}, as_hash256 = {}, as_ripemd160 = {}, as_hash160 = {},
     as_absolute = None, as_relative = None\<rparr>"

definition opt_or :: "'a option \<Rightarrow> 'a option \<Rightarrow> 'a option" where
  "opt_or a b = (case a of Some x \<Rightarrow> Some x | None \<Rightarrow> b)"

definition assets_extend :: "'k assets \<Rightarrow> 'k assets \<Rightarrow> 'k assets" where
  "assets_extend self other =
     \<lparr>as_keys = as_keys self \<union> as_keys other, as_sha256 = as_sha256 self \<union> as_sha256 other,
      as_hash256 = as_hash256 self \<union> as_hash256 other,
      as_ripemd160 = as_ripemd160 self \<union> as_ripemd160 other,
      as_hash160 = as_hash160 self \<union> as_hash160 other,
      as_absolute = opt_or (as_absolute other) (as_absolute self),
      as_relative = opt_or (as_relative other) (as_relative self)\<rparr>"

subsection \<open>The parameters\<close>

datatype 'inp must_spend = MustUtxo outpoint | MustPlanned 'inp

fun must_outpoint :: "('inp \<Rightarrow> outpoint) \<Rightarrow> 'inp must_spend \<Rightarrow> outpoint" where
  "must_outpoint prev (MustUtxo op) = op"
| "must_outpoint prev (MustPlanned inp) = prev inp"

fun is_planned :: "'inp must_spend \<Rightarrow> bool" where
  "is_planned (MustUtxo op) = False"
| "is_planned (MustPlanned inp) = True"

datatype 'alg selection_strategy =
  SelectAll | SelectCustom 'alg | LowestFee feerate nat | SingleRandomDraw

record ('k, 'inp, 'out, 'chs, 'cp, 'alg) psbt_params =
  pp_set :: "outpoint set"
  pp_must_spend :: "'inp must_spend list"
  pp_recipients :: "(script \<times> amount) list"
  pp_change_script :: "'chs option"
  pp_assets :: "'k assets option"
  pp_fee_rate :: feerate
  pp_coin_selection :: "'alg selection_strategy"
  pp_canonical_params :: 'cp
  pp_utxo_filter :: "full_txout \<Rightarrow> bool"
  pp_maturity_height :: "u32 option"
  pp_manually_selected_only :: bool
  pp_version :: "int option"
  pp_min_locktime :: "locktime option"
  pp_anti_fee_sniping :: "u32 option"
  pp_ordering :: "('inp, 'out) tx_ordering"
  pp_only_witness_utxo :: bool
  pp_add_global_xpubs :: bool
  pp_replace :: "txid set"
  pp_sequence_overrides :: "outpoint \<rightharpoonup> u32"
  pp_fallback_sequence :: "u32 option"

definition all_utxos :: "full_txout \<Rightarrow> bool" where
  "all_utxos txo = True"

text \<open>\<open>cp\<close> is the default of the canonicalization parameters.\<close>

definition psbt_params_default :: "'cp \<Rightarrow> ('k, 'inp, 'out, 'chs, 'cp, 'alg) psbt_params" where
  "psbt_params_default cp =
     \<lparr>pp_set = {}, pp_must_spend = [], pp_recipients = [], pp_change_script = None, pp_assets = None,
      pp_fee_rate = BROADCAST_MIN, pp_coin_selection = SingleRandomDraw, pp_canonical_params = cp,
      pp_utxo_filter = all_utxos, pp_maturity_height = None, pp_manually_selected_only = False,
      pp_version = None, pp_min_locktime = None, pp_anti_fee_sniping = None, pp_ordering = Shuffle,
      pp_only_witness_utxo = False, pp_add_global_xpubs = False, pp_replace = {},
      pp_sequence_overrides = Map.empty, pp_fallback_sequence = None\<rparr>"

subsection \<open>Choosing what to spend\<close>

definition ps_push :: "outpoint \<Rightarrow> 'inp must_spend \<Rightarrow> ('k, 'inp, 'out, 'chs, 'cp, 'alg) psbt_params
    \<Rightarrow> ('k, 'inp, 'out, 'chs, 'cp, 'alg) psbt_params" where
  "ps_push op item P =
     (if op \<in> pp_set P then P
      else P\<lparr>pp_set := insert op (pp_set P), pp_must_spend := pp_must_spend P @ [item]\<rparr>)"

definition ps_add_utxos :: "outpoint list \<Rightarrow> ('k, 'inp, 'out, 'chs, 'cp, 'alg) psbt_params
    \<Rightarrow> ('k, 'inp, 'out, 'chs, 'cp, 'alg) psbt_params" where
  "ps_add_utxos outpoints P = fold (\<lambda>op. ps_push op (MustUtxo op)) outpoints P"

definition ps_add_planned_input where
  "ps_add_planned_input prev inp P = ps_push (prev inp) (MustPlanned inp) P"

definition ps_remove_utxo where
  "ps_remove_utxo prev op P =
     (if op \<in> pp_set P
      then P\<lparr>pp_set := pp_set P - {op},
             pp_must_spend := filter (\<lambda>item. must_outpoint prev item \<noteq> op) (pp_must_spend P)\<rparr>
      else P)"

subsection \<open>Setters\<close>

definition ps_manually_selected_only where
  "ps_manually_selected_only P = P\<lparr>pp_manually_selected_only := True\<rparr>"

definition ps_add_assets where
  "ps_add_assets assets P =
     P\<lparr>pp_assets := Some (assets_extend
         (case pp_assets P of Some existing \<Rightarrow> assets_extend assets_new existing | None \<Rightarrow> assets_new) assets)\<rparr>"

definition ps_add_recipients where
  "ps_add_recipients recipients P = P\<lparr>pp_recipients := pp_recipients P @ recipients\<rparr>"

definition ps_locktime where
  "ps_locktime l P = P\<lparr>pp_min_locktime := Some l\<rparr>"

definition ps_maturity_height where
  "ps_maturity_height h P = P\<lparr>pp_maturity_height := Some h\<rparr>"

definition ps_fee_rate where
  "ps_fee_rate rate P = P\<lparr>pp_fee_rate := rate\<rparr>"

definition ps_coin_selection where
  "ps_coin_selection strategy P = P\<lparr>pp_coin_selection := strategy\<rparr>"

definition ps_coin_selection_algorithm where
  "ps_coin_selection_algorithm algorithm P = P\<lparr>pp_coin_selection := SelectCustom algorithm\<rparr>"

definition ps_canonicalization_params where
  "ps_canonicalization_params cp P = P\<lparr>pp_canonical_params := cp\<rparr>"

definition ps_change_script where
  "ps_change_script cs P = P\<lparr>pp_change_script := Some cs\<rparr>"

definition ps_utxo_filter where
  "ps_utxo_filter predicate P = P\<lparr>pp_utxo_filter := predicate\<rparr>"

definition ps_ordering where
  "ps_ordering ord P = P\<lparr>pp_ordering := ord\<rparr>"

definition ps_only_witness_utxo where
  "ps_only_witness_utxo P = P\<lparr>pp_only_witness_utxo := True\<rparr>"

definition ps_version where
  "ps_version v P = P\<lparr>pp_version := Some v\<rparr>"

definition ps_add_global_xpubs where
  "ps_add_global_xpubs P = P\<lparr>pp_add_global_xpubs := True\<rparr>"

definition ps_anti_fee_sniping_height where
  "ps_anti_fee_sniping_height h P = P\<lparr>pp_anti_fee_sniping := Some h\<rparr>"

definition ps_sequence_override where
  "ps_sequence_override op s P = P\<lparr>pp_sequence_overrides := (pp_sequence_overrides P)(op \<mapsto> s)\<rparr>"

definition ps_fallback_sequence where
  "ps_fallback_sequence s P = P\<lparr>pp_fallback_sequence := Some s\<rparr>"

subsection \<open>Replacing transactions\<close>

record tx_set =
  ts_full_txs :: "transaction list \<Rightarrow> (txid \<times> transaction) list"
  ts_ancestors :: "transaction list \<Rightarrow> transaction \<Rightarrow> txid list"
  ts_is_coinbase :: "transaction \<Rightarrow> bool"

text \<open>The first \<open>retain\<close>: only the planned inputs stay.\<close>

definition keep_planned where
  "keep_planned prev P =
     P\<lparr>pp_set := fold (\<lambda>item S. if is_planned item then S else S - {must_outpoint prev item})
          (pp_must_spend P) (pp_set P),
       pp_must_spend := filter is_planned (pp_must_spend P)\<rparr>"

text \<open>The loop over the transactions: those with an ancestor in the set leave it, the inputs of the
  others are collected.\<close>

fun sanitize_step where
  "sanitize_step G txs (txid, tx) (R, utxos) =
     (if ts_is_coinbase G tx \<or> list_ex (\<lambda>a. a \<in> R) (ts_ancestors G txs tx)
      then (R - {txid}, utxos)
      else (R, utxos @ map previous_output (tx_input tx)))"

definition sanitize_replaced :: "btc \<Rightarrow> tx_set \<Rightarrow> transaction list \<Rightarrow> txid set \<times> outpoint list" where
  "sanitize_replaced B G txs =
     fold (sanitize_step G txs) (ts_full_txs G txs) (set (map (compute_txid B) txs), [])"

text \<open>The second \<open>retain\<close>: planned inputs that spend an output of a replaced transaction go.\<close>

fun conflicts_with_replaced :: "('inp \<Rightarrow> outpoint) \<Rightarrow> txid set \<Rightarrow> 'inp must_spend \<Rightarrow> bool" where
  "conflicts_with_replaced prev R (MustUtxo op) = False"
| "conflicts_with_replaced prev R (MustPlanned inp) = (op_txid (prev inp) \<in> R)"

definition drop_conflicting where
  "drop_conflicting prev P =
     P\<lparr>pp_set := fold (\<lambda>item S. if conflicts_with_replaced prev (pp_replace P) item
            then S - {must_outpoint prev item} else S) (pp_must_spend P) (pp_set P),
       pp_must_spend := filter (\<lambda>item. \<not> conflicts_with_replaced prev (pp_replace P) item) (pp_must_spend P)\<rparr>"

definition ps_replace where
  "ps_replace B G prev txs P =
     (let P = keep_planned prev P in
      case sanitize_replaced B G txs of (replaced, utxos) \<Rightarrow>
      ps_add_utxos utxos (drop_conflicting prev (P\<lparr>pp_replace := replaced\<rparr>)))"

text \<open>\<open>into_replace_params\<close> moves every field.\<close>

definition into_replace_params where
  "into_replace_params P =
     \<lparr>pp_set = pp_set P, pp_must_spend = pp_must_spend P, pp_recipients = pp_recipients P,
      pp_change_script = pp_change_script P, pp_assets = pp_assets P, pp_fee_rate = pp_fee_rate P,
      pp_coin_selection = pp_coin_selection P, pp_canonical_params = pp_canonical_params P,
      pp_utxo_filter = pp_utxo_filter P, pp_maturity_height = pp_maturity_height P,
      pp_manually_selected_only = pp_manually_selected_only P, pp_version = pp_version P,
      pp_min_locktime = pp_min_locktime P, pp_anti_fee_sniping = pp_anti_fee_sniping P,
      pp_ordering = pp_ordering P, pp_only_witness_utxo = pp_only_witness_utxo P,
      pp_add_global_xpubs = pp_add_global_xpubs P, pp_replace = pp_replace P,
      pp_sequence_overrides = pp_sequence_overrides P, pp_fallback_sequence = pp_fallback_sequence P\<rparr>"

definition ps_replace_txs where
  "ps_replace_txs B G prev txs P = ps_replace B G prev txs (into_replace_params P)"

end
