(* ===== verification/Psbt_Params_Facts.thy ===== *)
theory Psbt_Params_Facts
  imports Psbt_Params
begin

section \<open>What the builder of planned transactions keeps\<close>

text \<open>
  The set and the list of chosen spends agree after any calls of the builder, so an outpoint is
  chosen at most once. \<open>replace_txs\<close> looks at the ancestry of the transactions it is given while it
  shrinks their set; the theorem says that this leaves exactly the transactions without an ancestor
  among the given ones, whatever the order of the graph, and that nothing chosen spends an output
  of a transaction that goes away. A coinbase transaction among them makes the order count.
\<close>

subsection \<open>Every outpoint is chosen once\<close>

definition params_ok :: "('inp \<Rightarrow> outpoint) \<Rightarrow> ('k, 'inp, 'out, 'chs, 'cp, 'alg) psbt_params \<Rightarrow> bool" where
  "params_ok prev P \<longleftrightarrow> pp_set P = set (map (must_outpoint prev) (pp_must_spend P)) \<and>
     distinct (map (must_outpoint prev) (pp_must_spend P))"

lemma params_ok_default [simp]: "params_ok prev (psbt_params_default cp)"
  by (simp add: params_ok_def psbt_params_default_def)

lemma params_ok_push: "params_ok prev P \<Longrightarrow> must_outpoint prev item = op \<Longrightarrow> params_ok prev (ps_push op item P)"
  by (auto simp: params_ok_def ps_push_def)

lemma params_ok_add_utxos: "params_ok prev P \<Longrightarrow> params_ok prev (ps_add_utxos ops P)"
  unfolding ps_add_utxos_def by (induction ops arbitrary: P) (simp_all add: params_ok_push)

lemma distinct_map_filter_other:
  "distinct (map f xs) \<Longrightarrow> f ` set (filter p xs) = f ` set xs - f ` {x \<in> set xs. \<not> p x}"
  by (auto simp: distinct_map dest: inj_onD)

lemma fold_remove:
  "fold (\<lambda>x S. if p x then S - {f x} else S) xs S = S - f ` {x \<in> set xs. p x}"
  by (induction xs arbitrary: S) auto

text \<open>Filtering the list and taking what goes out of the set keeps them together.\<close>

lemma params_ok_retain:
  assumes "params_ok prev P"
  shows "params_ok prev (P\<lparr>pp_set := pp_set P - must_outpoint prev ` {x \<in> set (pp_must_spend P). \<not> keep x},
           pp_must_spend := filter keep (pp_must_spend P)\<rparr>)"
  using assms distinct_map_filter_other [of "must_outpoint prev" "pp_must_spend P" keep]
  by (auto simp: params_ok_def distinct_map_filter)

lemma keep_planned_retain:
  "keep_planned prev P = P\<lparr>pp_set := pp_set P - must_outpoint prev ` {x \<in> set (pp_must_spend P). \<not> is_planned x},
     pp_must_spend := filter is_planned (pp_must_spend P)\<rparr>"
proof -
  have "(\<lambda>item S. if is_planned item then S else S - {must_outpoint prev item}) =
      (\<lambda>x S. if \<not> is_planned x then S - {must_outpoint prev x} else S)"
    by (intro ext) simp
  then show ?thesis
    by (simp add: keep_planned_def fold_remove)
qed

lemma drop_conflicting_retain:
  "drop_conflicting prev P = P\<lparr>pp_set := pp_set P - must_outpoint prev `
       {x \<in> set (pp_must_spend P). \<not> \<not> conflicts_with_replaced prev (pp_replace P) x},
     pp_must_spend := filter (\<lambda>x. \<not> conflicts_with_replaced prev (pp_replace P) x) (pp_must_spend P)\<rparr>"
  by (simp add: drop_conflicting_def fold_remove)

lemma params_ok_keep_planned: "params_ok prev P \<Longrightarrow> params_ok prev (keep_planned prev P)"
  unfolding keep_planned_retain by (rule params_ok_retain)

lemma params_ok_drop_conflicting: "params_ok prev P \<Longrightarrow> params_ok prev (drop_conflicting prev P)"
  unfolding drop_conflicting_retain by (rule params_ok_retain)

lemma params_ok_remove: "params_ok prev P \<Longrightarrow> params_ok prev (ps_remove_utxo prev op P)"
  by (auto simp: params_ok_def ps_remove_utxo_def distinct_map_filter)

lemma into_replace_params_id [simp]: "into_replace_params P = P"
  by (simp add: into_replace_params_def)

lemma params_ok_set_replace [simp]: "params_ok prev (P\<lparr>pp_replace := R\<rparr>) = params_ok prev P"
  by (simp add: params_ok_def)

lemma params_ok_replace: "params_ok prev P \<Longrightarrow> params_ok prev (ps_replace_txs B G prev txs P)"
  by (simp add: ps_replace_txs_def ps_replace_def params_ok_add_utxos params_ok_drop_conflicting
      params_ok_keep_planned split: prod.split)

subsection \<open>Any calls of the builder\<close>

datatype ('k, 'inp, 'out, 'chs, 'cp, 'alg) params_call =
  AddUtxos "outpoint list"
| AddPlannedInput 'inp
| RemoveUtxo outpoint
| ReplaceTxs "transaction list"
| ManuallySelectedOnly
| AddAssets "'k assets"
| AddRecipients "(script \<times> amount) list"
| Locktime locktime
| MaturityHeight u32
| SetFeeRate feerate
| CoinSelection "'alg selection_strategy"
| CoinSelectionAlgorithm 'alg
| CanonicalizationParams 'cp
| ChangeScript 'chs
| UtxoFilter "full_txout \<Rightarrow> bool"
| Ordering "('inp, 'out) tx_ordering"
| OnlyWitnessUtxo
| SetVersion int
| AddGlobalXpubs
| AntiFeeSnipingHeight u32
| SequenceOverride outpoint u32
| FallbackSequence u32

fun params_step :: "btc \<Rightarrow> tx_set \<Rightarrow> ('inp \<Rightarrow> outpoint) \<Rightarrow> ('k, 'inp, 'out, 'chs, 'cp, 'alg) params_call
    \<Rightarrow> ('k, 'inp, 'out, 'chs, 'cp, 'alg) psbt_params \<Rightarrow> ('k, 'inp, 'out, 'chs, 'cp, 'alg) psbt_params" where
  "params_step B G prev (AddUtxos ops) = ps_add_utxos ops"
| "params_step B G prev (AddPlannedInput inp) = ps_add_planned_input prev inp"
| "params_step B G prev (RemoveUtxo op) = ps_remove_utxo prev op"
| "params_step B G prev (ReplaceTxs txs) = ps_replace_txs B G prev txs"
| "params_step B G prev ManuallySelectedOnly = ps_manually_selected_only"
| "params_step B G prev (AddAssets a) = ps_add_assets a"
| "params_step B G prev (AddRecipients rs) = ps_add_recipients rs"
| "params_step B G prev (Locktime l) = ps_locktime l"
| "params_step B G prev (MaturityHeight h) = ps_maturity_height h"
| "params_step B G prev (SetFeeRate r) = ps_fee_rate r"
| "params_step B G prev (CoinSelection s) = ps_coin_selection s"
| "params_step B G prev (CoinSelectionAlgorithm a) = ps_coin_selection_algorithm a"
| "params_step B G prev (CanonicalizationParams cp) = ps_canonicalization_params cp"
| "params_step B G prev (ChangeScript cs) = ps_change_script cs"
| "params_step B G prev (UtxoFilter p) = ps_utxo_filter p"
| "params_step B G prev (Ordering ord) = ps_ordering ord"
| "params_step B G prev OnlyWitnessUtxo = ps_only_witness_utxo"
| "params_step B G prev (SetVersion v) = ps_version v"
| "params_step B G prev AddGlobalXpubs = ps_add_global_xpubs"
| "params_step B G prev (AntiFeeSnipingHeight h) = ps_anti_fee_sniping_height h"
| "params_step B G prev (SequenceOverride op s) = ps_sequence_override op s"
| "params_step B G prev (FallbackSequence s) = ps_fallback_sequence s"

definition run_params where
  "run_params B G prev calls P = fold (params_step B G prev) calls P"

lemmas ps_setter_defs = ps_manually_selected_only_def ps_add_assets_def ps_add_recipients_def
  ps_locktime_def ps_maturity_height_def ps_fee_rate_def ps_coin_selection_def
  ps_coin_selection_algorithm_def ps_canonicalization_params_def ps_change_script_def
  ps_utxo_filter_def ps_ordering_def ps_only_witness_utxo_def ps_version_def
  ps_add_global_xpubs_def ps_anti_fee_sniping_height_def ps_sequence_override_def
  ps_fallback_sequence_def

lemma params_ok_step: "params_ok prev P \<Longrightarrow> params_ok prev (params_step B G prev call P)"
  by (cases call)
    (simp_all add: params_ok_add_utxos params_ok_remove params_ok_replace ps_add_planned_input_def
      params_ok_push, simp_all add: ps_setter_defs params_ok_def)

lemma params_ok_run: "params_ok prev P \<Longrightarrow> params_ok prev (run_params B G prev calls P)"
  unfolding run_params_def by (induction calls arbitrary: P) (simp_all add: params_ok_step)

subsection \<open>Which transactions are replaced\<close>

text \<open>An ancestor of a transaction among \<open>txs\<close>: one whose output it spends, directly or not.\<close>

inductive ancestor :: "btc \<Rightarrow> transaction list \<Rightarrow> transaction \<Rightarrow> transaction \<Rightarrow> bool" for B txs where
  parent: "a \<in> set txs \<Longrightarrow> txin \<in> set (tx_input t) \<Longrightarrow> op_txid (previous_output txin) = compute_txid B a
     \<Longrightarrow> ancestor B txs a t"
| further: "ancestor B txs a b \<Longrightarrow> ancestor B txs b t \<Longrightarrow> ancestor B txs a t"

text \<open>The documented behaviour of the graph: it lists every inserted transaction, in some order, and
  walks to all ancestors of a transaction and to nothing else.\<close>

definition tx_set_ok :: "btc \<Rightarrow> tx_set \<Rightarrow> transaction list \<Rightarrow> bool" where
  "tx_set_ok B G txs \<longleftrightarrow> inj_on (compute_txid B) (set txs) \<and>
     set (ts_full_txs G txs) = (\<lambda>t. (compute_txid B t, t)) ` set txs \<and>
     (\<forall>t \<in> set txs. set (ts_ancestors G txs t) = {compute_txid B a | a. ancestor B txs a t})"

text \<open>A transaction is identified by a hash of its inputs: none is its own ancestor.\<close>

definition acyclic_txs :: "btc \<Rightarrow> transaction list \<Rightarrow> bool" where
  "acyclic_txs B txs \<longleftrightarrow> (\<forall>t \<in> set txs. \<not> ancestor B txs t t)"

definition replaced_roots :: "btc \<Rightarrow> transaction list \<Rightarrow> transaction set" where
  "replaced_roots B txs = {t \<in> set txs. \<not> (\<exists>a. ancestor B txs a t)}"

lemma ancestor_mem: "ancestor B txs a t \<Longrightarrow> a \<in> set txs"
  by (induction rule: ancestor.induct) auto

lemma ancestor_root:
  assumes "acyclic_txs B txs" and "ancestor B txs a t"
  shows "\<exists>r. r \<in> replaced_roots B txs \<and> ancestor B txs r t"
proof -
  let ?R = "{(a, t). t \<in> set txs \<and> ancestor B txs a t}"
  have "?R \<subseteq> set txs \<times> set txs"
    by (auto dest: ancestor_mem)
  then have fin: "finite ?R"
    by (rule finite_subset) simp
  have "trans ?R"
    by (auto intro!: transI intro: ancestor.further)
  then have "acyclic ?R"
    using assms(1) by (auto simp: acyclic_irrefl irrefl_def acyclic_txs_def)
  then have "wf ?R"
    by (rule finite_acyclic_wf [OF fin])
  then show ?thesis
    using assms(2)
  proof (induction a arbitrary: t rule: wf_induct_rule)
    case (less a)
    show ?case
    proof (cases "\<exists>b. ancestor B txs b a")
      case True
      then obtain b where b: "ancestor B txs b a" by blast
      then obtain r where "r \<in> replaced_roots B txs" "ancestor B txs r a"
        using less.IH [of b a] ancestor_mem [OF less.prems] by blast
      then show ?thesis
        using less.prems by (blast intro: ancestor.further)
    next
      case False
      then show ?thesis
        using less.prems by (auto simp: replaced_roots_def dest: ancestor_mem)
    qed
  qed
qed

text \<open>While the set shrinks it keeps the roots, so the test of the loop is the question whether there
  is an ancestor at all.\<close>

lemma sanitize_fold:
  assumes ok: "tx_set_ok B G txs" and acyc: "acyclic_txs B txs"
    and no_cb: "\<forall>t \<in> set txs. \<not> ts_is_coinbase G t"
    and sub: "set xs \<subseteq> (\<lambda>t. (compute_txid B t, t)) ` set txs"
    and R: "compute_txid B ` replaced_roots B txs \<subseteq> R" "R \<subseteq> compute_txid B ` set txs"
  shows "fold (sanitize_step G txs) xs (R, us) =
    (R - {compute_txid B t | t. t \<in> snd ` set xs \<and> t \<notin> replaced_roots B txs},
     us @ concat (map (\<lambda>(_, t). map previous_output (tx_input t)) (filter (\<lambda>(_, t). t \<in> replaced_roots B txs) xs)))"
  using sub R
proof (induction xs arbitrary: R us)
  case Nil
  then show ?case by simp
next
  case (Cons x xs)
  then obtain t where x: "x = (compute_txid B t, t)" and t: "t \<in> set txs" by auto
  have inj: "inj_on (compute_txid B) (set txs)"
    and anc: "set (ts_ancestors G txs t) = {compute_txid B a | a. ancestor B txs a t}"
    using ok t by (auto simp: tx_set_ok_def)
  have test: "list_ex (\<lambda>a. a \<in> R) (ts_ancestors G txs t) \<longleftrightarrow> t \<notin> replaced_roots B txs"
  proof
    assume "list_ex (\<lambda>a. a \<in> R) (ts_ancestors G txs t)"
    then show "t \<notin> replaced_roots B txs"
      by (auto simp: list_ex_iff anc replaced_roots_def)
  next
    assume "t \<notin> replaced_roots B txs"
    then obtain a where "ancestor B txs a t"
      using t by (auto simp: replaced_roots_def)
    then obtain r where r: "r \<in> replaced_roots B txs" "ancestor B txs r t"
      using ancestor_root [OF acyc] by blast
    then have "compute_txid B r \<in> R"
      using Cons.prems(2) by blast
    then show "list_ex (\<lambda>a. a \<in> R) (ts_ancestors G txs t)"
      using r by (auto simp: list_ex_iff anc)
  qed
  show ?case
  proof (cases "t \<in> replaced_roots B txs")
    case True
    then show ?thesis
      using Cons.IH [of R] Cons.prems no_cb t test by (auto simp: x)
  next
    case False
    have "compute_txid B ` replaced_roots B txs \<subseteq> R - {compute_txid B t}"
      using False Cons.prems(2) inj t by (auto simp: replaced_roots_def dest: inj_onD)
    then have "fold (sanitize_step G txs) xs (R - {compute_txid B t}, us) =
      (R - {compute_txid B t} - {compute_txid B t | t. t \<in> snd ` set xs \<and> t \<notin> replaced_roots B txs},
       us @ concat (map (\<lambda>(_, t). map previous_output (tx_input t)) (filter (\<lambda>(_, t). t \<in> replaced_roots B txs) xs)))"
      using Cons.prems by (intro Cons.IH) auto
    then show ?thesis
      using False test by (auto simp: x)
  qed
qed

lemma sanitize_replaced_roots:
  assumes "tx_set_ok B G txs" and "acyclic_txs B txs" and "\<forall>t \<in> set txs. \<not> ts_is_coinbase G t"
  obtains utxos where "sanitize_replaced B G txs = (compute_txid B ` replaced_roots B txs, utxos)"
    "set utxos = (\<Union>t \<in> replaced_roots B txs. previous_output ` set (tx_input t))"
proof -
  have full: "set (ts_full_txs G txs) = (\<lambda>t. (compute_txid B t, t)) ` set txs"
    and inj: "inj_on (compute_txid B) (set txs)"
    using assms(1) by (auto simp: tx_set_ok_def)
  have roots: "replaced_roots B txs \<subseteq> set txs"
    by (auto simp: replaced_roots_def)
  have "compute_txid B ` set txs - {compute_txid B t | t. t \<in> set txs \<and> t \<notin> replaced_roots B txs}
      = compute_txid B ` replaced_roots B txs"
    using inj roots by (auto dest: inj_onD)
  moreover have "snd ` set (ts_full_txs G txs) = set txs"
    by (simp add: full image_image)
  ultimately have "sanitize_replaced B G txs = (compute_txid B ` replaced_roots B txs,
      concat (map (\<lambda>(_, t). map previous_output (tx_input t))
        (filter (\<lambda>(_, t). t \<in> replaced_roots B txs) (ts_full_txs G txs))))"
    using sanitize_fold [OF assms, of "ts_full_txs G txs" "compute_txid B ` set txs" "[]"] roots
    by (simp add: sanitize_replaced_def full image_mono)
  then show thesis
    by (rule that) (use roots in \<open>auto simp: full\<close>)
qed

lemma must_push_iff:
  "item \<in> set (pp_must_spend (ps_push op x P)) \<longleftrightarrow>
     item \<in> set (pp_must_spend P) \<or> (op \<notin> pp_set P \<and> item = x)"
  by (auto simp: ps_push_def)

lemma add_utxos_set: "pp_set (ps_add_utxos ops P) = pp_set P \<union> set ops"
  unfolding ps_add_utxos_def by (induction ops arbitrary: P) (auto simp: ps_push_def)

lemma add_utxos_replace [simp]: "pp_replace (ps_add_utxos ops P) = pp_replace P"
  unfolding ps_add_utxos_def by (induction ops arbitrary: P) (auto simp: ps_push_def)

lemma add_utxos_planned_iff:
  "MustPlanned inp \<in> set (pp_must_spend (ps_add_utxos ops P)) \<longleftrightarrow> MustPlanned inp \<in> set (pp_must_spend P)"
  unfolding ps_add_utxos_def by (induction ops arbitrary: P) (auto simp: must_push_iff)

lemma add_utxos_utxo:
  "MustUtxo op \<in> set (pp_must_spend (ps_add_utxos ops P)) \<Longrightarrow> MustUtxo op \<in> set (pp_must_spend P) \<or> op \<in> set ops"
  unfolding ps_add_utxos_def by (induction ops arbitrary: P) (fastforce simp: must_push_iff)+

lemma root_input_outside:
  assumes "t \<in> replaced_roots B txs" and "op \<in> previous_output ` set (tx_input t)"
  shows "op_txid op \<notin> compute_txid B ` set txs"
  using assms by (auto simp: replaced_roots_def intro: ancestor.parent)

lemma replace_txs_facts:
  assumes "tx_set_ok B G txs" and "acyclic_txs B txs" and "\<forall>t \<in> set txs. \<not> ts_is_coinbase G t"
    and "params_ok prev P" and "P' = ps_replace_txs B G prev txs P"
  shows "params_ok prev P'"
    and "pp_replace P' = compute_txid B ` replaced_roots B txs"
    and "t \<in> replaced_roots B txs \<Longrightarrow> previous_output ` set (tx_input t) \<subseteq> pp_set P'"
    and "MustUtxo op \<in> set (pp_must_spend P') \<Longrightarrow>
      (\<exists>t \<in> replaced_roots B txs. op \<in> previous_output ` set (tx_input t)) \<and> op_txid op \<notin> compute_txid B ` set txs"
    and "MustPlanned inp \<in> set (pp_must_spend P') \<longleftrightarrow>
      MustPlanned inp \<in> set (pp_must_spend P) \<and> op_txid (prev inp) \<notin> pp_replace P'"
proof -
  obtain utxos where s: "sanitize_replaced B G txs = (compute_txid B ` replaced_roots B txs, utxos)"
    and u: "set utxos = (\<Union>t \<in> replaced_roots B txs. previous_output ` set (tx_input t))"
    using sanitize_replaced_roots [OF assms(1-3)] by blast
  let ?K = "(keep_planned prev P)\<lparr>pp_replace := compute_txid B ` replaced_roots B txs\<rparr>"
  have P': "P' = ps_add_utxos utxos (drop_conflicting prev ?K)"
    by (simp add: assms(5) ps_replace_txs_def ps_replace_def s)
  show "params_ok prev P'"
    unfolding assms(5) by (rule params_ok_replace [OF assms(4)])
  show R: "pp_replace P' = compute_txid B ` replaced_roots B txs"
    by (simp add: P' drop_conflicting_def)
  show "previous_output ` set (tx_input t) \<subseteq> pp_set P'" if "t \<in> replaced_roots B txs"
    using that by (auto simp: P' add_utxos_set u)
  show "(\<exists>t \<in> replaced_roots B txs. op \<in> previous_output ` set (tx_input t)) \<and> op_txid op \<notin> compute_txid B ` set txs"
    if "MustUtxo op \<in> set (pp_must_spend P')"
  proof -
    have "op \<in> set utxos"
      using add_utxos_utxo [OF that [unfolded P']] by (auto simp: drop_conflicting_def keep_planned_def)
    then obtain t where "t \<in> replaced_roots B txs" "op \<in> previous_output ` set (tx_input t)"
      by (auto simp: u)
    then show ?thesis
      using root_input_outside by blast
  qed
  show "MustPlanned inp \<in> set (pp_must_spend P') \<longleftrightarrow>
      MustPlanned inp \<in> set (pp_must_spend P) \<and> op_txid (prev inp) \<notin> pp_replace P'"
    unfolding R by (auto simp: P' add_utxos_planned_iff drop_conflicting_def keep_planned_def)
qed


text \<open>After any calls of the builder of planned transactions (src/psbt/params.rs), replacements
  among them, the set of chosen outpoints is exactly what the list of spends names, and no outpoint is
  named twice, whatever the ancestry functions of the graph return.\<close>

lemma planned_params_once:
  "pp_set (run_params B G prev calls (psbt_params_default cp)) =
     set (map (must_outpoint prev) (pp_must_spend (run_params B G prev calls (psbt_params_default cp)))) \<and>
   distinct (map (must_outpoint prev) (pp_must_spend (run_params B G prev calls (psbt_params_default cp))))"
  using params_ok_run [OF params_ok_default, of prev B G calls cp] by (simp add: params_ok_def)

end
