(* ===== verification/Planned_Tx.thy ===== *)
theory Planned_Tx
  imports Psbt_Params_Facts Create_Tx_Facts
begin

section \<open>Planned transactions (create_psbt and replace_by_fee in src/wallet/mod.rs)\<close>

text \<open>
  The wallet's second way to create a transaction, over the planner and selector of \<open>bdk_tx\<close>. Of that
  crate, of the spending plans of \<open>miniscript\<close> and of the walks over the transaction graph of
  \<open>bdk_chain\<close> the code uses the functions collected in the record \<open>planner\<close>, an argument \<open>T\<close>. The code
  also calls \<open>Wallet::list_indexed_txouts\<close>, which the sources do not define; it is the field
  \<open>pa_txouts\<close>. A hash set is a set and the order in which it is walked through is a function of it.
  The wallet changes after the last step that can fail and is part of the \<open>Ok\<close> value.
\<close>

subsection \<open>What the code calls\<close>

record tx_status =
  st_height :: u32
  st_prev_mtp :: "u32 option"

record rbf_params =
  rbf_original_txs :: "(weight \<times> amount) list"
  rbf_descendant_fee :: amount
  rbf_incremental :: feerate

record ('out, 'chs) selector_params =
  sp_feerate :: feerate
  sp_targets :: "'out list"
  sp_change :: 'chs
  sp_replace :: "rbf_params option"

record planned_psbt_params =
  pq_version :: int
  pq_min_locktime :: locktime
  pq_mandate_full_tx :: bool
  pq_anti_fee_sniping :: "u32 option"

record ('w, 'cp, 'tg, 'ch, 'x, 'k, 'dd, 'plan, 'inp, 'out, 'chs, 'alg, 'ic, 'sel, 'selection, 'fin, 'r) planner =
  pa_txouts :: "'cp \<Rightarrow> 'w \<Rightarrow> full_txout list"
  pa_positions :: "'tg \<Rightarrow> 'ch \<Rightarrow> block_id \<Rightarrow> 'cp \<Rightarrow> (txid \<times> chain_position) list"
  pa_descendants :: "'tg \<Rightarrow> txid \<Rightarrow> txid list"
  pa_txid_order :: "txid set \<Rightarrow> txid list"
  pa_values :: "(outpoint \<times> full_txout) list \<Rightarrow> full_txout list"
  pa_single_keys :: "'x desc_pubkey \<Rightarrow> 'k list"
  pa_after :: "locktime \<Rightarrow> 'k assets \<Rightarrow> 'k assets"
  pa_older :: "rel_locktime \<Rightarrow> 'k assets \<Rightarrow> 'k assets"
  pa_plan :: "'dd \<Rightarrow> 'k assets \<Rightarrow> 'plan option"
  in_prev :: "'inp \<Rightarrow> outpoint"
  in_sequence :: "'inp \<Rightarrow> u32 option"
  in_set_sequence :: "u32 \<Rightarrow> 'inp \<Rightarrow> (nat, 'inp) res"
  in_from_prev_tx :: "'plan \<Rightarrow> transaction \<Rightarrow> nat \<Rightarrow> tx_status option \<Rightarrow> 'inp option"
  out_with_descriptor :: "'dd \<Rightarrow> amount \<Rightarrow> 'out"
  out_with_script :: "script \<Rightarrow> amount \<Rightarrow> 'out"
  out_value :: "'out \<Rightarrow> amount"
  chs_from_descriptor :: "'dd \<Rightarrow> 'chs"
  ic_new :: "'inp list \<Rightarrow> 'inp list \<Rightarrow> 'ic"
  ic_inputs :: "'ic \<Rightarrow> 'inp list"
  sl_new :: "'ic \<Rightarrow> ('out, 'chs) selector_params \<Rightarrow> (nat, 'sel) res"
  sl_select_all :: "'sel \<Rightarrow> 'sel"
  sl_custom :: "'alg \<Rightarrow> 'sel \<Rightarrow> (nat, 'sel) res"
  sl_lowest_fee :: "feerate \<Rightarrow> nat \<Rightarrow> 'sel \<Rightarrow> (nat, 'sel) res"
  sl_count :: "'sel \<Rightarrow> nat"
  sl_sort_by_keys :: "u32 list \<Rightarrow> 'sel \<Rightarrow> 'sel"
  sl_until_target_met :: "'sel \<Rightarrow> (nat, 'sel) res"
  sl_try_finalize :: "'sel \<Rightarrow> 'selection option"
  st_outputs :: "'selection \<Rightarrow> 'out list"
  st_shuffle_inputs :: "'r \<Rightarrow> 'selection \<Rightarrow> 'selection \<times> 'r"
  st_shuffle_outputs :: "'r \<Rightarrow> 'selection \<Rightarrow> 'selection \<times> 'r"
  st_sort_inputs :: "('inp \<Rightarrow> 'inp \<Rightarrow> bool) \<Rightarrow> 'selection \<Rightarrow> 'selection"
  st_sort_outputs :: "('out \<Rightarrow> 'out \<Rightarrow> bool) \<Rightarrow> 'selection \<Rightarrow> 'selection"
  st_create_psbt :: "planned_psbt_params \<Rightarrow> 'r \<Rightarrow> 'selection \<Rightarrow> (nat, psbt \<times> 'r) res"
  st_into_finalizer :: "'selection \<Rightarrow> 'fin"
  pa_next_u32 :: "'r \<Rightarrow> u32 \<times> 'r"

datatype create_psbt_error =
  PBnb nat
| PNoRecipients
| PAllOutputsBelowDust
| PInsufficientFunds nat
| PMissingKeyOrigin nat
| PPlan outpoint
| PPsbt nat
| PSelector nat
| PUnknownUtxo outpoint
| PSequence nat

datatype replace_by_fee_error =
  RCreatePsbt create_psbt_error
| RPreviousFee
| RMissingTransaction txid
| RTransactionConfirmed txid
| RNoOriginalTransactions
| RNoInputsFromOriginal txid
| RConflictingInput outpoint

text \<open>\<open>SelectorError::CannotMeetTarget\<close>.\<close>

definition cannot_meet_target :: nat where
  "cannot_meet_target = 0"

subsection \<open>Assets, plans and inputs\<close>

text \<open>\<open>pa_single_keys\<close> is \<open>into_single_keys\<close> with the conversion of keys by \<open>Assets::add\<close>.\<close>

text \<open>Heights of lock times are below and times from the threshold of 500 million on.\<close>

definition status_from_position :: "chain_position \<Rightarrow> tx_status option" where
  "status_from_position pos =
     (case pos of
        Confirmed a _ \<Rightarrow>
          (let h = bid_height (cbt_block a) in
           if \<not> h < 500000000 then None
           else if \<not> cbt_time a < 2 ^ 32 then None
           else if of_nat (cbt_time a) < (500000000 :: u32) then None
           else Some \<lparr>st_height = h, st_prev_mtp = Some (of_nat (cbt_time a))\<rparr>)
      | Unconfirmed _ _ \<Rightarrow> None)"

definition wallet_assets where
  "wallet_assets T A w =
     assets_new\<lparr>as_keys := set (concat (map (\<lambda>(_, d). concat (map (pa_single_keys T) (da_keys (dsa A) d)))
       (keychains A w)))\<rparr>"

definition parse_params where
  "parse_params T A w P =
     ((case pp_assets P of
         None \<Rightarrow> wallet_assets T A w
       | Some params_assets \<Rightarrow>
           (let assets = assets_extend assets_new params_assets in
            if as_keys assets = {} then assets_extend assets (wallet_assets T A w) else assets)),
      map (\<lambda>txo. (ft_outpoint txo, txo)) (pa_txouts T (pp_canonical_params P) w))"

text \<open>\<open>LockTime::from_consensus\<close>.\<close>

definition locktime_from_consensus :: "u32 \<Rightarrow> locktime" where
  "locktime_from_consensus n = (if n < 500000000 then Blocks n else Seconds n)"

definition saturating_succ :: "u32 \<Rightarrow> u32" where
  "saturating_succ n = (if n = - 1 then n else n + 1)"

definition saturating_sub32 :: "u32 \<Rightarrow> u32 \<Rightarrow> u32" where
  "saturating_sub32 a b = (if b \<le> a then a - b else 0)"

text \<open>The age of an output in blocks, cut off at the largest 16-bit number.\<close>

definition output_age :: "u32 \<Rightarrow> chain_position \<Rightarrow> 16 word" where
  "output_age cur_height pos =
     (case pos_height_upper_bound pos of
        Some conf_height \<Rightarrow>
          (let age = saturating_sub32 (saturating_succ cur_height) conf_height in
           if age < 65536 then ucast age else - 1)
      | None \<Rightarrow> 0)"

definition try_plan where
  "try_plan T A w outpoint assets =
     (case ia_txout (ixa A) (w_index w) outpoint of
        None \<Rightarrow> Ok None
      | Some ((keychain, index), _) \<Rightarrow>
          (case ia_descriptor (ixa A) (w_index w) keychain of
             None \<Rightarrow> Ok None
           | Some d \<Rightarrow> res_bind (expect (da_at_index (dsa A) d index)) (\<lambda>def_desc. Ok (pa_plan T def_desc assets))))"

definition plan_input where
  "plan_input T A w spend_assets txo =
     (let op = ft_outpoint txo;
          cur_height = bid_height (ca_tip (cha A) (w_chain w));
          abs_locktime = (case as_absolute spend_assets of Some l \<Rightarrow> l | None \<Rightarrow> locktime_from_consensus cur_height);
          rel_locktime = (case as_relative spend_assets of Some l \<Rightarrow> l
            | None \<Rightarrow> RelBlocks (output_age cur_height (ft_pos txo)));
          assets = pa_older T rel_locktime (pa_after T abs_locktime (assets_extend assets_new spend_assets))
      in res_bind (try_plan T A w op assets) (\<lambda>plan.
         case plan of
           None \<Rightarrow> Ok None
         | Some plan \<Rightarrow>
             (case ga_get_tx (tga A) (w_graph w) (op_txid op) of
                None \<Rightarrow> Ok None
              | Some tx \<Rightarrow>
                  Ok (in_from_prev_tx T plan tx (unat (op_vout op)) (status_from_position (ft_pos txo))))))"

text \<open>The fallback sequence is set on inputs without one of their own.\<close>

definition apply_fallback where
  "apply_fallback T fallback inp =
     (case fallback of
        None \<Rightarrow> Ok inp
      | Some s \<Rightarrow>
          if in_sequence T inp = None then map_err PSequence (in_set_sequence T s inp) else Ok inp)"

fun build_must_spend_input where
  "build_must_spend_input T A w P txouts assets (MustPlanned inp) = Ok inp"
| "build_must_spend_input T A w P txouts assets (MustUtxo op) =
     res_bind (ok_or (map_of (rev txouts) op) (PUnknownUtxo op)) (\<lambda>txo.
     res_bind (plan_input T A w assets txo) (\<lambda>planned.
     res_bind (ok_or planned (PPlan op)) (\<lambda>inp.
     case pp_sequence_overrides P op of
       Some s \<Rightarrow> map_err PSequence (in_set_sequence T s inp)
     | None \<Rightarrow> apply_fallback T (pp_fallback_sequence P) inp)))"

definition build_must_spend_inputs where
  "build_must_spend_inputs T A w P txouts assets =
     res_map (build_must_spend_input T A w P txouts assets) (pp_must_spend P)"

subsection \<open>Candidates and targets\<close>

definition is_spendable where
  "is_spendable A w P policy txo \<longleftrightarrow>
     ft_outpoint txo \<notin> pp_set P \<and> policy txo \<and> \<not> is_outpoint_locked w (ft_outpoint txo) \<and>
     va_is_mature (cha A) txo (case pp_maturity_height P of Some h \<Rightarrow> h
       | None \<Rightarrow> bid_height (ca_tip (cha A) (w_chain w))) \<and>
     ft_spent_by txo = None"

definition filter_spendable where
  "filter_spendable A w txos P policy = filter (is_spendable A w P policy) txos"

text \<open>The candidates that need not be spent, planned, with the fallback sequence.\<close>

definition may_spend_inputs where
  "may_spend_inputs T A w P txouts assets policy =
     (if pp_manually_selected_only P then Ok []
      else res_bind (res_map (plan_input T A w assets) (filter_spendable A w (pa_values T txouts) P policy)) (\<lambda>plans.
           res_map (apply_fallback T (pp_fallback_sequence P)) (List.map_filter id plans)))"

definition target_output where
  "target_output T A w = (\<lambda>(script, v).
     case ia_index_of_spk (ixa A) (w_index w) script of
       Some (keychain, index) \<Rightarrow>
         res_bind (public_descriptor A w keychain) (\<lambda>d.
         res_bind (expect (da_at_index (dsa A) d index)) (\<lambda>dd. Ok (out_with_descriptor T dd v)))
     | None \<Rightarrow> Ok (out_with_script T script v))"

definition target_outputs where
  "target_outputs T A w P = res_map (target_output T A w) (pp_recipients P)"

definition peek_change_info where
  "peek_change_info T A w =
     (let change_keychain = map_keychain A w Internal in
      res_bind (unused_or_next A w change_keychain) (\<lambda>(index, spk).
      res_bind (public_descriptor A w change_keychain) (\<lambda>d.
      res_bind (expect (da_at_index (dsa A) d index)) (\<lambda>dd.
      Ok ((change_keychain, index, spk), chs_from_descriptor T dd)))))"

text \<open>The change script of the parameters, or the next change address.\<close>

definition change_of_params where
  "change_of_params T A w P =
     (case pp_change_script P of
        Some change_script \<Rightarrow> Ok (None, change_script)
      | None \<Rightarrow> res_bind (peek_change_info T A w) (\<lambda>(change_info, change_script). Ok (Some change_info, change_script)))"

fun is_select_all :: "'alg selection_strategy \<Rightarrow> bool" where
  "is_select_all SelectAll = True"
| "is_select_all _ = False"

definition lacks_recipients where
  "lacks_recipients P \<longleftrightarrow>
     pp_recipients P = [] \<and> \<not> (is_select_all (pp_coin_selection P) \<and> pp_change_script P \<noteq> None)"

subsection \<open>Selection and PSBT\<close>

fun draw_u32s :: "('r \<Rightarrow> u32 \<times> 'r) \<Rightarrow> nat \<Rightarrow> 'r \<Rightarrow> u32 list \<times> 'r" where
  "draw_u32s next 0 rng = ([], rng)"
| "draw_u32s next (Suc n) rng =
     (case next rng of (k, rng) \<Rightarrow> case draw_u32s next n rng of (ks, rng) \<Rightarrow> (k # ks, rng))"

definition select_coins where
  "select_coins T P sel rng =
     (case pp_coin_selection P of
        SelectAll \<Rightarrow> Ok (sl_select_all T sel, rng)
      | SelectCustom algorithm \<Rightarrow>
          res_bind (map_err PSelector (sl_custom T algorithm sel)) (\<lambda>sel. Ok (sel, rng))
      | LowestFee longterm_feerate max_rounds \<Rightarrow>
          res_bind (map_err PBnb (sl_lowest_fee T longterm_feerate max_rounds sel)) (\<lambda>sel. Ok (sel, rng))
      | SingleRandomDraw \<Rightarrow>
          (case draw_u32s (pa_next_u32 T) (sl_count T sel) rng of (keys, rng) \<Rightarrow>
           res_bind (map_err PInsufficientFunds (sl_until_target_met T (sl_sort_by_keys T keys sel))) (\<lambda>sel.
           Ok (sel, rng))))"

definition order_selection where
  "order_selection T P selection rng =
     (case pp_ordering P of
        Untouched \<Rightarrow> (selection, rng)
      | Shuffle \<Rightarrow>
          (case st_shuffle_inputs T rng selection of (selection, rng) \<Rightarrow> st_shuffle_outputs T rng selection)
      | Custom input_sort output_sort \<Rightarrow>
          (st_sort_outputs T output_sort (st_sort_inputs T input_sort selection), rng))"

definition planned_xpub_origin :: "'x xpub_api \<Rightarrow> 'x pol_env \<Rightarrow> 'x desc_xkey \<Rightarrow> (create_psbt_error, key_source) res" where
  "planned_xpub_origin X E xpub =
     (case xk_origin xpub of
        Some origin \<Rightarrow> Ok origin
      | None \<Rightarrow>
          if xp_depth X (xk_key xpub) = 0
          then Ok (xkey_root_fingerprint (key_fingerprint E) xpub, [])
          else Err (PMissingKeyOrigin (xp_id X (xk_key xpub))))"

definition add_planned_xpubs where
  "add_planned_xpubs X E A w P p =
     (if \<not> pp_add_global_xpubs P then Ok p
      else res_fold (\<lambda>p xpub. res_bind (planned_xpub_origin X E xpub) (\<lambda>origin.
             Ok (p\<lparr>psbt_xpubs := bt_insert (xp_id X (xk_key xpub)) origin (psbt_xpubs p)\<rparr>)))
           p (concat (map (\<lambda>(_, d). get_extended_keys (dsa A) d) (keychains A w))))"

definition create_psbt_from_selector where
  "create_psbt_from_selector T X E A w P sel rng =
     res_bind (select_coins T P sel rng) (\<lambda>(sel, rng).
     res_bind (ok_or (sl_try_finalize T sel) (PSelector cannot_meet_target)) (\<lambda>selection.
     res_bind (fail_if (st_outputs T selection = []) PAllOutputsBelowDust) (\<lambda>_.
     case order_selection T P selection rng of (selection, rng) \<Rightarrow>
     res_bind (map_err PPsbt (st_create_psbt T
         \<lparr>pq_version = (case pp_version P of Some v \<Rightarrow> v | None \<Rightarrow> 2),
          pq_min_locktime = (case pp_min_locktime P of Some l \<Rightarrow> l | None \<Rightarrow> Blocks 0),
          pq_mandate_full_tx = (\<not> pp_only_witness_utxo P),
          pq_anti_fee_sniping = pp_anti_fee_sniping P\<rparr> rng selection)) (\<lambda>(p, rng).
     res_bind (add_planned_xpubs X E A w P p) (\<lambda>p. Ok (p, st_into_finalizer T selection, rng))))))"

text \<open>The checked list of candidates: there must be one.\<close>

definition check_candidates where
  "check_candidates T ic targets =
     (if ic_inputs T ic = []
      then res_bind (u64_sum (map (out_value T) targets)) (\<lambda>target_amount. Err (PInsufficientFunds target_amount))
      else Ok ())"

text \<open>The change address picked by the wallet is revealed when the PSBT pays to it.\<close>

definition reveal_change where
  "reveal_change A w p change_info =
     (case change_info of
        None \<Rightarrow> w
      | Some (keychain, index, spk) \<Rightarrow>
          if list_ex (\<lambda>txo. txo_script txo = spk) (tx_output (unsigned_tx p))
          then (case ia_reveal_to (ixa A) keychain index (w_index w) of
                  (Some (_, index_changeset), ix) \<Rightarrow>
                    stage_merge A (cs_from_indexer (exa A) index_changeset) (w\<lparr>w_index := ix\<rparr>)
                | (None, ix) \<Rightarrow> w\<lparr>w_index := ix\<rparr>)
          else w)"

definition create_psbt where
  "create_psbt T X E A w P rng =
     res_bind (fail_if (lacks_recipients P) PNoRecipients) (\<lambda>_.
     res_bind (change_of_params T A w P) (\<lambda>(change_info, change_script).
     case parse_params T A w P of (assets, txouts) \<Rightarrow>
     res_bind (build_must_spend_inputs T A w P txouts assets) (\<lambda>must_spend.
     res_bind (may_spend_inputs T A w P txouts assets (pp_utxo_filter P)) (\<lambda>may_spend.
     res_bind (target_outputs T A w P) (\<lambda>targets.
     let ic = ic_new T must_spend may_spend in
     res_bind (check_candidates T ic targets) (\<lambda>_.
     res_bind (map_err PSelector (sl_new T ic
         \<lparr>sp_feerate = pp_fee_rate P, sp_targets = targets, sp_change = change_script, sp_replace = None\<rparr>)) (\<lambda>sel.
     res_bind (create_psbt_from_selector T X E A w P sel rng) (\<lambda>(p, finalizer, rng).
     Ok (p, finalizer, reveal_change A w p change_info, rng)))))))))"

subsection \<open>Replacing transactions by fee\<close>

definition canonical_positions where
  "canonical_positions T A w P =
     map_of (rev (pa_positions T (w_graph w) (w_chain w) (ca_tip (cha A) (w_chain w)) (pp_canonical_params P)))"

definition check_unconfirmed where
  "check_unconfirmed T A w P =
     res_map (\<lambda>txid. fail_if (case canonical_positions T A w P txid of Some pos \<Rightarrow> pos_is_confirmed pos | None \<Rightarrow> False)
         (RTransactionConfirmed txid)) (pa_txid_order T (pp_replace P))"

text \<open>Of every replaced transaction the graph knows, one input at least stays chosen.\<close>

definition check_conflicts where
  "check_conflicts T A w P =
     res_map (\<lambda>txid.
         case ga_get_tx (tga A) (w_graph w) txid of
           Some tx \<Rightarrow>
             fail_if (\<not> list_ex (\<lambda>txin. previous_output txin \<in> pp_set P) (tx_input tx)) (RNoInputsFromOriginal txid)
         | None \<Rightarrow> Ok ()) (pa_txid_order T (pp_replace P))"

definition replaced_descendants where
  "replaced_descendants T A w direct =
     \<Union> ((\<lambda>txid. set (pa_descendants T (w_graph w) txid)) ` direct) - direct"

definition check_no_conflicting_input where
  "check_no_conflicting_input T to_replace must_spend =
     res_map (\<lambda>inp. fail_if (op_txid (in_prev T inp) \<in> to_replace) (RConflictingInput (in_prev T inp))) must_spend"

text \<open>Only confirmed outputs of transactions that stay may be added to a replacement.\<close>

definition replacement_policy where
  "replacement_policy to_replace P txo \<longleftrightarrow>
     op_txid (ft_outpoint txo) \<notin> to_replace \<and> pos_is_confirmed (ft_pos txo) \<and> pp_utxo_filter P txo"

definition original_stats where
  "original_stats B T A w direct =
     res_map (\<lambda>txid.
         res_bind (ok_or (ga_get_tx (tga A) (w_graph w) txid) (RMissingTransaction txid)) (\<lambda>tx.
         res_bind (ok_or (ga_calculate_fee (tga A) (w_graph w) tx) RPreviousFee) (\<lambda>fee.
         Ok (tx_weight B tx, fee)))) (pa_txid_order T direct)"

definition descendant_fees where
  "descendant_fees T A w descendants =
     u64_sum (List.map_filter (\<lambda>txid. Option.bind (ga_get_tx (tga A) (w_graph w) txid)
       (ga_calculate_fee (tga A) (w_graph w))) (pa_txid_order T descendants))"

definition replace_by_fee where
  "replace_by_fee B T X E A w P rng =
     res_bind (fail_if (pp_replace P = {}) RNoOriginalTransactions) (\<lambda>_.
     res_bind (fail_if (lacks_recipients P) (RCreatePsbt PNoRecipients)) (\<lambda>_.
     res_bind (map_err RCreatePsbt (change_of_params T A w P)) (\<lambda>(change_info, change_script).
     case parse_params T A w P of (assets, txouts) \<Rightarrow>
     res_bind (check_unconfirmed T A w P) (\<lambda>_.
     res_bind (check_conflicts T A w P) (\<lambda>_.
     let direct = pp_replace P;
         descendants = replaced_descendants T A w direct;
         to_replace = direct \<union> descendants in
     res_bind (map_err RCreatePsbt (build_must_spend_inputs T A w P txouts assets)) (\<lambda>must_spend.
     res_bind (check_no_conflicting_input T to_replace must_spend) (\<lambda>_.
     res_bind (map_err RCreatePsbt (may_spend_inputs T A w P txouts assets (replacement_policy to_replace P))) (\<lambda>may_spend.
     res_bind (map_err RCreatePsbt (target_outputs T A w P)) (\<lambda>targets.
     let ic = ic_new T must_spend may_spend in
     res_bind (map_err RCreatePsbt (check_candidates T ic targets)) (\<lambda>_.
     res_bind (original_stats B T A w direct) (\<lambda>original_txs.
     res_bind (descendant_fees T A w descendants) (\<lambda>descendant_fee.
     res_bind (map_err (\<lambda>e. RCreatePsbt (PSelector e)) (sl_new T ic
         \<lparr>sp_feerate = pp_fee_rate P, sp_targets = targets, sp_change = change_script,
          sp_replace = Some \<lparr>rbf_original_txs = original_txs, rbf_descendant_fee = descendant_fee,
            rbf_incremental = BROADCAST_MIN\<rparr>\<rparr>)) (\<lambda>sel.
     res_bind (map_err RCreatePsbt (create_psbt_from_selector T X E A w P sel rng)) (\<lambda>(p, finalizer, rng).
     Ok (p, finalizer, reveal_change A w p change_info, rng)))))))))))))))"

end
