(* ===== verification/Planned_Facts.thy ===== *)
theory Planned_Facts
  imports Planned_Tx
begin

section \<open>What a planned transaction spends\<close>

text \<open>
  The theorems on planned transactions: which outputs one spends, and that a replacement conflicts
  with everything it replaces and builds on nothing it evicts. What they need of the planner and of
  the transaction graph are the predicates \<open>planner_laws\<close> and \<open>graph_ids\<close>.
\<close>

lemma case_prod_Ok_iff: "(case x of (a, b) \<Rightarrow> f a b) = Ok y \<longleftrightarrow> (\<exists>a b. x = (a, b) \<and> f a b = Ok y)"
  by (cases x) simp

lemma case_option_Ok_iff:
  "(case x of None \<Rightarrow> a | Some z \<Rightarrow> f z) = Ok y \<longleftrightarrow> (x = None \<and> a = Ok y) \<or> (\<exists>z. x = Some z \<and> f z = Ok y)"
  by (cases x) simp_all

lemmas case_Ok_iffs = case_prod_Ok_iff case_option_Ok_iff

definition spent_by :: "psbt \<Rightarrow> outpoint set" where
  "spent_by p = previous_output ` set (tx_input (unsigned_tx p))"

text \<open>The documented behaviour of \<open>bdk_tx\<close> and of hash sets: walking through a set or the values of a
  map meets its elements only, and all of a set; an input keeps its outpoint when its sequence is set and has
  that of the previous output it is made from; a selector keeps its candidates (\<open>K\<close>: what must and
  what may be spent) whatever is selected, a finished selection (\<open>I\<close>: its outpoints) holds all that
  must and only what may be spent, ordering keeps it, and the PSBT spends it.\<close>

definition walk_laws where
  "walk_laws T \<longleftrightarrow>
     (\<forall>S. finite S \<longrightarrow> set (pa_txid_order T S) = S) \<and>
     (\<forall>kvs. set (pa_values T kvs) \<subseteq> snd ` set kvs)"

definition input_laws where
  "input_laws B T \<longleftrightarrow>
     (\<forall>s inp inp'. in_set_sequence T s inp = Ok inp' \<longrightarrow> in_prev T inp' = in_prev T inp) \<and>
     (\<forall>plan tx i st inp. in_from_prev_tx T plan tx i st = Some inp
        \<longrightarrow> in_prev T inp = OutPoint (compute_txid B tx) (of_nat i))"

definition selector_laws where
  "selector_laws T K \<longleftrightarrow>
     (\<forall>must may sp sel. sl_new T (ic_new T must may) sp = Ok sel
        \<longrightarrow> K sel = (in_prev T ` set must, in_prev T ` set may)) \<and>
     (\<forall>sel. K (sl_select_all T sel) = K sel) \<and>
     (\<forall>a sel sel'. sl_custom T a sel = Ok sel' \<longrightarrow> K sel' = K sel) \<and>
     (\<forall>r n sel sel'. sl_lowest_fee T r n sel = Ok sel' \<longrightarrow> K sel' = K sel) \<and>
     (\<forall>keys sel. K (sl_sort_by_keys T keys sel) = K sel) \<and>
     (\<forall>sel sel'. sl_until_target_met T sel = Ok sel' \<longrightarrow> K sel' = K sel)"

definition selection_laws where
  "selection_laws T K I \<longleftrightarrow>
     (\<forall>sel sn. sl_try_finalize T sel = Some sn \<longrightarrow> fst (K sel) \<subseteq> I sn \<and> I sn \<subseteq> fst (K sel) \<union> snd (K sel)) \<and>
     (\<forall>rng sn. I (fst (st_shuffle_inputs T rng sn)) = I sn) \<and>
     (\<forall>rng sn. I (fst (st_shuffle_outputs T rng sn)) = I sn) \<and>
     (\<forall>f sn. I (st_sort_inputs T f sn) = I sn) \<and>
     (\<forall>f sn. I (st_sort_outputs T f sn) = I sn) \<and>
     (\<forall>q rng sn p rng'. st_create_psbt T q rng sn = Ok (p, rng') \<longrightarrow> spent_by p = I sn)"

definition planner_laws where
  "planner_laws B T K I \<longleftrightarrow> walk_laws T \<and> input_laws B T \<and> selector_laws T K \<and> selection_laws T K I"

text \<open>The graph finds a transaction under its own identifier.\<close>

definition graph_ids where
  "graph_ids B A w \<longleftrightarrow> (\<forall>txid tx. ga_get_tx (tga A) (w_graph w) txid = Some tx \<longrightarrow> compute_txid B tx = txid)"

lemma txid_order: "planner_laws B T K I \<Longrightarrow> finite S \<Longrightarrow> set (pa_txid_order T S) = S"
  by (simp add: planner_laws_def walk_laws_def)

lemma map_values: "planner_laws B T K I \<Longrightarrow> x \<in> set (pa_values T kvs) \<Longrightarrow> x \<in> snd ` set kvs"
  unfolding planner_laws_def walk_laws_def by blast

lemma set_sequence_prev:
  "planner_laws B T K I \<Longrightarrow> in_set_sequence T s inp = Ok inp' \<Longrightarrow> in_prev T inp' = in_prev T inp"
  unfolding planner_laws_def input_laws_def by blast

lemma prev_tx_prev:
  "planner_laws B T K I \<Longrightarrow> in_from_prev_tx T plan tx i st = Some inp
     \<Longrightarrow> in_prev T inp = OutPoint (compute_txid B tx) (of_nat i)"
  unfolding planner_laws_def input_laws_def by blast

lemma new_candidates:
  "planner_laws B T K I \<Longrightarrow> sl_new T (ic_new T must may) sp = Ok sel
     \<Longrightarrow> K sel = (in_prev T ` set must, in_prev T ` set may)"
  unfolding planner_laws_def selector_laws_def by blast

lemma finalize_inputs:
  "planner_laws B T K I \<Longrightarrow> sl_try_finalize T sel = Some sn
     \<Longrightarrow> fst (K sel) \<subseteq> I sn \<and> I sn \<subseteq> fst (K sel) \<union> snd (K sel)"
  by (simp add: planner_laws_def selection_laws_def)

lemma psbt_spends:
  "planner_laws B T K I \<Longrightarrow> st_create_psbt T q rng sn = Ok (p, rng') \<Longrightarrow> spent_by p = I sn"
  unfolding planner_laws_def selection_laws_def by blast

lemma select_coins_candidates:
  assumes "planner_laws B T K I" and "select_coins T P sel rng = Ok (sel', rng')"
  shows "K sel' = K sel"
proof -
  have l: "selector_laws T K"
    using assms(1) by (simp add: planner_laws_def)
  show ?thesis
  proof (cases "pp_coin_selection P")
    case SelectAll
    then show ?thesis
      using assms(2) l by (auto simp: select_coins_def selector_laws_def)
  next
    case (SelectCustom a)
    then have "sl_custom T a sel = Ok sel'"
      using assms(2) by (auto simp: select_coins_def res_simps)
    then show ?thesis
      using l unfolding selector_laws_def by blast
  next
    case (LowestFee r n)
    then have "sl_lowest_fee T r n sel = Ok sel'"
      using assms(2) by (auto simp: select_coins_def res_simps)
    then show ?thesis
      using l unfolding selector_laws_def by blast
  next
    case SingleRandomDraw
    then obtain keys where "sl_until_target_met T (sl_sort_by_keys T keys sel) = Ok sel'"
      using assms(2) by (auto simp: select_coins_def res_simps split: prod.splits)
    then have "K sel' = K (sl_sort_by_keys T keys sel)"
      using l unfolding selector_laws_def by blast
    then show ?thesis
      using l by (simp add: selector_laws_def)
  qed
qed

lemma order_selection_inputs:
  assumes "planner_laws B T K I"
  shows "I (fst (order_selection T P sn rng)) = I sn"
proof -
  have l: "I (fst (st_shuffle_inputs T r s)) = I s" "I (fst (st_shuffle_outputs T r s)) = I s"
    "I (st_sort_inputs T f s) = I s" "I (st_sort_outputs T g s) = I s" for r f g s
    using assms by (simp_all add: planner_laws_def selection_laws_def)
  have "I s = I sn" if "st_shuffle_inputs T rng sn = (s, r)" for s r
    using l(1) [of rng sn] that by simp
  then show ?thesis
    by (simp add: order_selection_def l split: tx_ordering.split prod.split)
qed

lemma add_planned_xpubs_unsigned: "add_planned_xpubs X E A w P p = Ok p' \<Longrightarrow> unsigned_tx p' = unsigned_tx p"
proof -
  have "res_fold (\<lambda>p xpub. res_bind (planned_xpub_origin X E xpub) (\<lambda>origin.
      Ok (p\<lparr>psbt_xpubs := bt_insert (xp_id X (xk_key xpub)) origin (psbt_xpubs p)\<rparr>))) p xs = Ok p'
      \<Longrightarrow> unsigned_tx p' = unsigned_tx p" for xs
    by (induction xs arbitrary: p) (auto simp: res_simps)
  then show "add_planned_xpubs X E A w P p = Ok p' \<Longrightarrow> unsigned_tx p' = unsigned_tx p"
    by (auto simp: add_planned_xpubs_def split: if_splits)
qed

lemma from_selector_spends:
  assumes "planner_laws B T K I" and "create_psbt_from_selector T X E A w P sel rng = Ok (p, fin, rng')"
  shows "fst (K sel) \<subseteq> spent_by p \<and> spent_by p \<subseteq> fst (K sel) \<union> snd (K sel)"
proof -
  from assms(2) obtain sel' rng1 sn sn' rng2 q p0 rng3 where s:
    "select_coins T P sel rng = Ok (sel', rng1)" "sl_try_finalize T sel' = Some sn"
    "order_selection T P sn rng1 = (sn', rng2)" "st_create_psbt T q rng2 sn' = Ok (p0, rng3)"
    "add_planned_xpubs X E A w P p0 = Ok p"
    by (auto simp: create_psbt_from_selector_def res_simps case_Ok_iffs)
  have "spent_by p = I sn"
    using add_planned_xpubs_unsigned [OF s(5)] psbt_spends [OF assms(1) s(4)]
      order_selection_inputs [OF assms(1), of P sn rng1] s(3)
    by (simp add: spent_by_def)
  then show ?thesis
    using finalize_inputs [OF assms(1) s(2)] select_coins_candidates [OF assms(1) s(1)] by simp
qed

subsection \<open>The inputs\<close>

lemma plan_input_prev:
  assumes "planner_laws B T K I" and "graph_ids B A w" and "plan_input T A w assets txo = Ok (Some inp)"
  shows "in_prev T inp = ft_outpoint txo"
proof -
  from assms(3) obtain plan tx sts where
    "ga_get_tx (tga A) (w_graph w) (op_txid (ft_outpoint txo)) = Some tx"
    "in_from_prev_tx T plan tx (unat (op_vout (ft_outpoint txo))) sts = Some inp"
    by (auto simp: plan_input_def Let_def bind_Ok_iff case_Ok_iffs)
  then show ?thesis
    using prev_tx_prev [OF assms(1)] assms(2) by (auto simp: graph_ids_def intro: outpoint.expand)
qed

lemma apply_fallback_prev:
  "planner_laws B T K I \<Longrightarrow> apply_fallback T fb inp = Ok inp' \<Longrightarrow> in_prev T inp' = in_prev T inp"
  by (auto simp: apply_fallback_def res_simps set_sequence_prev split: option.splits if_splits)

lemma parse_params_txouts:
  "parse_params T A w P = (assets, txouts) \<Longrightarrow> (op, txo) \<in> set txouts
     \<Longrightarrow> op = ft_outpoint txo \<and> txo \<in> set (pa_txouts T (pp_canonical_params P) w)"
  by (auto simp: parse_params_def)

lemma must_spend_input_prev:
  assumes "planner_laws B T K I" and "graph_ids B A w" and "parse_params T A w P = (assets0, txouts)"
    and "build_must_spend_input T A w P txouts assets item = Ok inp"
  shows "in_prev T inp = must_outpoint (in_prev T) item"
proof (cases item)
  case (MustUtxo op)
  with assms(4) obtain txo inp0 where t: "map_of (rev txouts) op = Some txo"
    "plan_input T A w assets txo = (Ok (Some inp0) :: (create_psbt_error, _) res)"
    and s: "(case pp_sequence_overrides P op of Some s \<Rightarrow> map_err PSequence (in_set_sequence T s inp0)
       | None \<Rightarrow> apply_fallback T (pp_fallback_sequence P) inp0) = Ok inp"
    by (auto simp: res_simps)
  have "in_prev T inp = in_prev T inp0"
    using s by (auto simp: res_simps set_sequence_prev [OF assms(1)] apply_fallback_prev [OF assms(1)] split: option.splits)
  moreover have "ft_outpoint txo = op"
    using map_of_SomeD [OF t(1)] parse_params_txouts [OF assms(3)] by auto
  ultimately show ?thesis
    using plan_input_prev [OF assms(1,2) t(2)] MustUtxo by simp
qed (use assms(4) in simp)

lemma must_spend_inputs_prev:
  assumes "planner_laws B T K I" and "graph_ids B A w" and "parse_params T A w P = (assets0, txouts)"
    and "build_must_spend_inputs T A w P txouts assets = Ok must"
  shows "map (in_prev T) must = map (must_outpoint (in_prev T)) (pp_must_spend P)"
proof -
  have "list_all2 (\<lambda>item inp. in_prev T inp = must_outpoint (in_prev T) item) (pp_must_spend P) must"
    using assms(4) unfolding build_must_spend_inputs_def res_map_Ok_iff
    by (rule list_all2_mono) (rule must_spend_input_prev [OF assms(1-3)])
  then show ?thesis
    by (simp add: list_all2_conv_all_nth list_eq_iff_nth_eq)
qed

lemma may_spend_inputs_from:
  assumes "planner_laws B T K I" and "graph_ids B A w" and "parse_params T A w P = (assets0, txouts)"
    and "may_spend_inputs T A w P txouts assets policy = Ok may" and "inp \<in> set may"
  shows "\<not> pp_manually_selected_only P \<and> (\<exists>txo \<in> set (pa_txouts T (pp_canonical_params P) w).
    in_prev T inp = ft_outpoint txo \<and> is_spendable A w P policy txo)"
proof -
  from assms(4,5) obtain plans where m: "\<not> pp_manually_selected_only P"
    and p: "res_map (plan_input T A w assets) (filter_spendable A w (pa_values T txouts) P policy) = (Ok plans :: (create_psbt_error, _) res)"
    and f: "res_map (apply_fallback T (pp_fallback_sequence P)) (List.map_filter id plans) = Ok may"
    by (auto simp: may_spend_inputs_def res_simps split: if_splits)
  from f assms(5) obtain inp0 where "inp0 \<in> set (List.map_filter id plans)" "in_prev T inp = in_prev T inp0"
    by (auto simp: res_map_Ok_iff list_all2_conv_all_nth in_set_conv_nth) (metis apply_fallback_prev assms(1))
  then have "Some inp0 \<in> set plans" and i: "in_prev T inp = in_prev T inp0"
    by (auto simp: List.map_filter_def)
  then obtain txo where t: "txo \<in> set (filter_spendable A w (pa_values T txouts) P policy)"
    and pl: "plan_input T A w assets txo = (Ok (Some inp0) :: (create_psbt_error, _) res)"
    using p by (auto simp: res_map_Ok_iff list_all2_conv_all_nth in_set_conv_nth) (metis nth_mem)
  have "txo \<in> set (pa_txouts T (pp_canonical_params P) w)"
    using t map_values [OF assms(1), of txo txouts] parse_params_txouts [OF assms(3)]
    by (auto simp: filter_spendable_def)
  then show ?thesis
    using m i plan_input_prev [OF assms(1,2) pl] t by (auto simp: filter_spendable_def)
qed

subsection \<open>What is spent\<close>

lemma reveal_change_same: "\<exists>ix cs. reveal_change A w p info = w\<lparr>w_index := ix, w_stage := cs\<rparr>"
proof -
  have "\<exists>ix cs. w = w\<lparr>w_index := ix, w_stage := cs\<rparr>"
    by (rule exI [of _ "w_index w"], rule exI [of _ "w_stage w"]) simp
  moreover have "\<exists>jx cs. w\<lparr>w_index := ix\<rparr> = w\<lparr>w_index := jx, w_stage := cs\<rparr>" for ix
    by (rule exI [of _ ix], rule exI [of _ "w_stage w"]) simp
  moreover have "\<exists>jx cs. stage_merge A c (w\<lparr>w_index := ix\<rparr>) = w\<lparr>w_index := jx, w_stage := cs\<rparr>" for c ix
    by (auto simp: stage_merge_def)
  ultimately show ?thesis
    unfolding reveal_change_def by (simp split: option.split prod.split)
qed

text \<open>From the candidates to the PSBT, for both entry points.\<close>

lemma planned_spends:
  assumes "planner_laws B T K I" and "graph_ids B A w" and "params_ok (in_prev T) P"
    and "parse_params T A w P = (assets, txouts)"
    and "build_must_spend_inputs T A w P txouts assets = Ok must"
    and "may_spend_inputs T A w P txouts assets policy = Ok may"
    and "sl_new T (ic_new T must may) sp = Ok sel"
    and "create_psbt_from_selector T X E A w P sel rng = Ok (p, fin, rng')"
  shows "pp_set P \<subseteq> spent_by p \<and>
    (\<forall>op \<in> spent_by p - pp_set P. \<not> pp_manually_selected_only P \<and>
      (\<exists>txo \<in> set (pa_txouts T (pp_canonical_params P) w). ft_outpoint txo = op \<and> is_spendable A w P policy txo))"
proof -
  have "in_prev T ` set must = pp_set P"
    using must_spend_inputs_prev [OF assms(1,2,4,5)] assms(3)
    by (metis params_ok_def set_map)
  then have K: "K sel = (pp_set P, in_prev T ` set may)"
    using new_candidates [OF assms(1,7)] by simp
  then have "pp_set P \<subseteq> spent_by p" and s: "spent_by p \<subseteq> pp_set P \<union> in_prev T ` set may"
    using from_selector_spends [OF assms(1,8)] by simp_all
  moreover have "\<not> pp_manually_selected_only P \<and>
      (\<exists>txo \<in> set (pa_txouts T (pp_canonical_params P) w). ft_outpoint txo = op \<and> is_spendable A w P policy txo)"
    if "op \<in> in_prev T ` set may" for op
    using that may_spend_inputs_from [OF assms(1,2,4,6)] by fastforce
  ultimately show ?thesis
    by blast
qed

text \<open>C16: A planned transaction (create_psbt in src/wallet/mod.rs) spends every output chosen by hand;
  whatever else it spends, unless only chosen outputs may be spent, is an output of the wallet that
  is unspent, mature, not locked and passes the filter of the caller. The wallet changes in its
  script index and its stage only. The wallet's graph finds transactions under their identifiers,
  and the planner keeps to its documentation.\<close>

theorem planned_psbt_inputs:
  assumes "planner_laws B T K I" and "graph_ids B A w" and "params_ok (in_prev T) P"
    and "create_psbt T X E A w P rng = Ok (p, fin, w', rng')"
  shows "pp_set P \<subseteq> spent_by p \<and>
    (\<forall>op \<in> spent_by p - pp_set P. \<not> pp_manually_selected_only P \<and>
      (\<exists>txo \<in> set (pa_txouts T (pp_canonical_params P) w).
         ft_outpoint txo = op \<and> ft_spent_by txo = None \<and> op \<notin> set (w_locked w) \<and> pp_utxo_filter P txo \<and>
         va_is_mature (cha A) txo (case pp_maturity_height P of Some h \<Rightarrow> h | None \<Rightarrow> bid_height (ca_tip (cha A) (w_chain w))))) \<and>
    (\<exists>ix cs. w' = w\<lparr>w_index := ix, w_stage := cs\<rparr>)"
proof -
  from assms(4) obtain assets txouts must may sp sel rng1 info where
    "parse_params T A w P = (assets, txouts)"
    "build_must_spend_inputs T A w P txouts assets = Ok must"
    "may_spend_inputs T A w P txouts assets (pp_utxo_filter P) = Ok may"
    "sl_new T (ic_new T must may) sp = Ok sel"
    "create_psbt_from_selector T X E A w P sel rng = Ok (p, fin, rng1)"
    and w': "w' = reveal_change A w p info"
    by (auto simp: create_psbt_def Let_def res_simps case_Ok_iffs)
  from planned_spends [OF assms(1-3) this(1-5)] show ?thesis
    unfolding w' by (auto simp: is_spendable_def is_outpoint_locked_def reveal_change_same)
qed

lemma res_map_unit_Ok: "res_map f xs = Ok ys \<Longrightarrow> x \<in> set xs \<Longrightarrow> \<exists>y. f x = Ok y"
  by (induction xs arbitrary: ys) (auto simp: res_simps)

text \<open>C15: A replacement (replace_by_fee in src/wallet/mod.rs) conflicts with every transaction it
  replaces: each is a known, unconfirmed transaction and one of its inputs is spent again. It builds
  on nothing it evicts: none of its inputs is an output of a replaced transaction or of a descendant of one.
  It spends every output chosen by hand; whatever it adds is a confirmed, unspent, mature output of the
  wallet that is not locked.\<close>

theorem replacement_conflicts:
  assumes "planner_laws B T K I" and "graph_ids B A w" and "params_ok (in_prev T) P" and "finite (pp_replace P)"
    and "replace_by_fee B T X E A w P rng = Ok (p, fin, w', rng')"
  shows "pp_replace P \<noteq> {} \<and> pp_set P \<subseteq> spent_by p \<and>
    (\<forall>txid \<in> pp_replace P.
      (\<exists>tx. ga_get_tx (tga A) (w_graph w) txid = Some tx \<and> previous_output ` set (tx_input tx) \<inter> spent_by p \<noteq> {}) \<and>
      (\<forall>pos. canonical_positions T A w P txid = Some pos \<longrightarrow> \<not> pos_is_confirmed pos) \<and>
      (\<forall>op \<in> spent_by p. op_txid op \<noteq> txid \<and> op_txid op \<notin> set (pa_descendants T (w_graph w) txid))) \<and>
    (\<forall>op \<in> spent_by p - pp_set P.
      (\<exists>txo \<in> set (pa_txouts T (pp_canonical_params P) w).
         ft_outpoint txo = op \<and> pos_is_confirmed (ft_pos txo) \<and> ft_spent_by txo = None \<and> op \<notin> set (w_locked w)))"
proof -
  let ?D = "replaced_descendants T A w (pp_replace P)" and ?G = "ga_get_tx (tga A) (w_graph w)"
  let ?R = "pp_replace P \<union> ?D"
  from assms(5) obtain assets txouts us cs ns must may sp sel rng1 stats where
    s: "parse_params T A w P = (assets, txouts)"
    "build_must_spend_inputs T A w P txouts assets = Ok must"
    "may_spend_inputs T A w P txouts assets (replacement_policy ?R P) = Ok may"
    "sl_new T (ic_new T must may) sp = Ok sel"
    "create_psbt_from_selector T X E A w P sel rng = Ok (p, fin, rng1)"
    and unc: "check_unconfirmed T A w P = Ok us" and conf: "check_conflicts T A w P = Ok cs"
    and nc: "check_no_conflicting_input T ?R must = Ok ns"
    and orig: "original_stats B T A w (pp_replace P) = Ok stats"
    by (simp add: replace_by_fee_def Let_def res_simps case_Ok_iffs) (elim exE conjE, rule that, assumption+)
  have ne: "pp_replace P \<noteq> {}"
    using assms(5) by (simp add: replace_by_fee_def fail_if_def split: if_splits)
  have order: "set (pa_txid_order T (pp_replace P)) = pp_replace P"
    by (rule txid_order [OF assms(1,4)])
  note spends = planned_spends [OF assms(1-3) s]
  have other: "\<exists>txo \<in> set (pa_txouts T (pp_canonical_params P) w). ft_outpoint txo = op \<and>
      is_spendable A w P (replacement_policy ?R P) txo" if "op \<in> spent_by p - pp_set P" for op
    using bspec [OF conjunct2 [OF spends] that] by (rule conjunct2)
  have must: "in_prev T ` set must = pp_set P"
    using must_spend_inputs_prev [OF assms(1,2) s(1,2)] assms(3) by (metis params_ok_def set_map)
  have outside: "op_txid op \<notin> ?R" if op: "op \<in> spent_by p" for op
  proof (cases "op \<in> pp_set P")
    case True
    then obtain inp where "inp \<in> set must" "op = in_prev T inp"
      using must by blast
    then show ?thesis
      using res_map_unit_Ok [OF nc [unfolded check_no_conflicting_input_def]] by (auto simp: res_simps)
  next
    case False
    then obtain txo where "ft_outpoint txo = op" "is_spendable A w P (replacement_policy ?R P) txo"
      using other [of op] op by auto
    then show ?thesis
      by (auto simp: is_spendable_def replacement_policy_def)
  qed
  have known: "\<exists>tx. ?G txid = Some tx \<and> previous_output ` set (tx_input tx) \<inter> spent_by p \<noteq> {}"
    if t: "txid \<in> pp_replace P" for txid
  proof -
    obtain tx where tx: "?G txid = Some tx"
      using res_map_unit_Ok [OF orig [unfolded original_stats_def], of txid] t order by (auto simp: res_simps)
    then have "list_ex (\<lambda>txin. previous_output txin \<in> pp_set P) (tx_input tx)"
      using res_map_unit_Ok [OF conf [unfolded check_conflicts_def], of txid] t order
      by (auto simp: res_simps)
    then show ?thesis
      using tx spends by (fastforce simp: list_ex_iff)
  qed
  have unconfirmed: "\<not> pos_is_confirmed pos"
    if "txid \<in> pp_replace P" "canonical_positions T A w P txid = Some pos" for txid pos
    using res_map_unit_Ok [OF unc [unfolded check_unconfirmed_def], of txid] that order by (auto simp: res_simps)
  have desc: "op_txid op \<noteq> txid \<and> op_txid op \<notin> set (pa_descendants T (w_graph w) txid)"
    if "txid \<in> pp_replace P" "op \<in> spent_by p" for txid op
    using outside [OF that(2)] that(1) by (auto simp: replaced_descendants_def)
  have added: "\<exists>txo \<in> set (pa_txouts T (pp_canonical_params P) w). ft_outpoint txo = op \<and>
      pos_is_confirmed (ft_pos txo) \<and> ft_spent_by txo = None \<and> op \<notin> set (w_locked w)"
    if op: "op \<in> spent_by p - pp_set P" for op
  proof -
    obtain txo where "txo \<in> set (pa_txouts T (pp_canonical_params P) w)" "ft_outpoint txo = op"
      "is_spendable A w P (replacement_policy ?R P) txo"
      using other [OF op] by (elim bexE conjE)
    then show ?thesis
      by (auto simp: is_spendable_def replacement_policy_def is_outpoint_locked_def)
  qed
  show ?thesis
    using ne conjunct1 [OF spends] known unconfirmed desc added by (intro conjI ballI allI impI) simp_all
qed

subsection \<open>From replace_txs to replace_by_fee\<close>

lemma roots_nonempty:
  assumes "acyclic_txs B txs" and "txs \<noteq> []"
  shows "replaced_roots B txs \<noteq> {}"
proof -
  obtain t where t: "t \<in> set txs"
    using assms(2) by (cases txs) auto
  show ?thesis
  proof (cases "\<exists>a. ancestor B txs a t")
    case True
    then show ?thesis
      using ancestor_root [OF assms(1)] by blast
  next
    case False
    then show ?thesis
      using t by (auto simp: replaced_roots_def)
  qed
qed

lemma res_map_unit_total: "(\<And>x. x \<in> set xs \<Longrightarrow> f x = Ok ()) \<Longrightarrow> \<exists>ys. res_map f xs = Ok ys"
  by (induction xs) auto

lemma check_conflicts_ok:
  assumes "\<And>txid tx. txid \<in> set (pa_txid_order T (pp_replace P)) \<Longrightarrow> ga_get_tx (tga A) (w_graph w) txid = Some tx
      \<Longrightarrow> \<exists>txin \<in> set (tx_input tx). previous_output txin \<in> pp_set P"
  shows "\<exists>us. check_conflicts T A w P = Ok us"
  unfolding check_conflicts_def
proof (rule res_map_unit_total)
  fix txid
  assume "txid \<in> set (pa_txid_order T (pp_replace P))"
  then show "(case ga_get_tx (tga A) (w_graph w) txid of
        Some tx \<Rightarrow> fail_if (\<not> list_ex (\<lambda>txin. previous_output txin \<in> pp_set P) (tx_input tx)) (RNoInputsFromOriginal txid)
      | None \<Rightarrow> Ok ()) = Ok ()"
    using assms by (auto simp: fail_if_def list_ex_iff split: option.split)
qed

lemma not_err_when_checked:
  assumes "check_conflicts T A w P = Ok us"
  shows "replace_by_fee B T X E A w P rng \<noteq> Err (RNoInputsFromOriginal txid)"
  using assms
  by (auto simp: replace_by_fee_def Let_def res_simps check_unconfirmed_def check_no_conflicting_input_def
      original_stats_def descendant_fees_def split: prod.splits dest!: res_map_Err)

text \<open>C18: A replacement prepared with replace_txs from transactions the wallet knows, none of them a
  coinbase transaction, is not refused for a lack of original transactions or of their inputs,
  whatever options are set in between: replace_by_fee (src/wallet/mod.rs) finds an input of every
  replaced transaction among the chosen outputs.\<close>

theorem prepared_replacement_accepted:
  assumes "tx_set_ok B G txs" and "acyclic_txs B txs" and "\<forall>t \<in> set txs. \<not> ts_is_coinbase G t"
    and "params_ok prev P" and "planner_laws B T K I"
    and "\<forall>t \<in> set txs. ga_get_tx (tga A) (w_graph w) (compute_txid B t) = Some t \<and> tx_input t \<noteq> []" and "txs \<noteq> []"
    and "pp_set Q = pp_set (ps_replace_txs B G prev txs P)"
    and "pp_replace Q = pp_replace (ps_replace_txs B G prev txs P)"
  shows "replace_by_fee B T X E A w Q rng \<noteq> Err RNoOriginalTransactions \<and>
    replace_by_fee B T X E A w Q rng \<noteq> Err (RNoInputsFromOriginal txid)"
proof
  have R: "pp_replace Q = compute_txid B ` replaced_roots B txs"
    using replace_txs_facts(2) [OF assms(1-4) refl] assms(9) by simp
  have ne: "pp_replace Q \<noteq> {}"
    using roots_nonempty [OF assms(2,7)] by (simp add: R)
  show "replace_by_fee B T X E A w Q rng \<noteq> Err RNoOriginalTransactions"
    using ne by (auto simp: replace_by_fee_def Let_def res_simps check_unconfirmed_def check_conflicts_def
        check_no_conflicting_input_def original_stats_def descendant_fees_def
        split: prod.splits option.splits dest!: res_map_Err)
  have fin: "finite (pp_replace Q)"
    by (simp add: R replaced_roots_def)
  have "\<exists>txin \<in> set (tx_input tx). previous_output txin \<in> pp_set Q"
    if a: "txid \<in> set (pa_txid_order T (pp_replace Q))" "ga_get_tx (tga A) (w_graph w) txid = Some tx" for txid tx
  proof -
    obtain t where t: "t \<in> replaced_roots B txs" "txid = compute_txid B t"
      using a(1) txid_order [OF assms(5) fin] R by auto
    then have "t \<in> set txs"
      by (simp add: replaced_roots_def)
    then have "t = tx" "tx_input t \<noteq> []"
      using assms(6) t(2) a(2) by auto
    moreover have "previous_output ` set (tx_input t) \<subseteq> pp_set Q"
      using replace_txs_facts(3) [OF assms(1-4) refl t(1)] assms(8) by simp
    ultimately show ?thesis
      by (cases "tx_input t") auto
  qed
  then obtain us where "check_conflicts T A w Q = Ok us"
    using check_conflicts_ok [of T Q A w] by blast
  then show "replace_by_fee B T X E A w Q rng \<noteq> Err (RNoInputsFromOriginal txid)"
    by (rule not_err_when_checked)
qed

end
