(* ===== verification/Example_Planned.thy ===== *)
theory Example_Planned
  imports Planned_Facts Example_Fee_Bump
begin

section \<open>Planned transactions on the concrete wallet\<close>

text \<open>
  A simple planner over the concrete wallet: an input is an outpoint with an optional sequence, a
  selector takes everything it may or only what it must. The wallet has sent a transaction that is
  not confirmed and whose output a second one spends. A planned transaction is created, and the two
  transactions are replaced; the theorems about planned transactions are applied to the runs.
\<close>

type_synonym example_input = "outpoint \<times> u32 option"
type_synonym example_output = "script \<times> amount"
type_synonym example_selector = "example_input list \<times> example_input list \<times> bool \<times> example_output list"
type_synonym example_selection = "example_input list \<times> example_output list"

definition coin_tx :: transaction where
  "coin_tx = \<lparr>tx_version = 2, tx_lock_time = Blocks 7, tx_input = [],
     tx_output = [\<lparr>txo_value = 9000, txo_script = [1, 1]\<rparr>], tx_mw_tx = None, tx_is_hog_ex = False\<rparr>"

definition child_tx :: transaction where
  "child_tx = \<lparr>tx_version = 2, tx_lock_time = Blocks 401,
     tx_input = [\<lparr>previous_output = OutPoint 400 0, script_sig = [], sequence = 0xFFFFFFFD, witness = []\<rparr>],
     tx_output = [\<lparr>txo_value = 4000, txo_script = [1, 1]\<rparr>], tx_mw_tx = None, tx_is_hog_ex = False\<rparr>"

definition planned_wallet where
  "planned_wallet = example_wallet\<lparr>w_graph := [coin_tx, funding_tx, sent_tx, child_tx]\<rparr>"

definition example_unsigned :: "planned_psbt_params \<Rightarrow> example_selection \<Rightarrow> psbt" where
  "example_unsigned q sn = psbt_from_unsigned_tx
     \<lparr>tx_version = pq_version q, tx_lock_time = pq_min_locktime q,
      tx_input = map (\<lambda>(op, s). \<lparr>previous_output = op, script_sig = [],
        sequence = (case s of Some s \<Rightarrow> s | None \<Rightarrow> 0xFFFFFFFD), witness = []\<rparr>) (fst sn),
      tx_output = map (\<lambda>(s, v). \<lparr>txo_value = v, txo_script = s\<rparr>) (snd sn), tx_mw_tx = None, tx_is_hog_ex = False\<rparr>"

definition take_everything :: "example_selector \<Rightarrow> example_selector" where
  "take_everything = (\<lambda>(must, may, _, targets). (must, may, True, targets))"

type_synonym example_state = "(nat, nat, nat, (nat, nat) btree, transaction list, (nat, nat) btree, nat,
    (nat, nat) btree, nat list) wallet"

definition example_planner :: "(example_state, unit, transaction list, nat, nat, nat, nat \<times> u32, nat, example_input,
    example_output, nat \<times> u32, unit, example_input list \<times> example_input list, example_selector,
    example_selection, unit, nat) planner" where
  "example_planner = \<lparr>
     pa_txouts = (\<lambda>(cp :: unit) w. [example_full_txout (OutPoint 7 0),
        (example_full_txout (OutPoint 8 0))\<lparr>ft_spent_by := Some 400\<rparr>]),
     pa_positions = (\<lambda>g ch b cp. [(8, funding_position), (400, Unconfirmed (Some 7) (Some 7)), (401, Unconfirmed (Some 8) (Some 8))]),
     pa_descendants = (\<lambda>g txid. map (compute_txid btc_example)
        (filter (\<lambda>t. list_ex (\<lambda>i. op_txid (previous_output i) = txid) (tx_input t)) g)),
     pa_txid_order = sorted_list_of_set,
     pa_values = map snd,
     pa_single_keys = (\<lambda>k. [1 :: nat]),
     pa_after = (\<lambda>l a. a\<lparr>as_absolute := Some l\<rparr>),
     pa_older = (\<lambda>l a. a\<lparr>as_relative := Some l\<rparr>),
     pa_plan = (\<lambda>dd a. Some (0 :: nat)),
     in_prev = fst,
     in_sequence = snd,
     in_set_sequence = (\<lambda>s inp. Ok (fst inp, Some s)),
     in_from_prev_tx = (\<lambda>plan tx i st. Some (OutPoint (compute_txid btc_example tx) (of_nat i), None)),
     out_with_descriptor = (\<lambda>dd v. ([9, 9], v)),
     out_with_script = Pair,
     out_value = snd,
     chs_from_descriptor = (\<lambda>dd. dd),
     ic_new = Pair,
     ic_inputs = (\<lambda>(must, may). must @ may),
     sl_new = (\<lambda>(must, may) sp. Ok (must, may, False, sp_targets sp)),
     sl_select_all = take_everything,
     sl_custom = (\<lambda>(a :: unit) sel. Ok sel),
     sl_lowest_fee = (\<lambda>r n sel. Ok (take_everything sel)),
     sl_count = (\<lambda>(must, may, b, targets). length may),
     sl_sort_by_keys = (\<lambda>keys sel. sel),
     sl_until_target_met = (\<lambda>sel. Ok (take_everything sel)),
     sl_try_finalize = (\<lambda>(must, may, b, targets). Some (must @ (if b then may else []), targets)),
     st_outputs = snd,
     st_shuffle_inputs = (\<lambda>rng sn. ((rev (fst sn), snd sn), rng)),
     st_shuffle_outputs = (\<lambda>rng sn. ((fst sn, rev (snd sn)), rng)),
     st_sort_inputs = (\<lambda>f sn. (sort_by f (fst sn), snd sn)),
     st_sort_outputs = (\<lambda>f sn. (fst sn, sort_by f (snd sn))),
     st_create_psbt = (\<lambda>q rng sn. Ok (example_unsigned q sn, rng)),
     st_into_finalizer = (\<lambda>sn. ()),
     pa_next_u32 = (\<lambda>r. (of_nat r, Suc r))\<rparr>"

definition example_K :: "example_selector \<Rightarrow> outpoint set \<times> outpoint set" where
  "example_K = (\<lambda>(must, may, _). (fst ` set must, fst ` set may))"

definition example_I :: "example_selection \<Rightarrow> outpoint set" where
  "example_I sn = fst ` set (fst sn)"

lemma set_sort_by: "set (sort_by le xs) = set xs"
  using mset_sort_by [of le xs] by (metis set_mset_mset)

lemma example_spent: "spent_by (example_unsigned q sn) = example_I sn"
  by (auto simp: spent_by_def example_unsigned_def example_I_def psbt_from_unsigned_tx_def image_image split: prod.split)
    (force)+

lemma example_planner_laws: "planner_laws btc_example example_planner example_K example_I"
  unfolding planner_laws_def
proof (intro conjI)
  show "walk_laws example_planner"
    by (simp add: walk_laws_def example_planner_def)
  show "input_laws btc_example example_planner"
    by (simp add: input_laws_def example_planner_def)
  show "selector_laws example_planner example_K"
    by (auto simp: selector_laws_def example_planner_def example_K_def take_everything_def)
  show "selection_laws example_planner example_K example_I"
    by (auto simp: selection_laws_def example_planner_def example_K_def example_spent)
      (force simp: example_I_def set_sort_by)+
qed

lemma planned_graph_ids: "graph_ids btc_example example_api planned_wallet"
  by (auto simp: graph_ids_def example_api_def example_graph_api_def planned_wallet_def find_Some_iff)

subsection \<open>Replacing two transactions\<close>

definition example_tx_set :: tx_set where
  "example_tx_set = \<lparr>ts_full_txs = (\<lambda>txs. map (\<lambda>t. (compute_txid btc_example t, t)) (rev txs)),
     ts_ancestors = (\<lambda>txs t. map (compute_txid btc_example) (filter (\<lambda>a. list_ex (\<lambda>i.
        op_txid (previous_output i) = compute_txid btc_example a) (tx_input t)) txs)),
     ts_is_coinbase = (\<lambda>t. list_ex (\<lambda>i. op_txid (previous_output i) = 0) (tx_input t))\<rparr>"

definition planned_base :: "(nat, example_input, example_output, nat \<times> u32, unit, unit) psbt_params" where
  "planned_base = ps_coin_selection SelectAll (ps_add_recipients [([2, 2, 2], 5000)]
     (ps_add_planned_input fst (OutPoint 400 0, None) (ps_add_planned_input fst (OutPoint 50 0, None)
       (psbt_params_default ()))))"

definition replace_params where
  "replace_params = ps_replace_txs btc_example example_tx_set fst [sent_tx, child_tx] planned_base"

lemma planned_base_ok: "params_ok fst planned_base"
  by (auto simp: planned_base_def params_ok_def ps_coin_selection_def ps_add_recipients_def
      ps_add_planned_input_def ps_push_def psbt_params_default_def)

lemma example_txids:
  "compute_txid btc_example sent_tx = 400" "compute_txid btc_example child_tx = 401"
  "compute_txid btc_example coin_tx = 7" "compute_txid btc_example funding_tx = 8"
  by (simp_all add: btc_example_def sent_tx_def child_tx_def coin_tx_def funding_tx_def)

lemma sent_not_child: "sent_tx \<noteq> child_tx"
  by (simp add: sent_tx_def child_tx_def)

lemma child_tx_input: "map previous_output (tx_input child_tx) = [OutPoint 400 0]"
  by (simp add: child_tx_def)

lemma sent_tx_input: "map previous_output (tx_input sent_tx) = [OutPoint 8 0]"
  by (simp add: sent_tx_def)

lemma example_ancestor_only:
  "ancestor btc_example [sent_tx, child_tx] a t \<Longrightarrow> t \<in> {sent_tx, child_tx} \<Longrightarrow> a = sent_tx \<and> t = child_tx"
proof (induction rule: ancestor.induct)
  case (parent a txin t)
  have "op_txid (previous_output txin) = (if t = sent_tx then 8 else 400)"
    using parent(2,4) child_tx_input sent_tx_input sent_not_child by auto
  then show ?case
    using parent(1,3,4) example_txids sent_not_child by (auto split: if_splits)
next
  case (further a b t)
  then show ?case
    using ancestor_mem [OF further.hyps(2)] sent_not_child by auto
qed

lemma example_ancestor: "ancestor btc_example [sent_tx, child_tx] sent_tx child_tx"
  by (rule ancestor.parent [of _ _ "hd (tx_input child_tx)"]) (simp_all add: child_tx_def example_txids)

lemma example_ancestors:
  "t \<in> {sent_tx, child_tx} \<Longrightarrow> ancestor btc_example [sent_tx, child_tx] a t \<longleftrightarrow> a = sent_tx \<and> t = child_tx"
  using example_ancestor example_ancestor_only by blast

lemma example_tx_set_ok: "tx_set_ok btc_example example_tx_set [sent_tx, child_tx]"
  using sent_not_child
  by (auto simp: tx_set_ok_def example_tx_set_def example_txids example_ancestors inj_on_def)
    (simp_all add: sent_tx_def child_tx_def btc_example_def)

lemma example_acyclic: "acyclic_txs btc_example [sent_tx, child_tx]"
  using sent_not_child by (auto simp: acyclic_txs_def example_ancestors)

lemma example_roots: "replaced_roots btc_example [sent_tx, child_tx] = {sent_tx}"
  using sent_not_child by (auto simp: replaced_roots_def example_ancestors)

lemma example_no_coinbase: "\<forall>t \<in> set [sent_tx, child_tx]. \<not> ts_is_coinbase example_tx_set t"
  by (simp add: example_tx_set_def sent_tx_def child_tx_def)


text \<open>With a coinbase transaction and its child the order of the graph decides which one is replaced:
  the child when the coinbase transaction comes first, none otherwise.\<close>

definition coinbase_tx :: transaction where
  "coinbase_tx = sent_tx\<lparr>tx_input := [\<lparr>previous_output = OutPoint 0 0, script_sig = [], sequence = 0, witness = []\<rparr>]\<rparr>"

lemma coinbase_order_matters:
  "fst (sanitize_replaced btc_example example_tx_set [coinbase_tx, child_tx]) = {}"
  "fst (sanitize_replaced btc_example example_tx_set [child_tx, coinbase_tx]) = {401}"
  by (auto simp: sanitize_replaced_def example_tx_set_def coinbase_tx_def sent_tx_def child_tx_def btc_example_def)

subsection \<open>Two runs\<close>

definition planned_params :: "(nat, example_input, example_output, nat \<times> u32, unit, unit) psbt_params" where
  "planned_params = ps_coin_selection SelectAll (ps_add_recipients [([2, 2, 2], 5000)]
     (ps_add_utxos [OutPoint 8 0] (psbt_params_default ())))"

lemmas ps_choose_defs = planned_params_def planned_base_def ps_coin_selection_def ps_add_recipients_def
  ps_add_utxos_def ps_add_planned_input_def ps_push_def psbt_params_default_def

lemma planned_params_fields:
  "pp_set planned_params = {OutPoint 8 0}" "pp_must_spend planned_params = [MustUtxo (OutPoint 8 0)]"
  "pp_recipients planned_params = [([2, 2, 2], 5000)]" "pp_change_script planned_params = None"
  "pp_assets planned_params = None" "pp_coin_selection planned_params = SelectAll"
  "pp_utxo_filter planned_params = all_utxos" "pp_maturity_height planned_params = None"
  "pp_manually_selected_only planned_params = False" "pp_ordering planned_params = Shuffle"
  "pp_add_global_xpubs planned_params = False" "pp_sequence_overrides planned_params = Map.empty"
  "pp_fallback_sequence planned_params = None"
  by (simp_all add: ps_choose_defs)

lemma example_sanitized:
  "sanitize_replaced btc_example example_tx_set [sent_tx, child_tx] = ({400}, [OutPoint 8 0])"
  by (auto simp: sanitize_replaced_def example_tx_set_def sent_tx_def child_tx_def btc_example_def)

lemma replace_params_fields:
  "pp_set replace_params = {OutPoint 8 0, OutPoint 50 0}"
  "pp_must_spend replace_params = [MustPlanned (OutPoint 50 0, None), MustUtxo (OutPoint 8 0)]"
  "pp_recipients replace_params = [([2, 2, 2], 5000)]" "pp_change_script replace_params = None"
  "pp_assets replace_params = None" "pp_coin_selection replace_params = SelectAll"
  "pp_utxo_filter replace_params = all_utxos" "pp_maturity_height replace_params = None"
  "pp_manually_selected_only replace_params = False" "pp_ordering replace_params = Shuffle"
  "pp_add_global_xpubs replace_params = False" "pp_sequence_overrides replace_params = Map.empty"
  "pp_fallback_sequence replace_params = None" "pp_replace replace_params = {400}"
  by (auto simp: replace_params_def ps_replace_txs_def ps_replace_def keep_planned_def
      drop_conflicting_def example_sanitized ps_choose_defs)

lemmas planned_defs = planned_wallet_def example_api_def example_index_api_def example_graph_api_def
  example_chain_api_def example_desc_api_def example_wallet_def

lemma planned_coin:
  assumes "op \<in> {OutPoint 7 0, OutPoint 8 0}" and "ft_outpoint txo = op"
  shows "plan_input example_planner example_api planned_wallet assets txo = Ok (Some (op, None))"
  using assms
  by (auto simp: plan_input_def try_plan_def Let_def planned_defs example_txids example_planner_def split: option.split)

definition example_outputs :: "(outpoint \<times> full_txout) list" where
  "example_outputs = [(OutPoint 7 0, example_full_txout (OutPoint 7 0)),
     (OutPoint 8 0, (example_full_txout (OutPoint 8 0))\<lparr>ft_spent_by := Some 400\<rparr>)]"

definition example_assets :: "nat assets" where
  "example_assets = assets_new\<lparr>as_keys := {1}\<rparr>"

lemma example_outpoints: "ft_outpoint (example_full_txout op) = op"
  by (simp add: example_full_txout_def)

lemma planned_keychains: "keychains example_api planned_wallet = [(External, 0), (Internal, 1)]"
  by (simp add: keychains_def planned_defs)

lemma planned_next_script:
  "unused_or_next example_api planned_wallet Internal = (Ok (3, [9, 9]) :: ('e, _) res)"
proof -
  have "peek_spk example_api planned_wallet Internal i = (Ok (Internal, i, [9, 9]) :: ('e, _) res)" for i
    by (simp add: peek_spk_def map_keychain_def planned_keychains Let_def) (simp add: planned_defs)
  moreover have "address_info_of example_api planned_wallet k i spk
      = (Ok \<lparr>ai_index = i, ai_address = ''addr'', ai_keychain = k\<rparr> :: ('e, _) res)" for k i spk
    by (simp add: address_info_of_def planned_defs)
  moreover have "ia_unused_spks (ixa example_api) (w_index planned_wallet) Internal = []"
    "ia_next_index (ixa example_api) (w_index planned_wallet) Internal = Some (3, True)"
    by (simp_all add: planned_defs)
  ultimately show ?thesis
    by (simp add: unused_or_next_def)
qed

lemma planned_change:
  "pp_change_script P = None \<Longrightarrow> change_of_params example_planner example_api planned_wallet P
     = (Ok (Some (Internal, 3, [9, 9]), (1, 3)) :: ('e, _) res)"
proof -
  have "public_descriptor example_api planned_wallet Internal = (Ok 1 :: ('e, _) res)"
    by (simp add: public_descriptor_def map_keychain_def planned_keychains) (simp add: planned_defs)
  moreover have "da_at_index (dsa example_api) 1 3 = Some (1, 3)"
    by (simp add: planned_defs)
  moreover have "chs_from_descriptor example_planner dd = dd" for dd
    by (simp add: example_planner_def)
  ultimately show "pp_change_script P = None \<Longrightarrow> ?thesis"
    by (simp add: change_of_params_def peek_change_info_def map_keychain_def planned_keychains planned_next_script)
qed

lemma planned_parsed:
  "pp_assets P = None \<Longrightarrow> parse_params example_planner example_api planned_wallet P = (example_assets, example_outputs)"
  by (simp add: parse_params_def wallet_assets_def planned_keychains example_assets_def example_outputs_def)
    (simp add: example_planner_def planned_defs example_full_txout_def)

lemma planned_targets:
  "pp_recipients P = [([2, 2, 2], 5000)] \<Longrightarrow> target_outputs example_planner example_api planned_wallet P
     = (Ok [([2, 2, 2], 5000)] :: ('e, _) res)"
  by (simp add: target_outputs_def target_output_def planned_defs example_planner_def)

lemma planned_may:
  assumes "pp_manually_selected_only P = False" "OutPoint 7 0 \<notin> pp_set P" "OutPoint 8 0 \<in> pp_set P"
    "pp_fallback_sequence P = None" "policy (example_full_txout (OutPoint 7 0))"
  shows "may_spend_inputs example_planner example_api planned_wallet P example_outputs assets policy
     = Ok [(OutPoint 7 0, None)]"
proof -
  have s: "is_spendable example_api planned_wallet P policy (example_full_txout (OutPoint 7 0))"
    using assms by (simp add: is_spendable_def example_outpoints is_outpoint_locked_def)
      (simp add: planned_defs example_full_txout_def)
  have n: "\<not> is_spendable example_api planned_wallet P policy
      ((example_full_txout (OutPoint 8 0))\<lparr>ft_spent_by := Some 400\<rparr>)"
    by (simp add: is_spendable_def)
  have v: "pa_values example_planner example_outputs = map snd example_outputs"
    by (simp add: example_planner_def)
  show ?thesis
    using assms s n
    by (simp add: may_spend_inputs_def filter_spendable_def v)
      (simp add: example_outputs_def planned_coin [of "OutPoint 7 0"] example_outpoints apply_fallback_def
        List.map_filter_def)
qed

lemma planned_must:
  assumes "pp_sequence_overrides P = Map.empty" "pp_fallback_sequence P = None"
  shows "build_must_spend_input example_planner example_api planned_wallet P example_outputs assets
     (MustUtxo (OutPoint 8 0)) = Ok (OutPoint 8 0, None)"
  using assms
  by (simp add: example_outputs_def)
    (simp add: planned_coin [of "OutPoint 8 0"] example_outpoints apply_fallback_def)

definition planned_psbt :: "example_input list \<Rightarrow> psbt" where
  "planned_psbt ins = example_unsigned \<lparr>pq_version = 2, pq_min_locktime = Blocks 0, pq_mandate_full_tx = True,
     pq_anti_fee_sniping = None\<rparr> (rev ins, [([2, 2, 2], 5000)])"

lemma planned_selected:
  assumes "pp_coin_selection P = SelectAll" "pp_ordering P = Shuffle" "pp_add_global_xpubs P = False"
    "pp_version P = None" "pp_min_locktime P = None" "pp_only_witness_utxo P = False" "pp_anti_fee_sniping P = None"
  shows "create_psbt_from_selector example_planner example_xpubs example_env example_api planned_wallet P
     (must, may, False, [([2, 2, 2], 5000)]) rng = Ok (planned_psbt (must @ may), (), rng)"
  using assms
  by (simp add: create_psbt_from_selector_def select_coins_def order_selection_def add_planned_xpubs_def fail_if_def
      example_planner_def take_everything_def planned_psbt_def)

lemma planned_more_fields:
  "pp_version planned_params = None" "pp_min_locktime planned_params = None"
  "pp_only_witness_utxo planned_params = False" "pp_anti_fee_sniping planned_params = None"
  "pp_version replace_params = None" "pp_min_locktime replace_params = None"
  "pp_only_witness_utxo replace_params = False" "pp_anti_fee_sniping replace_params = None"
  by (auto simp: replace_params_def ps_replace_txs_def ps_replace_def keep_planned_def
      drop_conflicting_def example_sanitized ps_choose_defs)

lemma example_planner_selector:
  "ic_new example_planner must may = (must, may)" "ic_inputs example_planner (must, may) = must @ may"
  "sl_new example_planner (must, may) sp = Ok (must, may, False, sp_targets sp)" "out_value example_planner = snd"
  "in_prev example_planner = fst"
  by (simp_all add: example_planner_def)

lemma planned_params_ok: "params_ok (in_prev example_planner) planned_params"
  by (simp add: params_ok_def planned_params_fields example_planner_selector)

lemma replace_params_ok: "params_ok (in_prev example_planner) replace_params"
  by (simp add: params_ok_def replace_params_fields example_planner_selector insert_commute)

lemma planned_no_change: "reveal_change A w (planned_psbt ins) (Some (Internal, 3, [9, 9])) = w"
  by (simp add: reveal_change_def planned_psbt_def example_unsigned_def psbt_from_unsigned_tx_def)

lemma planned_run:
  "create_psbt example_planner example_xpubs example_env example_api planned_wallet planned_params (5 :: nat)
     = Ok (planned_psbt [(OutPoint 8 0, None), (OutPoint 7 0, None)], (), planned_wallet, 5)"
  by (simp add: create_psbt_def lacks_recipients_def planned_params_fields fail_if_def planned_change planned_parsed
      build_must_spend_inputs_def planned_must planned_may all_utxos_def planned_targets Let_def
      example_planner_selector check_candidates_def planned_selected planned_more_fields planned_no_change
      del: build_must_spend_input.simps(2))

lemma planned_spent: "spent_by (planned_psbt ins) = fst ` set ins"
  by (simp add: planned_psbt_def example_spent example_I_def)

theorem planned_psbt_inputs_witness:
  "OutPoint 8 0 \<in> spent_by (planned_psbt [(OutPoint 8 0, None), (OutPoint 7 0, None)]) \<and>
   OutPoint 7 0 \<in> spent_by (planned_psbt [(OutPoint 8 0, None), (OutPoint 7 0, None)]) - pp_set planned_params \<and>
   (\<exists>txo \<in> set (pa_txouts example_planner (pp_canonical_params planned_params) planned_wallet).
      ft_outpoint txo = OutPoint 7 0 \<and> ft_spent_by txo = None \<and> OutPoint 7 0 \<notin> set (w_locked planned_wallet))"
proof -
  have m: "OutPoint 7 0 \<in> spent_by (planned_psbt [(OutPoint 8 0, None), (OutPoint 7 0, None)]) - pp_set planned_params"
    by (simp add: planned_spent planned_params_fields)
  note t = planned_psbt_inputs [OF example_planner_laws planned_graph_ids
      planned_params_ok planned_run]
  have "OutPoint 8 0 \<in> spent_by (planned_psbt [(OutPoint 8 0, None), (OutPoint 7 0, None)])"
    using conjunct1 [OF t] by (simp add: planned_params_fields)
  moreover note m
  moreover have "\<exists>txo \<in> set (pa_txouts example_planner (pp_canonical_params planned_params) planned_wallet).
      ft_outpoint txo = OutPoint 7 0 \<and> ft_spent_by txo = None \<and> OutPoint 7 0 \<notin> set (w_locked planned_wallet)"
    using bspec [OF conjunct1 [OF conjunct2 [OF t]] m] by (elim conjE bexE) (rule bexI, intro conjI, assumption+)
  ultimately show ?thesis
    by blast
qed

lemma replaced_found:
  "replaced_descendants example_planner example_api planned_wallet {400} = {401}"
  "pa_txid_order example_planner {400} = [400]" "pa_txid_order example_planner {401} = [401]"
  "ga_get_tx (tga example_api) (w_graph planned_wallet) 400 = Some sent_tx"
  "ga_get_tx (tga example_api) (w_graph planned_wallet) 401 = Some child_tx"
  "ga_calculate_fee (tga example_api) (w_graph planned_wallet) tx = Some 300"
  by (simp_all add: replaced_descendants_def example_planner_def planned_defs example_txids)
    (auto simp: sent_tx_def child_tx_def coin_tx_def funding_tx_def btc_example_def)

lemma replace_checks:
  "check_unconfirmed example_planner example_api planned_wallet replace_params = Ok [()]"
  "check_conflicts example_planner example_api planned_wallet replace_params = Ok [()]"
  "original_stats btc_example example_planner example_api planned_wallet {400} = Ok [(340, 300)]"
  "descendant_fees example_planner example_api planned_wallet {401} = (Ok 300 :: (replace_by_fee_error, _) res)"
  "check_no_conflicting_input example_planner {401, 400} [(OutPoint 50 0, None), (OutPoint 8 0, None)] = Ok [(), ()]"
  by (simp_all add: check_unconfirmed_def check_conflicts_def original_stats_def descendant_fees_def
      check_no_conflicting_input_def replace_params_fields replaced_found fail_if_def example_planner_selector
      List.map_filter_def u64_sum_def u64_add_def U64_MAX_def sent_tx_fields)
    (simp add: canonical_positions_def example_planner_def)

lemma replace_run:
  "replace_by_fee btc_example example_planner example_xpubs example_env example_api planned_wallet replace_params (5 :: nat)
     = Ok (planned_psbt [(OutPoint 50 0, None), (OutPoint 8 0, None), (OutPoint 7 0, None)], (), planned_wallet, 5)"
proof -
  have pol: "replacement_policy {401, 400} replace_params (example_full_txout (OutPoint 7 0))"
    by (simp add: replacement_policy_def example_full_txout_def replace_params_fields all_utxos_def)
  show ?thesis
    by (simp add: replace_by_fee_def lacks_recipients_def replace_params_fields fail_if_def planned_change planned_parsed
      build_must_spend_inputs_def planned_must planned_may planned_targets Let_def replaced_found replace_checks pol
      example_planner_selector check_candidates_def planned_selected planned_more_fields planned_no_change
      del: build_must_spend_input.simps(2))
qed

theorem replacement_conflicts_witness:
  "OutPoint 8 0 \<in> spent_by (planned_psbt [(OutPoint 50 0, None), (OutPoint 8 0, None), (OutPoint 7 0, None)]) \<and>
   (\<exists>tx. ga_get_tx (tga example_api) (w_graph planned_wallet) 400 = Some tx \<and>
      previous_output ` set (tx_input tx) \<inter>
        spent_by (planned_psbt [(OutPoint 50 0, None), (OutPoint 8 0, None), (OutPoint 7 0, None)]) \<noteq> {})"
proof -
  have fin: "finite (pp_replace replace_params)" and r: "400 \<in> pp_replace replace_params"
    by (simp_all add: replace_params_fields)
  note t = replacement_conflicts [OF example_planner_laws planned_graph_ids replace_params_ok fin replace_run]
  show ?thesis
  proof
    show "OutPoint 8 0 \<in> spent_by (planned_psbt [(OutPoint 50 0, None), (OutPoint 8 0, None), (OutPoint 7 0, None)])"
      using conjunct1 [OF conjunct2 [OF t]] by (simp add: replace_params_fields)
    show "\<exists>tx. ga_get_tx (tga example_api) (w_graph planned_wallet) 400 = Some tx \<and>
      previous_output ` set (tx_input tx) \<inter>
        spent_by (planned_psbt [(OutPoint 50 0, None), (OutPoint 8 0, None), (OutPoint 7 0, None)]) \<noteq> {}"
      using bspec [OF conjunct1 [OF conjunct2 [OF conjunct2 [OF t]]] r] by (elim conjE)
  qed
qed

theorem prepared_replacement_accepted_witness:
  "replace_by_fee btc_example example_planner example_xpubs example_env example_api planned_wallet
     (ps_fee_rate 1000 replace_params) (5 :: nat) \<noteq> Err RNoOriginalTransactions \<and>
   replace_by_fee btc_example example_planner example_xpubs example_env example_api planned_wallet
     (ps_fee_rate 1000 replace_params) (5 :: nat) \<noteq> Err (RNoInputsFromOriginal 400)"
proof -
  have known: "\<forall>t \<in> set [sent_tx, child_tx].
      ga_get_tx (tga example_api) (w_graph planned_wallet) (compute_txid btc_example t) = Some t \<and> tx_input t \<noteq> []"
    using child_tx_input sent_tx_input by (auto simp: example_txids replaced_found)
  show ?thesis
    by (rule prepared_replacement_accepted [OF example_tx_set_ok example_acyclic example_no_coinbase planned_base_ok
          example_planner_laws known]) (simp_all add: ps_fee_rate_def replace_params_def)
qed

end
