(* ===== verification/Requests.thy ===== *)
theory Requests
  imports Create_Tx
begin

section \<open>Reading the wallet: views, script iterators, sync requests (src/wallet/mod.rs)\<close>

text \<open>
  The operations of the wallet that only read it: parts handed out as they are, the canonical view
  with parameters of the caller, the iterators over all scripts of a keychain, sorted transactions,
  and the requests that start a synchronization or a full scan. The request builders are functions
  of \<open>bdk_chain\<close>, the record \<open>request_api\<close>; an unbounded iterator is the function from an index to the
  script there, and \<open>now\<close> is the time of the system.
\<close>

record ('ch, 'ix, 'cv, 'cp, 'tip, 'sync, 'scan, 'tg) request_api =
  rq_checkpoints :: "'ch \<Rightarrow> block_id list"
  rq_view_with :: "'ch \<Rightarrow> 'tg \<Rightarrow> block_id \<Rightarrow> 'cp \<Rightarrow> 'cv"
  rq_tip :: "'ch \<Rightarrow> 'tip"
  rq_sync_builder_at :: "nat \<Rightarrow> 'sync"
  rq_sync_tip :: "'tip \<Rightarrow> 'sync \<Rightarrow> 'sync"
  rq_revealed_spks :: "'ix \<Rightarrow> 'sync \<Rightarrow> 'sync"
  rq_list_expected :: "'cv \<Rightarrow> 'ix \<Rightarrow> (script \<times> txid) list"
  rq_expected_spk_txids :: "(script \<times> txid) list \<Rightarrow> 'sync \<Rightarrow> 'sync"
  rq_scan_builder_at :: "nat \<Rightarrow> 'scan"
  rq_scan_tip :: "'tip \<Rightarrow> 'scan \<Rightarrow> 'scan"
  rq_scan_spks :: "'ix \<Rightarrow> 'scan \<Rightarrow> 'scan"

definition canonical_view where
  "canonical_view w = w_view w"

definition canonical_view_with_params where
  "canonical_view_with_params Q A w params =
     rq_view_with Q (w_chain w) (w_graph w) (ca_tip (cha A) (w_chain w)) params"

definition checkpoints where
  "checkpoints Q w = rq_checkpoints Q (w_chain w)"

definition latest_checkpoint where
  "latest_checkpoint Q w = rq_tip Q (w_chain w)"

definition spk_iter where
  "spk_iter A d i = map_option (\<lambda>spk. (i, spk)) (da_spk (dsa A) d i)"

definition all_unbounded_spk_iters where
  "all_unbounded_spk_iters A w = map (\<lambda>(keychain, d). (keychain, spk_iter A d)) (keychains A w)"

definition unbounded_spk_iter where
  "unbounded_spk_iter A w keychain =
     res_bind (expect (ia_descriptor (ixa A) (w_index w) (map_keychain A w keychain))) (\<lambda>d. Ok (spk_iter A d))"

definition calculate_fee where
  "calculate_fee A w tx = ga_calculate_fee (tga A) (w_graph w) tx"

definition sent_and_received where
  "sent_and_received A w tx = ia_sent_and_received (ixa A) (w_index w) tx"

definition transactions_sort_by where
  "transactions_sort_by usort A w compare = usort compare (transactions A w)"

definition staged_mut where
  "staged_mut A f w = (if cs_is_empty (exa A) (w_stage w) then w else w\<lparr>w_stage := f (w_stage w)\<rparr>)"

definition list_locked_outpoints where
  "list_locked_outpoints w = w_locked w"

definition start_sync_with_revealed_spks_at where
  "start_sync_with_revealed_spks_at Q start_time w =
     rq_expected_spk_txids Q (rq_list_expected Q (w_view w) (w_index w))
       (rq_revealed_spks Q (w_index w) (rq_sync_tip Q (rq_tip Q (w_chain w)) (rq_sync_builder_at Q start_time)))"

definition start_sync_with_revealed_spks where
  "start_sync_with_revealed_spks Q now w =
     rq_expected_spk_txids Q (rq_list_expected Q (w_view w) (w_index w))
       (rq_revealed_spks Q (w_index w) (rq_sync_tip Q (rq_tip Q (w_chain w)) (rq_sync_builder_at Q now)))"

definition start_full_scan_at where
  "start_full_scan_at Q start_time w =
     rq_scan_spks Q (w_index w) (rq_scan_tip Q (rq_tip Q (w_chain w)) (rq_scan_builder_at Q start_time))"

definition start_full_scan where
  "start_full_scan Q now w =
     rq_scan_spks Q (w_index w) (rq_scan_tip Q (rq_tip Q (w_chain w)) (rq_scan_builder_at Q now))"

definition policies where
  "policies B E A w keychain =
     (let signers = (case keychain of External \<Rightarrow> w_signers w | Internal \<Rightarrow> w_change_signers w) in
      res_bind (public_descriptor A w keychain) (\<lambda>d.
      extract_descriptor_policy B E signers BsNone (da_form (dsa A) d)))"

text \<open>The policies a caller reads are those \<open>create_tx\<close> works with, when the script index keeps one
  descriptor per keychain.\<close>

lemma wallet_policies_read:
  assumes "wallet_policies B E A w = Ok (ep, Some ip)"
    and "\<And>k d. bt_get (wallet_keychains A w) k = Some d \<Longrightarrow> ia_descriptor (ixa A) (w_index w) k = Some d"
    and "length (keychains A w) \<noteq> 1"
  shows "policies B E A w External = Ok (Some ep)" and "policies B E A w Internal = Ok (Some ip)"
  using assms
  by (auto simp: wallet_policies_def policy_of_descriptor_def policies_def public_descriptor_def map_keychain_def
      Let_def res_simps split: option.splits)

text \<open>Sorting loses no transaction and adds none.\<close>

lemma transactions_sort_by_same:
  assumes "unstable_sort usort"
  shows "mset (transactions_sort_by usort A w le) = mset (transactions A w)"
    and "total_preorder le \<Longrightarrow> sorted_wrt le (transactions_sort_by usort A w le)"
  using unstable_sort.usort_mset [OF assms] unstable_sort.usort_sorted [OF assms]
  by (auto simp: transactions_sort_by_def)

end
