(* ===== verification/Mweb_Sync.thy ===== *)
theory Mweb_Sync
  imports Mweb
begin

section \<open>Synchronizing the MWEB coin store, and extraction (src/wallet/mweb.rs, tx_builder.rs)\<close>

text \<open>
  The four entry points that synchronize a coin store. The passes themselves are those of
  \<open>bdk_mweb\<close>, the record \<open>mweb_sync_api\<close>. A pass changes what it borrows mutably (the source or pool, the
  notifier, the sync state, the database) whether it succeeds or not, so a call returns its outcome
  beside what it has changed. The last definitions are the functions of src/wallet/tx_builder.rs that
  take a network transaction out of a PSBT with MWEB maps.
\<close>

record ('keys, 'book, 'secp) mweb_scan_context =
  sc_keys :: 'keys
  sc_book :: 'book
  sc_secp :: 'secp

record ('syncer, 'headers, 'notifier, 'state) mweb_sync_drivers =
  sd_syncer :: 'syncer
  sd_headers :: 'headers
  sd_notifier :: 'notifier
  sd_state :: 'state

text \<open>A checkpoint callback is a function of the sync state and the database that returns the changed
  database.\<close>

record ('src, 'keys, 'book, 'secp, 'db, 'verify, 'e, 'r, 'syncer, 'headers, 'notifier, 'state, 'pool, 'net) mweb_sync_api =
  sy_at_tip :: "'src \<Rightarrow> 'keys \<Rightarrow> 'book \<Rightarrow> 'db \<Rightarrow> 'secp \<Rightarrow> nat \<Rightarrow> u32 \<Rightarrow> 'verify \<Rightarrow> ('e, 'r) res \<times> 'src \<times> 'db"
  sy_run_once :: "'syncer \<Rightarrow> 'headers \<Rightarrow> 'notifier \<Rightarrow> 'src \<Rightarrow> 'state \<Rightarrow> 'keys \<Rightarrow> 'book \<Rightarrow> 'db \<Rightarrow> 'secp
      \<Rightarrow> ('state \<Rightarrow> 'db \<Rightarrow> 'db) option \<Rightarrow> ('e, 'r) res \<times> 'notifier \<times> 'src \<times> 'state \<times> 'db"
  sy_run_once_with_pool :: "'syncer \<Rightarrow> 'headers \<Rightarrow> 'notifier \<Rightarrow> 'pool \<Rightarrow> 'net \<Rightarrow> 'state \<Rightarrow> 'keys \<Rightarrow> 'book \<Rightarrow> 'db \<Rightarrow> 'secp
      \<Rightarrow> ('e, 'r) res \<times> 'notifier \<times> 'pool \<times> 'state \<times> 'db"

definition sync_at_tip where
  "sync_at_tip Y src ctx tip_hash height verify st =
     (case sy_at_tip Y src (sc_keys ctx) (sc_book ctx) (ms_db st) (sc_secp ctx) tip_hash height verify of
        (r, src, db) \<Rightarrow> (r, src, st\<lparr>ms_db := db\<rparr>))"

definition sync_differential_checkpointed where
  "sync_differential_checkpointed Y drivers src ctx checkpoint st =
     (case sy_run_once Y (sd_syncer drivers) (sd_headers drivers) (sd_notifier drivers) src (sd_state drivers)
         (sc_keys ctx) (sc_book ctx) (ms_db st) (sc_secp ctx) checkpoint of
        (r, notifier, src, state, db) \<Rightarrow>
          (r, drivers\<lparr>sd_notifier := notifier, sd_state := state\<rparr>, src, st\<lparr>ms_db := db\<rparr>))"

definition sync_differential where
  "sync_differential Y drivers src ctx st = sync_differential_checkpointed Y drivers src ctx None st"

definition sync_differential_pooled where
  "sync_differential_pooled Y drivers pool network ctx st =
     (case sy_run_once_with_pool Y (sd_syncer drivers) (sd_headers drivers) (sd_notifier drivers) pool network
         (sd_state drivers) (sc_keys ctx) (sc_book ctx) (ms_db st) (sc_secp ctx) of
        (r, notifier, pool, state, db) \<Rightarrow>
          (r, drivers\<lparr>sd_notifier := notifier, sd_state := state\<rparr>, pool, st\<lparr>ms_db := db\<rparr>))"

subsection \<open>Extraction\<close>

text \<open>\<open>'p\<close> is a PSBT with its MWEB maps; the signer of the maps gets the spent coins.\<close>

record ('p, 'spend, 'pegin, 'e) mweb_extract_api =
  me_psbt_from_finished :: "'spend \<Rightarrow> ('e, 'p) res"
  me_spent_coins :: "'spend \<Rightarrow> mweb_coin list"
  me_populate_pegin :: "'p \<Rightarrow> 'pegin \<Rightarrow> 'p"
  me_sign :: "'p \<Rightarrow> mweb_coin list \<Rightarrow> ('e, 'p) res"
  me_extract :: "'p \<Rightarrow> ('e, transaction) res"

definition extract_finished_mweb_tx where
  "extract_finished_mweb_tx X finished =
     res_bind (me_psbt_from_finished X finished) (\<lambda>p.
     res_bind (me_sign X p (me_spent_coins X finished)) (me_extract X))"

definition extract_prepared_mweb_pegin where
  "extract_prepared_mweb_pegin X p = me_extract X p"

definition extract_pegin_with_mweb_psbt where
  "extract_pegin_with_mweb_psbt X p pegin =
     res_bind (me_sign X (me_populate_pegin X p pegin) []) (me_extract X)"

end
