(* ===== verification/Spec2Isabelle.thy ===== *)
theory Spec2Isabelle
  imports Bnb_Facts Store_Facts Example_Sign Example_Events Example_Builder Example_Fee_Bump Example_Mweb
    Example_Descriptor Example_Export Example_Planned Requests Mweb_Sync
begin

text \<open>
  A verification library for the descriptor wallet crate \<open>bdk_wallet\<close> (Litecoin branch).

  \<^bold>\<open>The program.\<close> A wallet follows one or two descriptors on a chain, keeps what it has seen of its
  outputs and transactions, makes, signs and finalizes transactions that spend them, and hands every
  change of its state to a store. The parts, with the theories that model them, in the order in which
  they build on each other:

  \<^item> \<open>Prelude\<close>, \<open>Btree_Map\<close>, \<open>Bitcoin\<close>: outcomes of Rust functions (\<open>Ok\<close>, \<open>Err\<close>, and \<open>Panic\<close> for a failed
    \<open>unwrap\<close>, \<open>expect\<close>, assertion or overflow check), integers with their bounds, sorting, ordered maps;
    the data of the crates \<open>bitcoin\<close> and \<open>miniscript\<close> that the source takes apart, and the record
    \<open>btc\<close> of what it calls there.
  \<^item> \<open>Types\<close>, \<open>Utils\<close>, \<open>Psbt\<close>: src/types.rs, src/wallet/utils.rs, src/psbt/mod.rs.
  \<^item> \<open>Coin_Selection\<close>, \<open>Selectors\<close>, \<open>Bnb\<close>, \<open>Bnb_Facts\<close>: src/wallet/coin_selection.rs. The interface of a
    selection algorithm is the locale \<open>coin_selector\<close>; largest first, oldest first, single random draw
    and branch and bound are its instances. Branch and bound is the loop of the source with a counter
    of its tries; \<open>BNB_TOTAL_TRIES\<close> is the source's bound, and 2^(n+1) iterations are enough for n
    optional outputs, so for at most 15 of them the bound is not reached.
  \<^item> \<open>Signers\<close>: src/wallet/signer.rs, identifiers, the ordered container, software signers.
  \<^item> \<open>Policy\<close>, \<open>Policy_Facts\<close>: src/descriptor/policy.rs, spending policies, satisfactions, conditions of
    paths, and their extraction from miniscripts and descriptors.
  \<^item> \<open>Keys\<close>, \<open>Dsl\<close>, \<open>Templates\<close>, \<open>Descriptor_Facts\<close>: src/keys/mod.rs, src/keys/bip39.rs, the macros of
    src/descriptor/dsl.rs as functions of their syntax, the templates of src/descriptor/template.rs, the
    checksum, and \<open>IntoWalletDescriptor\<close> of src/descriptor/mod.rs.
  \<^item> \<open>Change_Set\<close>: src/wallet/changeset.rs and locked_outpoints.rs, merging change sets (the locale
    \<open>mergeable\<close>), and the SQLite store: the statements of this crate in order, each with its effect on
    the tables, and what was written before one of them fails.
  \<^item> \<open>Wallet_State\<close>: the struct \<open>Wallet\<close> of src/wallet/mod.rs and the operations on one part of it:
    addresses, outputs, transactions, balance, signers, staging, locks, updates from the chain.
  \<^item> \<open>Tx_Builder\<close>, \<open>Builder_Runs\<close>: src/wallet/tx_builder.rs; the calls on a builder as a step relation.
  \<^item> \<open>Create_Tx\<close>, \<open>Create_Tx_Facts\<close>, \<open>Fee_Rates\<close>, \<open>Fee_Bump\<close>: \<open>create_tx\<close> as the composition of its
    stages (policy, version, lock time, sequence numbers, fee, recipients, candidates, selection,
    change, the PSBT), and \<open>build_fee_bump\<close>.
  \<^item> \<open>Psbt_Params\<close>, \<open>Psbt_Params_Facts\<close>, \<open>Planned_Tx\<close>, \<open>Planned_Facts\<close>: src/psbt/params.rs and the second way
    to create and replace transactions in src/wallet/mod.rs, over the planner and selector of \<open>bdk_tx\<close>.
  \<^item> \<open>Requests\<close>: the operations of src/wallet/mod.rs that only read the wallet, and the requests that
    start a synchronization or a scan.
  \<^item> \<open>Sign_Wallet\<close>, \<open>Sign_Facts\<close>: signing with the wallet's signers and finalizing, with the search for
    the descriptor of an input.
  \<^item> \<open>Events\<close>: src/wallet/event.rs and the operations that return events.
  \<^item> \<open>Persisted\<close>, \<open>Store_Runs\<close>, \<open>Store_Facts\<close>: src/wallet/params.rs, creating and loading a wallet,
    src/wallet/persisted.rs; runs of a wallet over a store, with writes that may fail, as a step
    relation. A store that tells what was written is a \<open>recording_store\<close>, one that also keeps what it
    has when a write fails a \<open>durable_store\<close>: the persister of an open SQLite transaction is the first,
    those of a SQLite connection (which rolls back) and of a file store are the second. A store need
    not read as the merge of what was written: the rows of removed blocks and of unlocked outpoints are
    deleted. What is assumed of the tables of \<open>bdk_chain\<close> (\<open>db_lawful\<close>) is that they can be read back, and
    of the blocks that the table has a row for each height with a block, as the local chain's \<open>Merge\<close>
    and \<open>from_changeset\<close> have it (the locale \<open>block_table\<close>).
  \<^item> \<open>Mweb\<close>, \<open>Mweb_Facts\<close>, \<open>Mweb_Sync\<close>: src/wallet/mweb.rs.
  \<^item> \<open>Export\<close>, \<open>Export_Facts\<close>: src/wallet/export.rs, src/wallet/migration.rs, and the descriptor checksum
    of a wallet.
  \<^item> \<open>Example_Wallet\<close> and the other theories named \<open>Example\<close>: one concrete wallet, key library and text
    library, on which the properties with hypotheses are applied.

  \<^bold>\<open>How the code is read.\<close> A struct is a record and an enum a datatype; a method that changes its
  receiver returns it changed. Amounts are natural numbers whose bound each operation of the code tests
  (\<open>u64_add\<close>, \<open>checked_sub\<close>); heights, indexes and sequence numbers are words. A \<open>BTreeMap\<close> is the
  sorted list of its entries, a \<open>KeyMap\<close> the list of its entries with distinct keys. What belongs to
  other crates (the transaction graph, the local chain, the script index, miniscript's parser,
  printer, type checks and plans, secp256k1, BIP32 and BIP39, the SQLite connection, the MWEB
  cryptography) is an argument: a record of functions named after the functions the source calls.
  Where a property needs something of them it is a named hypothesis that states their documented
  behaviour. What a failing call has already changed in its PSBT is not represented.

  \<^bold>\<open>What is shown.\<close>
  \<^item> Created transactions: they pay the recipients, balance, pay the fee rate asked for, spend only what
    may be spent and everything chosen by hand, never twice, and meet the lock times of the policy; a
    fee bump replaces what it bumps and pays a higher rate.
  \<^item> Planned transactions: what one spends; which transactions a replacement names, that it conflicts
    with each of them and builds on nothing it evicts.
  \<^item> Coin selection: every algorithm meets its contract; branch and bound terminates, and is optimal for
    at most 15 optional outputs; the cases in which the default selection fails.
  \<^item> Policies: thresholds, conditions of paths, folded conditions.
  \<^item> Descriptors: the macros collect the keys written; wallet descriptors are on one network; public and
    private templates agree; checksums; exports and imports.
  \<^item> Signing: signatures are only added; a transaction reported as final is final; finalization keeps
    the spent outputs and the unknown fields of an input and sets the satisfaction of its own
    descriptor; unsafe requests are refused.
  \<^item> State: change sets merge lawfully; persisting loses nothing, also when a write fails, over a connection
    or in an open transaction; a reloaded wallet is the persisted one; in every run store and stage together tell the wallet; the events of
    an operation are exactly the differences it made.
  \<^item> MWEB: the selection of coins and the peg-in.

  \<^bold>\<open>Not modelled.\<close> The asynchronous variants, whose bodies are those of the synchronous ones; the entry
  points that pass the random number generator of the thread; the debug assertion of
  \<open>wallet_events\<close>; the JSON encodings; the texts of errors; test helpers; the example programs. The
  planned transactions are code under the feature \<open>bdk-tx\<close>, which the build file declares unsupported in
  this branch; they are modelled as written, with the one function they call that the sources do not
  define (\<open>list_indexed_txouts\<close>) as a parameter.
\<close>

end
